(* ===== verification/Rdw_Prelude.thy ===== *)
theory Rdw_Prelude
  imports Main "HOL-Library.AList" "HOL-Library.Multiset"
begin

text \<open>
  What every component of the development shares: the error values of the Go code, its maps, the
  collections of simplification facts, and the three interfaces (locales) through which the
  components rely on one another: a keyed store that may refuse an entry, its extension by a
  removal that may fail, and a bounded log of lines.
\<close>

named_theorems gm_simps \<open>reading a Go map after a write\<close>
named_theorems inv_intros \<open>preservation of a component's invariant by one operation\<close>

section \<open>Errors\<close>

text \<open>
  An error is the format string and the arguments of the \<open>fmt.Errorf\<close> (or \<open>apiError\<close>) call that made
  it; \<open>Wrapf\<close> is the same with one error wrapped by \<open>%w\<close>. \<open>Extern\<close> is an error that comes out of
  code that is not modelled (the operating system, a decoder).
\<close>

datatype go_arg = AStr string | AInt int

datatype go_err =
    Errorf string "go_arg list"
  | Wrapf string "go_arg list" go_err
  | Extern string

type_synonym 'a result = "go_err + 'a"

fun is_ok :: "'a result \<Rightarrow> bool" where
  "is_ok (Inl _) = False"
| "is_ok (Inr _) = True"

lemma is_ok_iff: "is_ok r \<longleftrightarrow> (\<exists>x. r = Inr x)"
  by (cases r) auto

text \<open>Sequencing of fallible calls: the first error is returned, as after \<open>if err != nil\<close>.\<close>

definition bindr :: "'a result \<Rightarrow> ('a \<Rightarrow> 'b result) \<Rightarrow> 'b result" where
  "bindr r f = (case r of Inl e \<Rightarrow> Inl e | Inr x \<Rightarrow> f x)"

lemma bindr_simps [simp]: "bindr (Inl e) f = Inl e" "bindr (Inr x) f = f x"
  by (simp_all add: bindr_def)

lemma bindr_Inr: "bindr r f = Inr y \<longleftrightarrow> (\<exists>x. r = Inr x \<and> f x = Inr y)"
  by (cases r) auto

fun mapr :: "('a \<Rightarrow> 'b result) \<Rightarrow> 'a list \<Rightarrow> 'b list result" where
  "mapr f [] = Inr []"
| "mapr f (x # xs) = bindr (f x) (\<lambda>y. bindr (mapr f xs) (\<lambda>ys. Inr (y # ys)))"

lemma mapr_map: "(\<And>x. x \<in> set xs \<Longrightarrow> f (g x) = Inr (h x)) \<Longrightarrow> mapr f (map g xs) = Inr (map h xs)"
  by (induction xs) auto

text \<open>
  Reading a slice at an index: \<open>None\<close> is the run-time panic of an index out of range. The functions
  that can panic return an option for this reason, and only for it.
\<close>

definition go_at :: "'a list \<Rightarrow> int \<Rightarrow> 'a option" where
  "go_at xs i = (if 0 \<le> i \<and> i < int (length xs) then Some (xs ! nat i) else None)"

text \<open>The index of the first element with a property.\<close>

fun index_where :: "('a \<Rightarrow> bool) \<Rightarrow> 'a list \<Rightarrow> nat option" where
  "index_where P [] = None"
| "index_where P (x # xs) = (if P x then Some 0 else map_option Suc (index_where P xs))"

lemma index_where_None: "index_where P xs = None \<longleftrightarrow> (\<forall>x \<in> set xs. \<not> P x)"
  by (induction xs) auto

lemma index_where_Some:
  "index_where P xs = Some i \<longleftrightarrow> i < length xs \<and> P (xs ! i) \<and> (\<forall>j < i. \<not> P (xs ! j))"
proof (induction xs arbitrary: i)
  case Nil
  then show ?case by simp
next
  case (Cons x xs)
  show ?case
    by (cases i) (auto simp: Cons.IH less_Suc_eq_0_disj)
qed

lemma index_where_bound: "index_where P xs = Some i \<Longrightarrow> i < length xs"
  by (simp add: index_where_Some)

section \<open>Go maps\<close>

text \<open>
  A Go map is an association list without two entries for one key. The order of the list stands for
  the order in which one \<open>range\<close> over the map happens to visit it, which Go leaves open: a property of
  code that ranges over a map is stated for every permutation of the entries.
\<close>

type_synonym ('k, 'v) gomap = "('k \<times> 'v) list"

definition gm_ok :: "('k, 'v) gomap \<Rightarrow> bool" where
  "gm_ok m \<longleftrightarrow> distinct (map fst m)"

definition gm_get :: "('k, 'v) gomap \<Rightarrow> 'k \<Rightarrow> 'v option" where
  "gm_get m k = map_of m k"

definition gm_put :: "'k \<Rightarrow> 'v \<Rightarrow> ('k, 'v) gomap \<Rightarrow> ('k, 'v) gomap" where
  "gm_put k v m = AList.update k v m"

definition gm_del :: "'k \<Rightarrow> ('k, 'v) gomap \<Rightarrow> ('k, 'v) gomap" where
  "gm_del k m = AList.delete k m"

definition gm_keys :: "('k, 'v) gomap \<Rightarrow> 'k list" where
  "gm_keys m = map fst m"

lemma gm_ok_empty [simp, intro]: "gm_ok []"
  by (simp add: gm_ok_def)

lemma gm_ok_put [simp, intro, inv_intros]: "gm_ok m \<Longrightarrow> gm_ok (gm_put k v m)"
  by (simp add: gm_ok_def gm_put_def distinct_update)

lemma gm_ok_del [simp, intro, inv_intros]: "gm_ok m \<Longrightarrow> gm_ok (gm_del k m)"
  by (simp add: gm_ok_def gm_del_def distinct_delete)

lemma gm_get_empty [simp, gm_simps]: "gm_get [] k = None"
  by (simp add: gm_get_def)

lemma gm_get_put [gm_simps]: "gm_get (gm_put k v m) = (gm_get m)(k \<mapsto> v)"
  by (simp add: gm_get_def gm_put_def update_conv' fun_eq_iff)

lemma gm_get_del [gm_simps]: "gm_get (gm_del k m) = (gm_get m)(k := None)"
  by (simp add: gm_get_def gm_del_def delete_conv' fun_eq_iff)

lemma gm_get_Some_in: "gm_get m k = Some v \<Longrightarrow> (k, v) \<in> set m"
  by (simp add: gm_get_def map_of_SomeD)

lemma gm_get_iff: "gm_ok m \<Longrightarrow> gm_get m k = Some v \<longleftrightarrow> (k, v) \<in> set m"
  by (simp add: gm_get_def gm_ok_def map_of_eq_Some_iff)

lemma gm_get_None_iff: "gm_get m k = None \<longleftrightarrow> k \<notin> set (gm_keys m)"
  by (simp add: gm_get_def gm_keys_def map_of_eq_None_iff)

lemma gm_dom: "dom (gm_get m) = set (gm_keys m)"
proof -
  have "k \<in> dom (gm_get m) \<longleftrightarrow> k \<in> set (gm_keys m)" for k
    by (metis domIff gm_get_None_iff)
  then show ?thesis by blast
qed

lemma gm_finite_dom [simp, intro]: "finite (dom (gm_get m))"
  by (simp add: gm_dom)

lemma gm_length: "gm_ok m \<Longrightarrow> length m = card (dom (gm_get m))"
  using distinct_card [of "map fst m"] by (simp add: gm_dom gm_keys_def gm_ok_def)

text \<open>What a lookup returns does not depend on the order in which the entries are listed.\<close>

lemma gm_perm:
  assumes "gm_ok m" and "mset m' = mset m"
  shows "gm_ok m'" and "gm_get m' = gm_get m"
proof -
  from assms(2) have "mset (map fst m') = mset (map fst m)" by (metis mset_map)
  with assms(1) show ok: "gm_ok m'"
    unfolding gm_ok_def by (metis mset_eq_imp_distinct_iff)
  have "set m' = set m" using assms(2) by (rule mset_eq_setD)
  then show "gm_get m' = gm_get m"
    using assms(1) ok by (intro ext) (metis gm_get_iff not_Some_eq)
qed

lemma gm_put_same_keys: "k \<in> set (gm_keys m) \<Longrightarrow> set (gm_keys (gm_put k v m)) = set (gm_keys m)"
  by (metis gm_dom gm_get_put dom_fun_upd insert_absorb option.distinct(1))

text \<open>A property of every entry survives a write of an entry with the property, and a deletion.\<close>

lemma gm_all_put: "list_all P m \<Longrightarrow> P (k, v) \<Longrightarrow> list_all P (gm_put k v m)"
  by (induction m) (auto simp: gm_put_def)

lemma gm_all_del: "list_all P m \<Longrightarrow> list_all P (gm_del k m)"
  by (induction m) (auto simp: gm_del_def)

text \<open>The total of a measure over the values of a map.\<close>

definition gm_sum :: "('v \<Rightarrow> int) \<Rightarrow> ('k, 'v) gomap \<Rightarrow> int" where
  "gm_sum f m = sum_list (map (f \<circ> snd) m)"

definition opt_size :: "('v \<Rightarrow> int) \<Rightarrow> 'v option \<Rightarrow> int" where
  "opt_size f x = (case x of None \<Rightarrow> 0 | Some v \<Rightarrow> f v)"

lemma opt_size_simps [simp]: "opt_size f None = 0" "opt_size f (Some v) = f v"
  by (simp_all add: opt_size_def)

lemma gm_sum_Nil [simp]: "gm_sum f [] = 0"
  by (simp add: gm_sum_def)

lemma gm_sum_put:
  "gm_ok m \<Longrightarrow> gm_sum f (gm_put k v m) = gm_sum f m + f v - opt_size f (gm_get m k)"
  by (induction m) (auto simp: gm_ok_def gm_put_def gm_get_def gm_sum_def)

lemma gm_del_absent: "k \<notin> fst ` set m \<Longrightarrow> AList.delete k m = m"
  by (induction m) auto

lemma gm_sum_del:
  "gm_ok m \<Longrightarrow> gm_sum f (gm_del k m) = gm_sum f m - opt_size f (gm_get m k)"
  by (induction m) (auto simp: gm_ok_def gm_del_def gm_get_def gm_sum_def gm_del_absent)

lemma gm_sum_nonneg: "(\<And>v. 0 \<le> f v) \<Longrightarrow> 0 \<le> gm_sum f m"
  unfolding gm_sum_def by (rule sum_list_nonneg) auto

section \<open>Checked stores\<close>

text \<open>
  The contract between a registry and its clients: an entry is added when the store accepts it and
  then found under its key with every other key unchanged; a refused entry is an error. This is what
  the pipeline and the database loader rely on in the key-value store, and what the request handlers
  rely on in the bookmark, highlight and formatter registries.
\<close>

locale checked_store =
  fixes get :: "'s \<Rightarrow> 'k \<Rightarrow> 'v option"
    and add :: "'k \<Rightarrow> 'v \<Rightarrow> 's \<Rightarrow> 's result"
    and ok :: "'s \<Rightarrow> bool"
    and accepts :: "'s \<Rightarrow> 'k \<Rightarrow> 'v \<Rightarrow> bool"
  assumes accepts_iff: "ok s \<Longrightarrow> is_ok (add k v s) \<longleftrightarrow> accepts s k v"
    and add_get: "ok s \<Longrightarrow> add k v s = Inr s' \<Longrightarrow> get s' = (get s)(k \<mapsto> v)"
    and add_ok: "ok s \<Longrightarrow> add k v s = Inr s' \<Longrightarrow> ok s'"

text \<open>
  The loop of a client that adds entries and skips the refused ones.
\<close>

fun add_each :: "('k \<Rightarrow> 'v \<Rightarrow> 's \<Rightarrow> 's result) \<Rightarrow> ('k \<times> 'v) list \<Rightarrow> 's \<Rightarrow> 's" where
  "add_each add [] s = s"
| "add_each add ((k, v) # kvs) s =
     add_each add kvs (case add k v s of Inl _ \<Rightarrow> s | Inr s' \<Rightarrow> s')"

context checked_store
begin

lemma add_same: "ok s \<Longrightarrow> add k v s = Inr s' \<Longrightarrow> get s' k = Some v"
  by (simp add: add_get)

lemma add_other: "ok s \<Longrightarrow> add k v s = Inr s' \<Longrightarrow> k' \<noteq> k \<Longrightarrow> get s' k' = get s k'"
  by (simp add: add_get)

lemma add_each_ok: "ok s \<Longrightarrow> ok (add_each add kvs s)"
  by (induction kvs arbitrary: s) (auto split: sum.splits, metis add_ok)

text \<open>Skipping refused entries never loses a key and never invents one.\<close>

lemma add_each_dom:
  "ok s \<Longrightarrow> dom (get s) \<subseteq> dom (get (add_each add kvs s))
     \<and> dom (get (add_each add kvs s)) \<subseteq> dom (get s) \<union> fst ` set kvs"
proof (induction kvs arbitrary: s)
  case Nil
  then show ?case by simp
next
  case (Cons kv kvs)
  obtain k v where kv: "kv = (k, v)" by (cases kv)
  show ?case
  proof (cases "add k v s")
    case (Inl x)
    with Cons.IH [OF Cons.prems] kv show ?thesis by auto
  next
    case (Inr t)
    with Cons.prems have "ok t" "get t = (get s)(k \<mapsto> v)" by (auto dest: add_ok add_get)
    from Cons.IH [OF this(1)] this(2) Inr kv show ?thesis
      by (simp add: subset_iff domIff) (metis fun_upd_apply option.distinct(1))
  qed
qed

end

locale removable_store = checked_store get add ok accepts
  for get :: "'s \<Rightarrow> 'k \<Rightarrow> 'v option" and add ok accepts +
  fixes rm :: "'k \<Rightarrow> 's \<Rightarrow> 's result"
    and removable :: "'s \<Rightarrow> 'k \<Rightarrow> bool"
  assumes rm_iff: "ok s \<Longrightarrow> is_ok (rm k s) \<longleftrightarrow> removable s k"
    and rm_get: "ok s \<Longrightarrow> rm k s = Inr s' \<Longrightarrow> get s' = (get s)(k := None)"
    and rm_ok: "ok s \<Longrightarrow> rm k s = Inr s' \<Longrightarrow> ok s'"

context removable_store
begin

lemma add_then_rm:
  assumes "ok s" and "add k v s = Inr s'" and "rm k s' = Inr s''"
  shows "get s'' = (get s)(k := None)"
  using assms by (simp add: add_get rm_get [of s'] add_ok [of s])

lemma rm_gone: "ok s \<Longrightarrow> rm k s = Inr s' \<Longrightarrow> get s' k = None"
  by (simp add: rm_get)

lemma rm_then_add_other:
  assumes "ok s" and "rm k s = Inr s'" and "add k' v s' = Inr s''" and "j \<noteq> k" and "j \<noteq> k'"
  shows "get s'' j = get s j"
  using assms by (simp add: rm_get add_get [of s'] rm_ok [of s])

end

section \<open>Bounded line logs\<close>

definition keep_last :: "nat \<Rightarrow> 'a list \<Rightarrow> 'a list" where
  "keep_last n xs = drop (length xs - n) xs"

lemma keep_last_short [simp]: "length xs \<le> n \<Longrightarrow> keep_last n xs = xs"
  by (simp add: keep_last_def)

lemma length_keep_last [simp]: "length (keep_last n xs) = min n (length xs)"
  by (simp add: keep_last_def)

lemma keep_last_idem: "keep_last n (keep_last n xs @ ys) = keep_last n (xs @ ys)"
proof (cases "length xs \<le> n")
  case False
  then show ?thesis
    by (cases "n \<le> length ys") (auto simp: keep_last_def add.commute)
qed simp

lemma last_keep_last: "0 < n \<Longrightarrow> xs \<noteq> [] \<Longrightarrow> last (keep_last n xs) = last xs"
  by (cases xs) (auto simp: keep_last_def)

text \<open>
  The contract between the scrollback buffer and the pipeline, the exporter and the status handlers:
  appending keeps the most recent lines up to the capacity.
\<close>

locale line_log =
  fixes lines_of :: "'b \<Rightarrow> string list"
    and append_line :: "'b \<Rightarrow> string \<Rightarrow> 'b"
    and clear_log :: "'b \<Rightarrow> 'b"
    and capacity :: "'b \<Rightarrow> nat"
    and ok :: "'b \<Rightarrow> bool"
  assumes cap_pos: "ok b \<Longrightarrow> 0 < capacity b"
    and lines_bound: "ok b \<Longrightarrow> length (lines_of b) \<le> capacity b"
    and lines_append: "ok b \<Longrightarrow> lines_of (append_line b l) = keep_last (capacity b) (lines_of b @ [l])"
    and cap_append: "ok b \<Longrightarrow> capacity (append_line b l) = capacity b"
    and ok_append: "ok b \<Longrightarrow> ok (append_line b l)"
    and lines_clear: "ok b \<Longrightarrow> lines_of (clear_log b) = []"
    and cap_clear: "ok b \<Longrightarrow> capacity (clear_log b) = capacity b"
    and ok_clear: "ok b \<Longrightarrow> ok (clear_log b)"
begin

lemma append_all:
  "ok b \<Longrightarrow> ok (foldl append_line b ls) \<and> capacity (foldl append_line b ls) = capacity b
     \<and> lines_of (foldl append_line b ls) = keep_last (capacity b) (lines_of b @ ls)"
proof (induction ls arbitrary: b)
  case Nil
  then show ?case by (simp add: lines_bound)
next
  case (Cons l ls)
  from Cons.IH [of "append_line b l"] Cons.prems show ?case
    by (simp add: ok_append cap_append lines_append keep_last_idem)
qed

lemma append_all_fresh:
  "ok b \<Longrightarrow> lines_of b = [] \<Longrightarrow> lines_of (foldl append_line b ls) = keep_last (capacity b) ls"
  by (simp add: append_all)

lemma last_line: "ok b \<Longrightarrow> last (lines_of (append_line b l)) = l"
  by (simp add: lines_append last_keep_last cap_pos)

end

end
