(* ===== verification/Go_Strings.thy ===== *)
theory Go_Strings
  imports Rdw_Prelude
begin

text \<open>
  The part of Go's \<open>strings\<close>, \<open>strconv\<close> and \<open>bufio\<close> packages that the program uses. A Go string is a
  sequence of bytes, a HOL \<open>string\<close> a list of 8-bit characters. \<open>Index\<close> functions return \<open>None\<close> where Go
  returns -1.
\<close>

abbreviation LF :: char where "LF \<equiv> CHR 0x0A"
abbreviation CR :: char where "CR \<equiv> CHR 0x0D"
abbreviation TAB :: char where "TAB \<equiv> CHR 0x09"
abbreviation DQUOTE :: char where "DQUOTE \<equiv> CHR 0x22"

section \<open>Prefixes, suffixes, searching\<close>

definition HasPrefix :: "string \<Rightarrow> string \<Rightarrow> bool" where
  "HasPrefix s p \<longleftrightarrow> take (length p) s = p"

definition HasSuffix :: "string \<Rightarrow> string \<Rightarrow> bool" where
  "HasSuffix s p \<longleftrightarrow> length p \<le> length s \<and> drop (length s - length p) s = p"

definition TrimPrefix :: "string \<Rightarrow> string \<Rightarrow> string" where
  "TrimPrefix s p = (if HasPrefix s p then drop (length p) s else s)"

definition TrimSuffix :: "string \<Rightarrow> string \<Rightarrow> string" where
  "TrimSuffix s p = (if HasSuffix s p then take (length s - length p) s else s)"

fun go_Index :: "string \<Rightarrow> string \<Rightarrow> nat option" where
  "go_Index s sub =
     (if HasPrefix s sub then Some 0
      else case s of [] \<Rightarrow> None | _ # t \<Rightarrow> map_option Suc (go_Index t sub))"

declare go_Index.simps [simp del]

fun IndexByte :: "string \<Rightarrow> char \<Rightarrow> nat option" where
  "IndexByte [] c = None"
| "IndexByte (x # xs) c = (if x = c then Some 0 else map_option Suc (IndexByte xs c))"

lemma HasPrefix_iff: "HasPrefix s p \<longleftrightarrow> (\<exists>t. s = p @ t)"
  by (auto simp: HasPrefix_def) (metis append_take_drop_id)

lemma HasPrefix_append [simp]: "HasPrefix (p @ t) p"
  by (simp add: HasPrefix_def)

lemma HasPrefix_Nil [simp]: "HasPrefix s []"
  by (simp add: HasPrefix_def)

lemma HasPrefix_Cons [simp]: "HasPrefix (x # s) (y # p) \<longleftrightarrow> x = y \<and> HasPrefix s p"
  by (auto simp: HasPrefix_def)

lemma HasPrefix_Nil_Cons [simp]: "\<not> HasPrefix [] (y # p)"
  by (simp add: HasPrefix_def)

lemma IndexByte_None_iff: "IndexByte s c = None \<longleftrightarrow> c \<notin> set s"
  by (induction s) auto

lemma IndexByte_Some: "IndexByte s c = Some n \<Longrightarrow> n < length s \<and> s ! n = c \<and> c \<notin> set (take n s)"
  by (induction s arbitrary: n) (auto split: if_splits)

lemma IndexByte_append: "c \<notin> set k \<Longrightarrow> IndexByte (k @ c # v) c = Some (length k)"
  by (induction k) auto

lemma go_Index_bound: "go_Index s sub = Some n \<Longrightarrow> n + length sub \<le> length s"
proof (induction s arbitrary: n)
  case Nil
  then show ?case by (auto simp: go_Index.simps HasPrefix_iff split: if_splits)
next
  case (Cons x s)
  show ?case
  proof (cases "HasPrefix (x # s) sub")
    case True
    with Cons.prems have "n = 0" by (simp add: go_Index.simps)
    moreover from True have "length sub \<le> length (x # s)"
      unfolding HasPrefix_iff by (metis length_append le_add1)
    ultimately show ?thesis by simp
  next
    case False
    with Cons.prems Cons.IH show ?thesis by (auto simp: go_Index.simps [of "x # s"])
  qed
qed

lemma go_Index_one: "go_Index s [c] = IndexByte s c"
proof (induction s)
  case Nil
  then show ?case by (subst go_Index.simps) simp
next
  case (Cons x s)
  then show ?case by (subst go_Index.simps) auto
qed

section \<open>Splitting and joining\<close>

fun split_on :: "char \<Rightarrow> string \<Rightarrow> string list" where
  "split_on c [] = [[]]"
| "split_on c (x # xs) =
     (if x = c then [] # split_on c xs
      else (case split_on c xs of [] \<Rightarrow> [[x]] | y # ys \<Rightarrow> (x # y) # ys))"

fun join_with :: "string \<Rightarrow> string list \<Rightarrow> string" where
  "join_with sep [] = []"
| "join_with sep [x] = x"
| "join_with sep (x # y # ys) = x @ sep @ join_with sep (y # ys)"

lemma split_on_not_Nil [simp]: "split_on c s \<noteq> []"
  by (induction s) (auto split: list.splits)

lemma split_on_free: "x \<in> set (split_on c s) \<Longrightarrow> c \<notin> set x"
proof (induction s arbitrary: x)
  case Nil
  then show ?case by simp
next
  case (Cons a s)
  then show ?case by (cases "split_on c s") (auto split: if_splits)
qed

lemma split_on_append:
  "c \<notin> set k \<Longrightarrow> split_on c (k @ c # s) = k # split_on c s"
  by (induction k) auto

lemma split_on_single: "c \<notin> set k \<Longrightarrow> split_on c k = [k]"
  by (induction k) auto

lemma split_on_join:
  "(\<And>x. x \<in> set xs \<Longrightarrow> c \<notin> set x) \<Longrightarrow> xs \<noteq> [] \<Longrightarrow> split_on c (join_with [c] xs) = xs"
proof (induction xs rule: induct_list012)
  case (3 x y zs)
  then show ?case by (simp add: split_on_append)
qed (simp_all add: split_on_single)

lemma join_split_on: "join_with [c] (split_on c s) = s"
proof (induction s)
  case Nil
  then show ?case by simp
next
  case (Cons x s)
  obtain y ys where "split_on c s = y # ys" by (cases "split_on c s") auto
  with Cons show ?case by (cases ys) auto
qed

section \<open>White space\<close>

text \<open>
  \<open>unicode.IsSpace\<close> as the list of the UTF-8 encodings of the code points it accepts. Each encoding
  decodes to its code point at the start and at the end of a string, so trimming space runes is
  dropping these byte sequences.
\<close>

definition space_encodings :: "string list" where
  "space_encodings =
     [[CHR 0x09], [CHR 0x0A], [CHR 0x0B], [CHR 0x0C], [CHR 0x0D], [CHR 0x20],
      [CHR 0xC2, CHR 0x85], [CHR 0xC2, CHR 0xA0], [CHR 0xE1, CHR 0x9A, CHR 0x80]]
     @ map (\<lambda>n. [CHR 0xE2, CHR 0x80, char_of n]) [128..<139::nat]
     @ [[CHR 0xE2, CHR 0x80, CHR 0xA8], [CHR 0xE2, CHR 0x80, CHR 0xA9], [CHR 0xE2, CHR 0x80, CHR 0xAF],
        [CHR 0xE2, CHR 0x81, CHR 0x9F], [CHR 0xE3, CHR 0x80, CHR 0x80]]"

lemma HasPrefix_shrinks: "e \<noteq> [] \<Longrightarrow> HasPrefix s e \<Longrightarrow> length (drop (length e) s) < length s"
  by (cases s) (auto simp: HasPrefix_def)

function trim_left_of :: "string list \<Rightarrow> string \<Rightarrow> string" where
  "trim_left_of encs s =
     (case find (\<lambda>e. e \<noteq> [] \<and> HasPrefix s e) encs of
        None \<Rightarrow> s | Some e \<Rightarrow> trim_left_of encs (drop (length e) s))"
  by pat_completeness auto
termination
proof (relation "measure (\<lambda>(encs, s). length s)")
  fix encs s e
  assume "find (\<lambda>e. e \<noteq> [] \<and> HasPrefix s e) encs = Some e"
  then have "e \<noteq> []" "HasPrefix s e" by (auto simp: find_Some_iff)
  then show "((encs, drop (length e) s), encs, s) \<in> measure (\<lambda>(encs, s). length s)"
    using HasPrefix_shrinks [of e s] by simp
qed simp

declare trim_left_of.simps [simp del]

definition TrimLeftSpace :: "string \<Rightarrow> string" where
  "TrimLeftSpace s = trim_left_of space_encodings s"

definition TrimRightSpace :: "string \<Rightarrow> string" where
  "TrimRightSpace s = rev (trim_left_of (map rev space_encodings) (rev s))"

definition TrimSpace :: "string \<Rightarrow> string" where
  "TrimSpace s = TrimRightSpace (TrimLeftSpace s)"

definition is_graph :: "char \<Rightarrow> bool" where
  "is_graph c \<longleftrightarrow> 0x20 < (of_char c :: nat) \<and> (of_char c :: nat) < 0x7F"

lemma trim_left_stop:
  assumes "\<And>e. e \<in> set encs \<Longrightarrow> e \<noteq> [] \<Longrightarrow> hd e \<noteq> c"
  shows "trim_left_of encs (c # s) = c # s"
proof -
  have "find (\<lambda>e. e \<noteq> [] \<and> HasPrefix (c # s) e) encs = None"
    unfolding find_None_iff using assms by (auto simp: neq_Nil_conv) (metis list.sel(1))
  then show ?thesis by (simp add: trim_left_of.simps [of encs "c # s"])
qed

lemma trim_left_Nil [simp]: "trim_left_of encs [] = []"
  by (subst trim_left_of.simps) (auto split: option.splits simp: find_Some_iff neq_Nil_conv)

lemma space_hd_not_graph: "e \<in> set space_encodings \<Longrightarrow> \<not> is_graph (hd e)"
  by (auto simp: space_encodings_def is_graph_def)

lemma space_last_not_graph: "e \<in> set (map rev space_encodings) \<Longrightarrow> \<not> is_graph (hd e)"
  by (auto simp: space_encodings_def is_graph_def)

text \<open>A string that starts and ends with a visible ASCII character is not trimmed.\<close>

lemma TrimSpace_graph:
  assumes "s \<noteq> []" and "is_graph (hd s)" and "is_graph (last s)"
  shows "TrimSpace s = s"
proof -
  from assms(1) have hd: "s = hd s # tl s" and la: "rev s = last s # rev (butlast s)"
    by (simp_all add: rev_swap)
  have "trim_left_of space_encodings (hd s # tl s) = hd s # tl s"
    using assms(2) space_hd_not_graph by (intro trim_left_stop) metis
  with hd have "TrimLeftSpace s = s" by (simp add: TrimLeftSpace_def)
  moreover have "trim_left_of (map rev space_encodings) (last s # rev (butlast s)) = last s # rev (butlast s)"
    using assms(3) space_last_not_graph by (intro trim_left_stop) metis
  with la have "TrimRightSpace s = s" by (simp add: TrimRightSpace_def flip: la)
  ultimately show ?thesis by (simp add: TrimSpace_def)
qed

text \<open>Trimming never removes a visible ASCII character.\<close>

lemma trim_left_keeps:
  "(\<And>e. e \<in> set encs \<Longrightarrow> c \<notin> set e) \<Longrightarrow> c \<in> set s \<Longrightarrow> c \<in> set (trim_left_of encs s)"
proof (induction encs s rule: trim_left_of.induct)
  case (1 encs s)
  show ?case
  proof (cases "find (\<lambda>e. e \<noteq> [] \<and> HasPrefix s e) encs")
    case None
    then show ?thesis using "1.prems"(2) by (simp add: trim_left_of.simps [of encs s])
  next
    case (Some e)
    then have e: "e \<in> set encs" "HasPrefix s e" by (auto simp: find_Some_iff)
    then obtain t where "s = e @ t" by (auto simp: HasPrefix_iff)
    with "1.prems"(2) "1.prems"(1) [OF e(1)] have "c \<in> set (drop (length e) s)" by simp
    with "1.IH" [OF Some] "1.prems"(1) Some show ?thesis by (simp add: trim_left_of.simps [of encs s])
  qed
qed

lemma space_no_graph: "e \<in> set space_encodings \<Longrightarrow> c \<in> set e \<Longrightarrow> \<not> is_graph c"
  by (auto simp: space_encodings_def is_graph_def)

lemma TrimSpace_keeps: "is_graph c \<Longrightarrow> c \<in> set s \<Longrightarrow> c \<in> set (TrimSpace s)"
  unfolding TrimSpace_def TrimRightSpace_def TrimLeftSpace_def
  using space_no_graph by (auto intro!: trim_left_keeps)

lemma TrimSpace_Nil [simp]: "TrimSpace [] = []"
  by (simp add: TrimSpace_def TrimLeftSpace_def TrimRightSpace_def)

definition TrimLeft :: "string \<Rightarrow> string \<Rightarrow> string" where
  "TrimLeft s cutset = dropWhile (\<lambda>c. c \<in> set cutset) s"

definition TrimRight :: "string \<Rightarrow> string \<Rightarrow> string" where
  "TrimRight s cutset = rev (dropWhile (\<lambda>c. c \<in> set cutset) (rev s))"

section \<open>Bytes and numbers\<close>

text \<open>\<open>strings.ReplaceAll\<close> with a pattern of one byte.\<close>

definition ReplaceByte :: "char \<Rightarrow> string \<Rightarrow> string \<Rightarrow> string" where
  "ReplaceByte c new s = concat (map (\<lambda>x. if x = c then new else [x]) s)"

lemma ReplaceByte_Nil [simp]: "ReplaceByte c new [] = []"
  by (simp add: ReplaceByte_def)

lemma ReplaceByte_Cons [simp]:
  "ReplaceByte c new (x # s) = (if x = c then new else [x]) @ ReplaceByte c new s"
  by (simp add: ReplaceByte_def)

lemma ReplaceByte_append [simp]:
  "ReplaceByte c new (s @ t) = ReplaceByte c new s @ ReplaceByte c new t"
  by (simp add: ReplaceByte_def)

lemma ReplaceByte_id: "c \<notin> set s \<Longrightarrow> ReplaceByte c new s = s"
  by (induction s) auto

text \<open>The conversion \<open>string(b)\<close> of a byte: the UTF-8 encoding of the code point with that number.\<close>

definition string_of_byte :: "char \<Rightarrow> string" where
  "string_of_byte c =
     (let n = (of_char c :: nat) in
      if n < 128 then [c] else [char_of (192 + n div 64), char_of (128 + n mod 64)])"

lemma string_of_byte_ascii: "(of_char c :: nat) < 128 \<Longrightarrow> string_of_byte c = [c]"
  by (simp add: string_of_byte_def)

definition is_ascii :: "char \<Rightarrow> bool" where
  "is_ascii c \<longleftrightarrow> (of_char c :: nat) < 128"

definition ascii_lower :: "char \<Rightarrow> char" where
  "ascii_lower c =
     (let n = (of_char c :: nat) in if 65 \<le> n \<and> n \<le> 90 then char_of (n + 32) else c)"

text \<open>
  \<open>strings.ToLower\<close>: a string of ASCII bytes is lowered byte by byte; any other string goes through the
  Unicode tables, which are the parameter \<open>ulower\<close>.
\<close>

definition ToLower :: "(string \<Rightarrow> string) \<Rightarrow> string \<Rightarrow> string" where
  "ToLower ulower s = (if list_all is_ascii s then map ascii_lower s else ulower s)"

lemma of_char_ascii_lower:
  "(of_char (ascii_lower c) :: nat) =
     (if 65 \<le> (of_char c :: nat) \<and> (of_char c :: nat) \<le> 90 then of_char c + 32 else of_char c)"
  by (simp add: ascii_lower_def Let_def)

lemma ascii_lower_idem: "ascii_lower (ascii_lower c) = ascii_lower c"
proof (cases "65 \<le> (of_char c :: nat) \<and> (of_char c :: nat) \<le> 90")
  case True
  then have "(of_char (ascii_lower c) :: nat) = of_char c + 32" by (simp add: of_char_ascii_lower)
  with True show ?thesis by (simp add: ascii_lower_def [of "ascii_lower c"] Let_def)
qed (auto simp: ascii_lower_def Let_def)

lemma is_ascii_lower: "is_ascii c \<Longrightarrow> is_ascii (ascii_lower c)"
  by (simp add: is_ascii_def of_char_ascii_lower)

lemma ToLower_idem_ascii:
  "list_all is_ascii s \<Longrightarrow> ToLower ulower (ToLower ulower s) = ToLower ulower s"
  by (auto simp: ToLower_def is_ascii_lower ascii_lower_idem list_all_iff)

definition digit_char :: "nat \<Rightarrow> char" where
  "digit_char d = char_of (48 + d)"

text \<open>The decimal digits of a number, as \<open>%d\<close> and \<open>strconv.Itoa\<close> print it.\<close>

fun show_nat :: "nat \<Rightarrow> string" where
  "show_nat n = (if n < 10 then [digit_char n] else show_nat (n div 10) @ [digit_char (n mod 10)])"

declare show_nat.simps [simp del]

definition show_int :: "int \<Rightarrow> string" where
  "show_int i = (if i < 0 then CHR ''-'' # show_nat (nat (- i)) else show_nat (nat i))"

definition is_digit :: "char \<Rightarrow> bool" where
  "is_digit c \<longleftrightarrow> 48 \<le> (of_char c :: nat) \<and> (of_char c :: nat) \<le> 57"

lemma is_digit_digit_char: "d < 10 \<Longrightarrow> is_digit (digit_char d)"
  by (simp add: is_digit_def digit_char_def)

lemma of_char_digit_char: "d < 10 \<Longrightarrow> (of_char (digit_char d) :: nat) = 48 + d"
  by (simp add: digit_char_def)

lemma show_nat_digits: "list_all is_digit (show_nat n)"
proof (induction n rule: show_nat.induct)
  case (1 n)
  then show ?case by (subst show_nat.simps) (auto simp: is_digit_digit_char)
qed

lemma show_nat_not_Nil: "show_nat n \<noteq> []"
  by (subst show_nat.simps) simp

section \<open>Scanning lines\<close>

text \<open>
  \<open>bufio.Scanner\<close> with its default \<open>ScanLines\<close> and its default buffer: the lines in order, each without
  its line feed and without one carriage return before it, and whether scanning stopped with
  \<open>ErrTooLong\<close>. The buffer grows to \<open>MaxScanTokenSize\<close> bytes; a line that fills it without a line feed
  is the error, whatever the chunks the reader delivers.
\<close>

definition MaxScanTokenSize :: nat where
  "MaxScanTokenSize = 65536"

definition dropCR :: "string \<Rightarrow> string" where
  "dropCR l = (if l \<noteq> [] \<and> last l = CR then butlast l else l)"

function scan_lines :: "string \<Rightarrow> string list \<times> bool" where
  "scan_lines d =
     (if d = [] then ([], False)
      else let l = takeWhile (\<lambda>c. c \<noteq> LF) d in
        if MaxScanTokenSize \<le> length l then ([], True)
        else case scan_lines (drop (Suc (length l)) d) of (ls, e) \<Rightarrow> (dropCR l # ls, e))"
  by pat_completeness auto
termination
  by (relation "measure length") auto

declare scan_lines.simps [simp del]

lemma scan_lines_Nil [simp]: "scan_lines [] = ([], False)"
  by (simp add: scan_lines.simps)

lemma takeWhile_to_LF: "LF \<notin> set l \<Longrightarrow> takeWhile (\<lambda>c. c \<noteq> LF) (l @ LF # d) = l"
  by (induction l) auto

lemma scan_lines_step:
  assumes "LF \<notin> set l" and "length l < MaxScanTokenSize"
  shows "scan_lines (l @ LF # d) = (dropCR l # fst (scan_lines d), snd (scan_lines d))"
proof -
  note tw = takeWhile_to_LF [OF assms(1)]
  show ?thesis
    using assms(2) by (subst scan_lines.simps) (simp add: tw Let_def split: prod.split)
qed

lemma scan_lines_too_long:
  assumes "LF \<notin> set l" and "MaxScanTokenSize \<le> length l"
  shows "scan_lines (l @ LF # d) = ([], True)"
proof -
  note tw = takeWhile_to_LF [OF assms(1)]
  show ?thesis
    using assms(2) by (subst scan_lines.simps) (simp add: tw Let_def)
qed

text \<open>Text that is a sequence of short lines, each ended by a line feed, scans to those lines.\<close>

lemma scan_lines_lines:
  assumes "\<And>l. l \<in> set ls \<Longrightarrow> LF \<notin> set l \<and> length l < MaxScanTokenSize"
  shows "scan_lines (concat (map (\<lambda>l. l @ [LF]) ls)) = (map dropCR ls, False)"
  using assms
proof (induction ls)
  case Nil
  then show ?case by simp
next
  case (Cons l ls)
  then show ?case using scan_lines_step [of l "concat (map (\<lambda>l. l @ [LF]) ls)"] by simp
qed

lemma scan_lines_one:
  "LF \<notin> set l \<Longrightarrow> length l < MaxScanTokenSize \<Longrightarrow> scan_lines (l @ [LF]) = ([dropCR l], False)"
  using scan_lines_step [of l "[]"] by simp

lemma dropCR_id: "l = [] \<or> last l \<noteq> CR \<Longrightarrow> dropCR l = l"
  by (auto simp: dropCR_def)

lemma scan_lines_no_LF: "x \<in> set (fst (scan_lines d)) \<Longrightarrow> LF \<notin> set x"
proof (induction d arbitrary: x rule: scan_lines.induct)
  case (1 d)
  let ?l = "takeWhile (\<lambda>c. c \<noteq> LF) d"
  show ?case
  proof (cases "d = [] \<or> MaxScanTokenSize \<le> length ?l")
    case True
    with "1.prems"(1) show ?thesis
      by (simp add: Let_def scan_lines.simps [of d] split: if_splits)
  next
    case False
    have nl: "LF \<notin> set (dropCR ?l)"
      by (auto simp: dropCR_def dest!: in_set_butlastD set_takeWhileD)
    from False "1.prems" have "x = dropCR ?l \<or> x \<in> set (fst (scan_lines (drop (Suc (length ?l)) d)))"
      by (auto simp: Let_def scan_lines.simps [of d] split: prod.splits)
    with nl "1.IH" False show ?thesis by auto
  qed
qed

end
