(* ===== verification/Target_Id.thy ===== *)
theory Target_Id
  imports Go_Strings
begin

text \<open>
  \<open>internal/session/targetid.go\<close>: the validated identifier that maps a data stream to a pane. The
  regular expression is one character class followed by a repeated one, anchored at both ends.
\<close>

datatype target_id = TargetID string

definition TargetIDMaxLen :: nat where
  "TargetIDMaxLen = 64"

definition word_char :: "char \<Rightarrow> bool" where
  "word_char c \<longleftrightarrow>
     (let n = (of_char c :: nat) in
      97 \<le> n \<and> n \<le> 122 \<or> 65 \<le> n \<and> n \<le> 90 \<or> 48 \<le> n \<and> n \<le> 57 \<or> c = CHR ''_'')"

definition targetIDPattern :: "string \<Rightarrow> bool" where
  "targetIDPattern s =
     (case s of [] \<Rightarrow> False
      | c # cs \<Rightarrow> word_char c \<and> list_all (\<lambda>x. word_char x \<or> x = CHR '' '' \<or> x = CHR ''-'') cs)"

definition ParseTargetID :: "string \<Rightarrow> target_id result" where
  "ParseTargetID s =
     (if length s = 0 then Inl (Errorf ''target ID must not be empty'' [])
      else if TargetIDMaxLen < length s then
        Inl (Errorf ''target ID %q exceeds maximum length of %d characters'' [AStr s, AInt (int TargetIDMaxLen)])
      else if \<not> targetIDPattern s then
        Inl (Errorf ''target ID %q contains invalid characters: must match [a-zA-Z0-9_][a-zA-Z0-9_ -]*'' [AStr s])
      else Inr (TargetID s))"

primrec tid_String :: "target_id \<Rightarrow> string" where
  "tid_String (TargetID s) = s"

lemma ParseTargetID_Inr:
  "ParseTargetID s = Inr t \<longleftrightarrow>
     t = TargetID s \<and> s \<noteq> [] \<and> length s \<le> TargetIDMaxLen \<and> targetIDPattern s"
  by (auto simp: ParseTargetID_def)

lemma word_char_graph: "word_char c \<Longrightarrow> is_graph c \<and> c \<noteq> CHR ''/'' \<and> c \<noteq> CHR ''.'' \<and> c \<noteq> CHR ''-''"
  by (auto simp: word_char_def is_graph_def Let_def)

text \<open>
  An accepted identifier is a single safe path component: it has no slash, no dot and no control
  character, it does not start with a dash, and parsing its text again returns it.
\<close>

lemma ParseTargetID_chars:
  assumes "ParseTargetID s = Inr t" and "c \<in> set (tid_String t)"
  shows "c \<noteq> CHR ''/'' \<and> c \<noteq> CHR ''.'' \<and> 0x20 \<le> (of_char c :: nat) \<and> (of_char c :: nat) < 0x7F"
proof -
  from assms have "targetIDPattern s" "c \<in> set s" by (auto simp: ParseTargetID_Inr)
  then have "word_char c \<or> c = CHR '' '' \<or> c = CHR ''-''"
    by (cases s) (auto simp: targetIDPattern_def list_all_iff)
  then show ?thesis
    by (auto simp: is_graph_def dest!: word_char_graph)
qed

text \<open>
  Every identifier that \<open>ParseTargetID\<close> accepts is between 1 and 64 bytes long, starts with a
  letter, a digit or an underscore, contains no slash, no dot and no byte outside printable ASCII
  (so it is safe as the single path component the exporter and the socket path use it for), and is
  accepted again, unchanged, when its text is parsed again.
\<close>

theorem ParseTargetID_safe:
  assumes "ParseTargetID s = Inr t"
  shows "1 \<le> length (tid_String t) \<and> length (tid_String t) \<le> 64 \<and> word_char (hd (tid_String t))
     \<and> set (tid_String t) \<inter> {CHR ''/'', CHR ''.'', LF, CR, DQUOTE} = {}
     \<and> ParseTargetID (tid_String t) = Inr t"
proof -
  from assms have t: "t = TargetID s" and ne: "s \<noteq> []" "length s \<le> 64" "targetIDPattern s"
    by (auto simp: ParseTargetID_Inr TargetIDMaxLen_def)
  from ne have "word_char (hd s)" by (cases s) (auto simp: targetIDPattern_def)
  moreover have "set s \<inter> {CHR ''/'', CHR ''.'', LF, CR, DQUOTE} = {}"
    using ne(1,3) by (cases s) (auto simp: targetIDPattern_def list_all_iff word_char_def Let_def)
  moreover from ne(1) have "1 \<le> length s" by (cases s) auto
  ultimately show ?thesis using ne t assms by simp
qed

theorem ParseTargetID_safe_witness:
  "tid_String (TargetID ''build-log'') = ''build-log'' \<and> ParseTargetID ''build-log'' = Inr (TargetID ''build-log'')
     \<and> set ''build-log'' \<inter> {CHR ''/'', CHR ''.'', LF, CR, DQUOTE} = {}"
proof -
  have p: "ParseTargetID ''build-log'' = Inr (TargetID ''build-log'')" by code_simp
  from ParseTargetID_safe [OF p] p show ?thesis by simp
qed

end
