(* ===== verification/Kv_Store.thy ===== *)
theory Kv_Store
  imports Target_Id "HOL-Library.List_Lexorder" "HOL-Library.Char_ord"
begin

text \<open>
  \<open>internal/kvstore\<close>: the session's key-value store with its per-value and total size limits, its
  sorted key listing, and the loop that loads persisted rows.
\<close>

section \<open>Keys\<close>

datatype key = Key string

primrec key_String :: "key \<Rightarrow> string" where
  "key_String (Key s) = s"

lemma key_String_inject [simp]: "key_String a = key_String b \<longleftrightarrow> a = b"
  by (cases a; cases b) auto

text \<open>The comparison of \<open>sortKeys\<close>: Go orders strings bytewise, lexicographically.\<close>

definition key_less :: "key \<Rightarrow> key \<Rightarrow> bool" where
  "key_less a b \<longleftrightarrow> key_String a < key_String b"

instantiation key :: linorder
begin

definition less_eq_key :: "key \<Rightarrow> key \<Rightarrow> bool" where
  "less_eq_key a b \<longleftrightarrow> key_String a \<le> key_String b"

definition less_key :: "key \<Rightarrow> key \<Rightarrow> bool" where
  "less_key a b \<longleftrightarrow> key_less a b"

instance
proof
  fix x y z :: key
  show "x < y \<longleftrightarrow> x \<le> y \<and> \<not> y \<le> x"
    by (simp add: less_eq_key_def less_key_def key_less_def less_le_not_le)
  show "x \<le> x" by (simp add: less_eq_key_def)
  show "x \<le> y \<Longrightarrow> y \<le> z \<Longrightarrow> x \<le> z" by (simp add: less_eq_key_def)
  show "x \<le> y \<Longrightarrow> y \<le> x \<Longrightarrow> x = y" by (simp add: less_eq_key_def)
  show "x \<le> y \<or> y \<le> x" by (simp add: less_eq_key_def linear)
qed

end

text \<open>\<open>sort.Slice\<close> with that comparison, which decides the order of distinct keys.\<close>

definition sortKeys :: "key list \<Rightarrow> key list" where
  "sortKeys keys = sort keys"

definition KeyMaxLen :: nat where "KeyMaxLen = 64"
definition ValueMaxBytes :: nat where "ValueMaxBytes = 64 * 1024"
definition StoreMaxBytes :: nat where "StoreMaxBytes = 64 * 1024 * 1024"

definition keyPattern :: "string \<Rightarrow> bool" where
  "keyPattern s =
     (case s of [] \<Rightarrow> False
      | c # cs \<Rightarrow> word_char c \<and> list_all (\<lambda>x. word_char x \<or> x = CHR '' '' \<or> x = CHR '':'' \<or> x = CHR ''-'') cs)"

definition ParseKey :: "string \<Rightarrow> key result" where
  "ParseKey s =
     (if length s = 0 then Inl (Errorf ''key must not be empty'' [])
      else if KeyMaxLen < length s then
        Inl (Errorf ''key %q exceeds maximum length of %d characters'' [AStr s, AInt (int KeyMaxLen)])
      else if \<not> keyPattern s then
        Inl (Errorf ''key %q contains invalid characters: must match [a-zA-Z0-9_][a-zA-Z0-9_ :-]*'' [AStr s])
      else Inr (Key s))"

lemma ParseKey_Inr:
  "ParseKey s = Inr k \<longleftrightarrow> k = Key s \<and> s \<noteq> [] \<and> length s \<le> KeyMaxLen \<and> keyPattern s"
  by (auto simp: ParseKey_def)

text \<open>Every target identifier is a legal key; the converse fails for keys with a colon.\<close>

lemma target_id_is_key: "ParseTargetID s = Inr t \<Longrightarrow> ParseKey s = Inr (Key s)"
  by (cases s)
     (auto simp: ParseTargetID_Inr ParseKey_Inr TargetIDMaxLen_def KeyMaxLen_def targetIDPattern_def
        keyPattern_def list_all_iff)

section \<open>The store\<close>

record kv_store =
  kv_data :: "(key, string) gomap"
  kv_totalBytes :: int

definition kv_New :: kv_store where
  "kv_New = \<lparr>kv_data = [], kv_totalBytes = 0\<rparr>"

definition kv_Get :: "kv_store \<Rightarrow> key \<Rightarrow> string option" where
  "kv_Get s k = gm_get (kv_data s) k"

definition kv_Set :: "key \<Rightarrow> string \<Rightarrow> kv_store \<Rightarrow> kv_store result" where
  "kv_Set k value s =
     (if ValueMaxBytes < length value then
        Inl (Errorf ''value for key %q exceeds maximum size of %d bytes'' [AStr (key_String k), AInt (int ValueMaxBytes)])
      else
        let existing = (case gm_get (kv_data s) k of None \<Rightarrow> 0 | Some v \<Rightarrow> int (length v));
            delta = int (length value) - existing
        in if int StoreMaxBytes < kv_totalBytes s + delta then
             Inl (Errorf ''store size limit of %d bytes would be exceeded'' [AInt (int StoreMaxBytes)])
           else Inr (s\<lparr>kv_data := gm_put k value (kv_data s), kv_totalBytes := kv_totalBytes s + delta\<rparr>))"

definition kv_Delete :: "key \<Rightarrow> kv_store \<Rightarrow> kv_store" where
  "kv_Delete k s =
     (case gm_get (kv_data s) k of
        None \<Rightarrow> s
      | Some v \<Rightarrow> s\<lparr>kv_data := gm_del k (kv_data s), kv_totalBytes := kv_totalBytes s - int (length v)\<rparr>)"

definition kv_Keys :: "string \<Rightarrow> kv_store \<Rightarrow> key list" where
  "kv_Keys prefix s =
     sortKeys (filter (\<lambda>k. prefix = [] \<or> HasPrefix (key_String k) prefix) (gm_keys (kv_data s)))"

definition kv_Snapshot :: "kv_store \<Rightarrow> (key, string) gomap" where
  "kv_Snapshot s = kv_data s"

definition kv_TotalBytes :: "kv_store \<Rightarrow> int" where
  "kv_TotalBytes s = kv_totalBytes s"

definition kv_Len :: "kv_store \<Rightarrow> nat" where
  "kv_Len s = length (kv_data s)"

text \<open>
  \<open>DB.Load\<close>: the rows of the table, each one a key text and a value or a scan error; rows that do not
  scan, whose key is not valid or that the store refuses are skipped.
\<close>

fun kv_Load :: "(string \<times> string) option list \<Rightarrow> kv_store \<Rightarrow> kv_store" where
  "kv_Load [] s = s"
| "kv_Load (None # rows) s = kv_Load rows s"
| "kv_Load (Some (ks, vs) # rows) s =
     (case ParseKey ks of
        Inl _ \<Rightarrow> kv_Load rows s
      | Inr k \<Rightarrow> kv_Load rows (case kv_Set k vs s of Inl _ \<Rightarrow> s | Inr s' \<Rightarrow> s'))"

section \<open>Invariant\<close>

abbreviation str_size :: "string \<Rightarrow> int" where
  "str_size v \<equiv> int (length v)"

definition kv_inv :: "kv_store \<Rightarrow> bool" where
  "kv_inv s \<longleftrightarrow> gm_ok (kv_data s) \<and> kv_totalBytes s = gm_sum str_size (kv_data s)
     \<and> kv_totalBytes s \<le> int StoreMaxBytes
     \<and> list_all (\<lambda>(k, v). length v \<le> ValueMaxBytes) (kv_data s)"

definition kv_accepts :: "kv_store \<Rightarrow> key \<Rightarrow> string \<Rightarrow> bool" where
  "kv_accepts s k v \<longleftrightarrow> length v \<le> ValueMaxBytes
     \<and> kv_totalBytes s + str_size v - opt_size str_size (kv_Get s k) \<le> int StoreMaxBytes"

lemma existing_opt_size:
  "(case x of None \<Rightarrow> 0 | Some v \<Rightarrow> int (length v)) = opt_size str_size x"
  by (simp add: opt_size_def)

lemma kv_Set_alt:
  "kv_Set k v s =
     (if ValueMaxBytes < length v then
        Inl (Errorf ''value for key %q exceeds maximum size of %d bytes'' [AStr (key_String k), AInt (int ValueMaxBytes)])
      else if int StoreMaxBytes < kv_totalBytes s + str_size v - opt_size str_size (kv_Get s k) then
        Inl (Errorf ''store size limit of %d bytes would be exceeded'' [AInt (int StoreMaxBytes)])
      else Inr \<lparr>kv_data = gm_put k v (kv_data s),
                kv_totalBytes = kv_totalBytes s + str_size v - opt_size str_size (kv_Get s k)\<rparr>)"
  by (simp add: kv_Set_def Let_def existing_opt_size kv_Get_def algebra_simps)

lemma kv_inv_New [simp]: "kv_inv kv_New"
  by (simp add: kv_inv_def kv_New_def)

lemma kv_inv_Set [inv_intros]: "kv_inv s \<Longrightarrow> kv_Set k v s = Inr s' \<Longrightarrow> kv_inv s'"
  by (auto simp: kv_Set_alt kv_inv_def gm_sum_put kv_Get_def intro!: gm_all_put split: if_splits)

lemma opt_size_nonneg: "0 \<le> opt_size str_size x"
  by (cases x) auto

lemma kv_inv_Delete [inv_intros]: "kv_inv s \<Longrightarrow> kv_inv (kv_Delete k s)"
  by (auto simp: kv_Delete_def kv_inv_def gm_sum_del intro!: gm_all_del split: option.split)

lemma kv_Get_Delete: "kv_Get (kv_Delete k s) = (kv_Get s)(k := None)"
  by (auto simp: kv_Delete_def kv_Get_def gm_get_del fun_eq_iff split: option.split)

interpretation kvs: checked_store kv_Get kv_Set kv_inv kv_accepts
proof unfold_locales
  fix s :: kv_store and k v
  show "is_ok (kv_Set k v s) \<longleftrightarrow> kv_accepts s k v"
    by (auto simp: is_ok_iff kv_Set_alt kv_accepts_def)
next
  fix s s' :: kv_store and k v
  assume "kv_Set k v s = Inr s'"
  then show "kv_Get s' = (kv_Get s)(k \<mapsto> v)"
    by (auto simp: kv_Set_alt kv_Get_def gm_get_put split: if_splits)
qed (rule kv_inv_Set)

text \<open>The loading loop is the skipping loop of the interface over the rows with a valid key.\<close>

definition valid_rows :: "(string \<times> string) option list \<Rightarrow> (key \<times> string) list" where
  "valid_rows rows =
     List.map_filter (\<lambda>r. case r of None \<Rightarrow> None
        | Some (ks, vs) \<Rightarrow> (case ParseKey ks of Inl _ \<Rightarrow> None | Inr k \<Rightarrow> Some (k, vs))) rows"

lemma kv_Load_add_each: "kv_Load rows s = add_each kv_Set (valid_rows rows) s"
  by (induction rows s rule: kv_Load.induct)
     (auto simp: valid_rows_def map_filter_simps split: sum.split)

lemma kv_inv_Load [inv_intros]: "kv_inv s \<Longrightarrow> kv_inv (kv_Load rows s)"
  by (simp add: kv_Load_add_each kvs.add_each_ok)

section \<open>Properties\<close>

text \<open>A run of the store: the operations a client can perform, in any order.\<close>

datatype kv_op = KvSet key string | KvDelete key | KvLoad "(string \<times> string) option list"

fun kv_step :: "kv_store \<Rightarrow> kv_op \<Rightarrow> kv_store" where
  "kv_step s (KvSet k v) = (case kv_Set k v s of Inl _ \<Rightarrow> s | Inr s' \<Rightarrow> s')"
| "kv_step s (KvDelete k) = kv_Delete k s"
| "kv_step s (KvLoad rows) = kv_Load rows s"

lemma kv_inv_step: "kv_inv s \<Longrightarrow> kv_inv (kv_step s x)"
  by (cases x) (auto split: sum.split intro: inv_intros)

lemma kv_inv_run: "kv_inv s \<Longrightarrow> kv_inv (foldl kv_step s ops)"
  by (induction ops arbitrary: s) (simp_all add: kv_inv_step)

text \<open>
  In whatever order a client sets, deletes and loads entries of a new store, the byte counter is
  the exact sum of the stored values' lengths, it never passes 64 MiB, no value passes 64 KiB, and no
  key occurs twice.
\<close>

theorem kv_accounting:
  "let s = foldl kv_step kv_New ops in
     kv_TotalBytes s = sum_list (map (\<lambda>(k, v). int (length v)) (kv_Snapshot s))
     \<and> 0 \<le> kv_TotalBytes s \<and> kv_TotalBytes s \<le> 67108864
     \<and> list_all (\<lambda>(k, v). length v \<le> 65536) (kv_Snapshot s)
     \<and> distinct (map fst (kv_Snapshot s))"
proof -
  let ?s = "foldl kv_step kv_New ops"
  have inv: "kv_inv ?s" by (rule kv_inv_run) simp
  have "gm_sum str_size (kv_data ?s) = sum_list (map (\<lambda>(k, v). int (length v)) (kv_data ?s))"
    by (simp add: gm_sum_def comp_def case_prod_beta')
  moreover have "0 \<le> gm_sum str_size (kv_data ?s)" by (rule gm_sum_nonneg) simp
  ultimately show ?thesis
    using inv by (simp add: kv_inv_def kv_TotalBytes_def kv_Snapshot_def gm_ok_def Let_def
        ValueMaxBytes_def StoreMaxBytes_def)
qed

text \<open>
  \<open>Set\<close> succeeds exactly when the value is at most 64 KiB and the total with the old value taken
  out and the new one put in is at most 64 MiB (so replacing a value by a shorter one always
  succeeds); then the key reads back the value and every other key is unchanged.
\<close>

theorem kv_Set_spec:
  assumes "kv_inv s"
  shows "case kv_Set k v s of
      Inl e \<Rightarrow> 65536 < length v \<or>
        67108864 < kv_TotalBytes s + int (length v) - (case kv_Get s k of None \<Rightarrow> 0 | Some u \<Rightarrow> int (length u))
    | Inr s' \<Rightarrow> length v \<le> 65536 \<and>
        kv_TotalBytes s + int (length v) - (case kv_Get s k of None \<Rightarrow> 0 | Some u \<Rightarrow> int (length u)) \<le> 67108864
        \<and> kv_Get s' = (kv_Get s)(k \<mapsto> v)"
proof -
  have "is_ok (kv_Set k v s) \<longleftrightarrow> length v \<le> 65536 \<and>
      kv_TotalBytes s + int (length v) - (case kv_Get s k of None \<Rightarrow> 0 | Some u \<Rightarrow> int (length u)) \<le> 67108864"
    using kvs.accepts_iff [OF assms]
    by (simp add: kv_accepts_def kv_TotalBytes_def existing_opt_size ValueMaxBytes_def StoreMaxBytes_def)
  then show ?thesis
    using kvs.add_get [OF assms] by (cases "kv_Set k v s") auto
qed

theorem kv_Set_spec_witness:
  "kv_inv kv_New \<and> (case kv_Set (Key ''a'') ''xyz'' kv_New of
      Inl e \<Rightarrow> False | Inr s' \<Rightarrow> kv_Get s' = (kv_Get kv_New)(Key ''a'' \<mapsto> ''xyz''))"
  using kv_Set_spec [where k = "Key ''a''" and v = "''xyz''", OF kv_inv_New] kv_inv_New
  by (simp add: kv_TotalBytes_def kv_New_def kv_Get_def split: sum.splits)

text \<open>
  \<open>Keys\<close> returns the keys with the given prefix in strictly ascending byte order, each once, and
  the same list whatever order the map is ranged over in.
\<close>

theorem kv_Keys_sorted:
  assumes "kv_inv s" and "mset d = mset (kv_data s)"
  shows "sorted_wrt (<) (kv_Keys p s)
    \<and> set (kv_Keys p s) = {k. kv_Get s k \<noteq> None \<and> HasPrefix (key_String k) p}
    \<and> kv_Keys p (s\<lparr>kv_data := d\<rparr>) = kv_Keys p s"
proof (intro conjI)
  let ?f = "\<lambda>k. p = [] \<or> HasPrefix (key_String k) p"
  from assms(1) have "distinct (filter ?f (gm_keys (kv_data s)))"
    by (simp add: kv_inv_def gm_ok_def gm_keys_def)
  then show "sorted_wrt (<) (kv_Keys p s)"
    by (simp add: kv_Keys_def sortKeys_def strict_sorted_iff)
  show "set (kv_Keys p s) = {k. kv_Get s k \<noteq> None \<and> HasPrefix (key_String k) p}"
    by (auto simp: kv_Keys_def sortKeys_def kv_Get_def gm_get_None_iff)
  have "mset (map fst d) = mset (map fst (kv_data s))" using assms(2) by (metis mset_map)
  then have "mset (filter ?f (map fst d)) = mset (filter ?f (map fst (kv_data s)))" by simp
  then show "kv_Keys p (s\<lparr>kv_data := d\<rparr>) = kv_Keys p s"
    unfolding kv_Keys_def sortKeys_def gm_keys_def by (simp add: properties_for_sort)
qed

definition kv_example :: kv_store where
  "kv_example = \<lparr>kv_data = [(Key ''b'', ''1''), (Key ''a:x'', ''22''), (Key ''a:c'', [])], kv_totalBytes = 3\<rparr>"

lemma kv_inv_example: "kv_inv kv_example"
  by (simp add: kv_inv_def kv_example_def gm_ok_def gm_sum_def ValueMaxBytes_def StoreMaxBytes_def)

theorem kv_Keys_sorted_witness:
  "kv_Keys ''a:'' kv_example = [Key ''a:c'', Key ''a:x''] \<and> sorted_wrt (<) (kv_Keys ''a:'' kv_example)
   \<and> kv_Keys ''a:'' (kv_example\<lparr>kv_data := rev (kv_data kv_example)\<rparr>) = kv_Keys ''a:'' kv_example"
proof -
  have "kv_Keys ''a:'' kv_example = [Key ''a:c'', Key ''a:x'']" by code_simp
  with kv_Keys_sorted [OF kv_inv_example, of "rev (kv_data kv_example)" "''a:''"] show ?thesis by simp
qed

end
