(* ===== verification/Layout_Schema.thy ===== *)
theory Layout_Schema
  imports Go_Strings "HOL-Library.Word"
begin

text \<open>
  \<open>internal/layout/layout.go\<close>: the layout document, its validation, and the parser of size arguments.
  Go's \<open>int\<close> is 64 bits wide on the supported platforms; the digits are accumulated in a \<open>64 word\<close>,
  so the wrap-around of long digit strings is part of the model. The YAML decoder is a parameter.
\<close>

type_synonym go_int = "64 word"

definition CurrentSchemaVersion :: int where "CurrentSchemaVersion = 1"

datatype resize_unit = ResizeUnitColumns | ResizeUnitPixels | ResizeUnitPercent

section \<open>Size arguments\<close>

fun digits_loop :: "string \<Rightarrow> go_int \<Rightarrow> go_int result" where
  "digits_loop [] n = Inr n"
| "digits_loop (c # cs) n =
     (if \<not> is_digit c then Inl (Errorf ''non-digit character %q'' [AStr [c]])
      else digits_loop cs (n * 10 + of_nat (of_char c - 48)))"

definition parseWholeInt :: "string \<Rightarrow> go_int result" where
  "parseWholeInt s = (if s = [] then Inl (Errorf ''empty'' []) else digits_loop s 0)"

definition ParseResizeArg :: "string \<Rightarrow> (int \<times> resize_unit) result" where
  "ParseResizeArg s =
     (if s = [] then Inl (Errorf ''resize argument must not be empty'' [])
      else if 2 < length s \<and> drop (length s - 2) s = ''px'' then
        (case parseWholeInt (take (length s - 2) s) of
           Inl _ \<Rightarrow> Inl (Errorf ''invalid pixel value %q'' [AStr s])
         | Inr n \<Rightarrow> Inr (sint n, ResizeUnitPixels))
      else if last s = CHR ''%'' then
        (case parseWholeInt (take (length s - 1) s) of
           Inl _ \<Rightarrow> Inl (Errorf ''invalid percentage value %q'' [AStr s])
         | Inr n \<Rightarrow>
             if sint n < 1 \<or> 100 < sint n
             then Inl (Errorf ''percentage value %d out of range [1, 100]'' [AInt (sint n)])
             else Inr (sint n, ResizeUnitPercent))
      else
        (case parseWholeInt s of
           Inl _ \<Rightarrow> Inl (Errorf ''invalid column value %q'' [AStr s])
         | Inr n \<Rightarrow> Inr (sint n, ResizeUnitColumns)))"

section \<open>The document\<close>

record pane_spec =
  ps_TargetID :: string
  ps_Group :: string
  ps_Split :: string
  ps_Size :: string
  ps_Private :: bool
  ps_ScrollbackCap :: int

record window_spec =
  ws_Name :: string
  ws_Panes :: "pane_spec list"

record layout =
  l_SchemaVersion :: int
  l_Name :: string
  l_Windows :: "window_spec list"

definition validate_pane :: "nat \<Rightarrow> window_spec \<Rightarrow> nat \<Rightarrow> pane_spec \<Rightarrow> go_err option" where
  "validate_pane i w j p =
     (if ps_TargetID p = [] then
        Some (Errorf ''window[%d] %q pane[%d]: target_id must not be empty'' [AInt (int i), AStr (ws_Name w), AInt (int j)])
      else if ps_ScrollbackCap p < 0 then
        Some (Errorf ''window[%d] %q pane[%d]: scrollback_cap must not be negative'' [AInt (int i), AStr (ws_Name w), AInt (int j)])
      else
        let size_err = (if ps_Size p \<noteq> [] then
                          (case ParseResizeArg (ps_Size p) of
                             Inl e \<Rightarrow> Some (Wrapf ''window[%d] %q pane[%d]: invalid size %q: %w''
                                         [AInt (int i), AStr (ws_Name w), AInt (int j), AStr (ps_Size p)] e)
                           | Inr _ \<Rightarrow> None)
                        else None)
        in case size_err of
             Some e \<Rightarrow> Some e
           | None \<Rightarrow>
               if ps_Split p \<noteq> [] \<and> ps_Split p \<noteq> ''h'' \<and> ps_Split p \<noteq> ''v'' then
                 Some (Errorf ''window[%d] %q pane[%d]: split must be 'h' or 'v', got %q''
                         [AInt (int i), AStr (ws_Name w), AInt (int j), AStr (ps_Split p)])
               else None)"

fun first_error :: "(nat \<Rightarrow> 'a \<Rightarrow> go_err option) \<Rightarrow> nat \<Rightarrow> 'a list \<Rightarrow> go_err option" where
  "first_error f i [] = None"
| "first_error f i (x # xs) = (case f i x of Some e \<Rightarrow> Some e | None \<Rightarrow> first_error f (Suc i) xs)"

definition validate_window :: "nat \<Rightarrow> window_spec \<Rightarrow> go_err option" where
  "validate_window i w =
     (if ws_Name w = [] then Some (Errorf ''window[%d]: name must not be empty'' [AInt (int i)])
      else if ws_Panes w = [] then
        Some (Errorf ''window[%d] %q: must contain at least one pane'' [AInt (int i), AStr (ws_Name w)])
      else if 64 < length (ws_Panes w) then
        Some (Errorf ''window[%d] %q: pane count %d exceeds maximum of 64''
                [AInt (int i), AStr (ws_Name w), AInt (int (length (ws_Panes w)))])
      else first_error (validate_pane i w) 0 (ws_Panes w))"

definition Layout_Validate :: "layout \<Rightarrow> go_err option" where
  "Layout_Validate l =
     (if l_SchemaVersion l \<noteq> CurrentSchemaVersion then
        Some (Errorf ''unsupported layout schema version %d (current: %d)''
                [AInt (l_SchemaVersion l), AInt CurrentSchemaVersion])
      else if l_Windows l = [] then Some (Errorf ''layout must contain at least one window'' [])
      else first_error validate_window 0 (l_Windows l))"

text \<open>\<open>Parse\<close>; the YAML decoder is the argument \<open>unmarshal\<close>.\<close>

definition Layout_Parse :: "(string \<Rightarrow> layout result) \<Rightarrow> string \<Rightarrow> layout result" where
  "Layout_Parse unmarshal data =
     (case unmarshal data of
        Inl e \<Rightarrow> Inl (Wrapf ''parsing layout YAML: %w'' [] e)
      | Inr l \<Rightarrow> (case Layout_Validate l of Some e \<Rightarrow> Inl e | None \<Rightarrow> Inr l))"

section \<open>Lemmas\<close>

lemma first_error_None: "first_error f i xs = None \<longleftrightarrow> (\<forall>j < length xs. f (i + j) (xs ! j) = None)"
proof (induction xs arbitrary: i)
  case Nil
  then show ?case by simp
next
  case (Cons x xs)
  show ?case
    by (auto simp: Cons.IH nth_Cons less_Suc_eq_0_disj All_less_Suc2 split: option.split nat.split)
qed

text \<open>The number a digit string denotes, before any wrap-around.\<close>

definition digits_value :: "string \<Rightarrow> nat" where
  "digits_value s = foldl (\<lambda>n c. n * 10 + (of_char c - 48)) 0 s"

lemma digits_loop_spec:
  "digits_loop s (of_nat n) =
     (case filter (\<lambda>c. \<not> is_digit c) s of
        [] \<Rightarrow> Inr (of_nat (foldl (\<lambda>n c. n * 10 + (of_char c - 48)) n s))
      | c # _ \<Rightarrow> Inl (Errorf ''non-digit character %q'' [AStr [c]]))"
proof (induction s arbitrary: n)
  case Nil
  then show ?case by simp
next
  case (Cons c cs)
  have "(of_nat n * 10 + of_nat (of_char c - 48) :: go_int) = of_nat (n * 10 + (of_char c - 48))"
    by simp
  then show ?case using Cons.IH [of "n * 10 + (of_char c - 48)"]
    by (simp only: digits_loop.simps foldl_Cons filter.simps list.case if_True if_False split: if_split) auto
qed

lemma parseWholeInt_spec:
  "parseWholeInt s = Inr n \<longleftrightarrow> s \<noteq> [] \<and> list_all is_digit s \<and> n = of_nat (digits_value s)"
  using digits_loop_spec [of s 0]
  by (auto simp: parseWholeInt_def digits_value_def list_all_iff filter_empty_conv split: list.splits
      dest: filter_eq_ConsD)

text \<open>Below $2^{63}$ the signed reading of the accumulated word is the number written.\<close>

lemma sint_of_nat_small: "n < 2 ^ 63 \<Longrightarrow> sint (of_nat n :: go_int) = int n"
proof -
  assume "n < 2 ^ 63"
  then have "signed_take_bit 63 (int n) = int n"
    by (intro signed_take_bit_int_eq_self) auto
  then show ?thesis by (simp add: signed_of_nat)
qed

lemma sint_range: "- (2 ^ 63) \<le> sint (n :: go_int) \<and> sint n < 2 ^ 63"
  using sint_greater_eq [of n] sint_less [of n] by simp

lemma digits_value_snoc: "digits_value (s @ [c]) = digits_value s * 10 + (of_char c - 48)"
  by (simp add: digits_value_def)

lemma digit_char_value: "d < 10 \<Longrightarrow> of_char (digit_char d) - (48::nat) = d"
  by (simp add: digit_char_def)

lemma digits_value_show_nat: "digits_value (show_nat n) = n"
proof (induction n rule: show_nat.induct)
  case (1 n)
  then show ?case
    by (subst show_nat.simps) (auto simp: digits_value_snoc digit_char_value, simp add: digits_value_def digit_char_value)
qed

section \<open>Properties\<close>

text \<open>What a validated document satisfies, pane by pane.\<close>

definition pane_wf :: "pane_spec \<Rightarrow> bool" where
  "pane_wf p \<longleftrightarrow> ps_TargetID p \<noteq> [] \<and> 0 \<le> ps_ScrollbackCap p
     \<and> (ps_Size p = [] \<or> is_ok (ParseResizeArg (ps_Size p))) \<and> ps_Split p \<in> {[], ''h'', ''v''}"

definition window_wf :: "window_spec \<Rightarrow> bool" where
  "window_wf w \<longleftrightarrow> ws_Name w \<noteq> [] \<and> 1 \<le> length (ws_Panes w) \<and> length (ws_Panes w) \<le> 64
     \<and> list_all pane_wf (ws_Panes w)"

lemma validate_pane_None: "validate_pane i w j p = None \<longleftrightarrow> pane_wf p"
  by (auto simp: validate_pane_def pane_wf_def Let_def split: sum.splits if_splits option.splits)

lemma first_error_None_all:
  "(\<And>i x. f i x = None \<longleftrightarrow> P x) \<Longrightarrow> first_error f i xs = None \<longleftrightarrow> list_all P xs"
  by (simp add: first_error_None list_all_length)

lemma validate_window_None: "validate_window i w = None \<longleftrightarrow> window_wf w"
  using first_error_None_all [of "validate_pane i w" pane_wf 0 "ws_Panes w"]
  by (auto simp: validate_window_def window_wf_def validate_pane_None Suc_le_eq not_less)

lemma Layout_Validate_None:
  "Layout_Validate l = None \<longleftrightarrow> l_SchemaVersion l = 1 \<and> l_Windows l \<noteq> [] \<and> list_all window_wf (l_Windows l)"
  using first_error_None_all [of validate_window window_wf 0 "l_Windows l"]
  by (auto simp: Layout_Validate_def CurrentSchemaVersion_def validate_window_None)

text \<open>
  A layout document is accepted exactly when its schema version is 1, it has a window, and every
  window has a name and between 1 and 64 panes, each with a target, a scrollback cap that is not
  negative, a size that parses when given, and a split of h or v when given. (Nothing in it bounds
  the cap from above or restricts the characters of the target.)
\<close>

theorem Layout_Validate_iff:
  "Layout_Validate l = None \<longleftrightarrow> l_SchemaVersion l = 1 \<and> l_Windows l \<noteq> [] \<and> list_all window_wf (l_Windows l)"
  by (rule Layout_Validate_None)

lemma ParseResizeArg_digits:
  "ParseResizeArg s = Inr (v, u) \<longleftrightarrow>
     (\<exists>ds. ds \<noteq> [] \<and> list_all is_digit ds \<and> v = sint (of_nat (digits_value ds) :: go_int) \<and>
        (u = ResizeUnitPixels \<and> s = ds @ ''px'' \<or>
         u = ResizeUnitPercent \<and> s = ds @ ''%'' \<and> 1 \<le> v \<and> v \<le> 100 \<or>
         u = ResizeUnitColumns \<and> s = ds))"
proof (cases "2 < length s \<and> drop (length s - 2) s = ''px''")
  case True
  then obtain p where p: "s = p @ ''px''" "p \<noteq> []"
    using append_take_drop_id [of "length s - 2" s] by (cases "take (length s - 2) s") force+
  have "ParseResizeArg s = Inr (v, u) \<longleftrightarrow> (\<exists>n. parseWholeInt p = Inr n \<and> v = sint n \<and> u = ResizeUnitPixels)"
    by (auto simp: ParseResizeArg_def p split: sum.splits)
  then show ?thesis by (auto simp: p parseWholeInt_spec is_digit_def)
next
  case npx: False
  show ?thesis
  proof (cases "s \<noteq> [] \<and> last s = CHR ''%''")
    case True
    then obtain p where p: "s = p @ ''%''" by (metis append_butlast_last_id)
    have "ParseResizeArg s = Inr (v, u) \<longleftrightarrow>
        (\<exists>n. parseWholeInt p = Inr n \<and> v = sint n \<and> u = ResizeUnitPercent \<and> 1 \<le> v \<and> v \<le> 100)"
      using npx by (auto simp: ParseResizeArg_def p split: sum.splits if_splits)
    then show ?thesis by (auto simp: p parseWholeInt_spec is_digit_def append_eq_append_conv2)
  next
    case False
    have "ParseResizeArg s = Inr (v, u) \<longleftrightarrow> (\<exists>n. parseWholeInt s = Inr n \<and> v = sint n \<and> u = ResizeUnitColumns)"
      using npx False by (auto simp: ParseResizeArg_def parseWholeInt_def split: sum.splits if_splits)
    moreover have "ds = [] \<or> s \<noteq> ds @ ''px''" "s \<noteq> ds @ ''%''" for ds using npx False by (cases ds; auto)+
    ultimately show ?thesis by (auto simp: parseWholeInt_spec)
  qed
qed

lemma ParseResizeArg_show_px:
  "n < 2 ^ 63 \<Longrightarrow> ParseResizeArg (show_nat n @ ''px'') = Inr (int n, ResizeUnitPixels)"
  unfolding ParseResizeArg_digits
  by (intro exI [of _ "show_nat n"])
     (simp add: show_nat_not_Nil show_nat_digits digits_value_show_nat sint_of_nat_small)

text \<open>
  A size argument is accepted exactly when it is a non-empty string of decimal digits followed by
  nothing, \<open>px\<close> or \<open>%\<close> (no sign, no fraction, no space); its value is the number written, reduced to
  a signed 64-bit integer, and a percentage is between 1 and 100 after that reduction. Up to
  $2^{63}-1$ the reduction changes nothing, so printing a value and parsing it returns it.
\<close>

theorem ParseResizeArg_exact:
  "(ParseResizeArg s = Inr (v, u)) =
     (\<exists>ds. ds \<noteq> [] \<and> list_all is_digit ds \<and> v = (int (digits_value ds) + 2 ^ 63) mod 2 ^ 64 - 2 ^ 63 \<and>
        (u = ResizeUnitPixels \<and> s = ds @ ''px'' \<or>
         u = ResizeUnitPercent \<and> s = ds @ ''%'' \<and> 1 \<le> v \<and> v \<le> 100 \<or>
         u = ResizeUnitColumns \<and> s = ds))
   \<and> (if n < 2 ^ 63 then ParseResizeArg (show_nat n @ ''px'') = Inr (int n, ResizeUnitPixels) else True)"
proof -
  have "sint (of_nat m :: go_int) = (int m + 2 ^ 63) mod 2 ^ 64 - 2 ^ 63" for m
    by (simp add: signed_of_nat signed_take_bit_eq_take_bit_shift take_bit_eq_mod)
  then show ?thesis
    using ParseResizeArg_digits [of s v u] ParseResizeArg_show_px [of n] by simp
qed

text \<open>The reduction is reachable: a percentage of more than eighteen quintillion is read as 50.\<close>

lemma ParseResizeArg_overflow: "ParseResizeArg ''18446744073709551666%'' = Inr (50, ResizeUnitPercent)"
  by code_simp

end
