(* ===== verification/Go_Json.thy ===== *)
theory Go_Json
  imports Go_Strings
begin

text \<open>
  JSON values, as \<open>encoding/json\<close> writes and reads them for the structures of the repository. The text
  of a document is left to the library: the model encodes to and decodes from the tree. Decoding a
  structure follows the library: an absent or null member leaves the zero value, a member name matches
  up to the case of ASCII letters, unknown members are ignored, a member of another type is an error,
  and an integer must fit into 64 bits. Objects with a repeated member are outside the model,
  and a nil slice, which is written as null, is not told apart from an empty one.
\<close>

datatype jval =
    JNull
  | JBool bool
  | JNum int
  | JFrac string
  | JStr string
  | JArr "jval list"
  | JObj "(string \<times> jval) list"

definition jfield :: "string \<Rightarrow> (string \<times> jval) list \<Rightarrow> jval" where
  "jfield name fs =
     (case find (\<lambda>f. map ascii_lower (fst f) = map ascii_lower name) fs of None \<Rightarrow> JNull | Some f \<Rightarrow> snd f)"

definition json_type_error :: go_err where
  "json_type_error = Extern ''json: cannot unmarshal into Go value''"

fun dec_str :: "jval \<Rightarrow> string result" where
  "dec_str JNull = Inr []"
| "dec_str (JStr s) = Inr s"
| "dec_str _ = Inl json_type_error"

fun dec_bool :: "jval \<Rightarrow> bool result" where
  "dec_bool JNull = Inr False"
| "dec_bool (JBool b) = Inr b"
| "dec_bool _ = Inl json_type_error"

fun dec_int :: "jval \<Rightarrow> int result" where
  "dec_int JNull = Inr 0"
| "dec_int (JNum n) = (if - (2 ^ 63) \<le> n \<and> n < 2 ^ 63 then Inr n else Inl json_type_error)"
| "dec_int _ = Inl json_type_error"

fun dec_list :: "(jval \<Rightarrow> 'a result) \<Rightarrow> jval \<Rightarrow> 'a list result" where
  "dec_list d JNull = Inr []"
| "dec_list d (JArr vs) = mapr d vs"
| "dec_list d _ = Inl json_type_error"

fun dec_obj :: "jval \<Rightarrow> (string \<times> jval) list result" where
  "dec_obj JNull = Inr []"
| "dec_obj (JObj fs) = Inr fs"
| "dec_obj _ = Inl json_type_error"

text \<open>A string-to-string object, as \<open>map[string]string\<close>.\<close>

definition dec_str_map :: "jval \<Rightarrow> (string \<times> string) list result" where
  "dec_str_map v = bindr (dec_obj v) (mapr (\<lambda>(k, w). bindr (dec_str w) (\<lambda>s. Inr (k, s))))"

definition int64 :: "int \<Rightarrow> bool" where "int64 n \<longleftrightarrow> - (2 ^ 63) \<le> n \<and> n < 2 ^ 63"

lemma dec_int_JNum: "int64 n \<Longrightarrow> dec_int (JNum n) = Inr n"
  by (simp add: int64_def)

text \<open>Members with \<open>omitempty\<close> are left out when they hold the zero value.\<close>

definition enc_str_omit :: "string \<Rightarrow> string \<Rightarrow> (string \<times> jval) list" where
  "enc_str_omit name s = (if s = [] then [] else [(name, JStr s)])"

definition enc_bool_omit :: "string \<Rightarrow> bool \<Rightarrow> (string \<times> jval) list" where
  "enc_bool_omit name b = (if b then [(name, JBool True)] else [])"

definition enc_str_map :: "(string, string) gomap \<Rightarrow> jval" where
  "enc_str_map m = JObj (map (\<lambda>(k, v). (k, JStr v)) m)"

lemma jfield_Nil [simp]: "jfield n [] = JNull"
  by (simp add: jfield_def)

lemma jfield_Cons: "jfield n ((k, v) # fs) = (if map ascii_lower k = map ascii_lower n then v else jfield n fs)"
  by (simp add: jfield_def)

lemma jfield_str_omit:
  "jfield n (enc_str_omit k s @ fs) =
     (if s \<noteq> [] \<and> map ascii_lower k = map ascii_lower n then JStr s else jfield n fs)"
  by (simp add: enc_str_omit_def jfield_Cons)

lemma jfield_bool_omit:
  "jfield n (enc_bool_omit k b @ fs) =
     (if b \<and> map ascii_lower k = map ascii_lower n then JBool True else jfield n fs)"
  by (simp add: enc_bool_omit_def jfield_Cons)

lemma dec_str_map_enc: "dec_str_map (enc_str_map m) = Inr m"
  unfolding dec_str_map_def enc_str_map_def dec_obj.simps bindr_simps
  by (induction m) auto

end
