(* ===== verification/Session_Manager.thy ===== *)
theory Session_Manager
  imports Kv_Store Layout_Schema Go_Json
begin

text \<open>
  \<open>internal/session/manager.go\<close>: the windows and panes of a session and the focused window. The slice of
  window pointers is a list; the pointers are never shared between two windows, so a write through one
  is an update of the list at its index. A run-time panic (an index out of range) is \<open>None\<close>.
\<close>

definition maxPanesPerWindow :: nat where "maxPanesPerWindow = 64"

record pane_state =
  pn_TargetID :: target_id
  pn_Label :: string
  pn_Group :: string
  pn_Private :: bool
  pn_ScrollbackCap :: int
  pn_Split :: string
  pn_Size :: string
  pn_Formatter :: string
  pn_SavedFormatter :: string

record window_state =
  wn_Name :: string
  wn_Panes :: "pane_state list"

record manager =
  mg_windows :: "window_state list"
  mg_active :: int

definition NewManager :: manager where
  "NewManager = \<lparr>mg_windows = [], mg_active = 0\<rparr>"

section \<open>Windows\<close>

definition findWindow :: "string \<Rightarrow> manager \<Rightarrow> window_state option" where
  "findWindow name m = find (\<lambda>w. wn_Name w = name) (mg_windows m)"

definition windowIndex :: "string \<Rightarrow> manager \<Rightarrow> int" where
  "windowIndex name m =
     (case index_where (\<lambda>w. wn_Name w = name) (mg_windows m) of None \<Rightarrow> -1 | Some i \<Rightarrow> int i)"

definition pane_of_spec :: "target_id \<Rightarrow> pane_spec \<Rightarrow> pane_state" where
  "pane_of_spec tid ps =
     \<lparr>pn_TargetID = tid, pn_Label = [], pn_Group = ps_Group ps, pn_Private = ps_Private ps,
      pn_ScrollbackCap = ps_ScrollbackCap ps, pn_Split = ps_Split ps, pn_Size = ps_Size ps,
      pn_Formatter = [], pn_SavedFormatter = []\<rparr>"

definition layout_panes :: "window_spec \<Rightarrow> pane_state list result" where
  "layout_panes ws =
     mapr (\<lambda>ps. case ParseTargetID (ps_TargetID ps) of
              Inl e \<Rightarrow> Inl (Wrapf ''window %q pane %q: %w'' [AStr (ws_Name ws), AStr (ps_TargetID ps)] e)
            | Inr tid \<Rightarrow> Inr (pane_of_spec tid ps)) (ws_Panes ws)"

text \<open>An error stops the loop; the windows appended before it stay.\<close>

fun apply_windows :: "window_spec list \<Rightarrow> manager \<Rightarrow> manager \<times> go_err option" where
  "apply_windows [] m = (m, None)"
| "apply_windows (ws # wss) m =
     (if findWindow (ws_Name ws) m \<noteq> None then apply_windows wss m
      else (case layout_panes ws of
              Inl e \<Rightarrow> (m, Some e)
            | Inr panes \<Rightarrow>
                apply_windows wss (m\<lparr>mg_windows := mg_windows m @ [\<lparr>wn_Name = ws_Name ws, wn_Panes = panes\<rparr>]\<rparr>)))"

definition ApplyLayout :: "layout \<Rightarrow> manager \<Rightarrow> manager \<times> go_err option" where
  "ApplyLayout l m = apply_windows (l_Windows l) m"

definition CreateWindow :: "string \<Rightarrow> manager \<Rightarrow> manager result" where
  "CreateWindow name m =
     (if name = [] then Inl (Errorf ''window name must not be empty'' [])
      else if findWindow name m \<noteq> None then Inl (Errorf ''window %q already exists'' [AStr name])
      else Inr (m\<lparr>mg_windows := mg_windows m @ [\<lparr>wn_Name = name, wn_Panes = []\<rparr>]\<rparr>))"

definition CloseWindow :: "string \<Rightarrow> manager \<Rightarrow> manager result" where
  "CloseWindow name m =
     (if length (mg_windows m) \<le> 1 then Inl (Errorf ''cannot close the last window'' [])
      else
        let idx = windowIndex name m
        in if idx < 0 then Inl (Errorf ''window %q not found'' [AStr name])
           else
             let ws = take (nat idx) (mg_windows m) @ drop (nat idx + 1) (mg_windows m)
             in Inr (m\<lparr>mg_windows := ws,
                       mg_active := (if int (length ws) \<le> mg_active m then int (length ws) - 1 else mg_active m)\<rparr>))"

definition RenameWindow :: "string \<Rightarrow> string \<Rightarrow> manager \<Rightarrow> manager result" where
  "RenameWindow oldName newName m =
     (if newName = [] then Inl (Errorf ''new name must not be empty'' [])
      else if findWindow newName m \<noteq> None then Inl (Errorf ''window %q already exists'' [AStr newName])
      else (case index_where (\<lambda>w. wn_Name w = oldName) (mg_windows m) of
              None \<Rightarrow> Inl (Errorf ''window %q not found'' [AStr oldName])
            | Some i \<Rightarrow> Inr (m\<lparr>mg_windows := (mg_windows m)[i := (mg_windows m ! i)\<lparr>wn_Name := newName\<rparr>]\<rparr>)))"

definition FocusWindow :: "string \<Rightarrow> manager \<Rightarrow> manager result" where
  "FocusWindow name m =
     (let idx = windowIndex name m
      in if idx < 0 then Inl (Errorf ''window %q not found'' [AStr name])
         else Inr (m\<lparr>mg_active := idx\<rparr>))"

text \<open>\<open>Some None\<close> is the nil result for a session without windows, \<open>None\<close> the panic.\<close>

definition ActiveWindow :: "manager \<Rightarrow> window_state option option" where
  "ActiveWindow m =
     (if mg_windows m = [] then Some None else map_option Some (go_at (mg_windows m) (mg_active m)))"

definition Windows :: "manager \<Rightarrow> window_state list" where "Windows m = mg_windows m"

definition Window :: "string \<Rightarrow> manager \<Rightarrow> window_state option" where "Window name m = findWindow name m"

section \<open>Panes\<close>

definition AddPane :: "string \<Rightarrow> pane_state \<Rightarrow> manager \<Rightarrow> manager result" where
  "AddPane windowName pane m =
     (case index_where (\<lambda>w. wn_Name w = windowName) (mg_windows m) of
        None \<Rightarrow> Inl (Errorf ''window %q not found'' [AStr windowName])
      | Some i \<Rightarrow>
          let w = mg_windows m ! i
          in if maxPanesPerWindow \<le> length (wn_Panes w) then
               Inl (Errorf ''window %q already has the maximum of %d panes'' [AStr windowName, AInt (int maxPanesPerWindow)])
             else Inr (m\<lparr>mg_windows := (mg_windows m)[i := w\<lparr>wn_Panes := wn_Panes w @ [pane]\<rparr>]\<rparr>))"

text \<open>The position of the first pane with an identifier: windows in order, panes in order.\<close>

fun pane_pos :: "target_id \<Rightarrow> window_state list \<Rightarrow> (nat \<times> nat) option" where
  "pane_pos tid [] = None"
| "pane_pos tid (w # ws) =
     (case index_where (\<lambda>p. pn_TargetID p = tid) (wn_Panes w) of
        Some i \<Rightarrow> Some (0, i)
      | None \<Rightarrow> map_option (\<lambda>(k, i). (Suc k, i)) (pane_pos tid ws))"

definition RemovePane :: "target_id \<Rightarrow> manager \<Rightarrow> manager result" where
  "RemovePane tid m =
     (case pane_pos tid (mg_windows m) of
        None \<Rightarrow> Inl (Errorf ''pane %q not found in any window'' [AStr (tid_String tid)])
      | Some (k, i) \<Rightarrow>
          let w = mg_windows m ! k
          in Inr (m\<lparr>mg_windows := (mg_windows m)[k := w\<lparr>wn_Panes := take i (wn_Panes w) @ drop (i + 1) (wn_Panes w)\<rparr>]\<rparr>))"

definition FindPane :: "target_id \<Rightarrow> manager \<Rightarrow> (window_state \<times> pane_state) option" where
  "FindPane tid m =
     (case pane_pos tid (mg_windows m) of
        None \<Rightarrow> None
      | Some (k, i) \<Rightarrow> Some (mg_windows m ! k, wn_Panes (mg_windows m ! k) ! i))"

text \<open>A write through the pane pointer that \<open>FindPane\<close> returned, as the request handlers do it.\<close>

definition write_pane :: "target_id \<Rightarrow> (pane_state \<Rightarrow> pane_state) \<Rightarrow> manager \<Rightarrow> manager" where
  "write_pane tid f m =
     (case pane_pos tid (mg_windows m) of
        None \<Rightarrow> m
      | Some (k, i) \<Rightarrow>
          let w = mg_windows m ! k
          in m\<lparr>mg_windows := (mg_windows m)[k := w\<lparr>wn_Panes := (wn_Panes w)[i := f (wn_Panes w ! i)]\<rparr>]\<rparr>)"

definition AllPaneIDs :: "manager \<Rightarrow> target_id list" where
  "AllPaneIDs m = concat (map (\<lambda>w. map pn_TargetID (wn_Panes w)) (mg_windows m))"

section \<open>Snapshots\<close>

definition enc_pane :: "pane_state \<Rightarrow> jval" where
  "enc_pane p =
     JObj ((''target_id'', JStr (tid_String (pn_TargetID p)))
       # enc_str_omit ''label'' (pn_Label p) @ enc_str_omit ''group'' (pn_Group p)
       @ enc_bool_omit ''private'' (pn_Private p) @ [(''scrollback_cap'', JNum (pn_ScrollbackCap p))]
       @ enc_str_omit ''split'' (pn_Split p) @ enc_str_omit ''size'' (pn_Size p)
       @ enc_str_omit ''formatter'' (pn_Formatter p) @ enc_str_omit ''saved_formatter'' (pn_SavedFormatter p) @ [])"

definition dec_pane :: "jval \<Rightarrow> pane_state result" where
  "dec_pane v =
     bindr (dec_obj v) (\<lambda>fs.
     bindr (dec_str (jfield ''target_id'' fs)) (\<lambda>tid.
     bindr (dec_str (jfield ''label'' fs)) (\<lambda>label.
     bindr (dec_str (jfield ''group'' fs)) (\<lambda>group.
     bindr (dec_bool (jfield ''private'' fs)) (\<lambda>priv.
     bindr (dec_int (jfield ''scrollback_cap'' fs)) (\<lambda>cap.
     bindr (dec_str (jfield ''split'' fs)) (\<lambda>split.
     bindr (dec_str (jfield ''size'' fs)) (\<lambda>size.
     bindr (dec_str (jfield ''formatter'' fs)) (\<lambda>fmt.
     bindr (dec_str (jfield ''saved_formatter'' fs)) (\<lambda>saved.
       Inr \<lparr>pn_TargetID = TargetID tid, pn_Label = label, pn_Group = group, pn_Private = priv,
            pn_ScrollbackCap = cap, pn_Split = split, pn_Size = size, pn_Formatter = fmt,
            pn_SavedFormatter = saved\<rparr>))))))))))"

text \<open>
  A window that never had a pane has a nil slice, which is written as \<open>null\<close>. (A slice emptied by
  \<open>RemovePane\<close> is written as an empty array; the model has one empty list for both and writes \<open>null\<close>.
  Both are read back as no panes.)
\<close>

definition enc_window :: "window_state \<Rightarrow> jval" where
  "enc_window w =
     JObj [(''name'', JStr (wn_Name w)),
           (''panes'', if wn_Panes w = [] then JNull else JArr (map enc_pane (wn_Panes w)))]"

definition dec_window :: "jval \<Rightarrow> window_state result" where
  "dec_window v =
     bindr (dec_obj v) (\<lambda>fs.
     bindr (dec_str (jfield ''name'' fs)) (\<lambda>name.
     bindr (dec_list dec_pane (jfield ''panes'' fs)) (\<lambda>panes.
       Inr \<lparr>wn_Name = name, wn_Panes = panes\<rparr>)))"

definition mg_Snapshot :: "manager \<Rightarrow> jval" where
  "mg_Snapshot m =
     JObj [(''windows'', JArr (map enc_window (mg_windows m))), (''active_window'', JNum (mg_active m))]"

definition RestoreSnapshot :: "jval result \<Rightarrow> manager \<Rightarrow> manager result" where
  "RestoreSnapshot data m =
     (case bindr data (\<lambda>v. bindr (dec_obj v) (\<lambda>fs.
             bindr (dec_list dec_window (jfield ''windows'' fs)) (\<lambda>ws.
             bindr (dec_int (jfield ''active_window'' fs)) (\<lambda>act. Inr (ws, act))))) of
        Inl e \<Rightarrow> Inl (Wrapf ''restore snapshot: %w'' [] e)
      | Inr (ws, act) \<Rightarrow>
          Inr (m\<lparr>mg_windows := ws, mg_active := (if int (length ws) \<le> act then 0 else act)\<rparr>))"

section \<open>Lemmas on positions\<close>

definition ids_of :: "window_state list \<Rightarrow> target_id list" where
  "ids_of ws = concat (map (\<lambda>w. map pn_TargetID (wn_Panes w)) ws)"

lemma ids_of_simps [simp]: "ids_of [] = []" "ids_of (w # ws) = map pn_TargetID (wn_Panes w) @ ids_of ws"
  by (simp_all add: ids_of_def)

lemma ids_of_append [simp]: "ids_of (ws @ vs) = ids_of ws @ ids_of vs"
  by (simp add: ids_of_def)

lemma AllPaneIDs_ids: "AllPaneIDs m = ids_of (mg_windows m)"
  by (simp add: AllPaneIDs_def ids_of_def)

lemma index_remove1:
  "index_where (\<lambda>p. f p = x) xs = Some i \<Longrightarrow> map f (take i xs @ drop (Suc i) xs) = remove1 x (map f xs)"
  by (induction xs arbitrary: i) (auto split: if_splits)

lemma index_where_hit: "index_where P xs = Some i \<Longrightarrow> \<exists>x \<in> set xs. P x"
  using nth_mem by (auto simp: index_where_Some)

lemma index_where_absent: "index_where (\<lambda>p. f p = x) xs = None \<longleftrightarrow> x \<notin> set (map f xs)"
  by (auto simp: index_where_None)

lemma pane_pos_None: "pane_pos t ws = None \<longleftrightarrow> t \<notin> set (ids_of ws)"
  by (induction ws) (auto simp: index_where_None dest: index_where_hit split: option.split)

lemma pane_pos_bound:
  "pane_pos t ws = Some (k, i) \<Longrightarrow> k < length ws \<and> i < length (wn_Panes (ws ! k)) \<and> pn_TargetID (wn_Panes (ws ! k) ! i) = t"
proof (induction ws arbitrary: k i)
  case Nil
  then show ?case by simp
next
  case (Cons w ws)
  then show ?case
    by (cases "index_where (\<lambda>p. pn_TargetID p = t) (wn_Panes w)") (auto simp: index_where_Some)
qed

lemma pane_pos_remove:
  "pane_pos t ws = Some (k, i) \<Longrightarrow>
     ids_of (ws[k := (ws ! k)\<lparr>wn_Panes := take i (wn_Panes (ws ! k)) @ drop (Suc i) (wn_Panes (ws ! k))\<rparr>])
       = remove1 t (ids_of ws)"
proof (induction ws arbitrary: k i)
  case Nil
  then show ?case by simp
next
  case (Cons w ws)
  show ?case
  proof (cases "index_where (\<lambda>p. pn_TargetID p = t) (wn_Panes w)")
    case None
    then have "t \<notin> set (map pn_TargetID (wn_Panes w))" by (simp add: index_where_absent del: set_map)
    with None Cons show ?thesis by (auto simp: remove1_append)
  next
    case (Some j)
    then have "t \<in> set (map pn_TargetID (wn_Panes w))"
      using index_where_absent [of pn_TargetID t "wn_Panes w"] by simp
    with Some Cons.prems index_remove1 [OF Some] show ?thesis by (auto simp: remove1_append)
  qed
qed

text \<open>Writing to the first pane with an identifier keeps every position, as long as it keeps identifiers.\<close>

lemma index_where_update:
  "index_where P xs = Some i \<Longrightarrow> P y \<Longrightarrow> index_where P (xs[i := y]) = Some i"
  by (auto simp: index_where_Some)

lemma pane_pos_write:
  assumes "pane_pos t ws = Some (k, i)" and "pn_TargetID y = t"
  shows "pane_pos t (ws[k := (ws ! k)\<lparr>wn_Panes := (wn_Panes (ws ! k))[i := y]\<rparr>]) = Some (k, i)"
  using assms
proof (induction ws arbitrary: k i)
  case (Cons w ws)
  show ?case
  proof (cases "index_where (\<lambda>p. pn_TargetID p = t) (wn_Panes w)")
    case (Some j)
    with Cons.prems show ?thesis by (auto simp: index_where_update)
  qed (use Cons in auto)
qed simp

lemma ids_of_write:
  assumes "k < length ws" and "i < length (wn_Panes (ws ! k))" and "pn_TargetID y = pn_TargetID (wn_Panes (ws ! k) ! i)"
  shows "ids_of (ws[k := (ws ! k)\<lparr>wn_Panes := (wn_Panes (ws ! k))[i := y]\<rparr>]) = ids_of ws"
  using assms
proof (induction ws arbitrary: k)
  case (Cons w ws)
  then show ?case by (cases k) (auto simp: map_update list_update_same_conv)
qed simp

lemma FindPane_iff: "FindPane t m \<noteq> None \<longleftrightarrow> t \<in> set (AllPaneIDs m)"
  using pane_pos_None [of t "mg_windows m"] by (auto simp: FindPane_def AllPaneIDs_ids split: option.splits)

lemma FindPane_id: "FindPane t m = Some (w, p) \<Longrightarrow> pn_TargetID p = t"
  using pane_pos_bound [of t "mg_windows m"] by (auto simp: FindPane_def split: option.splits)

lemma AllPaneIDs_Remove: "RemovePane t m = Inr m' \<Longrightarrow> AllPaneIDs m' = remove1 t (AllPaneIDs m)"
  using pane_pos_remove [of t "mg_windows m"]
  by (auto simp: RemovePane_def AllPaneIDs_ids Let_def split: option.splits)

lemma RemovePane_ok: "is_ok (RemovePane t m) \<longleftrightarrow> t \<in> set (AllPaneIDs m)"
  using pane_pos_None [of t "mg_windows m"] by (auto simp: RemovePane_def AllPaneIDs_ids Let_def split: option.splits)

lemma AllPaneIDs_write:
  "(\<And>p. pn_TargetID (f p) = pn_TargetID p) \<Longrightarrow> AllPaneIDs (write_pane t f m) = AllPaneIDs m"
  using pane_pos_bound [of t "mg_windows m"]
  by (auto simp: write_pane_def AllPaneIDs_ids Let_def ids_of_write split: option.splits)

lemma FindPane_write:
  assumes "FindPane t m = Some (w, p)" and "pn_TargetID (f p) = t"
  shows "\<exists>w'. FindPane t (write_pane t f m) = Some (w', f p) \<and> wn_Name w' = wn_Name w"
proof -
  from assms(1) obtain k i where pos: "pane_pos t (mg_windows m) = Some (k, i)"
    and wp: "w = mg_windows m ! k" "p = wn_Panes w ! i"
    by (auto simp: FindPane_def split: option.splits)
  from pane_pos_bound [OF pos] pane_pos_write [OF pos, of "f p"] pos wp assms(2) show ?thesis
    by (simp add: FindPane_def write_pane_def Let_def)
qed

section \<open>The session invariant\<close>

text \<open>
  Window names are distinct and not empty, no window has more than 64 panes, and the focused index is
  that of a window (or zero while there is none).
\<close>

definition mg_inv :: "manager \<Rightarrow> bool" where
  "mg_inv m \<longleftrightarrow> distinct (map wn_Name (mg_windows m)) \<and> [] \<notin> set (map wn_Name (mg_windows m))
     \<and> list_all (\<lambda>w. length (wn_Panes w) \<le> 64) (mg_windows m)
     \<and> 0 \<le> mg_active m \<and> (mg_active m < int (length (mg_windows m)) \<or> mg_windows m = [] \<and> mg_active m = 0)"

lemma mg_inv_New [simp]: "mg_inv NewManager"
  by (simp add: mg_inv_def NewManager_def)

lemma findWindow_None: "findWindow n m = None \<longleftrightarrow> n \<notin> set (map wn_Name (mg_windows m))"
  by (auto simp: findWindow_def find_None_iff)

lemma windowIndex_spec:
  "windowIndex n m = (case index_where (\<lambda>w. wn_Name w = n) (mg_windows m) of None \<Rightarrow> -1 | Some i \<Rightarrow> int i)"
  by (rule windowIndex_def)

lemma list_all_upd: "list_all P xs \<Longrightarrow> P x \<Longrightarrow> list_all P (xs[i := x])"
  by (auto simp: list_all_iff dest!: set_update_subset_insert [THEN subsetD])

lemma list_all_nth: "list_all P xs \<Longrightarrow> i < length xs \<Longrightarrow> P (xs ! i)"
  by (simp add: list_all_length)

lemma map_upd_same: "f y = f (xs ! i) \<Longrightarrow> map f (xs[i := y]) = map f xs"
  by (cases "i < length xs") (simp_all add: map_update list_update_same_conv list_update_beyond)

lemma mg_inv_panes: "mg_inv m \<Longrightarrow> k < length (mg_windows m) \<Longrightarrow> length (wn_Panes (mg_windows m ! k)) \<le> 64"
  unfolding mg_inv_def by (blast dest: list_all_nth)

text \<open>An update of one window that keeps its name and its bound keeps the invariant.\<close>

lemma mg_inv_upd:
  assumes "mg_inv m" and "wn_Name w' = wn_Name (mg_windows m ! k)" and "length (wn_Panes w') \<le> 64"
  shows "mg_inv (m\<lparr>mg_windows := (mg_windows m)[k := w']\<rparr>)"
  using assms map_upd_same [of wn_Name w' "mg_windows m" k]
  by (auto simp: mg_inv_def intro!: list_all_upd simp flip: set_map)

lemma mg_inv_Create [inv_intros]: "mg_inv m \<Longrightarrow> CreateWindow n m = Inr m' \<Longrightarrow> mg_inv m'"
  by (auto simp: CreateWindow_def mg_inv_def findWindow_None split: if_splits)

definition drop_idx :: "nat \<Rightarrow> 'a list \<Rightarrow> 'a list" where
  "drop_idx i xs = take i xs @ drop (Suc i) xs"

lemma map_drop_idx: "map f (drop_idx i xs) = drop_idx i (map f xs)"
  by (simp add: drop_idx_def take_map drop_map)

lemma distinct_drop_idx: "distinct xs \<Longrightarrow> distinct (drop_idx i xs)"
  using set_take_disj_set_drop_if_distinct [of xs i "Suc i"] by (simp add: drop_idx_def)

lemma set_drop_idx: "set (drop_idx i xs) \<subseteq> set xs"
  by (auto simp: drop_idx_def dest: in_set_takeD in_set_dropD)

lemma length_drop_idx [simp]: "i < length xs \<Longrightarrow> length (drop_idx i xs) = length xs - 1"
  by (simp add: drop_idx_def)

lemma drop_idx_nonempty: "1 < length xs \<Longrightarrow> drop_idx i xs \<noteq> []"
  by (auto simp: drop_idx_def)

lemma nth_drop_idx: "i < length xs \<Longrightarrow> drop_idx i xs ! j = (if j < i then xs ! j else xs ! Suc j)"
  by (simp add: drop_idx_def nth_append)

lemma drop_idx_focus:
  assumes i: "i < length xs" and a: "a < length xs" and n: "1 < length xs"
  shows "drop_idx i xs ! min a (length xs - 2) =
      (if a < i then xs ! a else if a + 1 < length xs then xs ! (a + 1) else if i = a then xs ! (a - 1) else xs ! a)"
proof (cases "a + 1 < length xs")
  case True
  then have m: "min a (length xs - 2) = a" by simp
  show ?thesis unfolding m using True by (simp add: nth_drop_idx [OF i])
next
  case False
  with a n have m: "min a (length xs - 2) = a - 1" "Suc (a - 1) = a" "i \<le> a" using i by simp_all
  show ?thesis unfolding m(1) using False m(2,3) by (auto simp: nth_drop_idx [OF i])
qed

lemma CloseWindow_Inr:
  "CloseWindow n m = Inr m' \<longleftrightarrow>
     (\<exists>i. 1 < length (mg_windows m) \<and> index_where (\<lambda>w. wn_Name w = n) (mg_windows m) = Some i
        \<and> m' = m\<lparr>mg_windows := drop_idx i (mg_windows m),
                mg_active := min (mg_active m) (int (length (mg_windows m)) - 2)\<rparr>)"
proof (cases "index_where (\<lambda>w. wn_Name w = n) (mg_windows m)")
  case None
  then show ?thesis by (simp add: CloseWindow_def windowIndex_def)
next
  case (Some i)
  then have i: "i < length (mg_windows m)" by (rule index_where_bound)
  let ?ws = "drop_idx i (mg_windows m)" and ?n = "int (length (mg_windows m)) - 2"
  have act: "1 < length (mg_windows m) \<Longrightarrow>
      (if int (length ?ws) \<le> mg_active m then int (length ?ws) - 1 else mg_active m) = min (mg_active m) ?n"
    using i by auto
  have idx: "windowIndex n m = int i" "\<not> int i < 0" "nat (int i) = i" by (simp_all add: windowIndex_def Some)
  have drop: "take i (mg_windows m) @ drop (i + 1) (mg_windows m) = ?ws" by (simp add: drop_idx_def)
  have close: "1 < length (mg_windows m) \<Longrightarrow>
      CloseWindow n m = Inr (m\<lparr>mg_windows := ?ws, mg_active := min (mg_active m) ?n\<rparr>)"
    unfolding CloseWindow_def Let_def idx(1) idx(3) drop using act by (simp split del: if_split)
  show ?thesis
  proof (cases "1 < length (mg_windows m)")
    case True
    with close Some show ?thesis by auto
  qed (simp add: CloseWindow_def)
qed

lemma mg_inv_Close [inv_intros]:
  assumes "mg_inv m" and "CloseWindow n m = Inr m'"
  shows "mg_inv m'"
proof -
  from assms(2) obtain i where n: "1 < length (mg_windows m)" and i: "i < length (mg_windows m)"
    and m': "m' = m\<lparr>mg_windows := drop_idx i (mg_windows m), mg_active := min (mg_active m) (int (length (mg_windows m)) - 2)\<rparr>"
    by (auto simp: CloseWindow_Inr dest: index_where_bound)
  have "distinct (map wn_Name (drop_idx i (mg_windows m)))" "[] \<notin> set (map wn_Name (drop_idx i (mg_windows m)))"
    using assms(1) set_drop_idx [of i "map wn_Name (mg_windows m)"]
    by (auto simp: map_drop_idx mg_inv_def distinct_drop_idx simp del: set_map)
  moreover have "list_all (\<lambda>w. length (wn_Panes w) \<le> 64) (drop_idx i (mg_windows m))"
    using assms(1) set_drop_idx [of i "mg_windows m"] by (auto simp: mg_inv_def list_all_iff)
  moreover have "0 \<le> min (mg_active m) (int (length (mg_windows m)) - 2)"
    using assms(1) n by (simp add: mg_inv_def)
  moreover have "min (mg_active m) (int (length (mg_windows m)) - 2) < int (length (drop_idx i (mg_windows m)))"
    using i n by simp
  ultimately show ?thesis unfolding mg_inv_def m' by simp
qed

lemma mg_inv_Rename [inv_intros]:
  assumes "mg_inv m" and "RenameWindow a b m = Inr m'"
  shows "mg_inv m'"
proof -
  from assms(2) obtain i where b: "b \<noteq> []" "b \<notin> set (map wn_Name (mg_windows m))" and i: "i < length (mg_windows m)"
    and m': "m' = m\<lparr>mg_windows := (mg_windows m)[i := (mg_windows m ! i)\<lparr>wn_Name := b\<rparr>]\<rparr>"
    by (auto simp: RenameWindow_def findWindow_None index_where_Some split: if_splits option.splits)
  let ?ws = "(mg_windows m)[i := (mg_windows m ! i)\<lparr>wn_Name := b\<rparr>]"
  have names: "map wn_Name ?ws = (map wn_Name (mg_windows m))[i := b]" by (simp add: map_update)
  have "distinct (map wn_Name ?ws)" "[] \<notin> set (map wn_Name ?ws)"
    using assms(1) b set_update_subset_insert [of "map wn_Name (mg_windows m)" i b]
    by (auto simp: names mg_inv_def intro!: distinct_list_update simp del: set_map)
  moreover have "list_all (\<lambda>w. length (wn_Panes w) \<le> 64) ?ws"
    using assms(1) mg_inv_panes [OF assms(1) i] unfolding mg_inv_def by (intro list_all_upd) auto
  ultimately show ?thesis using assms(1) by (simp add: mg_inv_def m')
qed

lemma mg_inv_Focus [inv_intros]: "mg_inv m \<Longrightarrow> FocusWindow n m = Inr m' \<Longrightarrow> mg_inv m'"
  by (auto simp: FocusWindow_def mg_inv_def windowIndex_def Let_def index_where_Some split: if_splits option.splits)

lemma mg_inv_AddPane [inv_intros]: "mg_inv m \<Longrightarrow> AddPane n p m = Inr m' \<Longrightarrow> mg_inv m'"
  by (auto simp: AddPane_def Let_def maxPanesPerWindow_def intro!: mg_inv_upd split: if_splits option.splits)

lemma mg_inv_RemovePane [inv_intros]:
  assumes "mg_inv m" and "RemovePane t m = Inr m'"
  shows "mg_inv m'"
proof -
  from assms(2) obtain k i where pos: "pane_pos t (mg_windows m) = Some (k, i)"
    and m': "m' = m\<lparr>mg_windows := (mg_windows m)[k := (mg_windows m ! k)
       \<lparr>wn_Panes := take i (wn_Panes (mg_windows m ! k)) @ drop (Suc i) (wn_Panes (mg_windows m ! k))\<rparr>]\<rparr>"
    by (auto simp: RemovePane_def Let_def split: option.splits)
  have "length (wn_Panes (mg_windows m ! k)) \<le> 64"
    using assms(1) pane_pos_bound [OF pos] by (intro mg_inv_panes) auto
  then show ?thesis unfolding m' using assms(1) by (intro mg_inv_upd) auto
qed

lemma mg_inv_write [inv_intros]:
  assumes "mg_inv m"
  shows "mg_inv (write_pane t f m)"
proof (cases "pane_pos t (mg_windows m)")
  case (Some ki)
  obtain k i where ki: "ki = (k, i)" by (cases ki)
  with Some have "length (wn_Panes (mg_windows m ! k)) \<le> 64"
    using assms pane_pos_bound [of t "mg_windows m" k i] by (intro mg_inv_panes) auto
  then show ?thesis
    using assms mg_inv_upd [of m] by (simp add: write_pane_def Some ki Let_def)
qed (simp add: write_pane_def assms)

lemma length_mapr: "mapr f xs = Inr ys \<Longrightarrow> length ys = length xs"
  by (induction xs arbitrary: ys) (auto simp: bindr_Inr)

lemma mg_inv_apply:
  "mg_inv m \<Longrightarrow> list_all window_wf wss \<Longrightarrow> mg_inv (fst (apply_windows wss m))"
proof (induction wss arbitrary: m)
  case Nil
  then show ?case by simp
next
  case (Cons ws wss)
  show ?case
  proof (cases "findWindow (ws_Name ws) m")
    case None
    show ?thesis
    proof (cases "layout_panes ws")
      case (Inr panes)
      then have "length panes \<le> 64" using Cons.prems
        by (auto simp: layout_panes_def window_wf_def dest: length_mapr)
      then have "mg_inv (m\<lparr>mg_windows := mg_windows m @ [\<lparr>wn_Name = ws_Name ws, wn_Panes = panes\<rparr>]\<rparr>)"
        using Cons.prems None by (auto simp: mg_inv_def findWindow_None window_wf_def)
      with Cons.IH Cons.prems None Inr show ?thesis by simp
    qed (use Cons.prems None in simp)
  qed (use Cons in simp)
qed

lemma mg_inv_ApplyLayout [inv_intros]:
  "mg_inv m \<Longrightarrow> Layout_Validate l = None \<Longrightarrow> mg_inv (fst (ApplyLayout l m))"
  by (simp add: ApplyLayout_def mg_inv_apply Layout_Validate_None)

section \<open>Properties\<close>

datatype mg_op =
    MgApply string
  | MgCreate string
  | MgClose string
  | MgRename string string
  | MgFocus string
  | MgAddPane string pane_state
  | MgRemovePane target_id
  | MgWritePane target_id "pane_state \<Rightarrow> pane_state"

text \<open>One call of a client; a refused call leaves the session as it is. Layouts come from \<open>layout.Parse\<close>.\<close>

fun mg_step :: "(string \<Rightarrow> layout result) \<Rightarrow> manager \<Rightarrow> mg_op \<Rightarrow> manager" where
  "mg_step yaml m (MgApply data) =
     (case Layout_Parse yaml data of Inl _ \<Rightarrow> m | Inr l \<Rightarrow> fst (ApplyLayout l m))"
| "mg_step yaml m (MgCreate n) = (case CreateWindow n m of Inl _ \<Rightarrow> m | Inr m' \<Rightarrow> m')"
| "mg_step yaml m (MgClose n) = (case CloseWindow n m of Inl _ \<Rightarrow> m | Inr m' \<Rightarrow> m')"
| "mg_step yaml m (MgRename a b) = (case RenameWindow a b m of Inl _ \<Rightarrow> m | Inr m' \<Rightarrow> m')"
| "mg_step yaml m (MgFocus n) = (case FocusWindow n m of Inl _ \<Rightarrow> m | Inr m' \<Rightarrow> m')"
| "mg_step yaml m (MgAddPane n p) = (case AddPane n p m of Inl _ \<Rightarrow> m | Inr m' \<Rightarrow> m')"
| "mg_step yaml m (MgRemovePane t) = (case RemovePane t m of Inl _ \<Rightarrow> m | Inr m' \<Rightarrow> m')"
| "mg_step yaml m (MgWritePane t f) = write_pane t f m"

lemma Layout_Parse_valid: "Layout_Parse yaml data = Inr l \<Longrightarrow> Layout_Validate l = None"
  by (auto simp: Layout_Parse_def split: sum.splits option.splits)

lemma mg_inv_step: "mg_inv m \<Longrightarrow> mg_inv (mg_step yaml m x)"
  by (cases x) (auto split: sum.split intro: inv_intros dest: Layout_Parse_valid)

lemma mg_inv_run: "mg_inv m \<Longrightarrow> mg_inv (foldl (mg_step yaml) m xs)"
  by (induction xs arbitrary: m) (simp_all add: mg_inv_step)

lemma ActiveWindow_inv:
  "mg_inv m \<Longrightarrow> ActiveWindow m = Some (if mg_windows m = [] then None else Some (mg_windows m ! nat (mg_active m)))"
  by (auto simp: mg_inv_def ActiveWindow_def go_at_def)

lemma apply_windows_grow: "\<exists>ws. mg_windows (fst (apply_windows wss m)) = mg_windows m @ ws"
proof (induction wss arbitrary: m)
  case (Cons w wss)
  show ?case
  proof (cases "layout_panes w")
    case (Inr ps)
    with Cons [of "m\<lparr>mg_windows := mg_windows m @ [\<lparr>wn_Name = ws_Name w, wn_Panes = ps\<rparr>]\<rparr>"] Cons [of m]
    show ?thesis by auto
  qed (use Cons [of m] in auto)
qed simp

lemma mg_step_nonempty: "mg_windows m \<noteq> [] \<Longrightarrow> mg_windows (mg_step yaml m x) \<noteq> []"
proof (cases x)
  case (MgApply d)
  then show "mg_windows m \<noteq> [] \<Longrightarrow> mg_windows (mg_step yaml m x) \<noteq> []"
    using apply_windows_grow by (auto simp: ApplyLayout_def split: sum.split) (metis append_is_Nil_conv)
next
  case (MgClose n)
  then show "mg_windows m \<noteq> [] \<Longrightarrow> mg_windows (mg_step yaml m x) \<noteq> []"
    by (auto simp: CloseWindow_Inr drop_idx_nonempty split: sum.split)
qed (auto simp: CreateWindow_def RenameWindow_def FocusWindow_def AddPane_def RemovePane_def write_pane_def Let_def
      split: sum.split option.split if_splits)

lemma mg_run_nonempty: "mg_windows m \<noteq> [] \<Longrightarrow> mg_windows (foldl (mg_step yaml) m xs) \<noteq> []"
  by (induction xs arbitrary: m) (simp_all add: mg_step_nonempty)


text \<open>
  Closing a window removes exactly that window and keeps the order of the others; the index of the
  focus is kept, so the focus stays on its window only when the closed window comes after it or the
  focused window is the last one: otherwise the window after the focused one gets the focus (and the
  one before it when the focused last window itself is closed).
\<close>

theorem CloseWindow_focus:
  assumes "mg_inv m" and "CloseWindow n m = Inr m'"
  shows "\<exists>i a ws. ws = Windows m \<and> i < length ws \<and> wn_Name (ws ! i) = n \<and> a = nat (mg_active m)
     \<and> Windows m' = drop_idx i ws
     \<and> ActiveWindow m' = Some (Some (if a < i then ws ! a
                                      else if a + 1 < length ws then ws ! (a + 1)
                                      else if i = a then ws ! (a - 1) else ws ! a))"
proof -
  let ?ws = "mg_windows m" and ?a = "nat (mg_active m)"
  from assms(2) obtain i where n: "1 < length ?ws"
    and ix: "index_where (\<lambda>w. wn_Name w = n) ?ws = Some i"
    and m': "m' = m\<lparr>mg_windows := drop_idx i ?ws, mg_active := min (mg_active m) (int (length ?ws) - 2)\<rparr>"
    by (auto simp: CloseWindow_Inr)
  from ix have i: "i < length ?ws" "wn_Name (?ws ! i) = n" by (auto simp: index_where_Some)
  from assms(1) n have a: "0 \<le> mg_active m" "?a < length ?ws" by (auto simp: mg_inv_def)
  have inv': "mg_inv m'" using mg_inv_Close [OF assms] .
  have ne: "mg_windows m' \<noteq> []" using n i by (simp add: m' flip: length_0_conv)
  have "nat (mg_active m') = min ?a (length ?ws - 2)" using a n by (simp add: m' min_def) arith
  then have "ActiveWindow m' = Some (Some (drop_idx i ?ws ! min ?a (length ?ws - 2)))"
    using ActiveWindow_inv [OF inv'] ne by (simp add: m')
  also have "drop_idx i ?ws ! min ?a (length ?ws - 2) =
      (if ?a < i then ?ws ! ?a else if ?a + 1 < length ?ws then ?ws ! (?a + 1)
       else if i = ?a then ?ws ! (?a - 1) else ?ws ! ?a)"
    by (rule drop_idx_focus [OF i(1) a(2) n])
  finally have act: "ActiveWindow m' = Some (Some (if ?a < i then ?ws ! ?a
      else if ?a + 1 < length ?ws then ?ws ! (?a + 1) else if i = ?a then ?ws ! (?a - 1) else ?ws ! ?a))" .
  have "Windows m = ?ws" "Windows m' = drop_idx i ?ws" by (simp_all add: Windows_def m')
  with i act show ?thesis by metis
qed

text \<open>A session of three windows, the second focused.\<close>

definition pane_example :: "string \<Rightarrow> pane_state" where
  "pane_example t =
     \<lparr>pn_TargetID = TargetID t, pn_Label = ''L'', pn_Group = [], pn_Private = True, pn_ScrollbackCap = 500,
      pn_Split = ''h'', pn_Size = ''30%'', pn_Formatter = ''ansi'', pn_SavedFormatter = []\<rparr>"

definition mg_example :: manager where
  "mg_example = \<lparr>mg_windows = [\<lparr>wn_Name = ''one'', wn_Panes = [pane_example ''a'', pane_example ''b'']\<rparr>,
       \<lparr>wn_Name = ''two'', wn_Panes = []\<rparr>, \<lparr>wn_Name = ''three'', wn_Panes = [pane_example ''c'']\<rparr>],
     mg_active = 1\<rparr>"

lemma mg_inv_example: "mg_inv mg_example"
  by (simp add: mg_inv_def mg_example_def)

theorem CloseWindow_focus_witness:
  "\<exists>m'. CloseWindow ''one'' mg_example = Inr m' \<and> map_option (map_option wn_Name) (ActiveWindow mg_example) = Some (Some ''two'')
     \<and> (\<exists>w. ActiveWindow m' = Some (Some w)) \<and> map_option (map_option wn_Name) (ActiveWindow m') = Some (Some ''three'')"
proof -
  have c: "CloseWindow ''one'' mg_example = Inr (mg_example\<lparr>mg_windows := tl (mg_windows mg_example)\<rparr>)"
    by (simp add: CloseWindow_def mg_example_def windowIndex_def)
  from CloseWindow_focus [OF mg_inv_example c]
  have "\<exists>w. ActiveWindow (mg_example\<lparr>mg_windows := tl (mg_windows mg_example)\<rparr>) = Some (Some w)" by blast
  with c show ?thesis by (simp add: mg_example_def ActiveWindow_def go_at_def)
qed

lemma enc_pane_dec:
  "int64 (pn_ScrollbackCap p) \<Longrightarrow> dec_pane (enc_pane p) = Inr p"
  by (cases p; cases "pn_TargetID p")
     (simp add: dec_pane_def enc_pane_def jfield_Cons jfield_str_omit jfield_bool_omit dec_int_JNum ascii_lower_def
       del: dec_int.simps append_Nil2 split: if_split)

lemma enc_window_dec:
  "list_all (\<lambda>p. int64 (pn_ScrollbackCap p)) (wn_Panes w) \<Longrightarrow> dec_window (enc_window w) = Inr w"
  using mapr_map [of "wn_Panes w" dec_pane enc_pane id]
  by (simp add: dec_window_def enc_window_def jfield_Cons ascii_lower_def list_all_iff enc_pane_dec)

lemma Snapshot_read_back:
  assumes "mg_inv m" and "int (length (mg_windows m)) < 2 ^ 63"
    and "list_all (\<lambda>w. list_all (\<lambda>p. int64 (pn_ScrollbackCap p)) (wn_Panes w)) (mg_windows m)"
  shows "RestoreSnapshot (Inr (mg_Snapshot m)) m0 = Inr (m0\<lparr>mg_windows := mg_windows m, mg_active := mg_active m\<rparr>)"
proof -
  have ws: "mapr dec_window (map enc_window (mg_windows m)) = Inr (mg_windows m)"
    using mapr_map [of "mg_windows m" dec_window enc_window id] assms(3) by (simp add: list_all_iff enc_window_dec)
  have act: "dec_int (JNum (mg_active m)) = Inr (mg_active m)"
    using assms(1,2) by (intro dec_int_JNum) (auto simp: mg_inv_def int64_def)
  from assms(1) have "int (length (mg_windows m)) \<le> mg_active m \<Longrightarrow> mg_active m = 0" by (auto simp: mg_inv_def)
  then show ?thesis
    by (auto simp: RestoreSnapshot_def mg_Snapshot_def jfield_Cons ascii_lower_def ws act simp del: dec_int.simps)
qed

text \<open>
  A snapshot read back restores the session: every window and pane, with every field, and the
  focused window, whatever session it is restored into; the key-value store is not part of it.
\<close>

theorem Snapshot_Restore:
  assumes "mg_inv m" and "int (length (mg_windows m)) < 2 ^ 63"
    and "list_all (\<lambda>w. list_all (\<lambda>p. int64 (pn_ScrollbackCap p)) (wn_Panes w)) (mg_windows m)"
  shows "RestoreSnapshot (Inr (mg_Snapshot m)) m0 = Inr (m0\<lparr>mg_windows := mg_windows m, mg_active := mg_active m\<rparr>)"
  using assms by (rule Snapshot_read_back)

theorem Snapshot_Restore_witness:
  "RestoreSnapshot (Inr (mg_Snapshot mg_example)) NewManager = Inr mg_example"
  using Snapshot_Restore [OF mg_inv_example, of NewManager]
  by (simp add: mg_example_def NewManager_def int64_def pane_example_def)

text \<open>A negative index is restored as it is, and then reading the active window panics.\<close>

lemma Restore_negative_panics:
  "\<exists>m'. RestoreSnapshot (Inr (JObj [(''windows'', JArr [JObj [(''name'', JStr ''w'')]]), (''active_window'', JNum (-1))])) m = Inr m'
     \<and> ActiveWindow m' = None"
  by (simp add: RestoreSnapshot_def jfield_Cons ascii_lower_def dec_window_def ActiveWindow_def go_at_def)

lemma index_where_snoc: "index_where P xs = None \<Longrightarrow> P x \<Longrightarrow> index_where P (xs @ [x]) = Some (length xs)"
  by (induction xs) (auto split: if_splits)

lemma pane_pos_add:
  "t \<notin> set (ids_of ws) \<Longrightarrow> k < length ws \<Longrightarrow> pn_TargetID p = t \<Longrightarrow>
     pane_pos t (ws[k := (ws ! k)\<lparr>wn_Panes := wn_Panes (ws ! k) @ [p]\<rparr>]) = Some (k, length (wn_Panes (ws ! k)))"
proof (induction ws arbitrary: k)
  case (Cons w ws)
  have no: "index_where (\<lambda>p. pn_TargetID p = t) (wn_Panes w) = None"
    using Cons.prems(1) by (auto simp: index_where_None)
  have "index_where (\<lambda>p. pn_TargetID p = t) (wn_Panes w @ [p]) = Some (length (wn_Panes w))"
    using index_where_snoc [OF no] Cons.prems(3) by simp
  with no Cons show ?case by (cases k) auto
qed simp

text \<open>
  A pane added under a target no other pane has is found in its window with all its fields, its
  target is added to the session's targets and no other, and removing it again restores the windows
  as they were; a target that no pane has cannot be removed.
\<close>

theorem pane_add_remove:
  assumes "AddPane n p m = Inr m1" and "pn_TargetID p \<notin> set (AllPaneIDs m)"
  shows "(\<exists>w. FindPane (pn_TargetID p) m1 = Some (w, p) \<and> wn_Name w = n)
    \<and> mset (AllPaneIDs m1) = add_mset (pn_TargetID p) (mset (AllPaneIDs m))
    \<and> RemovePane (pn_TargetID p) m1 = Inr m \<and> \<not> is_ok (RemovePane (pn_TargetID p) m)"
proof -
  from assms(1) obtain k where k: "k < length (mg_windows m)" "wn_Name (mg_windows m ! k) = n"
    and m1: "m1 = m\<lparr>mg_windows := (mg_windows m)[k := (mg_windows m ! k)\<lparr>wn_Panes := wn_Panes (mg_windows m ! k) @ [p]\<rparr>]\<rparr>"
    by (auto simp: AddPane_def Let_def index_where_Some split: option.splits if_splits)
  from assms(2) have pos: "pane_pos (pn_TargetID p) (mg_windows m1) = Some (k, length (wn_Panes (mg_windows m ! k)))"
    unfolding m1 using k(1) by (simp add: pane_pos_add AllPaneIDs_ids)
  have find: "\<exists>w. FindPane (pn_TargetID p) m1 = Some (w, p) \<and> wn_Name w = n"
    using pos k by (simp add: FindPane_def m1)
  have rm: "RemovePane (pn_TargetID p) m1 = Inr m"
    using pos k by (simp add: RemovePane_def Let_def m1 list_update_same_conv)
  from AllPaneIDs_Remove [OF rm] have "AllPaneIDs m = remove1 (pn_TargetID p) (AllPaneIDs m1)" .
  moreover have "pn_TargetID p \<in> set (AllPaneIDs m1)"
    using RemovePane_ok [of "pn_TargetID p" m1] rm by simp
  ultimately have "mset (AllPaneIDs m1) = add_mset (pn_TargetID p) (mset (AllPaneIDs m))" by simp
  with find rm assms(2) show ?thesis by (simp add: RemovePane_ok)
qed

theorem pane_add_remove_witness:
  "\<exists>m1. AddPane ''two'' (pane_example ''z'') mg_example = Inr m1 \<and> RemovePane (TargetID ''z'') m1 = Inr mg_example"
proof -
  obtain m1 where m1: "AddPane ''two'' (pane_example ''z'') mg_example = Inr m1"
    by (simp add: AddPane_def mg_example_def Let_def maxPanesPerWindow_def)
  have "pn_TargetID (pane_example ''z'') \<notin> set (AllPaneIDs mg_example)"
    by (simp add: AllPaneIDs_def mg_example_def pane_example_def)
  from pane_add_remove [OF m1 this] m1 show ?thesis by (simp add: pane_example_def)
qed

end
