(* ===== verification/Scrollback.thy ===== *)
theory Scrollback
  imports Rdw_Prelude
begin

text \<open>
  \<open>internal/session/scrollback.go\<close>: the circular line buffer of a pane. The model keeps the slice, the
  head index, the size and the capacity; the log of the interface is what \<open>Lines\<close> reads out of them.
\<close>

definition DefaultScrollbackCap :: int where "DefaultScrollbackCap = 10000"
definition MaxScrollbackCap :: int where "MaxScrollbackCap = 100000"

record scrollback =
  sb_buf :: "string list"
  sb_head :: nat
  sb_size :: nat
  sb_cap :: nat

definition NewScrollbackBuffer :: "int \<Rightarrow> scrollback" where
  "NewScrollbackBuffer c =
     (let c1 = (if c \<le> 0 then DefaultScrollbackCap else c);
          c2 = (if MaxScrollbackCap < c1 then MaxScrollbackCap else c1)
      in \<lparr>sb_buf = replicate (nat c2) [], sb_head = 0, sb_size = 0, sb_cap = nat c2\<rparr>)"

definition sb_Append :: "scrollback \<Rightarrow> string \<Rightarrow> scrollback" where
  "sb_Append b line =
     (if sb_size b < sb_cap b then
        b\<lparr>sb_buf := (sb_buf b)[(sb_head b + sb_size b) mod sb_cap b := line], sb_size := sb_size b + 1\<rparr>
      else
        b\<lparr>sb_buf := (sb_buf b)[sb_head b := line], sb_head := (sb_head b + 1) mod sb_cap b\<rparr>)"

definition sb_Lines :: "scrollback \<Rightarrow> string list" where
  "sb_Lines b =
     (if sb_size b = 0 then []
      else map (\<lambda>i. sb_buf b ! ((sb_head b + i) mod sb_cap b)) [0..<sb_size b])"

definition sb_Len :: "scrollback \<Rightarrow> nat" where "sb_Len b = sb_size b"
definition sb_Cap :: "scrollback \<Rightarrow> nat" where "sb_Cap b = sb_cap b"

definition sb_Clear :: "scrollback \<Rightarrow> scrollback" where
  "sb_Clear b = b\<lparr>sb_head := 0, sb_size := 0\<rparr>"

section \<open>The ring represents a bounded log\<close>

definition sb_inv :: "scrollback \<Rightarrow> bool" where
  "sb_inv b \<longleftrightarrow> 0 < sb_cap b \<and> length (sb_buf b) = sb_cap b \<and> sb_head b < sb_cap b \<and> sb_size b \<le> sb_cap b"

lemma sb_inv_New [simp, inv_intros]: "sb_inv (NewScrollbackBuffer c)"
  by (auto simp: sb_inv_def NewScrollbackBuffer_def DefaultScrollbackCap_def MaxScrollbackCap_def Let_def)

lemma sb_inv_Append [inv_intros]: "sb_inv b \<Longrightarrow> sb_inv (sb_Append b l)"
  by (auto simp: sb_inv_def sb_Append_def)

lemma sb_inv_Clear [inv_intros]: "sb_inv b \<Longrightarrow> sb_inv (sb_Clear b)"
  by (auto simp: sb_inv_def sb_Clear_def)

lemma sb_Lines_map: "sb_Lines b = map (\<lambda>i. sb_buf b ! ((sb_head b + i) mod sb_cap b)) [0..<sb_size b]"
  by (simp add: sb_Lines_def)

text \<open>Two positions of the ring less than one turn apart are different cells.\<close>

lemma ring_pos: "h < c \<Longrightarrow> i < c \<Longrightarrow> (h + i) mod c = (if h + i < c then h + i else h + i - (c::nat))"
  by (simp add: le_mod_geq)

lemma ring_inj: "h < c \<Longrightarrow> (h + i) mod c = (h + j) mod c \<Longrightarrow> i < c \<Longrightarrow> j < c \<Longrightarrow> i = (j::nat)"
  by (auto simp: ring_pos split: if_splits)

lemma sb_Lines_grow:
  assumes "sb_inv b" and "sb_size b < sb_cap b"
  shows "sb_Lines (sb_Append b l) = sb_Lines b @ [l]"
proof (rule nth_equalityI)
  let ?h = "sb_head b" and ?n = "sb_size b" and ?c = "sb_cap b"
  show len: "length (sb_Lines (sb_Append b l)) = length (sb_Lines b @ [l])"
    using assms by (simp add: sb_Lines_map sb_Append_def)
  fix i assume "i < length (sb_Lines (sb_Append b l))"
  then have i: "i \<le> ?n" using assms by (simp add: sb_Lines_map sb_Append_def)
  have "i < ?n \<Longrightarrow> (?h + i) mod ?c \<noteq> (?h + ?n) mod ?c"
    using assms ring_inj [of ?h ?c i ?n] by (auto simp: sb_inv_def)
  moreover have "(?h + ?n) mod ?c < length (sb_buf b)"
    using assms by (simp add: sb_inv_def)
  ultimately show "sb_Lines (sb_Append b l) ! i = (sb_Lines b @ [l]) ! i"
    using i assms(2) by (auto simp: sb_Lines_map sb_Append_def nth_append nth_list_update simp del: upt_Suc)
qed

lemma sb_Lines_full:
  assumes "sb_inv b" and "sb_size b = sb_cap b"
  shows "sb_Lines (sb_Append b l) = tl (sb_Lines b) @ [l]"
proof (rule nth_equalityI)
  let ?h = "sb_head b" and ?c = "sb_cap b"
  have c: "0 < ?c" "length (sb_buf b) = ?c" "?h < ?c" using assms by (simp_all add: sb_inv_def)
  show len: "length (sb_Lines (sb_Append b l)) = length (tl (sb_Lines b) @ [l])"
    using assms c by (simp add: sb_Lines_map sb_Append_def)
  fix i assume "i < length (sb_Lines (sb_Append b l))"
  then have i: "i < ?c" using assms by (simp add: sb_Lines_map sb_Append_def)
  have pos: "((?h + 1) mod ?c + i) mod ?c = (?h + (i + 1)) mod ?c"
    by (simp add: mod_add_left_eq)
  show "sb_Lines (sb_Append b l) ! i = (tl (sb_Lines b) @ [l]) ! i"
  proof (cases "i + 1 = ?c")
    case True
    then have "(?h + (i + 1)) mod ?c = ?h" using c by simp
    moreover from True have "\<not> i < ?c - Suc 0" "i - (?c - Suc 0) = 0" by simp_all
    ultimately show ?thesis using assms i pos c
      by (simp add: sb_Lines_map sb_Append_def nth_append)
  next
    case False
    with i have i': "i + 1 < ?c" by simp
    then have "(?h + (i + 1)) mod ?c \<noteq> (?h + 0) mod ?c"
      using ring_inj [of ?h ?c "i + 1" 0] c by auto
    then have "(?h + (i + 1)) mod ?c \<noteq> ?h" using c by simp
    moreover from i' have "i < ?c - Suc 0" by simp
    ultimately show ?thesis using i' assms i pos c
      by (simp add: sb_Lines_map sb_Append_def nth_append nth_tl)
  qed
qed

interpretation sb: line_log sb_Lines sb_Append sb_Clear sb_Cap sb_inv
proof
  fix b :: scrollback and l
  assume inv: "sb_inv b"
  then show "0 < sb_Cap b" "length (sb_Lines b) \<le> sb_Cap b"
    by (simp_all add: sb_inv_def sb_Cap_def sb_Lines_map)
  show "sb_Lines (sb_Append b l) = keep_last (sb_Cap b) (sb_Lines b @ [l])"
  proof (cases "sb_size b < sb_cap b")
    case True
    with inv show ?thesis by (simp add: sb_Lines_grow sb_Cap_def) (simp add: sb_Lines_map)
  next
    case False
    with inv have full: "sb_size b = sb_cap b" "0 < sb_cap b" by (simp_all add: sb_inv_def)
    then have "length (sb_Lines b) = sb_cap b" by (simp add: sb_Lines_map)
    with full show ?thesis
      by (cases "sb_Lines b") (auto simp: sb_Lines_full [OF inv] sb_Cap_def keep_last_def)
  qed
  show "sb_Lines (sb_Clear b) = []" by (simp add: sb_Clear_def sb_Lines_def)
  show "sb_Cap (sb_Append b l) = sb_Cap b" by (simp add: sb_Append_def sb_Cap_def)
  show "sb_Cap (sb_Clear b) = sb_Cap b" by (simp add: sb_Clear_def sb_Cap_def)
qed (auto intro: inv_intros)

lemma sb_Lines_New [simp]: "sb_Lines (NewScrollbackBuffer c) = []"
  by (simp add: sb_Lines_def NewScrollbackBuffer_def Let_def)

lemma sb_Len_Lines: "sb_Len b = length (sb_Lines b)"
  by (simp add: sb_Len_def sb_Lines_map)

section \<open>Properties\<close>

text \<open>A client's use of the buffer, and the same use of an unbounded list cut to the capacity.\<close>

datatype sb_op = SbAppend string | SbClear

fun sb_step :: "scrollback \<Rightarrow> sb_op \<Rightarrow> scrollback" where
  "sb_step b (SbAppend l) = sb_Append b l"
| "sb_step b SbClear = sb_Clear b"

fun log_step :: "nat \<Rightarrow> string list \<Rightarrow> sb_op \<Rightarrow> string list" where
  "log_step n ls (SbAppend l) = keep_last n (ls @ [l])"
| "log_step n ls SbClear = []"

lemma sb_run_refines:
  "sb_inv b \<Longrightarrow> sb_Lines (foldl sb_step b ops) = foldl (log_step (sb_cap b)) (sb_Lines b) ops
     \<and> sb_cap (foldl sb_step b ops) = sb_cap b \<and> sb_inv (foldl sb_step b ops)"
proof (induction ops arbitrary: b)
  case Nil
  then show ?case by simp
next
  case (Cons x ops)
  have "sb_inv (sb_step b x)" "sb_cap (sb_step b x) = sb_cap b"
       "sb_Lines (sb_step b x) = log_step (sb_cap b) (sb_Lines b) x"
    using Cons.prems sb.lines_append sb.lines_clear sb.cap_append sb.cap_clear
    by (cases x; auto simp: sb_Cap_def intro: inv_intros)+
  with Cons.IH [of "sb_step b x"] show ?case by simp
qed

text \<open>
  C37: The circular buffer implements the bounded log it stands for: after any sequence of appends and
  clears of a new buffer, \<open>Lines\<close> is what an ordinary list cut to its last \<open>cap\<close> entries would hold,
  \<open>Len\<close> is its length, and the capacity is the requested one brought into the range 1 to 100000 (with
  10000 for a request of zero or less).
\<close>

theorem scrollback_refines_log:
  "let b = foldl sb_step (NewScrollbackBuffer c) ops;
       n = (if c \<le> 0 then 10000 else if 100000 < c then 100000 else nat c)
   in sb_Cap b = n \<and> sb_Lines b = foldl (log_step n) [] ops \<and> sb_Len b = length (sb_Lines b)
      \<and> length (sb_Lines b) \<le> n"
proof -
  let ?b = "foldl sb_step (NewScrollbackBuffer c) ops"
  have cap: "sb_cap (NewScrollbackBuffer c) = (if c \<le> 0 then 10000 else if 100000 < c then 100000 else nat c)"
    by (simp add: NewScrollbackBuffer_def DefaultScrollbackCap_def MaxScrollbackCap_def Let_def)
  from sb_run_refines [of "NewScrollbackBuffer c" ops] cap
  have "sb_inv ?b" "sb_Cap ?b = (if c \<le> 0 then 10000 else if 100000 < c then 100000 else nat c)"
       "sb_Lines ?b = foldl (log_step (if c \<le> 0 then 10000 else if 100000 < c then 100000 else nat c)) [] ops"
    by (simp_all add: sb_Cap_def)
  with sb.lines_bound [of ?b] show ?thesis by (simp add: Let_def sb_Len_Lines)
qed

end
