(* ===== verification/Control_Seq.thy ===== *)
theory Control_Seq
  imports Go_Strings
begin

text \<open>
  \<open>internal/control/control.go\<close>: the inline control sequences. The loop over the table of prefixes with
  more than one character takes the entries in the order in which Go ranges over the map, an argument
  of the model; the lemmas show that the order does not matter.
\<close>

datatype kind =
    KindVerbatim | KindQuit | KindSemaphore | KindClear | KindTimestamp | KindFormatter | KindRelay
  | KindKV | KindBase64 | KindBookmark | KindHighlight | KindScrollback | KindImage | KindSVG
  | KindScale | KindSVGData | KindTitle

primrec kind_text :: "kind \<Rightarrow> string" where
  "kind_text KindVerbatim = ''v''"
| "kind_text KindQuit = ''q''"
| "kind_text KindSemaphore = ''s''"
| "kind_text KindClear = ''c''"
| "kind_text KindTimestamp = ''t''"
| "kind_text KindFormatter = ''f''"
| "kind_text KindRelay = ''r''"
| "kind_text KindKV = ''=''"
| "kind_text KindBase64 = ''b64''"
| "kind_text KindBookmark = ''bm''"
| "kind_text KindHighlight = ''hl''"
| "kind_text KindScrollback = ''sc''"
| "kind_text KindImage = ''image''"
| "kind_text KindSVG = ''svg''"
| "kind_text KindScale = ''scale''"
| "kind_text KindSVGData = ''svg-data''"
| "kind_text KindTitle = ''title''"

definition SentinelImageEnd :: string where "SentinelImageEnd = ''image:end''"
definition SentinelSVGEnd :: string where "SentinelSVGEnd = ''svg:end''"

definition knownKinds :: "(string, kind) gomap" where
  "knownKinds =
     [(''v'', KindVerbatim), (''q'', KindQuit), (''s'', KindSemaphore), (''c'', KindClear),
      (''t'', KindTimestamp), (''f'', KindFormatter), (''r'', KindRelay), (''='', KindKV)]"

definition multiKinds :: "(string, kind) gomap" where
  "multiKinds =
     [(''b64'', KindBase64), (''bm'', KindBookmark), (''hl'', KindHighlight), (''sc'', KindScrollback),
      (''image'', KindImage), (''svg'', KindSVG), (''scale'', KindScale), (''svg-data'', KindSVGData),
      (''title'', KindTitle)]"

record sequence =
  sq_Kind :: kind
  sq_Payload :: string

definition mk_seq :: "kind \<Rightarrow> string \<Rightarrow> sequence" where
  "mk_seq k payload = \<lparr>sq_Kind = k, sq_Payload = payload\<rparr>"

fun try_multi :: "(string, kind) gomap \<Rightarrow> string \<Rightarrow> sequence option" where
  "try_multi [] line = None"
| "try_multi ((prefix, k) # rest) line =
     (let tag = prefix @ '':'' in
      if HasPrefix line tag then Some (mk_seq k (drop (length tag) line)) else try_multi rest line)"

definition Parse_with :: "(string, kind) gomap \<Rightarrow> string \<Rightarrow> sequence option" where
  "Parse_with multi line =
     (if length line < 2 then None
      else (case try_multi multi line of
              Some s \<Rightarrow> Some s
            | None \<Rightarrow>
                if line ! 1 \<noteq> CHR '':'' then None
                else (case gm_get knownKinds [line ! 0] of
                        None \<Rightarrow> None
                      | Some k \<Rightarrow> Some (mk_seq k (drop 2 line)))))"

definition Parse :: "string \<Rightarrow> sequence option" where
  "Parse line = Parse_with multiKinds line"

definition IsVerbatim :: "sequence \<Rightarrow> bool" where
  "IsVerbatim s \<longleftrightarrow> sq_Kind s = KindVerbatim"

definition malformed_pair :: "string \<Rightarrow> go_err" where
  "malformed_pair entry = Errorf (''malformed KV pair %q: missing '='' @ [CHR 0x27]) [AStr entry]"

fun kv_entries :: "string list \<Rightarrow> (string \<times> string) list result" where
  "kv_entries [] = Inr []"
| "kv_entries (raw # rest) =
     (let entry = TrimSpace raw in
      if entry = [] then kv_entries rest
      else (case IndexByte entry (CHR ''='') of
              None \<Rightarrow> Inl (malformed_pair entry)
            | Some idx \<Rightarrow>
                if idx = 0 then Inl (malformed_pair entry)
                else (case kv_entries rest of
                        Inl e \<Rightarrow> Inl e
                      | Inr ps \<Rightarrow> Inr ((take idx entry, drop (idx + 1) entry) # ps))))"

definition KVPairs :: "sequence \<Rightarrow> (string \<times> string) list result" where
  "KVPairs s =
     (if sq_Kind s \<noteq> KindKV then
        Inl (Errorf ''KVPairs called on non-KV sequence (kind=%q)'' [AStr (kind_text (sq_Kind s))])
      else if sq_Payload s = [] then Inr []
      else kv_entries (split_on (CHR '';'') (sq_Payload s)))"

section \<open>Lemmas\<close>

abbreviation COLON :: char where "COLON \<equiv> CHR '':''"

lemma takeWhile_colon: "COLON \<notin> set p \<Longrightarrow> takeWhile (\<lambda>c. c \<noteq> COLON) (p @ COLON # x) = p"
  by (induction p) auto

lemma has_tag:
  "COLON \<notin> set p \<Longrightarrow> HasPrefix line (p @ [COLON]) \<longleftrightarrow> COLON \<in> set line \<and> takeWhile (\<lambda>c. c \<noteq> COLON) line = p"
proof
  assume p: "COLON \<notin> set p"
  {
    assume "HasPrefix line (p @ [COLON])"
    then obtain t where "line = p @ COLON # t" by (auto simp: HasPrefix_iff)
    with p show "COLON \<in> set line \<and> takeWhile (\<lambda>c. c \<noteq> COLON) line = p"
      by (auto simp: takeWhile_colon)
  }
  assume tw: "COLON \<in> set line \<and> takeWhile (\<lambda>c. c \<noteq> COLON) line = p"
  then obtain c cs where dw: "dropWhile (\<lambda>c. c \<noteq> COLON) line = c # cs"
    by (cases "dropWhile (\<lambda>c. c \<noteq> COLON) line") auto
  have "\<not> hd (dropWhile (\<lambda>c. c \<noteq> COLON) line) \<noteq> COLON" by (rule hd_dropWhile) (simp add: dw)
  with dw have "c = COLON" by simp
  with tw dw have "line = p @ COLON # cs"
    using takeWhile_dropWhile_id [of "\<lambda>c. c \<noteq> COLON" line] by simp
  then show "HasPrefix line (p @ [COLON])" by (simp add: HasPrefix_iff)
qed

text \<open>The reference reading of a line: the text before its first colon decides.\<close>

definition before_colon :: "string \<Rightarrow> string" where
  "before_colon line = takeWhile (\<lambda>c. c \<noteq> COLON) line"

definition after_colon :: "string \<Rightarrow> string" where
  "after_colon line = drop (Suc (length (before_colon line))) line"

definition Parse_spec :: "string \<Rightarrow> sequence option" where
  "Parse_spec line =
     (if COLON \<in> set line
      then map_option (\<lambda>k. mk_seq k (after_colon line)) (map_of (knownKinds @ multiKinds) (before_colon line))
      else None)"

lemma try_multi_spec:
  "(\<And>p k. (p, k) \<in> set m \<Longrightarrow> COLON \<notin> set p) \<Longrightarrow>
     try_multi m line =
       (if COLON \<in> set line then map_option (\<lambda>k. mk_seq k (after_colon line)) (map_of m (before_colon line)) else None)"
proof (induction m)
  case (Cons pk m)
  obtain p k where pk: "pk = (p, k)" by (cases pk)
  from Cons.prems [of p k] pk have "COLON \<notin> set p" by simp
  note tag = has_tag [OF this, of line]
  from Cons.prems have "\<And>p k. (p, k) \<in> set m \<Longrightarrow> COLON \<notin> set p" by auto
  note IH = Cons.IH [OF this]
  show ?case by (auto simp: pk tag IH before_colon_def after_colon_def Let_def)
qed simp

lemma multi_free: "(p, k) \<in> set multiKinds \<Longrightarrow> COLON \<notin> set p \<and> 1 < length p"
  by (auto simp: multiKinds_def)

lemma known_one: "(p, k) \<in> set knownKinds \<Longrightarrow> COLON \<notin> set p \<and> length p = 1"
  by (auto simp: knownKinds_def)

lemma known_multi_distinct: "distinct (map fst (knownKinds @ multiKinds))"
  by (simp add: knownKinds_def multiKinds_def)

lemma kind_texts: "list_all (\<lambda>(p, k). kind_text k = p \<and> COLON \<notin> set p) (knownKinds @ multiKinds)"
  by code_simp

lemma kind_text_key:
  assumes "map_of (knownKinds @ multiKinds) p = Some k"
  shows "kind_text k = p \<and> COLON \<notin> set p"
  using bspec [OF kind_texts [unfolded list_all_iff] map_of_SomeD [OF assms]] by simp

lemma one_before: "before_colon line = [c] \<and> COLON \<in> set line \<longleftrightarrow> 2 \<le> length line \<and> line ! 1 = COLON \<and> line ! 0 = c \<and> c \<noteq> COLON"
  by (cases line; cases "tl line") (auto simp: before_colon_def split: if_splits)

lemma gm_get_multi_perm: "mset m = mset multiKinds \<Longrightarrow> map_of m = map_of multiKinds"
  using gm_perm(2) [of multiKinds m] by (simp add: gm_ok_def multiKinds_def gm_get_def [abs_def])

lemma Parse_with_spec:
  assumes "mset m = mset multiKinds"
  shows "Parse_with m line = Parse_spec line"
proof -
  have "set m = set multiKinds" using assms by (rule mset_eq_setD)
  then have multi: "try_multi m line =
      (if COLON \<in> set line then map_option (\<lambda>k. mk_seq k (after_colon line)) (map_of multiKinds (before_colon line)) else None)"
    using try_multi_spec [of m line] multi_free gm_get_multi_perm [OF assms] by auto
  show ?thesis
  proof (cases "\<exists>c. before_colon line = [c] \<and> COLON \<in> set line")
    case True
    then obtain c where c: "before_colon line = [c]" "COLON \<in> set line" by blast
    then have l: "2 \<le> length line" "line ! 1 = COLON" "line ! 0 = c" using one_before [of line c] by auto
    have "map_of multiKinds [c] = None"
      by (auto simp: map_of_eq_None_iff dest!: multi_free)
    moreover have "after_colon line = drop 2 line" by (simp add: after_colon_def c(1) numeral_2_eq_2)
    ultimately show ?thesis
      using l c by (auto simp: Parse_with_def Parse_spec_def multi gm_get_def map_add_def split: option.split)
  next
    case False
    then have no: "\<not> (COLON \<in> set line \<and> length (before_colon line) = 1)" by (auto simp: length_Suc_conv)
    then have "COLON \<in> set line \<Longrightarrow> map_of knownKinds (before_colon line) = None"
      by (auto simp: map_of_eq_None_iff dest!: known_one)
    moreover have "length line < 2 \<Longrightarrow> COLON \<in> set line \<Longrightarrow> map_of multiKinds (before_colon line) = None"
      using length_takeWhile_le [of "\<lambda>c. c \<noteq> COLON" line]
      by (auto simp: map_of_eq_None_iff before_colon_def dest!: multi_free)
    moreover have "2 \<le> length line \<Longrightarrow> line ! 1 = COLON \<Longrightarrow> gm_get knownKinds [line ! 0] = None"
    proof -
      assume l: "2 \<le> length line" "line ! 1 = COLON"
      then have "line ! 0 = COLON" using one_before [of line "line ! 0"] no by auto
      then show ?thesis by (auto simp: gm_get_def map_of_eq_None_iff dest!: known_one)
    qed
    ultimately show ?thesis
      by (auto simp: Parse_with_def Parse_spec_def multi map_add_def not_less split: option.split)
  qed
qed

lemma Parse_Parse_spec: "Parse line = Parse_spec line"
  by (simp add: Parse_def Parse_with_spec)

lemma Parse_tag:
  "map_of (knownKinds @ multiKinds) p = Some k \<Longrightarrow> Parse (p @ COLON # x) = Some (mk_seq k x)"
proof -
  assume k: "map_of (knownKinds @ multiKinds) p = Some k"
  then have "COLON \<notin> set p"
    using known_one multi_free by (metis UnE map_of_SomeD set_append)
  then have "before_colon (p @ COLON # x) = p" by (simp add: before_colon_def takeWhile_colon)
  with k show ?thesis by (simp add: Parse_Parse_spec Parse_spec_def after_colon_def del: map_of_append)
qed

lemma Parse_verbatim: "Parse (CHR ''v'' # COLON # x) = Some (mk_seq KindVerbatim x)"
  using Parse_tag [of "''v''" KindVerbatim x] by (simp add: knownKinds_def)

lemma Parse_kv: "Parse (CHR ''='' # COLON # x) = Some (mk_seq KindKV x)"
  using Parse_tag [of "''=''" KindKV x] by (simp add: knownKinds_def)

lemma Parse_b64: "Parse (''b64:'' @ x) = Some (mk_seq KindBase64 x)"
  using Parse_tag [of "''b64''" KindBase64 x] by (simp add: knownKinds_def multiKinds_def)

lemma Parse_no_colon: "COLON \<notin> set line \<Longrightarrow> Parse line = None"
  by (simp add: Parse_Parse_spec Parse_spec_def)

lemma mk_seq_sel [simp]: "sq_Kind (mk_seq k x) = k" "sq_Payload (mk_seq k x) = x"
  by (simp_all add: mk_seq_def)

section \<open>Properties\<close>

text \<open>
  C38: A line is a control sequence exactly when the text before its first colon is one of the
  seventeen prefixes; the prefix determines the kind, the payload is everything after that colon, and
  the result is the same in whatever order the table of prefixes is ranged over.
\<close>

theorem Parse_exact:
  assumes "mset m = mset multiKinds"
  shows "Parse_with m line = Parse line
    \<and> (Parse line = Some q) = (\<exists>p. line = p @ '':'' @ sq_Payload q \<and> CHR '':'' \<notin> set p
          \<and> map_of (knownKinds @ multiKinds) p = Some (sq_Kind q) \<and> kind_text (sq_Kind q) = p)"
proof
  show "Parse_with m line = Parse line" using assms by (simp add: Parse_with_spec Parse_Parse_spec)
  note ktext = kind_text_key
  have "Parse line = Some q \<Longrightarrow> \<exists>p. line = p @ '':'' @ sq_Payload q \<and> map_of (knownKinds @ multiKinds) p = Some (sq_Kind q)"
  proof -
    assume "Parse line = Some q"
    then obtain k where k: "COLON \<in> set line" "map_of (knownKinds @ multiKinds) (before_colon line) = Some k"
        "q = mk_seq k (after_colon line)"
      by (auto simp: Parse_Parse_spec Parse_spec_def simp del: map_of_append split: if_splits)
    have "HasPrefix line (before_colon line @ [COLON])"
      using k(1) has_tag [of "before_colon line" line] by (auto simp: before_colon_def dest: set_takeWhileD)
    then obtain t where t: "line = before_colon line @ COLON # t" by (auto simp: HasPrefix_iff)
    then have "drop (length (before_colon line @ [COLON])) line = t"
      by (metis append_eq_conv_conj append.assoc append_Cons append_Nil)
    with t have "line = before_colon line @ [COLON] @ after_colon line" by (simp add: after_colon_def)
    with k show ?thesis by (metis mk_seq_sel)
  qed
  moreover have "line = p @ '':'' @ sq_Payload q \<Longrightarrow> map_of (knownKinds @ multiKinds) p = Some (sq_Kind q) \<Longrightarrow> Parse line = Some q" for p
    using Parse_tag [of p "sq_Kind q" "sq_Payload q"] by (simp add: mk_seq_def)
  ultimately show "(Parse line = Some q) = (\<exists>p. line = p @ '':'' @ sq_Payload q \<and> CHR '':'' \<notin> set p
          \<and> map_of (knownKinds @ multiKinds) p = Some (sq_Kind q) \<and> kind_text (sq_Kind q) = p)"
    using ktext by blast
qed

theorem Parse_exact_witness:
  "mset (rev multiKinds) = mset multiKinds \<and> Parse_with (rev multiKinds) ''svg-data:PHN2Zz4='' = Some (mk_seq KindSVGData ''PHN2Zz4='')"
proof -
  have m: "mset (rev multiKinds) = mset multiKinds" by simp
  have "Parse ''svg-data:PHN2Zz4='' = Some (mk_seq KindSVGData ''PHN2Zz4='')" by code_simp
  with conjunct1 [OF Parse_exact [OF m, of "''svg-data:PHN2Zz4=''" "mk_seq KindSVGData []"]] m show ?thesis by simp
qed

text \<open>What a client writes to set several keys in one line.\<close>

definition kv_payload :: "(string \<times> string) list \<Rightarrow> string" where
  "kv_payload kvs = join_with '';'' (map (\<lambda>(k, v). k @ ''='' @ v) kvs)"

definition kv_plain :: "string \<times> string \<Rightarrow> bool" where
  "kv_plain kv \<longleftrightarrow> (case kv of (k, v) \<Rightarrow> k \<noteq> [] \<and> CHR ''='' \<notin> set k \<and> CHR '';'' \<notin> set k \<and> CHR '';'' \<notin> set v
     \<and> TrimSpace (k @ ''='' @ v) = k @ ''='' @ v)"

lemma kv_entries_plain:
  "list_all kv_plain kvs \<Longrightarrow> kv_entries (map (\<lambda>(k, v). k @ ''='' @ v) kvs) = Inr kvs"
  by (induction kvs) (auto simp: kv_plain_def IndexByte_append)

lemma KVPairs_plain:
  assumes "list_all kv_plain kvs"
  shows "KVPairs (mk_seq KindKV (kv_payload kvs)) = Inr kvs"
proof (cases "kvs = []")
  case True
  then show ?thesis by (simp add: KVPairs_def kv_payload_def)
next
  case False
  have "split_on (CHR '';'') (kv_payload kvs) = map (\<lambda>(k, v). k @ ''='' @ v) kvs"
    unfolding kv_payload_def using assms False
    by (intro split_on_join) (auto simp: list_all_iff kv_plain_def)
  moreover from False assms have "kv_payload kvs \<noteq> []"
    by (cases kvs; cases "tl kvs") (auto simp: kv_payload_def)
  ultimately show ?thesis using kv_entries_plain [OF assms] by (simp add: KVPairs_def)
qed

text \<open>
  The pairs of a key-value sequence survive the line format: for keys that are not empty and have
  no equals sign, and pairs without a semicolon and without surrounding white space, writing the
  pairs, parsing the line and splitting its payload returns exactly the pairs, in order. (A value may
  contain equals signs.)
\<close>

theorem KVPairs_roundtrip:
  assumes "list_all kv_plain kvs"
  shows "Parse (''=:'' @ kv_payload kvs) = Some (mk_seq KindKV (kv_payload kvs))
    \<and> KVPairs (mk_seq KindKV (kv_payload kvs)) = Inr kvs"
proof -
  have "KVPairs (mk_seq KindKV (kv_payload kvs)) = Inr kvs" by (rule KVPairs_plain [OF assms])
  moreover have "Parse (''=:'' @ kv_payload kvs) = Some (mk_seq KindKV (kv_payload kvs))"
    using Parse_kv [of "kv_payload kvs"] by simp
  ultimately show ?thesis by blast
qed

theorem KVPairs_roundtrip_witness:
  "KVPairs (mk_seq KindKV (kv_payload [(''host'', ''a b''), (''opt'', ''x=1'')])) = Inr [(''host'', ''a b''), (''opt'', ''x=1'')]
   \<and> kv_payload [(''host'', ''a b''), (''opt'', ''x=1'')] = ''host=a b;opt=x=1''"
proof -
  have "list_all kv_plain [(''host'', ''a b''), (''opt'', ''x=1'')]"
    by (simp add: kv_plain_def TrimSpace_graph is_graph_def)
  from KVPairs_roundtrip [OF this] show ?thesis by (simp add: kv_payload_def)
qed

end
