(* ===== verification/Go_Base64.thy ===== *)
theory Go_Base64
  imports Go_Strings
begin

text \<open>
  \<open>encoding/base64\<close> as the program uses it: \<open>StdEncoding\<close> (padded) and \<open>RawURLEncoding\<close> (unpadded). The
  decoder skips line feeds and carriage returns, accepts padding only at the end, and does not check
  that the unused low bits of the last symbol are zero (Go's non-strict mode). \<open>None\<close> is
  \<open>CorruptInputError\<close>.
\<close>

definition std_alphabet :: string where
  "std_alphabet = ''ABCDEFGHIJKLMNOPQRSTUVWXYZabcdefghijklmnopqrstuvwxyz0123456789+/''"

definition url_alphabet :: string where
  "url_alphabet = ''ABCDEFGHIJKLMNOPQRSTUVWXYZabcdefghijklmnopqrstuvwxyz0123456789-_''"

abbreviation PAD :: char where "PAD \<equiv> CHR ''=''"

abbreviation byte_nat :: "char \<Rightarrow> nat" where "byte_nat c \<equiv> of_char c"

definition sym :: "nat \<Rightarrow> char" where
  "sym n = std_alphabet ! n"

fun b64_encode :: "string \<Rightarrow> string" where
  "b64_encode [] = []"
| "b64_encode [a] = [sym (byte_nat a div 4), sym (byte_nat a mod 4 * 16), PAD, PAD]"
| "b64_encode [a, b] =
     [sym (byte_nat a div 4), sym (byte_nat a mod 4 * 16 + byte_nat b div 16),
      sym (byte_nat b mod 16 * 4), PAD]"
| "b64_encode (a # b # c # r) =
     sym (byte_nat a div 4) # sym (byte_nat a mod 4 * 16 + byte_nat b div 16)
     # sym (byte_nat b mod 16 * 4 + byte_nat c div 64) # sym (byte_nat c mod 64) # b64_encode r"

text \<open>The bytes that two, three or four symbol values stand for.\<close>

definition bytes2 :: "nat \<Rightarrow> nat \<Rightarrow> string" where
  "bytes2 p q = [char_of (p * 4 + q div 16)]"

definition bytes3 :: "nat \<Rightarrow> nat \<Rightarrow> nat \<Rightarrow> string" where
  "bytes3 p q r = [char_of (p * 4 + q div 16), char_of (q mod 16 * 16 + r div 4)]"

definition bytes4 :: "nat \<Rightarrow> nat \<Rightarrow> nat \<Rightarrow> nat \<Rightarrow> string" where
  "bytes4 p q r s = [char_of (p * 4 + q div 16), char_of (q mod 16 * 16 + r div 4), char_of (r mod 4 * 64 + s)]"

definition sym_value :: "string \<Rightarrow> char \<Rightarrow> nat option" where
  "sym_value alphabet c = IndexByte alphabet c"

fun decode_padded :: "string \<Rightarrow> string option" where
  "decode_padded [] = Some []"
| "decode_padded (a # b # c # d # r) =
     (if d = PAD then
        (if r \<noteq> [] then None
         else if c = PAD then
           (case (sym_value std_alphabet a, sym_value std_alphabet b) of
              (Some p, Some q) \<Rightarrow> Some (bytes2 p q) | _ \<Rightarrow> None)
         else
           (case (sym_value std_alphabet a, sym_value std_alphabet b, sym_value std_alphabet c) of
              (Some p, Some q, Some s) \<Rightarrow> Some (bytes3 p q s) | _ \<Rightarrow> None))
      else
        (case (sym_value std_alphabet a, sym_value std_alphabet b, sym_value std_alphabet c, sym_value std_alphabet d) of
           (Some p, Some q, Some s, Some t) \<Rightarrow> map_option (\<lambda>xs. bytes4 p q s t @ xs) (decode_padded r)
         | _ \<Rightarrow> None))"
| "decode_padded _ = None"

definition b64_decode :: "string \<Rightarrow> string option" where
  "b64_decode s = decode_padded (filter (\<lambda>c. c \<noteq> LF \<and> c \<noteq> CR) s)"

fun decode_raw :: "string \<Rightarrow> string option" where
  "decode_raw [] = Some []"
| "decode_raw [a] = None"
| "decode_raw [a, b] =
     (case (sym_value url_alphabet a, sym_value url_alphabet b) of
        (Some p, Some q) \<Rightarrow> Some (bytes2 p q) | _ \<Rightarrow> None)"
| "decode_raw [a, b, c] =
     (case (sym_value url_alphabet a, sym_value url_alphabet b, sym_value url_alphabet c) of
        (Some p, Some q, Some s) \<Rightarrow> Some (bytes3 p q s) | _ \<Rightarrow> None)"
| "decode_raw (a # b # c # d # r) =
     (case (sym_value url_alphabet a, sym_value url_alphabet b, sym_value url_alphabet c, sym_value url_alphabet d) of
        (Some p, Some q, Some s, Some t) \<Rightarrow> map_option (\<lambda>xs. bytes4 p q s t @ xs) (decode_raw r)
      | _ \<Rightarrow> None)"

definition rawurl_decode :: "string \<Rightarrow> string option" where
  "rawurl_decode s = decode_raw (filter (\<lambda>c. c \<noteq> LF \<and> c \<noteq> CR) s)"

section \<open>Round trip\<close>

lemma sym_value_sym_all: "list_all (\<lambda>n. sym_value std_alphabet (sym n) = Some n \<and> sym n \<noteq> PAD \<and> is_graph (sym n)) [0..<64]"
  by code_simp

lemma sym_value_sym: "n < 64 \<Longrightarrow> sym_value std_alphabet (sym n) = Some n"
  and sym_not_PAD: "n < 64 \<Longrightarrow> sym n \<noteq> PAD"
  and sym_graph: "n < 64 \<Longrightarrow> is_graph (sym n)"
  using sym_value_sym_all by (auto simp: list_all_iff)

lemma byte_div:
  "byte_nat c div 4 < 64" "byte_nat c div 16 < 16" "byte_nat c div 64 < 4"
  by (rule less_mult_imp_div_less, simp)+

lemma char_of_byte [simp]: "char_of (byte_nat c) = c"
  by simp

lemma six_bits:
  "byte_nat a div 4 < 64" "byte_nat a mod 4 * 16 < 64" "byte_nat a mod 4 * 16 + byte_nat b div 16 < 64"
  "byte_nat b mod 16 * 4 < 64" "byte_nat b mod 16 * 4 + byte_nat c div 64 < 64" "byte_nat c mod 64 < 64"
proof -
  have m: "byte_nat a mod 4 < 4" "byte_nat b mod 16 < 16" "byte_nat c mod 64 < 64" by simp_all
  show "byte_nat a div 4 < 64" by (rule byte_div(1))
  show "byte_nat a mod 4 * 16 < 64" using m(1) by linarith
  show "byte_nat a mod 4 * 16 + byte_nat b div 16 < 64" using m(1) byte_div(2) [of b] by linarith
  show "byte_nat b mod 16 * 4 < 64" using m(2) by linarith
  show "byte_nat b mod 16 * 4 + byte_nat c div 64 < 64" using m(2) byte_div(3) [of c] by linarith
  show "byte_nat c mod 64 < 64" by (rule m(3))
qed

lemma bytes2_encode: "bytes2 (byte_nat a div 4) (byte_nat a mod 4 * 16) = [a]"
  by (simp add: bytes2_def)

lemma byte_split_hi:
  "byte_nat a div 4 * 4 + (byte_nat a mod 4 * 16 + byte_nat b div 16) div 16 = byte_nat a"
proof -
  have "byte_nat b div 16 < 16" by (rule byte_div)
  then have "(byte_nat a mod 4 * 16 + byte_nat b div 16) div 16 = byte_nat a mod 4" by simp
  then show ?thesis by simp
qed

lemma byte_split_mid:
  "(byte_nat a mod 4 * 16 + byte_nat b div 16) mod 16 * 16 + (byte_nat b mod 16 * 4 + byte_nat c div 64) div 4 = byte_nat b"
proof -
  have "byte_nat b div 16 < 16" "byte_nat c div 64 < 4" by (rule byte_div)+
  then have "(byte_nat a mod 4 * 16 + byte_nat b div 16) mod 16 = byte_nat b div 16"
    "(byte_nat b mod 16 * 4 + byte_nat c div 64) div 4 = byte_nat b mod 16" by simp_all
  then show ?thesis by simp
qed

lemma bytes3_encode:
  "bytes3 (byte_nat a div 4) (byte_nat a mod 4 * 16 + byte_nat b div 16) (byte_nat b mod 16 * 4) = [a, b]"
proof -
  have "byte_nat b div 16 < 16" by (rule byte_div)
  then have "(byte_nat a mod 4 * 16 + byte_nat b div 16) mod 16 = byte_nat b div 16" by simp
  then show ?thesis by (simp add: bytes3_def byte_split_hi)
qed

lemma bytes4_encode:
  "bytes4 (byte_nat a div 4) (byte_nat a mod 4 * 16 + byte_nat b div 16)
     (byte_nat b mod 16 * 4 + byte_nat c div 64) (byte_nat c mod 64) = [a, b, c]"
proof -
  have "byte_nat c div 64 < 4" by (rule byte_div)
  then have "(byte_nat b mod 16 * 4 + byte_nat c div 64) mod 4 = byte_nat c div 64" by simp
  then show ?thesis unfolding bytes4_def byte_split_hi byte_split_mid by simp
qed

lemma decode_encode_padded: "decode_padded (b64_encode bs) = Some bs"
proof (induction bs rule: b64_encode.induct)
  case (2 a)
  then show ?case by (simp add: sym_value_sym six_bits bytes2_encode)
next
  case (3 a b)
  then show ?case
    by (simp add: sym_value_sym six_bits bytes3_encode sym_not_PAD)
next
  case (4 a b c r)
  then show ?case
    by (simp add: sym_value_sym six_bits bytes4_encode sym_not_PAD)
qed simp

lemma b64_encode_graph: "x \<in> set (b64_encode bs) \<Longrightarrow> is_graph x"
proof (induction bs rule: b64_encode.induct)
  case (2 a)
  then show ?case by (auto simp: sym_graph six_bits is_graph_def [of PAD])
next
  case (3 a b)
  then show ?case by (auto simp: sym_graph six_bits is_graph_def [of PAD])
next
  case (4 a b c r)
  then show ?case by (auto simp: sym_graph six_bits)
qed simp

lemma graph_not_newline: "is_graph c \<Longrightarrow> c \<noteq> LF \<and> c \<noteq> CR \<and> c \<noteq> TAB \<and> c \<noteq> CHR '' ''"
  by (auto simp: is_graph_def)

lemma b64_decode_encode: "b64_decode (b64_encode bs) = Some bs"
proof -
  have "filter (\<lambda>c. c \<noteq> LF \<and> c \<noteq> CR) (b64_encode bs) = b64_encode bs"
    using b64_encode_graph graph_not_newline by (intro filter_True) blast
  then show ?thesis by (simp add: b64_decode_def decode_encode_padded)
qed

lemma b64_encode_no_LF: "LF \<notin> set (b64_encode bs)"
  using b64_encode_graph graph_not_newline by blast

lemma length_b64_encode: "length (b64_encode bs) = 4 * ((length bs + 2) div 3)"
proof (induction bs rule: b64_encode.induct)
  case (4 a b c r)
  have "(length r + 5) div 3 = Suc ((length r + 2) div 3)"
    using div_add_self2 [of 3 "length r + 2"] by simp
  with 4 show ?case by (simp add: add.commute)
qed simp_all

end
