(* ===== verification/Pipeline.thy ===== *)
theory Pipeline
  imports Kv_Store Scrollback Control_Seq Go_Base64
begin

text \<open>
  \<open>internal/pipeline/pipeline.go\<close>: the relay of one stream. The key-value store is shared by pointer
  between the pipelines of a session, so it is passed next to the pipeline and returned with it. A
  filter is a value of type \<open>'f\<close> with its own state; \<open>run\<close> applies one to a line. Sinks and control
  handlers are named by values of \<open>'s\<close> and \<open>'h\<close>: a call of one is an effect in the list that an
  operation returns, in the order in which the code makes the calls.
\<close>

record ('f, 's, 'h) pipeline =
  pl_targetID :: target_id
  pl_TimestampEnabled :: bool
  pl_MaxFilterStages :: int
  pl_sinks :: "'s list"
  pl_controlHandler :: "'h option"
  pl_scrollback :: scrollback
  pl_filters :: "'f list"

datatype ('s, 'h) effect =
    CallSink 's target_id string
  | CallHandler 'h target_id sequence

type_synonym 'f filter_fun = "'f \<Rightarrow> string \<Rightarrow> 'f \<times> string \<times> bool"

definition pl_New :: "target_id \<Rightarrow> bool \<Rightarrow> int \<Rightarrow> scrollback \<Rightarrow> ('f, 's, 'h) pipeline" where
  "pl_New t ts maxStages sb =
     \<lparr>pl_targetID = t, pl_TimestampEnabled = ts, pl_MaxFilterStages = maxStages, pl_sinks = [],
      pl_controlHandler = None, pl_scrollback = sb, pl_filters = []\<rparr>"

definition AddSink :: "'s \<Rightarrow> ('f, 's, 'h) pipeline \<Rightarrow> ('f, 's, 'h) pipeline" where
  "AddSink s p = p\<lparr>pl_sinks := pl_sinks p @ [s]\<rparr>"

definition SetControlHandler :: "'h \<Rightarrow> ('f, 's, 'h) pipeline \<Rightarrow> ('f, 's, 'h) pipeline" where
  "SetControlHandler h p = p\<lparr>pl_controlHandler := Some h\<rparr>"

definition AddFilter :: "'f \<Rightarrow> ('f, 's, 'h) pipeline \<Rightarrow> ('f, 's, 'h) pipeline result" where
  "AddFilter f p =
     (if 0 < pl_MaxFilterStages p \<and> pl_MaxFilterStages p \<le> int (length (pl_filters p)) then
        Inl (Errorf ''filter chain for target %q is at maximum of %d stages''
               [AStr (tid_String (pl_targetID p)), AInt (pl_MaxFilterStages p)])
      else Inr (p\<lparr>pl_filters := pl_filters p @ [f]\<rparr>))"

definition SetTimestamp :: "bool \<Rightarrow> ('f, 's, 'h) pipeline \<Rightarrow> ('f, 's, 'h) pipeline" where
  "SetTimestamp enabled p = p\<lparr>pl_TimestampEnabled := enabled\<rparr>"

definition maybeDecodeBase64 :: "string \<Rightarrow> string" where
  "maybeDecodeBase64 line =
     (if \<not> HasPrefix line ''b64:'' then line
      else (case b64_decode (drop 4 line) of None \<Rightarrow> line | Some decoded \<Rightarrow> decoded))"

text \<open>The filter loop: the filters after one that drops the line do not run.\<close>

fun run_filters :: "'f filter_fun \<Rightarrow> 'f list \<Rightarrow> string \<Rightarrow> 'f list \<times> string option" where
  "run_filters run [] line = ([], Some line)"
| "run_filters run (f # fs) line =
     (case run f line of (f', line', keep) \<Rightarrow>
        if \<not> keep then (f' # fs, None)
        else (case run_filters run fs line' of (fs', out) \<Rightarrow> (f' # fs', out)))"

text \<open>\<open>now\<close> is the RFC 3339 text of the clock.\<close>

definition dispatchContent ::
    "'f filter_fun \<Rightarrow> string \<Rightarrow> string \<Rightarrow> ('f, 's, 'h) pipeline \<Rightarrow> ('f, 's, 'h) pipeline \<times> ('s, 'h) effect list" where
  "dispatchContent run now line p =
     (case run_filters run (pl_filters p) (maybeDecodeBase64 line) of
        (fs', None) \<Rightarrow> (p\<lparr>pl_filters := fs'\<rparr>, [])
      | (fs', Some line') \<Rightarrow>
          let out = (if pl_TimestampEnabled p then now @ '' '' @ line' else line')
          in (p\<lparr>pl_filters := fs', pl_scrollback := sb_Append (pl_scrollback p) out\<rparr>,
              map (\<lambda>s. CallSink s (pl_targetID p) out) (pl_sinks p)))"

fun apply_pairs :: "(string \<times> string) list \<Rightarrow> kv_store \<Rightarrow> kv_store \<times> go_err option" where
  "apply_pairs [] kv = (kv, None)"
| "apply_pairs ((k, v) # rest) kv =
     (case ParseKey k of
        Inl e \<Rightarrow> (kv, Some (Wrapf ''invalid KV key %q: %w'' [AStr k] e))
      | Inr key \<Rightarrow>
          (case kv_Set key v kv of
             Inl e \<Rightarrow> (kv, Some (Wrapf ''setting KV key %q: %w'' [AStr k] e))
           | Inr kv' \<Rightarrow> apply_pairs rest kv'))"

definition applyKVSequence :: "sequence \<Rightarrow> kv_store \<Rightarrow> kv_store \<times> go_err option" where
  "applyKVSequence seq kv =
     (case KVPairs seq of
        Inl e \<Rightarrow> (kv, Some (Wrapf ''parsing KV sequence: %w'' [] e))
      | Inr pairs \<Rightarrow> apply_pairs pairs kv)"

definition processLine ::
    "'f filter_fun \<Rightarrow> string \<Rightarrow> string \<Rightarrow> ('f, 's, 'h) pipeline \<Rightarrow> kv_store
      \<Rightarrow> ('f, 's, 'h) pipeline \<times> kv_store \<times> ('s, 'h) effect list \<times> go_err option" where
  "processLine run now raw p kv =
     (case Parse raw of
        Some seq \<Rightarrow>
          if IsVerbatim seq then
            (case dispatchContent run now (sq_Payload seq) p of (p', es) \<Rightarrow> (p', kv, es, None))
          else if sq_Kind seq = KindBase64 then
            (case dispatchContent run now (''b64:'' @ sq_Payload seq) p of (p', es) \<Rightarrow> (p', kv, es, None))
          else if sq_Kind seq = KindKV then
            (case applyKVSequence seq kv of (kv', err) \<Rightarrow> (p, kv', [], err))
          else
            (p, kv, (case pl_controlHandler p of None \<Rightarrow> [] | Some h \<Rightarrow> [CallHandler h (pl_targetID p) seq]), None)
      | None \<Rightarrow> (case dispatchContent run now raw p of (p', es) \<Rightarrow> (p', kv, es, None)))"

text \<open>
  The scanning loop of \<open>Run\<close>, for any way \<open>step\<close> of processing one line: before each line the context
  may be found cancelled (\<open>done i\<close> for the \<open>i\<close>-th line), the first error ends the loop, and a line that
  is too long ends it after the lines before it.
\<close>

definition ErrTooLong :: go_err where "ErrTooLong = Extern ''bufio.Scanner: token too long''"

fun run_lines :: "(string \<Rightarrow> 'z \<Rightarrow> 'z \<times> go_err option) \<Rightarrow> (nat \<Rightarrow> bool) \<Rightarrow> go_err \<Rightarrow> nat \<Rightarrow> string list
    \<Rightarrow> go_err option \<Rightarrow> 'z \<Rightarrow> 'z \<times> go_err option" where
  "run_lines step done ctxErr i [] scanErr z = (z, scanErr)"
| "run_lines step done ctxErr i (l # ls) scanErr z =
     (if done i then (z, Some ctxErr)
      else (case step l z of
              (z', Some e) \<Rightarrow> (z', Some e)
            | (z', None) \<Rightarrow> run_lines step done ctxErr (Suc i) ls scanErr z'))"

definition pl_Run :: "(string \<Rightarrow> 'z \<Rightarrow> 'z \<times> go_err option) \<Rightarrow> (nat \<Rightarrow> bool) \<Rightarrow> go_err \<Rightarrow> string \<Rightarrow> 'z \<Rightarrow> 'z \<times> go_err option" where
  "pl_Run step done ctxErr d z =
     (case scan_lines d of (ls, tooLong) \<Rightarrow>
        run_lines step done ctxErr 0 ls (if tooLong then Some ErrTooLong else None) z)"

section \<open>Lemmas\<close>

text \<open>The step of a pipeline on its own, which collects the effects.\<close>

definition own_step ::
    "'f filter_fun \<Rightarrow> string \<Rightarrow> string \<Rightarrow> ('f, 's, 'h) pipeline \<times> kv_store \<times> ('s, 'h) effect list
      \<Rightarrow> (('f, 's, 'h) pipeline \<times> kv_store \<times> ('s, 'h) effect list) \<times> go_err option" where
  "own_step run now raw z =
     (case z of (p, kv, es) \<Rightarrow>
        (case processLine run now raw p kv of (p', kv', es', err) \<Rightarrow> ((p', kv', es @ es'), err)))"

lemma maybeDecode_plain: "\<not> HasPrefix line ''b64:'' \<Longrightarrow> maybeDecodeBase64 line = line"
  by (simp add: maybeDecodeBase64_def)

lemma maybeDecode_encode [simp]: "maybeDecodeBase64 (''b64:'' @ b64_encode d) = d"
  by (simp add: maybeDecodeBase64_def b64_decode_encode)

lemma length_run_filters: "length (fst (run_filters run fs line)) = length fs"
proof (induction fs arbitrary: line)
  case (Cons f fs)
  obtain f' line' keep where r: "run f line = (f', line', keep)" by (metis prod_cases3)
  obtain fs' out where rs: "run_filters run fs line' = (fs', out)" by fastforce
  with Cons.IH [of line'] r show ?case by simp
qed simp

text \<open>The effect of the loop on what the store reads back.\<close>

lemma apply_pairs_get:
  assumes "kv_inv kv"
  shows "\<exists>n \<le> length ps. kv_Get (fst (apply_pairs ps kv)) = kv_Get kv ++ map_of (rev (map (\<lambda>(k, v). (Key k, v)) (take n ps)))
     \<and> (snd (apply_pairs ps kv) = None \<longleftrightarrow> n = length ps)"
  using assms
proof (induction ps kv rule: apply_pairs.induct)
  case (2 k v rest kv)
  show ?case
  proof (cases "ParseKey k")
    case (Inl e)
    then show ?thesis by (intro exI [of _ 0]) simp
  next
    case key: (Inr key)
    show ?thesis
    proof (cases "kv_Set key v kv")
      case (Inl e)
      with key show ?thesis by (intro exI [of _ 0]) simp
    next
      case (Inr kv')
      have inv: "kv_inv kv'" and get: "kv_Get kv' = (kv_Get kv)(key \<mapsto> v)"
        using kvs.add_ok [OF "2.prems" Inr] kvs.add_get [OF "2.prems" Inr] by auto
      obtain n where n: "n \<le> length rest \<and> kv_Get (fst (apply_pairs rest kv')) =
          kv_Get kv' ++ map_of (rev (map (\<lambda>(k, v). (Key k, v)) (take n rest)))
          \<and> (snd (apply_pairs rest kv') = None \<longleftrightarrow> n = length rest)"
        using "2.IH" [OF key Inr inv] by (rule exE)
      have "apply_pairs ((k, v) # rest) kv = apply_pairs rest kv'" using key Inr by simp
      moreover have "key = Key k" using key by (simp add: ParseKey_Inr)
      ultimately show ?thesis using n get
        by (intro exI [of _ "Suc n"]) (simp add: map_add_def fun_eq_iff split: option.split)
    qed
  qed
qed simp

lemma kv_inv_pairs [inv_intros]: "kv_inv kv \<Longrightarrow> kv_inv (fst (apply_pairs ps kv))"
  by (induction ps kv rule: apply_pairs.induct) (auto split: sum.split dest: kvs.add_ok)

lemma kv_inv_applyKV [inv_intros]: "kv_inv kv \<Longrightarrow> kv_inv (fst (applyKVSequence q kv))"
  by (auto simp: applyKVSequence_def kv_inv_pairs split: sum.split)

lemma kv_inv_applyKV': "applyKVSequence q kv = (kv', err) \<Longrightarrow> kv_inv kv \<Longrightarrow> kv_inv kv'"
  using kv_inv_applyKV [of kv q] by simp

lemma processLine_kv_inv: "kv_inv kv \<Longrightarrow> processLine run now raw p kv = (p', kv', es, err) \<Longrightarrow> kv_inv kv'"
  by (auto simp: processLine_def split: option.splits if_splits prod.splits dest: kv_inv_applyKV')

lemma run_lines_append:
  assumes "run_lines step done ctxErr i ls None z = (z', None)"
  shows "run_lines step done ctxErr i (ls @ ms) e z = run_lines step done ctxErr (i + length ls) ms e z'"
  using assms by (induction ls arbitrary: i z) (auto split: if_splits prod.splits option.splits)

section \<open>Properties\<close>

text \<open>The three ways of writing a line of content: as it is, escaped, and as base64 of any bytes.\<close>

datatype item = Plain string | Verbatim string | Binary string

primrec item_line :: "item \<Rightarrow> string" where
  "item_line (Plain s) = s"
| "item_line (Verbatim s) = ''v:'' @ s"
| "item_line (Binary d) = ''b64:'' @ b64_encode d"

primrec item_data :: "item \<Rightarrow> string" where
  "item_data (Plain s) = s"
| "item_data (Verbatim s) = s"
| "item_data (Binary d) = d"

definition item_ok :: "item \<Rightarrow> bool" where
  "item_ok i \<longleftrightarrow> LF \<notin> set (item_line i) \<and> length (item_line i) < 65536 \<and> dropCR (item_line i) = item_line i
     \<and> (case i of Plain s \<Rightarrow> Parse s = None | Verbatim s \<Rightarrow> \<not> HasPrefix s ''b64:'' | Binary d \<Rightarrow> True)"

lemma plain_not_b64: "Parse s = None \<Longrightarrow> \<not> HasPrefix s ''b64:''"
  using Parse_b64 by (auto simp: HasPrefix_iff)

lemma binary_ok: "length d \<le> 49146 \<Longrightarrow> item_ok (Binary d)"
proof -
  assume "length d \<le> 49146"
  moreover have "LF \<notin> set (''b64:'' @ b64_encode d)" using b64_encode_no_LF [of d] by simp
  moreover have "dropCR (''b64:'' @ b64_encode d) = ''b64:'' @ b64_encode d"
  proof (rule dropCR_id)
    have "last (''b64:'' @ b64_encode d) \<in> set (''b64:'' @ b64_encode d)" by (rule last_in_set) simp
    moreover have "CR \<notin> set (''b64:'' @ b64_encode d)"
      using b64_encode_graph [of CR d] by (auto simp: is_graph_def)
    ultimately show "''b64:'' @ b64_encode d = [] \<or> last (''b64:'' @ b64_encode d) \<noteq> CR" by metis
  qed
  ultimately show ?thesis by (simp add: item_ok_def length_b64_encode)
qed

lemma dispatch_plain:
  assumes "pl_filters p = []" and "\<not> pl_TimestampEnabled p"
  shows "dispatchContent run now line p =
    (p\<lparr>pl_scrollback := sb_Append (pl_scrollback p) (maybeDecodeBase64 line)\<rparr>,
     map (\<lambda>s. CallSink s (pl_targetID p) (maybeDecodeBase64 line)) (pl_sinks p))"
  using assms by (cases p) (simp add: dispatchContent_def)

lemma processLine_item:
  assumes "item_ok i" and "pl_filters p = []" and "\<not> pl_TimestampEnabled p"
  shows "processLine run now (item_line i) p kv =
    (p\<lparr>pl_scrollback := sb_Append (pl_scrollback p) (item_data i)\<rparr>, kv,
     map (\<lambda>s. CallSink s (pl_targetID p) (item_data i)) (pl_sinks p), None)"
proof (cases i)
  case (Plain s)
  with assms show ?thesis
    by (simp add: item_ok_def processLine_def dispatch_plain maybeDecode_plain plain_not_b64)
next
  case (Verbatim s)
  then have "Parse (item_line i) = Some (mk_seq KindVerbatim s)" by (simp add: Parse_verbatim)
  with assms Verbatim show ?thesis
    by (simp add: item_ok_def processLine_def dispatch_plain maybeDecode_plain IsVerbatim_def)
next
  case (Binary d)
  then have "Parse (item_line i) = Some (mk_seq KindBase64 (b64_encode d))" using Parse_b64 [of "b64_encode d"] by simp
  moreover have "maybeDecodeBase64 (''b64:'' @ b64_encode d) = d" by (rule maybeDecode_encode)
  ultimately show ?thesis using assms Binary
    by (simp add: processLine_def dispatch_plain IsVerbatim_def)
qed

lemma run_lines_items:
  assumes "list_all item_ok items" and "pl_filters p = []" and "\<not> pl_TimestampEnabled p"
  shows "run_lines (own_step run now) (\<lambda>_. False) e i (map item_line items) err (p, kv, es) =
    ((p\<lparr>pl_scrollback := foldl sb_Append (pl_scrollback p) (map item_data items)\<rparr>, kv,
      es @ concat (map (\<lambda>i. map (\<lambda>s. CallSink s (pl_targetID p) (item_data i)) (pl_sinks p)) items)), err)"
  using assms
proof (induction items arbitrary: i p es)
  case (Cons x items)
  let ?p = "p\<lparr>pl_scrollback := sb_Append (pl_scrollback p) (item_data x)\<rparr>"
  from Cons.prems have "pl_filters ?p = []" "\<not> pl_TimestampEnabled ?p" "list_all item_ok items" by simp_all
  from Cons.IH [OF this(3,1,2)] Cons.prems show ?case
    by (simp add: own_step_def processLine_item)
qed simp

lemma scan_items:
  "list_all item_ok items \<Longrightarrow> LF \<notin> set bad \<Longrightarrow> length bad < 65536 \<Longrightarrow>
     scan_lines (concat (map (\<lambda>i. item_line i @ [LF]) items) @ bad @ LF # rest)
       = (map item_line items @ dropCR bad # fst (scan_lines rest), snd (scan_lines rest))"
proof (induction items)
  case Nil
  then show ?case using scan_lines_step [of bad rest] by (simp add: MaxScanTokenSize_def)
next
  case (Cons i items)
  then show ?case
    using scan_lines_step [of "item_line i" "concat (map (\<lambda>i. item_line i @ [LF]) items) @ bad @ LF # rest"]
    by (simp add: item_ok_def MaxScanTokenSize_def)
qed

lemma Run_items:
  assumes "list_all item_ok items" and "pl_filters p = []" and "\<not> pl_TimestampEnabled p"
  shows "pl_Run (own_step run now) (\<lambda>_. False) ctxErr (concat (map (\<lambda>i. item_line i @ [LF]) items)) (p, kv, []) =
    ((p\<lparr>pl_scrollback := foldl sb_Append (pl_scrollback p) (map item_data items)\<rparr>, kv,
      concat (map (\<lambda>i. map (\<lambda>s. CallSink s (pl_targetID p) (item_data i)) (pl_sinks p)) items)), None)"
proof -
  have "scan_lines (concat (map (\<lambda>l. l @ [LF]) (map item_line items))) = (map dropCR (map item_line items), False)"
    using assms(1) by (intro scan_lines_lines) (auto simp: list_all_iff item_ok_def MaxScanTokenSize_def)
  moreover have "map dropCR (map item_line items) = map item_line items"
    using assms(1) by (auto simp: list_all_iff item_ok_def)
  ultimately have "scan_lines (concat (map (\<lambda>i. item_line i @ [LF]) items)) = (map item_line items, False)"
    by (simp add: comp_def)
  then show ?thesis using run_lines_items [OF assms] by (simp add: pl_Run_def)
qed

text \<open>
  Content is delivered exactly: for any sequence of lines of content, written plainly (when no
  control prefix matches), escaped with \<open>v:\<close> or as base64 of arbitrary bytes (up to 49146 of them, so
  that the line is shorter than 64 KiB), a run of a pipeline without filters and timestamps sends the
  data of each line, unchanged and in order, to every sink once and in the order of registration,
  and the scrollback keeps the last of them up to its capacity; it ends without an error and touches
  no key.
\<close>

theorem Run_delivers:
  assumes "list_all item_ok items" and "pl_filters p = []" and "\<not> pl_TimestampEnabled p"
    and "sb_inv (pl_scrollback p)"
  shows "case pl_Run (own_step run now) (\<lambda>_. False) ctxErr (concat (map (\<lambda>i. item_line i @ [LF]) items)) (p, kv, []) of
    ((p', kv', es), err) \<Rightarrow>
      es = concat (map (\<lambda>i. map (\<lambda>s. CallSink s (pl_targetID p) (item_data i)) (pl_sinks p)) items)
      \<and> sb_Lines (pl_scrollback p') = keep_last (sb_Cap (pl_scrollback p)) (sb_Lines (pl_scrollback p) @ map item_data items)
      \<and> err = None \<and> kv' = kv"
  using sb.append_all [OF assms(4), of "map item_data items"] Run_items [OF assms(1-3)] by simp

definition pl_example :: "(nat, nat, nat) pipeline" where
  "pl_example = AddSink 1 (AddSink 0 (pl_New (TargetID ''log'') False 8 (NewScrollbackBuffer 2)))"

lemma example_items: "item_ok (Plain ''hi there'')" "item_ok (Verbatim ''q:not a command'')"
  by (simp_all add: item_ok_def dropCR_def Parse_no_colon)

theorem Run_delivers_witness:
  "list_all item_ok [Plain ''hi there'', Verbatim ''q:not a command'', Binary [CHR 0x00, CHR 0xFF, LF]]
   \<and> (case pl_Run (own_step (\<lambda>f l. (f, l, True)) ''t'') (\<lambda>_. False) (Extern ''ctx'')
        (''hi there'' @ [LF] @ ''v:q:not a command'' @ [LF] @ ''b64:AP8K'' @ [LF]) (pl_example, kv_New, []) of
      ((p', kv', es), err) \<Rightarrow> length es = 6 \<and> sb_Lines (pl_scrollback p') = [''q:not a command'', [CHR 0x00, CHR 0xFF, LF]])"
proof -
  have ok: "list_all item_ok [Plain ''hi there'', Verbatim ''q:not a command'', Binary [CHR 0x00, CHR 0xFF, LF]]"
    using binary_ok [of "[CHR 0x00, CHR 0xFF, LF]"] example_items by simp
  have "b64_encode [CHR 0x00, CHR 0xFF, LF] = ''AP8K''" by code_simp
  moreover have "sb_Cap (pl_scrollback pl_example) = 2" "sb_inv (pl_scrollback pl_example)"
      "sb_Lines (pl_scrollback pl_example) = []" "length (pl_sinks pl_example) = 2"
    by (simp_all add: pl_example_def AddSink_def pl_New_def sb_Cap_def NewScrollbackBuffer_def Let_def
        DefaultScrollbackCap_def MaxScrollbackCap_def sb_inv_def sb_Lines_def)
  moreover have "pl_filters pl_example = []" "\<not> pl_TimestampEnabled pl_example"
    by (simp_all add: pl_example_def AddSink_def pl_New_def)
  ultimately show ?thesis
    using ok Run_delivers [OF ok, where p = pl_example and run = "\<lambda>f l. (f, l, True)" and now = "''t''"
        and ctxErr = "Extern ''ctx''" and kv = kv_New]
    by (simp add: keep_last_def split: prod.splits)
qed

text \<open>
  The escape does not reach through base64: the payload of \<open>v:\<close> is still decoded when it starts with
  \<open>b64:\<close>, so the literal text \<open>b64:aGk=\<close> cannot be sent with it.
\<close>

lemma verbatim_still_decodes:
  "fst (snd (snd (processLine run now ''v:b64:aGk='' (pl_New t False 0 sb\<lparr>pl_sinks := [x]\<rparr>) kv))) = [CallSink x t ''hi'']"
proof -
  have "Parse ''v:b64:aGk='' = Some (mk_seq KindVerbatim ''b64:aGk='')" by code_simp
  moreover have "maybeDecodeBase64 ''b64:aGk='' = ''hi''" by code_simp
  ultimately show ?thesis by (simp add: processLine_def IsVerbatim_def dispatch_plain pl_New_def)
qed

text \<open>
  A key-value line never reaches a sink, the scrollback or the handler. It sets its pairs from left
  to right: when it succeeds every pair is set (the last value of a repeated key wins) and no other
  key changes; when a pair is refused, exactly the pairs of an initial segment are set and the error
  is returned.
\<close>

theorem kv_line:
  assumes "kv_inv kv" and "list_all kv_plain kvs"
  shows "case processLine run now (''=:'' @ kv_payload kvs) p kv of
    (p', kv', es, err) \<Rightarrow> p' = p \<and> es = [] \<and> kv_inv kv' \<and>
      (\<exists>n \<le> length kvs. kv_Get kv' = kv_Get kv ++ map_of (rev (map (\<lambda>(k, v). (Key k, v)) (take n kvs)))
         \<and> (err = None \<longleftrightarrow> n = length kvs))"
proof -
  let ?f = "\<lambda>(k, v). (Key k, v :: string)"
  have "processLine run now (''=:'' @ kv_payload kvs) p kv = (case apply_pairs kvs kv of (kv', err) \<Rightarrow> (p, kv', [], err))"
    using KVPairs_plain [OF assms(2)] Parse_kv [of "kv_payload kvs"]
    by (simp add: processLine_def IsVerbatim_def applyKVSequence_def split: prod.split)
  moreover have "\<exists>n \<le> length kvs. kv_Get (fst (apply_pairs kvs kv)) = kv_Get kv ++ map_of (rev (map ?f (take n kvs)))
      \<and> (snd (apply_pairs kvs kv) = None \<longleftrightarrow> n = length kvs)"
    by (rule apply_pairs_get [OF assms(1)])
  ultimately show ?thesis using kv_inv_pairs [OF assms(1), of kvs]
    by (cases "apply_pairs kvs kv") simp
qed

theorem kv_line_witness:
  "\<exists>kv'. processLine (\<lambda>f l. (f, l, True)) ''t'' ''=:a=1;b=2'' pl_example kv_New = (pl_example, kv', [], None)
     \<and> kv_Get kv' (Key ''a'') = Some ''1'' \<and> kv_Get kv' (Key ''b'') = Some ''2'' \<and> kv_inv kv'"
proof -
  have plain: "list_all kv_plain [(''a'', ''1''), (''b'', ''2'')]"
    by (simp add: kv_plain_def TrimSpace_graph is_graph_def)
  have line: "''=:'' @ kv_payload [(''a'', ''1''), (''b'', ''2'')] = ''=:a=1;b=2''" by (simp add: kv_payload_def)
  obtain kv' where run: "processLine (\<lambda>f l. (f, l, True)) ''t'' ''=:a=1;b=2'' pl_example kv_New = (pl_example, kv', [], None)"
    and get: "kv_Get kv' (Key ''a'') = Some ''1''" "kv_Get kv' (Key ''b'') = Some ''2''"
  proof -
    have "Parse ''=:a=1;b=2'' = Some (mk_seq KindKV ''a=1;b=2'')" using Parse_kv [of "''a=1;b=2''"] by simp
    moreover have "KVPairs (mk_seq KindKV ''a=1;b=2'') = Inr [(''a'', ''1''), (''b'', ''2'')]"
      using KVPairs_plain [OF plain] by (simp add: kv_payload_def)
    moreover have "ParseKey ''a'' = Inr (Key ''a'')" "ParseKey ''b'' = Inr (Key ''b'')" by code_simp+
    ultimately show ?thesis
      by (intro that [of "\<lparr>kv_data = [(Key ''a'', ''1''), (Key ''b'', ''2'')], kv_totalBytes = 2\<rparr>"])
       (simp_all add: processLine_def IsVerbatim_def applyKVSequence_def kv_Set_def kv_New_def
          Let_def ValueMaxBytes_def StoreMaxBytes_def gm_put_def kv_Get_def gm_get_def)
  qed
  from kv_line [OF kv_inv_New plain, where run = "\<lambda>f l. (f, l, True)" and now = "''t''" and p = pl_example, unfolded line]
    run get show ?thesis by (intro exI [of _ kv']) (simp only: prod.case simp_thms)
qed

text \<open>
  A stream stops at its first bad line: when a line between lines of content makes an error (a
  malformed key-value line, say), the run returns that error with exactly the lines before it
  delivered, and the lines after it are lost, whatever they are.
\<close>

theorem Run_stops_at_error:
  assumes "list_all item_ok items" and "pl_filters p = []" and "\<not> pl_TimestampEnabled p"
    and "LF \<notin> set bad" and "length bad < 65536"
    and "Parse (dropCR bad) = Some q" and "sq_Kind q = KindKV" and "snd (applyKVSequence q kv) = Some badErr"
  shows "pl_Run (own_step run now) (\<lambda>_. False) ctxErr
      (concat (map (\<lambda>i. item_line i @ [LF]) items) @ bad @ [LF] @ rest) (p, kv, []) =
    ((p\<lparr>pl_scrollback := foldl sb_Append (pl_scrollback p) (map item_data items)\<rparr>, fst (applyKVSequence q kv),
      concat (map (\<lambda>i. map (\<lambda>s. CallSink s (pl_targetID p) (item_data i)) (pl_sinks p)) items)), Some badErr)"
proof -
  let ?sent = "concat (map (\<lambda>i. map (\<lambda>s. CallSink s (pl_targetID p) (item_data i)) (pl_sinks p)) items)"
  let ?p = "p\<lparr>pl_scrollback := foldl sb_Append (pl_scrollback p) (map item_data items)\<rparr>"
  have scan: "scan_lines (concat (map (\<lambda>i. item_line i @ [LF]) items) @ bad @ [LF] @ rest)
      = (map item_line items @ dropCR bad # fst (scan_lines rest), snd (scan_lines rest))"
    using assms(1,4,5) scan_items by simp
  have "run_lines (own_step run now) (\<lambda>_. False) ctxErr 0 (map item_line items) None (p, kv, []) = ((?p, kv, ?sent), None)"
    using run_lines_items [OF assms(1-3)] by simp
  note run = run_lines_append [OF this]
  have "processLine run now (dropCR bad) ?p kv = (?p, fst (applyKVSequence q kv), [], Some badErr)"
    using assms(6-8) by (cases "applyKVSequence q kv") (simp add: processLine_def IsVerbatim_def)
  then show ?thesis
    unfolding pl_Run_def scan by (simp add: run own_step_def)
qed

lemma malformed_line:
  "Parse ''=:novalue'' = Some (mk_seq KindKV ''novalue'')"
  "applyKVSequence (mk_seq KindKV ''novalue'') kv = (kv, Some (Wrapf ''parsing KV sequence: %w'' [] (malformed_pair ''novalue'')))"
proof -
  show "Parse ''=:novalue'' = Some (mk_seq KindKV ''novalue'')" using Parse_kv [of "''novalue''"] by simp
  have "TrimSpace ''novalue'' = ''novalue''" by (rule TrimSpace_graph) (simp_all add: is_graph_def)
  then show "applyKVSequence (mk_seq KindKV ''novalue'') kv = (kv, Some (Wrapf ''parsing KV sequence: %w'' [] (malformed_pair ''novalue'')))"
    by (simp add: applyKVSequence_def KVPairs_def Let_def)
qed

theorem Run_stops_at_error_witness:
  "\<exists>z. pl_Run (own_step (\<lambda>f l. (f, l, True)) ''t'') (\<lambda>_. False) (Extern ''ctx'')
     (''hi there'' @ [LF] @ ''=:novalue'' @ [LF] @ ''lost'' @ [LF]) (pl_example, kv_New, []) =
     (z, Some (Wrapf ''parsing KV sequence: %w'' [] (malformed_pair ''novalue'')))
     \<and> snd (snd z) = [CallSink 0 (TargetID ''log'') ''hi there'', CallSink 1 (TargetID ''log'') ''hi there'']"
proof -
  have items: "list_all item_ok [Plain ''hi there'']" using example_items by simp
  have p: "pl_filters pl_example = []" "\<not> pl_TimestampEnabled pl_example" "pl_sinks pl_example = [0, 1]"
      "pl_targetID pl_example = TargetID ''log''"
    by (simp_all add: pl_example_def AddSink_def pl_New_def)
  have bad: "LF \<notin> set ''=:novalue''" "length ''=:novalue'' < 65536" "dropCR ''=:novalue'' = ''=:novalue''"
    by (simp_all add: dropCR_def)
  have "Parse (dropCR ''=:novalue'') = Some (mk_seq KindKV ''novalue'')" using malformed_line(1) bad(3) by simp
  from Run_stops_at_error [OF items p(1,2) bad(1,2) this, where kv = kv_New
      and badErr = "Wrapf ''parsing KV sequence: %w'' [] (malformed_pair ''novalue'')"
      and run = "\<lambda>f l. (f, l, True)" and now = "''t''" and ctxErr = "Extern ''ctx''" and rest = "''lost'' @ [LF]"]
  show ?thesis by (simp add: malformed_line(2) p(3,4))
qed

end
