(* ===== verification/Cmd_Filter.thy ===== *)
theory Cmd_Filter
  imports Pipeline
begin

text \<open>
  \<open>internal/pipeline/cmdfilter.go\<close>: a shell command as a filter. The subprocess is code outside the
  repository: its state is a value of type \<open>'p\<close>, and what it does are the fields of an \<open>os_proc\<close>
  record: starting it, writing a line to its standard input, reading a line from its output.
\<close>

datatype 'p spawn_result =
    StdinPipeFails go_err
  | StdoutPipeFails go_err
  | StartFails go_err
  | Started 'p

record 'p os_proc =
  os_spawn :: "string \<Rightarrow> string list \<Rightarrow> 'p spawn_result"
  os_write :: "'p \<Rightarrow> string \<Rightarrow> 'p option"
  os_scan :: "'p \<Rightarrow> 'p \<times> string option"

text \<open>
  \<open>cf_cmd\<close> is the process with its pipes (assigned by the constructors, and kept after its death), \<open>cf_injects\<close> says that a store
  was supplied. The environment is the list of the store's entries; an empty list makes the process
  inherit the server's environment, a non-empty one replaces it.
\<close>

record 'p cmd_filter =
  cf_cmdStr :: string
  cf_cmd :: "'p"
  cf_dead :: bool
  cf_injects :: bool

definition kv_env :: "kv_store \<Rightarrow> string list" where
  "kv_env kv = map (\<lambda>(k, v). key_String k @ ''='' @ v) (kv_Snapshot kv)"

definition cf_start :: "'p os_proc \<Rightarrow> kv_store option \<Rightarrow> string \<Rightarrow> 'p result" where
  "cf_start os kv cmdStr =
     (let env = (case kv of None \<Rightarrow> [] | Some s \<Rightarrow> kv_env s) in
      case os_spawn os cmdStr env of
        StdinPipeFails e \<Rightarrow> Inl (Wrapf ''cmdfilter: stdin pipe: %w'' [] e)
      | StdoutPipeFails e \<Rightarrow> Inl (Wrapf ''cmdfilter: stdout pipe: %w'' [] e)
      | StartFails e \<Rightarrow> Inl (Wrapf ''cmdfilter: start %q: %w'' [AStr cmdStr] e)
      | Started p \<Rightarrow> Inr p)"

definition NewCmdFilter :: "'p os_proc \<Rightarrow> string \<Rightarrow> 'p cmd_filter result" where
  "NewCmdFilter os cmdStr =
     bindr (cf_start os None cmdStr) (\<lambda>p.
       Inr \<lparr>cf_cmdStr = cmdStr, cf_cmd = p, cf_dead = False, cf_injects = False\<rparr>)"

definition NewCmdFilterWithKV :: "'p os_proc \<Rightarrow> string \<Rightarrow> kv_store \<Rightarrow> 'p cmd_filter result" where
  "NewCmdFilterWithKV os cmdStr kv =
     bindr (cf_start os (Some kv) cmdStr) (\<lambda>p.
       Inr \<lparr>cf_cmdStr = cmdStr, cf_cmd = p, cf_dead = False, cf_injects = True\<rparr>)"

text \<open>The exchange with a running process: one line in, one line out.\<close>

definition cf_exchange :: "'p os_proc \<Rightarrow> string \<Rightarrow> 'p cmd_filter \<Rightarrow> 'p cmd_filter \<times> string \<times> bool" where
  "cf_exchange os line f =
     (case os_write os (cf_cmd f) (line @ [LF]) of
        None \<Rightarrow> (f\<lparr>cf_dead := True\<rparr>, line, True)
      | Some p1 \<Rightarrow>
          (case os_scan os p1 of
             (p2, None) \<Rightarrow> (f\<lparr>cf_dead := True, cf_cmd := p2\<rparr>, line, True)
           | (p2, Some out) \<Rightarrow>
               if out = [] then (f\<lparr>cf_cmd := p2\<rparr>, [], False)
               else (f\<lparr>cf_cmd := p2\<rparr>, out, True)))"

definition cf_Filter :: "'p os_proc \<Rightarrow> kv_store \<Rightarrow> 'p cmd_filter \<Rightarrow> string \<Rightarrow> 'p cmd_filter \<times> string \<times> bool" where
  "cf_Filter os kv f line =
     (if cf_dead f \<and> cf_injects f then
        (case cf_start os (Some kv) (cf_cmdStr f) of
           Inl _ \<Rightarrow> (f, line, True)
         | Inr p \<Rightarrow> cf_exchange os line (f\<lparr>cf_cmd := p, cf_dead := False\<rparr>))
      else if cf_dead f then (f, line, True)
      else cf_exchange os line f)"

definition cf_Close :: "'p cmd_filter \<Rightarrow> 'p cmd_filter" where
  "cf_Close f = (if cf_dead f then f else f\<lparr>cf_dead := True\<rparr>)"

section \<open>Lemmas\<close>

fun filter_lines :: "'f filter_fun \<Rightarrow> 'f \<Rightarrow> string list \<Rightarrow> 'f \<times> string option list" where
  "filter_lines run f [] = (f, [])"
| "filter_lines run f (l # ls) =
     (case run f l of (f', out, keep) \<Rightarrow>
        (case filter_lines run f' ls of (f'', outs) \<Rightarrow> (f'', (if keep then Some out else None) # outs)))"

lemma dead_passes: "cf_dead f \<Longrightarrow> \<not> cf_injects f \<Longrightarrow> filter_lines (cf_Filter os kv) f ls = (f, map Some ls)"
  by (induction ls) (auto simp: cf_Filter_def)

text \<open>
  A command filter fails open: when the process cannot take a line or gives no output for it, the
  line passes unchanged, and (without a key-value store) so does every later line, without another
  call of the process; a line is dropped only when the process answers it with an empty line.
\<close>

theorem cmd_filter_fails_open:
  assumes "\<not> cf_dead f" and "\<not> cf_injects f"
    and "case os_write os (cf_cmd f) (l @ [LF]) of None \<Rightarrow> True | Some p1 \<Rightarrow> snd (os_scan os p1) = None"
  shows "snd (filter_lines (cf_Filter os kv) f (l # ls)) = map Some (l # ls)
    \<and> cf_dead (fst (filter_lines (cf_Filter os kv) f (l # ls)))
    \<and> (\<forall>g x g' out. cf_Filter os kv g x = (g', out, False) \<longrightarrow>
         (\<exists>q p1 p2. os_write os q (x @ [LF]) = Some p1 \<and> os_scan os p1 = (p2, Some [])))"
proof -
  have "\<exists>f'. cf_Filter os kv f l = (f', l, True) \<and> cf_dead f' \<and> \<not> cf_injects f'"
    using assms by (auto simp: cf_Filter_def cf_exchange_def split: option.splits prod.splits)
  then obtain f' where f': "cf_Filter os kv f l = (f', l, True)" "cf_dead f'" "\<not> cf_injects f'" by blast
  have drops: "\<exists>q p1 p2. os_write os q (x @ [LF]) = Some p1 \<and> os_scan os p1 = (p2, Some [])"
    if "cf_Filter os kv g x = (g', out, False)" for g x g' out
    using that by (auto simp: cf_Filter_def cf_exchange_def split: option.splits prod.splits if_splits sum.splits)
  from f' drops show ?thesis by (simp add: dead_passes)
qed

text \<open>A process that answers two lines and ends.\<close>

definition os_example :: "nat os_proc" where
  "os_example = \<lparr>os_spawn = (\<lambda>_ _. Started 2), os_write = (\<lambda>n _. Some n),
     os_scan = (\<lambda>n. if n = 0 then (0, None) else (n - 1, Some (if n = 2 then ''x'' else [])))\<rparr>"

theorem cmd_filter_fails_open_witness:
  "snd (filter_lines (cf_Filter os_example kv_New)
      \<lparr>cf_cmdStr = ''head -2'', cf_cmd = 0, cf_dead = False, cf_injects = False\<rparr> [''a'', ''b'']) = [Some ''a'', Some ''b'']
   \<and> snd (filter_lines (cf_Filter os_example kv_New)
      \<lparr>cf_cmdStr = ''head -2'', cf_cmd = 2, cf_dead = False, cf_injects = False\<rparr> [''a'', ''b'', ''c'', ''d''])
      = [Some ''x'', None, Some ''c'', Some ''d'']"
proof -
  let ?f = "\<lparr>cf_cmdStr = ''head -2'', cf_cmd = 0, cf_dead = False, cf_injects = False\<rparr>"
  have "case os_write os_example 0 (''a'' @ [LF]) of None \<Rightarrow> True | Some p1 \<Rightarrow> snd (os_scan os_example p1) = None"
    by (simp add: os_example_def)
  from conjunct1 [OF cmd_filter_fails_open [of ?f os_example "''a''" kv_New "[''b'']"]] this
  have "snd (filter_lines (cf_Filter os_example kv_New) ?f [''a'', ''b'']) = [Some ''a'', Some ''b'']" by simp
  then show ?thesis by (simp add: cf_Filter_def cf_exchange_def os_example_def)
qed

end
