(* ===== verification/Bookmarks.thy ===== *)
theory Bookmarks
  imports Rdw_Prelude
begin

text \<open>
  \<open>internal/session/bookmark.go\<close>: the named bookmarks of a pane. The creation time comes from the
  caller's clock; the listing is the insertion sort of the source, swap by swap.
\<close>

record bookmark =
  bm_Name :: string
  bm_LineIndex :: int
  bm_CreatedAt :: int

type_synonym bookmarks = "(string, bookmark) gomap"

definition NewBookmarkStore :: bookmarks where "NewBookmarkStore = []"

definition bm_Add :: "int \<Rightarrow> string \<Rightarrow> int \<Rightarrow> bookmarks \<Rightarrow> bookmarks result" where
  "bm_Add now name lineIndex s =
     (if name = [] then Inl (Errorf ''bookmark name must not be empty'' [])
      else if lineIndex < 0 then Inl (Errorf ''line_index must be >= 0'' [])
      else Inr (gm_put name \<lparr>bm_Name = name, bm_LineIndex = lineIndex, bm_CreatedAt = now\<rparr> s))"

definition bm_Remove :: "string \<Rightarrow> bookmarks \<Rightarrow> bookmarks result" where
  "bm_Remove name s =
     (case gm_get s name of
        None \<Rightarrow> Inl (Errorf ''bookmark %q not found'' [AStr name])
      | Some _ \<Rightarrow> Inr (gm_del name s))"

definition bm_Get :: "bookmarks \<Rightarrow> string \<Rightarrow> bookmark option" where
  "bm_Get s name = gm_get s name"

text \<open>
  The inner loop moves the element at index \<open>j\<close> left by adjacent swaps while it is smaller than its
  left neighbour; the outer loop does this for every index from 1.
\<close>

fun sink :: "bookmark list \<Rightarrow> nat \<Rightarrow> bookmark list" where
  "sink out 0 = out"
| "sink out (Suc j) =
     (if bm_LineIndex (out ! Suc j) < bm_LineIndex (out ! j)
      then sink (out[Suc j := out ! j, j := out ! Suc j]) j
      else out)"

definition bm_All :: "bookmarks \<Rightarrow> bookmark list" where
  "bm_All s = (let out = map snd s in foldl sink out [1..<length out])"

definition bm_Len :: "bookmarks \<Rightarrow> nat" where "bm_Len s = length s"

section \<open>The store contract\<close>

text \<open>Bookmarks are stored under their own, non-empty name and have an index that is not negative.\<close>

definition bm_inv :: "bookmarks \<Rightarrow> bool" where
  "bm_inv s \<longleftrightarrow> gm_ok s \<and> list_all (\<lambda>(k, b). bm_Name b = k \<and> k \<noteq> [] \<and> 0 \<le> bm_LineIndex b) s"

lemma bm_inv_New [simp]: "bm_inv NewBookmarkStore"
  by (simp add: bm_inv_def NewBookmarkStore_def)

text \<open>The value a client adds is a line index together with the clock reading at that moment.\<close>

definition bm_mark :: "bookmarks \<Rightarrow> string \<Rightarrow> (int \<times> int) option" where
  "bm_mark s name = map_option (\<lambda>b. (bm_LineIndex b, bm_CreatedAt b)) (bm_Get s name)"

definition bm_put_mark :: "string \<Rightarrow> int \<times> int \<Rightarrow> bookmarks \<Rightarrow> bookmarks result" where
  "bm_put_mark name m s = bm_Add (snd m) name (fst m) s"

lemma bm_inv_Add [inv_intros]: "bm_inv s \<Longrightarrow> bm_Add now name i s = Inr s' \<Longrightarrow> bm_inv s'"
  by (auto simp: bm_Add_def bm_inv_def intro!: gm_all_put split: if_splits)

lemma bm_inv_Remove [inv_intros]: "bm_inv s \<Longrightarrow> bm_Remove name s = Inr s' \<Longrightarrow> bm_inv s'"
  by (auto simp: bm_Remove_def bm_inv_def intro!: gm_all_del split: option.splits)

interpretation bms: removable_store bm_mark bm_put_mark bm_inv
  "\<lambda>s name m. name \<noteq> [] \<and> 0 \<le> fst m" bm_Remove "\<lambda>s name. bm_mark s name \<noteq> None"
proof unfold_locales
  fix s s' :: bookmarks and k :: string and v :: "int \<times> int"
  show "is_ok (bm_put_mark k v s) \<longleftrightarrow> k \<noteq> [] \<and> 0 \<le> fst v"
    by (auto simp: bm_put_mark_def bm_Add_def)
  show "is_ok (bm_Remove k s) \<longleftrightarrow> bm_mark s k \<noteq> None"
    by (auto simp: bm_Remove_def bm_mark_def bm_Get_def split: option.split)
  {
    assume "bm_put_mark k v s = Inr s'"
    then show "bm_mark s' = (bm_mark s)(k \<mapsto> v)"
      by (auto simp: bm_put_mark_def bm_Add_def bm_mark_def bm_Get_def gm_get_put fun_eq_iff split: if_splits)
  next
    assume "bm_Remove k s = Inr s'"
    then show "bm_mark s' = (bm_mark s)(k := None)"
      by (auto simp: bm_Remove_def bm_mark_def bm_Get_def gm_get_del fun_eq_iff split: option.splits)
  }
qed (auto simp: bm_put_mark_def intro: inv_intros)

section \<open>The insertion sort\<close>

abbreviation by_line :: "bookmark list \<Rightarrow> bool" where
  "by_line \<equiv> sorted_wrt (\<lambda>a b. bm_LineIndex a \<le> bm_LineIndex b)"

lemma length_sink [simp]: "length (sink out j) = length out"
  by (induction out j rule: sink.induct) auto

lemma swap_mset:
  "Suc j < length xs \<Longrightarrow> mset (xs[Suc j := xs ! j, j := xs ! Suc j]) = mset xs"
  by (rule mset_swap) auto

lemma mset_sink: "j < length out \<Longrightarrow> mset (sink out j) = mset out"
  by (induction out j rule: sink.induct) (auto simp: swap_mset)

lemma sink_above: "j < i \<Longrightarrow> sink out j ! i = out ! i"
  by (induction out j rule: sink.induct) auto

text \<open>
  The part of the list up to index \<open>j\<close> is sorted but for the element at \<open>j\<close>, which is below everything
  between its old and new places: the invariant of the inner loop.
\<close>

text \<open>What ends up at or below \<open>j\<close> was there before.\<close>

lemma sink_image:
  assumes "j < length out" and "p \<le> j"
  shows "\<exists>i \<le> j. out ! i = sink out j ! p"
proof -
  have "drop (Suc j) (sink out j) = drop (Suc j) out"
    by (rule nth_equalityI) (auto simp: sink_above)
  then have eq: "mset (take (Suc j) (sink out j)) = mset (take (Suc j) out)"
    using mset_sink [of j out] assms(1) by (metis append_take_drop_id mset_append add_right_cancel)
  have "sink out j ! p \<in> set (take (Suc j) (sink out j))"
    using assms by (auto simp: in_set_conv_nth intro!: exI [of _ p])
  then have "sink out j ! p \<in> set (take (Suc j) out)"
    using mset_eq_setD [OF eq] by simp
  then show ?thesis by (auto simp: in_set_conv_nth less_Suc_eq_le)
qed

lemma sink_sorted:
  assumes "j < length out" and "\<And>p q. p < q \<Longrightarrow> q < j \<Longrightarrow> bm_LineIndex (out ! p) \<le> bm_LineIndex (out ! q)"
  shows "p < q \<Longrightarrow> q \<le> j \<Longrightarrow> bm_LineIndex (sink out j ! p) \<le> bm_LineIndex (sink out j ! q)"
  using assms
proof (induction out j arbitrary: p q rule: sink.induct)
  case (1 out)
  then show ?case by simp
next
  case (2 out j)
  let ?L = "\<lambda>xs i. bm_LineIndex (xs ! i)"
  let ?o = "out[Suc j := out ! j, j := out ! Suc j]"
  show ?case
  proof (cases "?L out (Suc j) < ?L out j")
    case False
    have "?L out p \<le> ?L out j" if "p < Suc j" for p
      using 2(5) [of p j] that by (cases "p = j") auto
    with False 2(2-5) show ?thesis
      by (cases "q = Suc j") (auto simp: not_less intro: order_trans)
  next
    case True
    have srt: "\<And>p q. p < q \<Longrightarrow> q < j \<Longrightarrow> ?L ?o p \<le> ?L ?o q"
      using 2(4,5) by simp
    have IH: "\<And>p q. p < q \<Longrightarrow> q \<le> j \<Longrightarrow> ?L (sink ?o j) p \<le> ?L (sink ?o j) q"
      using 2(1) [OF True] 2(4) srt by simp
    have top: "?L (sink ?o j) (Suc j) = ?L out j"
      using 2(4) by (simp add: sink_above)
    have "?L ?o i \<le> ?L out j" if "i \<le> j" for i using that True 2(4) 2(5) [of i j] by (cases "i = j") auto
    then have below: "?L (sink ?o j) p \<le> ?L out j" if "p \<le> j" for p
      using sink_image [of j ?o p] that 2(4) by fastforce
    from True IH top below 2(2,3) show ?thesis
      by (cases "q = Suc j") auto
  qed
qed

lemma sink_loop:
  "n \<le> length out \<Longrightarrow>
     length (foldl sink out [1..<n]) = length out \<and> mset (foldl sink out [1..<n]) = mset out
     \<and> (\<forall>q < n. \<forall>p < q. bm_LineIndex (foldl sink out [1..<n] ! p) \<le> bm_LineIndex (foldl sink out [1..<n] ! q))"
proof (induction n)
  case 0
  then show ?case by simp
next
  case (Suc n)
  show ?case
  proof (cases "n = 0")
    case True
    then show ?thesis by simp
  next
    case False
    let ?r = "foldl sink out [1..<n]"
    from False have step: "foldl sink out [1..<Suc n] = sink ?r n" by simp
    from Suc have IH: "length ?r = length out" "mset ?r = mset out"
      "\<And>p q. p < q \<Longrightarrow> q < n \<Longrightarrow> bm_LineIndex (?r ! p) \<le> bm_LineIndex (?r ! q)" by auto
    have n: "n < length ?r" using Suc.prems IH(1) by simp
    show ?thesis
      unfolding step using IH n sink_sorted [OF n IH(3)] mset_sink [OF n] by (auto simp: less_Suc_eq_le)
  qed
qed

lemma bm_All_sorted: "by_line (bm_All s) \<and> mset (bm_All s) = mset (map snd s)"
proof -
  from sink_loop [of "length (map snd s)" "map snd s"] show ?thesis
    unfolding bm_All_def Let_def sorted_wrt_iff_nth_less by auto
qed

lemma set_values: "gm_ok m \<Longrightarrow> set (map snd m) = {v. \<exists>k. gm_get m k = Some v}"
  by (force simp: gm_get_iff)

text \<open>
  \<open>All\<close> returns every bookmark exactly once and in ascending order of line index, and a bookmark
  that was added and removed again leaves no trace in it: its entries are those of the store before.
\<close>

theorem bookmarks_All:
  assumes "bm_inv s"
  shows "sorted_wrt (\<lambda>a b. bm_LineIndex a \<le> bm_LineIndex b) (bm_All s)
    \<and> distinct (map bm_Name (bm_All s))
    \<and> set (bm_All s) = {b. \<exists>name. bm_Get s name = Some b}
    \<and> (bm_Get s name = None \<and> name \<noteq> [] \<and> 0 \<le> i \<longrightarrow>
         (\<exists>s1 s2. bm_Add now name i s = Inr s1 \<and> bm_Remove name s1 = Inr s2 \<and> bm_mark s2 = bm_mark s))"
proof (intro conjI impI)
  show "sorted_wrt (\<lambda>a b. bm_LineIndex a \<le> bm_LineIndex b) (bm_All s)" using bm_All_sorted by blast
  have ms: "mset (bm_All s) = mset (map snd s)" using bm_All_sorted by blast
  from assms have ok: "gm_ok s" and nm: "\<And>k b. (k, b) \<in> set s \<Longrightarrow> bm_Name b = k"
    by (auto simp: bm_inv_def list_all_iff)
  have "map bm_Name (map snd s) = map fst s" using nm by (auto simp: comp_def)
  then have "distinct (map bm_Name (map snd s))" using ok unfolding gm_ok_def by (simp only:)
  moreover have "mset (map bm_Name (bm_All s)) = mset (map bm_Name (map snd s))"
    using ms by (metis mset_map)
  ultimately show "distinct (map bm_Name (bm_All s))" by (metis mset_eq_imp_distinct_iff)
  show "set (bm_All s) = {b. \<exists>name. bm_Get s name = Some b}"
    using mset_eq_setD [OF ms] set_values [OF ok] by (simp add: bm_Get_def del: set_map)
next
  assume new: "bm_Get s name = None \<and> name \<noteq> [] \<and> 0 \<le> i"
  then obtain s1 where s1: "bm_put_mark name (i, now) s = Inr s1"
    using bms.accepts_iff [OF assms, of name "(i, now)"] by (auto simp: is_ok_iff)
  then obtain s2 where s2: "bm_Remove name s1 = Inr s2"
    using bms.rm_iff [OF bms.add_ok [OF assms s1], of name] bms.add_same [OF assms s1] by (auto simp: is_ok_iff)
  have "bm_mark s2 = bm_mark s"
    using bms.add_then_rm [OF assms s1 s2] new by (auto simp: bm_mark_def fun_eq_iff)
  with s1 s2 show "\<exists>s1 s2. bm_Add now name i s = Inr s1 \<and> bm_Remove name s1 = Inr s2 \<and> bm_mark s2 = bm_mark s"
    by (auto simp: bm_put_mark_def)
qed

definition bm_example :: bookmarks where
  "bm_example = map (\<lambda>(n, i). (n, \<lparr>bm_Name = n, bm_LineIndex = i, bm_CreatedAt = 7\<rparr>))
     [(''end'', 90), (''start'', 3), (''mid'', 40)]"

theorem bookmarks_All_witness:
  "map bm_Name (bm_All bm_example) = [''start'', ''mid'', ''end'']
   \<and> sorted_wrt (\<lambda>a b. bm_LineIndex a \<le> bm_LineIndex b) (bm_All bm_example)
   \<and> (\<exists>s1 s2. bm_Add 9 ''x'' 5 bm_example = Inr s1 \<and> bm_Remove ''x'' s1 = Inr s2 \<and> bm_mark s2 = bm_mark bm_example)"
proof -
  have "bm_inv bm_example" by (simp add: bm_inv_def bm_example_def gm_ok_def)
  from bookmarks_All [OF this, of "''x''" 5 9]
  have "sorted_wrt (\<lambda>a b. bm_LineIndex a \<le> bm_LineIndex b) (bm_All bm_example)
   \<and> (\<exists>s1 s2. bm_Add 9 ''x'' 5 bm_example = Inr s1 \<and> bm_Remove ''x'' s1 = Inr s2 \<and> bm_mark s2 = bm_mark bm_example)"
    by (simp add: bm_Get_def bm_example_def gm_get_def)
  moreover have "map bm_Name (bm_All bm_example) = [''start'', ''mid'', ''end'']" by code_simp
  ultimately show ?thesis by blast
qed

end
