(* ===== verification/Router.thy ===== *)
theory Router
  imports Cmd_Filter Bookmarks
begin

text \<open>
  \<open>internal/router/router.go\<close>: the registry of pipelines and of their bookmark stores. The map holds
  pointers; an operation on a registered pipeline is an update of the map. What a sink or a control
  handler does to the rest of the server is the argument \<open>exec\<close>; the state it acts on is any extension
  of the record \<open>host\<close>, which has what the router shares with its callers.
\<close>

record router_options =
  ro_AllowUnassigned :: bool
  ro_FilterChainMax :: int
  ro_DefaultScrollbackCap :: int

record ('f, 's, 'h) router =
  rt_pipes :: "(target_id, ('f, 's, 'h) pipeline) gomap"
  rt_bookmarks :: "(target_id, bookmarks) gomap"
  rt_sinkFn :: "'s option"
  rt_opts :: router_options

record ('f, 's, 'h) host =
  h_router :: "('f, 's, 'h) router"
  h_kv :: kv_store

definition rt_New :: "'s option \<Rightarrow> router_options \<Rightarrow> ('f, 's, 'h) router" where
  "rt_New sinkFn opts =
     (let o1 = (if ro_FilterChainMax opts = 0 then opts\<lparr>ro_FilterChainMax := 8\<rparr> else opts);
          o2 = (if ro_DefaultScrollbackCap o1 = 0 then o1\<lparr>ro_DefaultScrollbackCap := 10000\<rparr> else o1)
      in \<lparr>rt_pipes = [], rt_bookmarks = [], rt_sinkFn = sinkFn, rt_opts = o2\<rparr>)"

definition newPipeline :: "target_id \<Rightarrow> int \<Rightarrow> ('f, 's, 'h) router \<Rightarrow> ('f, 's, 'h) pipeline" where
  "newPipeline t scrollbackCap r =
     (let c = (if scrollbackCap \<le> 0 then ro_DefaultScrollbackCap (rt_opts r) else scrollbackCap);
          p = pl_New t False (ro_FilterChainMax (rt_opts r)) (NewScrollbackBuffer c)
      in (case rt_sinkFn r of None \<Rightarrow> p | Some s \<Rightarrow> AddSink s p))"

definition Register :: "target_id \<Rightarrow> int \<Rightarrow> ('f, 's, 'h) router \<Rightarrow> ('f, 's, 'h) router result" where
  "Register t scrollbackCap r =
     (if gm_get (rt_pipes r) t \<noteq> None then Inl (Errorf ''target %q already registered'' [AStr (tid_String t)])
      else Inr (r\<lparr>rt_pipes := gm_put t (newPipeline t scrollbackCap r) (rt_pipes r),
                  rt_bookmarks := gm_put t NewBookmarkStore (rt_bookmarks r)\<rparr>))"

definition rt_Get :: "target_id \<Rightarrow> ('f, 's, 'h) router \<Rightarrow> ('f, 's, 'h) pipeline option" where
  "rt_Get t r = gm_get (rt_pipes r) t"

definition Deregister :: "target_id \<Rightarrow> ('f, 's, 'h) router \<Rightarrow> ('f, 's, 'h) router" where
  "Deregister t r = r\<lparr>rt_pipes := gm_del t (rt_pipes r), rt_bookmarks := gm_del t (rt_bookmarks r)\<rparr>"

definition rt_Bookmarks :: "target_id \<Rightarrow> ('f, 's, 'h) router \<Rightarrow> bookmarks option" where
  "rt_Bookmarks t r = gm_get (rt_bookmarks r) t"

definition rt_Targets :: "('f, 's, 'h) router \<Rightarrow> target_id list" where
  "rt_Targets r = gm_keys (rt_pipes r)"

definition rt_Len :: "('f, 's, 'h) router \<Rightarrow> nat" where "rt_Len r = length (rt_pipes r)"

definition rt_SetControlHandler :: "'h \<Rightarrow> ('f, 's, 'h) router \<Rightarrow> ('f, 's, 'h) router" where
  "rt_SetControlHandler h r = r\<lparr>rt_pipes := map (\<lambda>(t, p). (t, SetControlHandler h p)) (rt_pipes r)\<rparr>"

text \<open>Writes through the pointers that \<open>Get\<close> and \<open>Bookmarks\<close> return.\<close>

definition rt_put_pipe :: "target_id \<Rightarrow> ('f, 's, 'h) pipeline \<Rightarrow> ('f, 's, 'h) router \<Rightarrow> ('f, 's, 'h) router" where
  "rt_put_pipe t p r = r\<lparr>rt_pipes := gm_put t p (rt_pipes r)\<rparr>"

definition rt_put_bookmarks :: "target_id \<Rightarrow> bookmarks \<Rightarrow> ('f, 's, 'h) router \<Rightarrow> ('f, 's, 'h) router" where
  "rt_put_bookmarks t b r = r\<lparr>rt_bookmarks := gm_put t b (rt_bookmarks r)\<rparr>"

section \<open>Routing\<close>

text \<open>
  The lookup at the head of \<open>Route\<close> and \<open>Stream\<close>, with the implicit registration; the second lookup is
  for a registration that lost a race.
\<close>

definition rt_open :: "go_err \<Rightarrow> target_id \<Rightarrow> ('f, 's, 'h) router \<Rightarrow> ('f, 's, 'h) router result" where
  "rt_open noPane t r =
     (case rt_Get t r of
        Some _ \<Rightarrow> Inr r
      | None \<Rightarrow>
          if \<not> ro_AllowUnassigned (rt_opts r) then Inl noPane
          else (case Register t (ro_DefaultScrollbackCap (rt_opts r)) r of
                  Inr r' \<Rightarrow> Inr r'
                | Inl e \<Rightarrow> (case rt_Get t r of None \<Rightarrow> Inl e | Some _ \<Rightarrow> Inr r)))"

text \<open>One line through the pipeline of a target; the sinks and the handler run while it is processed.\<close>

definition rt_line ::
    "(kv_store \<Rightarrow> 'f filter_fun) \<Rightarrow> string \<Rightarrow> (('s, 'h) effect \<Rightarrow> ('f, 's, 'h, 'z) host_scheme \<Rightarrow> ('f, 's, 'h, 'z) host_scheme)
     \<Rightarrow> target_id \<Rightarrow> string \<Rightarrow> ('f, 's, 'h, 'z) host_scheme \<Rightarrow> ('f, 's, 'h, 'z) host_scheme \<times> go_err option" where
  "rt_line run now exec t raw st =
     (case rt_Get t (h_router st) of
        None \<Rightarrow> (st, None)
      | Some p \<Rightarrow>
          (case processLine (run (h_kv st)) now raw p (h_kv st) of
             (p', kv', es, err) \<Rightarrow>
               (fold exec es (st\<lparr>h_router := rt_put_pipe t p' (h_router st), h_kv := kv'\<rparr>), err)))"

definition rt_Route ::
    "(kv_store \<Rightarrow> 'f filter_fun) \<Rightarrow> string \<Rightarrow> (('s, 'h) effect \<Rightarrow> ('f, 's, 'h, 'z) host_scheme \<Rightarrow> ('f, 's, 'h, 'z) host_scheme)
     \<Rightarrow> target_id \<Rightarrow> string \<Rightarrow> ('f, 's, 'h, 'z) host_scheme \<Rightarrow> ('f, 's, 'h, 'z) host_scheme \<times> go_err option" where
  "rt_Route run now exec t line st =
     (case rt_open (Errorf ''no registered pane for target %q; use --allow-unassigned to create one'' [AStr (tid_String t)])
             t (h_router st) of
        Inl e \<Rightarrow> (st, Some e)
      | Inr r \<Rightarrow> pl_Run (rt_line run now exec t) (\<lambda>_. False) (Extern ''context'') (line @ [LF]) (st\<lparr>h_router := r\<rparr>))"

definition rt_Stream ::
    "(kv_store \<Rightarrow> 'f filter_fun) \<Rightarrow> string \<Rightarrow> (('s, 'h) effect \<Rightarrow> ('f, 's, 'h, 'z) host_scheme \<Rightarrow> ('f, 's, 'h, 'z) host_scheme)
     \<Rightarrow> (nat \<Rightarrow> bool) \<Rightarrow> go_err \<Rightarrow> target_id \<Rightarrow> string \<Rightarrow> ('f, 's, 'h, 'z) host_scheme
     \<Rightarrow> ('f, 's, 'h, 'z) host_scheme \<times> go_err option" where
  "rt_Stream run now exec done ctxErr t data st =
     (case rt_open (Errorf ''no registered pane for target %q'' [AStr (tid_String t)]) t (h_router st) of
        Inl e \<Rightarrow> (st, Some e)
      | Inr r \<Rightarrow> pl_Run (rt_line run now exec t) done ctxErr data (st\<lparr>h_router := r\<rparr>))"

section \<open>Invariant\<close>

definition pipe_ok :: "target_id \<Rightarrow> ('f, 's, 'h) pipeline \<Rightarrow> bool" where
  "pipe_ok t p \<longleftrightarrow> pl_targetID p = t \<and> sb_inv (pl_scrollback p)
     \<and> (0 < pl_MaxFilterStages p \<longrightarrow> int (length (pl_filters p)) \<le> pl_MaxFilterStages p)"

definition rt_inv :: "('f, 's, 'h) router \<Rightarrow> bool" where
  "rt_inv r \<longleftrightarrow> gm_ok (rt_pipes r) \<and> gm_ok (rt_bookmarks r)
     \<and> set (gm_keys (rt_pipes r)) = set (gm_keys (rt_bookmarks r))
     \<and> (\<forall>t p. rt_Get t r = Some p \<longrightarrow> pipe_ok t p)
     \<and> (\<forall>t b. rt_Bookmarks t r = Some b \<longrightarrow> bm_inv b)"

lemma rt_inv_dom: "rt_inv r \<Longrightarrow> rt_Get t r = None \<longleftrightarrow> rt_Bookmarks t r = None"
  by (simp add: rt_inv_def rt_Get_def rt_Bookmarks_def gm_get_None_iff)

lemma rt_inv_New [simp]: "rt_inv (rt_New s opts)"
  by (simp add: rt_inv_def rt_New_def Let_def rt_Get_def rt_Bookmarks_def gm_keys_def)

lemma pipe_ok_new: "pipe_ok t (newPipeline t c r)"
  by (simp add: pipe_ok_def newPipeline_def Let_def pl_New_def AddSink_def split: option.split)

lemma keys_put: "set (gm_keys (gm_put k v m)) = insert k (set (gm_keys m))"
  using gm_dom [of "gm_put k v m"] gm_dom [of m] by (simp add: gm_get_put)

lemma keys_del: "set (gm_keys (gm_del k m)) = set (gm_keys m) - {k}"
  using gm_dom [of "gm_del k m"] gm_dom [of m] by (auto simp: gm_get_del)

lemma rt_inv_Register [inv_intros]: "rt_inv r \<Longrightarrow> Register t c r = Inr r' \<Longrightarrow> rt_inv r'"
  by (auto simp: Register_def rt_inv_def rt_Get_def rt_Bookmarks_def gm_get_put keys_put pipe_ok_new split: if_splits)

lemma rt_inv_Deregister [inv_intros]: "rt_inv r \<Longrightarrow> rt_inv (Deregister t r)"
  by (auto simp: Deregister_def rt_inv_def rt_Get_def rt_Bookmarks_def gm_get_del keys_del split: if_splits)

lemma rt_inv_put_pipe [inv_intros]:
  "rt_inv r \<Longrightarrow> rt_Get t r \<noteq> None \<Longrightarrow> pipe_ok t p \<Longrightarrow> rt_inv (rt_put_pipe t p r)"
  by (auto simp: rt_put_pipe_def rt_inv_def rt_Get_def rt_Bookmarks_def gm_get_put keys_put gm_get_None_iff
      split: if_splits)

lemma rt_inv_put_bookmarks [inv_intros]:
  "rt_inv r \<Longrightarrow> rt_Get t r \<noteq> None \<Longrightarrow> bm_inv b \<Longrightarrow> rt_inv (rt_put_bookmarks t b r)"
  by (auto simp: rt_put_bookmarks_def rt_inv_def rt_Get_def rt_Bookmarks_def gm_get_put keys_put gm_get_None_iff
      split: if_splits)

lemma get_map_handler:
  "gm_get (map (\<lambda>(t, p). (t, f p)) m) t = map_option f (gm_get m t)"
  by (induction m) (auto simp: gm_get_def)

lemma keys_map_handler: "gm_keys (map (\<lambda>(t, p). (t, f p)) m) = gm_keys m"
  by (auto simp: gm_keys_def)

lemma ok_map_handler: "gm_ok (map (\<lambda>(t, p). (t, f p)) m) \<longleftrightarrow> gm_ok m"
  using arg_cong [OF keys_map_handler [of f m], of distinct] by (simp only: gm_ok_def gm_keys_def)

lemma rt_inv_SetControlHandler [inv_intros]: "rt_inv r \<Longrightarrow> rt_inv (rt_SetControlHandler h r)"
  unfolding rt_inv_def rt_SetControlHandler_def rt_Get_def rt_Bookmarks_def
  by (auto simp: ok_map_handler get_map_handler keys_map_handler pipe_ok_def SetControlHandler_def)

lemma rt_open_inv: "rt_inv r \<Longrightarrow> rt_open e t r = Inr r' \<Longrightarrow> rt_inv r' \<and> rt_Get t r' \<noteq> None"
  by (auto simp: rt_open_def split: option.splits if_splits sum.splits intro: inv_intros)
     (auto simp: Register_def rt_Get_def gm_get_put split: if_splits)

lemma pipe_ok_dispatch: "pipe_ok t p \<Longrightarrow> dispatchContent run now line p = (p', es) \<Longrightarrow> pipe_ok t p'"
  using length_run_filters [of run "pl_filters p" "maybeDecodeBase64 line"]
  by (auto simp: dispatchContent_def pipe_ok_def Let_def sb_inv_Append split: prod.splits option.splits)

lemma pipe_ok_process: "pipe_ok t p \<Longrightarrow> processLine run now raw p kv = (p', kv', es, err) \<Longrightarrow> pipe_ok t p'"
  by (auto simp: processLine_def split: option.splits if_splits prod.splits intro: pipe_ok_dispatch)

section \<open>The host contract\<close>

text \<open>
  What the router relies on in the functions its host installs as sink and control handler: they keep
  the host's invariant, in which the router's and the store's own invariants are contained, and they
  do not deregister a pipeline while it is running.
\<close>

locale effect_host =
  fixes exec :: "('s, 'h) effect \<Rightarrow> ('f, 's, 'h, 'z) host_scheme \<Rightarrow> ('f, 's, 'h, 'z) host_scheme"
    and ok :: "('f, 's, 'h, 'z) host_scheme \<Rightarrow> bool"
  assumes ok_parts: "ok st \<Longrightarrow> rt_inv (h_router st) \<and> kv_inv (h_kv st)"
    and ok_update: "ok st \<Longrightarrow> rt_inv r \<Longrightarrow> kv_inv kv \<Longrightarrow> ok (st\<lparr>h_router := r, h_kv := kv\<rparr>)"
    and ok_exec: "ok st \<Longrightarrow> ok (exec e st)"
    and exec_keeps: "ok st \<Longrightarrow> rt_Get t (h_router st) \<noteq> None \<Longrightarrow> rt_Get t (h_router (exec e st)) \<noteq> None"
begin

lemma fold_exec: "ok st \<Longrightarrow> ok (fold exec es st)"
  by (induction es arbitrary: st) (simp_all add: ok_exec)

lemma fold_keeps: "ok st \<Longrightarrow> rt_Get t (h_router st) \<noteq> None \<Longrightarrow> rt_Get t (h_router (fold exec es st)) \<noteq> None"
  by (induction es arbitrary: st) (simp_all add: ok_exec exec_keeps del: not_None_eq)

lemma line_ok:
  assumes "ok st" and "rt_line run now exec t raw st = (st', err)"
  shows "ok st'" and "rt_Get t (h_router st) \<noteq> None \<Longrightarrow> rt_Get t (h_router st') \<noteq> None"
proof -
  have both: "ok st' \<and> (rt_Get t (h_router st) \<noteq> None \<longrightarrow> rt_Get t (h_router st') \<noteq> None)"
  proof (cases "rt_Get t (h_router st)")
    case None
    with assms show ?thesis by (simp add: rt_line_def)
  next
    case (Some p)
    obtain p' kv' es err' where run: "processLine (run (h_kv st)) now raw p (h_kv st) = (p', kv', es, err')"
      by (metis prod_cases4)
    let ?st = "st\<lparr>h_router := rt_put_pipe t p' (h_router st), h_kv := kv'\<rparr>"
    from ok_parts [OF assms(1)] have inv: "rt_inv (h_router st)" "kv_inv (h_kv st)" by auto
    from inv(1) Some have "pipe_ok t p" by (simp add: rt_inv_def)
    then have "pipe_ok t p'" using run by (rule pipe_ok_process)
    then have "rt_inv (rt_put_pipe t p' (h_router st))" using inv(1) Some by (intro rt_inv_put_pipe) auto
    moreover have "kv_inv kv'" using inv(2) run by (rule processLine_kv_inv)
    ultimately have okst: "ok ?st" by (rule ok_update [OF assms(1)])
    have get: "rt_Get t (h_router ?st) \<noteq> None" by (simp add: rt_put_pipe_def rt_Get_def gm_get_put)
    have st': "st' = fold exec es ?st" using assms(2) Some run by (simp add: rt_line_def)
    from fold_exec [OF okst] fold_keeps [OF okst get] show ?thesis unfolding st' by simp
  qed
  then show "ok st'" and "rt_Get t (h_router st) \<noteq> None \<Longrightarrow> rt_Get t (h_router st') \<noteq> None" by auto
qed

lemma run_lines_ok:
  "ok st \<Longrightarrow> ok (fst (run_lines (rt_line run now exec t) done ctxErr i ls e st))"
  by (induction ls arbitrary: i st) (auto split: prod.split option.split dest: line_ok(1))

lemma open_ok: "ok st \<Longrightarrow> rt_open e t (h_router st) = Inr r \<Longrightarrow> ok (st\<lparr>h_router := r\<rparr>)"
  using ok_update [of st r "h_kv st"] ok_parts [of st] rt_open_inv [of "h_router st" e t r] by simp

lemma Route_ok: "ok st \<Longrightarrow> ok (fst (rt_Route run now exec t line st))"
  by (auto simp: rt_Route_def pl_Run_def run_lines_ok open_ok split: sum.split prod.split)

lemma Stream_ok: "ok st \<Longrightarrow> ok (fst (rt_Stream run now exec done ctxErr t data st))"
  by (auto simp: rt_Stream_def pl_Run_def run_lines_ok open_ok split: sum.split prod.split)

lemma Route_unknown:
  "rt_Get t (h_router st) = None \<Longrightarrow> \<not> ro_AllowUnassigned (rt_opts (h_router st)) \<Longrightarrow>
     rt_Route run now exec t line st =
       (st, Some (Errorf ''no registered pane for target %q; use --allow-unassigned to create one'' [AStr (tid_String t)]))"
  by (simp add: rt_Route_def rt_open_def)

end

section \<open>Properties\<close>

lemma newPipeline_fresh:
  "sb_Lines (pl_scrollback (newPipeline t c r)) = [] \<and> pl_filters (newPipeline t c r) = []
   \<and> pl_controlHandler (newPipeline t c r) = None \<and> \<not> pl_TimestampEnabled (newPipeline t c r)
   \<and> pl_sinks (newPipeline t c r) = (case rt_sinkFn r of None \<Rightarrow> [] | Some s \<Rightarrow> [s])"
  by (simp add: newPipeline_def Let_def pl_New_def AddSink_def split: option.split)

text \<open>
  Registering succeeds exactly for a target without a pipeline; it adds a pipeline that is empty,
  without filters, timestamps or a control handler and with the router's sink, and an empty bookmark
  store, and changes nothing for any other target; deregistering it again restores every lookup.
\<close>

theorem Register_spec:
  assumes "rt_inv r"
  shows "case Register t c r of
      Inl e \<Rightarrow> rt_Get t r \<noteq> None
    | Inr r' \<Rightarrow> rt_Get t r = None
        \<and> (\<exists>p. (\<forall>u. rt_Get u r' = (if u = t then Some p else rt_Get u r))
              \<and> sb_Lines (pl_scrollback p) = [] \<and> pl_filters p = [] \<and> pl_controlHandler p = None
              \<and> \<not> pl_TimestampEnabled p \<and> pl_sinks p = (case rt_sinkFn r of None \<Rightarrow> [] | Some s \<Rightarrow> [s]))
        \<and> (\<forall>u. rt_Bookmarks u r' = (if u = t then Some NewBookmarkStore else rt_Bookmarks u r))
        \<and> (\<forall>u. rt_Get u (Deregister t r') = rt_Get u r \<and> rt_Bookmarks u (Deregister t r') = rt_Bookmarks u r)"
proof (cases "rt_Get t r")
  case None
  then have bm: "rt_Bookmarks t r = None" using rt_inv_dom [OF assms, of t] by simp
  from None have reg: "Register t c r = Inr (r\<lparr>rt_pipes := gm_put t (newPipeline t c r) (rt_pipes r),
      rt_bookmarks := gm_put t NewBookmarkStore (rt_bookmarks r)\<rparr>)"
    by (simp add: Register_def rt_Get_def)
  show ?thesis
    unfolding reg sum.case using None bm newPipeline_fresh [of t c r]
    by (auto simp: rt_Get_def rt_Bookmarks_def Deregister_def gm_get_put gm_get_del intro!: exI [of _ "newPipeline t c r"])
next
  case (Some p)
  then show ?thesis by (simp add: Register_def rt_Get_def)
qed

definition rt_empty :: "(nat, nat, nat) router" where
  "rt_empty = rt_New (Some 0) \<lparr>ro_AllowUnassigned = False, ro_FilterChainMax = 0, ro_DefaultScrollbackCap = 0\<rparr>"

lemma rt_empty_facts: "rt_inv rt_empty" "rt_sinkFn rt_empty = Some 0" "is_ok (Register t c rt_empty)"
  by (simp_all add: rt_empty_def) (simp_all add: rt_New_def Register_def Let_def)

theorem Register_spec_witness:
  "\<exists>r'. Register (TargetID ''log'') 5 rt_empty = Inr r'
     \<and> (\<exists>p. rt_Get (TargetID ''log'') r' = Some p \<and> sb_Lines (pl_scrollback p) = [] \<and> pl_sinks p = [0])"
proof -
  obtain r' where r': "Register (TargetID ''log'') 5 rt_empty = Inr r'"
    using rt_empty_facts(3) [of "TargetID ''log''" 5] by (auto simp: is_ok_iff)
  from Register_spec [OF rt_empty_facts(1), of "TargetID ''log''" 5]
  obtain p where p: "\<forall>u. rt_Get u r' = (if u = TargetID ''log'' then Some p else rt_Get u rt_empty)"
      "sb_Lines (pl_scrollback p) = []" "pl_sinks p = [0]"
    unfolding r' sum.case rt_empty_facts(2) option.case by (elim conjE exE) (rule that)
  from p(1) have "rt_Get (TargetID ''log'') r' = Some p" by simp
  with r' p(2,3) show ?thesis by blast
qed

text \<open>A host that only records the calls of its sinks and handlers.\<close>

record ('f, 's, 'h) log_host = "('f, 's, 'h) host" +
  h_log :: "('s, 'h) effect list"

definition exec_log :: "('s, 'h) effect \<Rightarrow> ('f, 's, 'h) log_host \<Rightarrow> ('f, 's, 'h) log_host" where
  "exec_log e st = st\<lparr>h_log := h_log st @ [e]\<rparr>"

primrec effect_target :: "('s, 'h) effect \<Rightarrow> target_id" where
  "effect_target (CallSink s t l) = t"
| "effect_target (CallHandler h t q) = t"

lemma fold_exec_log: "fold exec_log es st = st\<lparr>h_log := h_log st @ es\<rparr>"
  by (induction es arbitrary: st) (simp_all add: exec_log_def)

definition only_target :: "target_id \<Rightarrow> ('f, 's, 'h) log_host \<Rightarrow> ('f, 's, 'h) log_host \<Rightarrow> bool" where
  "only_target t st st' \<longleftrightarrow>
     (\<forall>u. u \<noteq> t \<longrightarrow> rt_Get u (h_router st') = rt_Get u (h_router st))
     \<and> rt_bookmarks (h_router st') = rt_bookmarks (h_router st)
     \<and> (\<exists>es. h_log st' = h_log st @ es \<and> list_all (\<lambda>e. effect_target e = t) es)"

lemma only_target_refl: "only_target t st st"
  by (simp add: only_target_def)

lemma only_target_trans: "only_target t a b \<Longrightarrow> only_target t b c \<Longrightarrow> only_target t a c"
  by (fastforce simp: only_target_def)

lemma process_targets: "processLine run now raw p kv = (p', kv', es, err) \<Longrightarrow> list_all (\<lambda>e. effect_target e = pl_targetID p) es"
  by (auto simp: processLine_def dispatchContent_def Let_def list_all_iff split: option.splits if_splits prod.splits)

lemma process_targetID: "processLine run now raw p kv = (p', kv', es, err) \<Longrightarrow> pl_targetID p' = pl_targetID p"
  by (auto simp: processLine_def dispatchContent_def Let_def split: option.splits if_splits prod.splits)

lemma line_only_target:
  assumes "rt_inv (h_router st)" and "rt_line run now exec_log t raw st = (st', err)"
  shows "only_target t st st' \<and> rt_inv (h_router st')"
proof (cases "rt_Get t (h_router st)")
  case None
  with assms show ?thesis by (simp add: rt_line_def only_target_refl)
next
  case (Some p)
  obtain p' kv' es err' where run: "processLine (run (h_kv st)) now raw p (h_kv st) = (p', kv', es, err')"
    by (metis prod_cases4)
  have st': "st' = st\<lparr>h_router := rt_put_pipe t p' (h_router st), h_kv := kv', h_log := h_log st @ es\<rparr>"
    using assms(2) Some run by (simp add: rt_line_def fold_exec_log)
  have ok: "pipe_ok t p" using assms(1) Some by (simp add: rt_inv_def)
  then have "pl_targetID p = t" by (simp add: pipe_ok_def)
  with process_targets [OF run] have "only_target t st st'"
    by (auto simp: only_target_def st' rt_put_pipe_def rt_Get_def gm_get_put)
  moreover have "rt_inv (h_router st')"
    unfolding st' using rt_inv_put_pipe [OF assms(1), of t p'] Some pipe_ok_process [OF ok run] by simp
  ultimately show ?thesis by blast
qed

lemma lines_only_target:
  "rt_inv (h_router st) \<Longrightarrow> run_lines (rt_line run now exec_log t) done ctxErr i ls e st = (st', err) \<Longrightarrow> only_target t st st'"
proof (induction ls arbitrary: i st)
  case Nil
  then show ?case by (simp add: only_target_refl)
next
  case (Cons l ls)
  obtain st1 err1 where s1: "rt_line run now exec_log t l st = (st1, err1)" by fastforce
  from line_only_target [OF Cons.prems(1) s1] have h: "only_target t st st1" "rt_inv (h_router st1)" by auto
  show ?case
  proof (cases "done i \<or> err1 \<noteq> None")
    case True
    with Cons.prems(2) s1 h(1) show ?thesis by (auto simp: only_target_refl split: if_splits)
  next
    case False
    with Cons.prems(2) s1 have "run_lines (rt_line run now exec_log t) done ctxErr (Suc i) ls e st1 = (st', err)" by simp
    from only_target_trans [OF h(1) Cons.IH [OF h(2) this]] show ?thesis .
  qed
qed

text \<open>
  Streams do not leak into one another: whatever text is streamed to a registered target, every
  other pipeline and every bookmark store is left exactly as it was, and every sink and handler call
  made on the way carries that target. A target without a pipeline is refused, with nothing changed,
  unless unassigned targets are allowed.
\<close>

theorem Stream_isolated:
  assumes "rt_inv (h_router st)" and "rt_Stream run now exec_log done ctxErr t data st = (st', err)"
    and "rt_Get t (h_router st) \<noteq> None \<or> \<not> ro_AllowUnassigned (rt_opts (h_router st))"
  shows "(\<forall>u. u \<noteq> t \<longrightarrow> rt_Get u (h_router st') = rt_Get u (h_router st))
    \<and> rt_bookmarks (h_router st') = rt_bookmarks (h_router st)
    \<and> (\<exists>es. h_log st' = h_log st @ es \<and> list_all (\<lambda>e. effect_target e = t) es)
    \<and> (rt_Get t (h_router st) = None \<longrightarrow> st' = st \<and> err \<noteq> None)"
proof (cases "rt_Get t (h_router st)")
  case None
  with assms show ?thesis by (auto simp: rt_Stream_def rt_open_def)
next
  case (Some p)
  then have "run_lines (rt_line run now exec_log t) done ctxErr 0 (fst (scan_lines data))
      (if snd (scan_lines data) then Some ErrTooLong else None) st = (st', err)"
    using assms(2) by (cases "scan_lines data") (simp add: rt_Stream_def rt_open_def pl_Run_def)
  from lines_only_target [OF assms(1) this] Some show ?thesis by (simp add: only_target_def)
qed

definition rt_example :: "(nat, nat, nat) router" where
  "rt_example = (let o1 = \<lparr>ro_AllowUnassigned = False, ro_FilterChainMax = 0, ro_DefaultScrollbackCap = 3\<rparr> in
     case Register (TargetID ''a'') 0 (rt_New (Some 7) o1) of
       Inl e \<Rightarrow> rt_New None o1
     | Inr r \<Rightarrow> (case Register (TargetID ''b'') 2 r of Inl e \<Rightarrow> r | Inr r' \<Rightarrow> r'))"

lemma rt_inv_example: "rt_inv rt_example"
  by (auto simp: rt_example_def Let_def split: sum.split
      dest: rt_inv_Register [OF rt_inv_New] rt_inv_Register [OF rt_inv_Register [OF rt_inv_New]])

lemma rt_example_get: "rt_Get (TargetID ''a'') rt_example \<noteq> None"
  by (simp add: rt_example_def Let_def Register_def rt_New_def rt_Get_def gm_get_put)

theorem Stream_isolated_witness:
  "\<exists>st' err. rt_Stream (\<lambda>_ f l. (f, l, True)) ''t'' exec_log (\<lambda>_. False) (Extern ''c'') (TargetID ''a'') (''x'' @ [LF])
       \<lparr>h_router = rt_example, h_kv = kv_New, h_log = []\<rparr> = (st', err)
     \<and> rt_Get (TargetID ''b'') (h_router st') = rt_Get (TargetID ''b'') rt_example"
proof -
  let ?st = "\<lparr>h_router = rt_example, h_kv = kv_New, h_log = []\<rparr>"
  obtain st' err where run: "rt_Stream (\<lambda>_ f l. (f, l, True)) ''t'' exec_log (\<lambda>_. False) (Extern ''c'') (TargetID ''a'') (''x'' @ [LF]) ?st = (st', err)"
    by fastforce
  from Stream_isolated [OF _ run] rt_inv_example rt_example_get
  have "rt_Get (TargetID ''b'') (h_router st') = rt_Get (TargetID ''b'') rt_example" by simp
  with run show ?thesis by blast
qed

end
