(* ===== verification/Hub.thy ===== *)
theory Hub
  imports Go_Json
begin

text \<open>
  \<open>internal/server/hub.go\<close> and the connection set-up of \<open>ws.go\<close>. A connection object has an identity (a
  number) and stays in the heap after it left the hub; its channel is a queue of frames with a closed
  flag. Sending on a closed channel panics, which is \<open>None\<close>. The first part has the operations as one
  uninterrupted step each, the second the goroutines that run them, step by step under the mutex.
\<close>

definition sendBufSize :: nat where "sendBufSize = 256"
definition wsProto :: string where "wsProto = ''rdw-v1''"

record conn =
  cn_tokenID :: string
  cn_send :: "jval list"
  cn_closed :: bool

record hub =
  hb_conns :: "nat list"
  hb_revokedTokens :: "string list"
  hb_heap :: "nat \<Rightarrow> conn option"

definition NewHub :: hub where
  "NewHub = \<lparr>hb_conns = [], hb_revokedTokens = [], hb_heap = (\<lambda>_. None)\<rparr>"

definition hub_register :: "nat \<Rightarrow> hub \<Rightarrow> hub" where
  "hub_register c h = h\<lparr>hb_conns := (if c \<in> set (hb_conns h) then hb_conns h else hb_conns h @ [c])\<rparr>"

definition hub_deregister :: "nat \<Rightarrow> hub \<Rightarrow> hub" where
  "hub_deregister c h = h\<lparr>hb_conns := removeAll c (hb_conns h)\<rparr>"

definition upd_conn :: "nat \<Rightarrow> (conn \<Rightarrow> conn) \<Rightarrow> hub \<Rightarrow> hub" where
  "upd_conn c f h = h\<lparr>hb_heap := (hb_heap h)(c := map_option f (hb_heap h c))\<rparr>"

text \<open>\<open>conn.close\<close>: the channel is closed the first time only.\<close>

definition conn_close :: "nat \<Rightarrow> hub \<Rightarrow> hub" where
  "conn_close c h = upd_conn c (\<lambda>k. k\<lparr>cn_closed := True\<rparr>) h"

definition isRevoked :: "string \<Rightarrow> hub \<Rightarrow> bool" where
  "isRevoked tokenID h \<longleftrightarrow> (if tokenID = [] then False else tokenID \<in> set (hb_revokedTokens h))"

text \<open>The \<open>select\<close> that sends a frame if the channel has room, else drops the connection.\<close>

definition send_or_drop :: "nat \<Rightarrow> jval \<Rightarrow> hub \<Rightarrow> hub option" where
  "send_or_drop c data h =
     (case hb_heap h c of
        None \<Rightarrow> None
      | Some k \<Rightarrow>
          if cn_closed k then None
          else if length (cn_send k) < sendBufSize then Some (upd_conn c (\<lambda>k. k\<lparr>cn_send := cn_send k @ [data]\<rparr>) h)
          else Some (conn_close c (hub_deregister c h)))"

definition tokenID_of :: "nat \<Rightarrow> hub \<Rightarrow> string" where
  "tokenID_of c h = (case hb_heap h c of None \<Rightarrow> [] | Some k \<Rightarrow> cn_tokenID k)"

fun broadcast_loop :: "nat list \<Rightarrow> jval \<Rightarrow> hub \<Rightarrow> hub option" where
  "broadcast_loop [] data h = Some h"
| "broadcast_loop (c # cs) data h =
     (if isRevoked (tokenID_of c h) h then broadcast_loop cs data (conn_close c (hub_deregister c h))
      else (case send_or_drop c data h of None \<Rightarrow> None | Some h' \<Rightarrow> broadcast_loop cs data h'))"

definition Broadcast :: "jval \<Rightarrow> hub \<Rightarrow> hub option" where
  "Broadcast data h = broadcast_loop (hb_conns h) data h"

definition BroadcastSpecial :: "jval \<Rightarrow> hub \<Rightarrow> hub option" where
  "BroadcastSpecial data h = Broadcast data h"

definition victims :: "string \<Rightarrow> hub \<Rightarrow> nat list" where
  "victims tokenID h = filter (\<lambda>c. tokenID_of c h = tokenID) (hb_conns h)"

definition revoke_mark :: "string \<Rightarrow> hub \<Rightarrow> hub" where
  "revoke_mark tokenID h =
     h\<lparr>hb_revokedTokens := List.insert tokenID (hb_revokedTokens h),
       hb_conns := filter (\<lambda>c. c \<notin> set (victims tokenID h)) (hb_conns h)\<rparr>"

definition hub_RevokeToken :: "string \<Rightarrow> hub \<Rightarrow> hub" where
  "hub_RevokeToken tokenID h = fold conn_close (victims tokenID h) (revoke_mark tokenID h)"

definition ConnCount :: "hub \<Rightarrow> nat" where "ConnCount h = length (hb_conns h)"

text \<open>
  \<open>serveWS\<close>: the client must offer the sub-protocol; \<open>upgrade\<close> says whether the library's upgrade
  succeeds. The new connection object gets a fresh identity \<open>c\<close> and the reconnect frame is queued.
\<close>

datatype ws_result = WsProtoRequired | WsUpgradeFailed | WsConnected hub

definition reconnect_frame :: jval where "reconnect_frame = JObj [(''type'', JStr ''reconnect'')]"

definition serveWS :: "string list \<Rightarrow> bool \<Rightarrow> string \<Rightarrow> nat \<Rightarrow> hub \<Rightarrow> ws_result" where
  "serveWS protos upgrade tokenID c h =
     (if \<not> list_ex (\<lambda>p. p = wsProto) protos then WsProtoRequired
      else if \<not> upgrade then WsUpgradeFailed
      else
        let h1 = h\<lparr>hb_heap := (hb_heap h)(c \<mapsto> \<lparr>cn_tokenID = tokenID, cn_send = [], cn_closed = False\<rparr>)\<rparr>;
            h2 = hub_register c h1
        in WsConnected (upd_conn c (\<lambda>k. if length (cn_send k) < sendBufSize
                                        then k\<lparr>cn_send := cn_send k @ [reconnect_frame]\<rparr> else k) h2))"

text \<open>
  The two goroutines of a connection. One turn of \<open>writePump\<close> takes the oldest frame of the channel; when
  the channel is closed and drained it sends the close frame. \<open>readPump\<close> ignores what the client sends
  and removes the connection when reading ends.
\<close>

datatype pump_frame = TextFrame jval | CloseFrame

definition writePump :: "nat \<Rightarrow> hub \<Rightarrow> hub \<times> pump_frame option" where
  "writePump c h =
     (case hb_heap h c of
        None \<Rightarrow> (h, None)
      | Some k \<Rightarrow>
          (case cn_send k of
             f # fs \<Rightarrow> (upd_conn c (\<lambda>k. k\<lparr>cn_send := fs\<rparr>) h, Some (TextFrame f))
           | [] \<Rightarrow> (h, if cn_closed k then Some CloseFrame else None)))"

definition readPump_end :: "nat \<Rightarrow> hub \<Rightarrow> hub" where
  "readPump_end c h = hub_deregister c h"

section \<open>Invariant of the uninterrupted operations\<close>

definition hub_inv :: "hub \<Rightarrow> bool" where
  "hub_inv h \<longleftrightarrow> distinct (hb_conns h)
     \<and> (\<forall>c \<in> set (hb_conns h). \<exists>k. hb_heap h c = Some k \<and> \<not> cn_closed k)"

lemma hub_inv_New [simp]: "hub_inv NewHub"
  by (simp add: hub_inv_def NewHub_def)

lemma heap_upd [simp]: "hb_heap (upd_conn c f h) d = (if d = c then map_option f (hb_heap h c) else hb_heap h d)"
  by (simp add: upd_conn_def)

lemma hub_fields [simp]:
  "hb_conns (upd_conn c f h) = hb_conns h" "hb_revokedTokens (upd_conn c f h) = hb_revokedTokens h"
  "hb_conns (conn_close c h) = hb_conns h" "hb_revokedTokens (conn_close c h) = hb_revokedTokens h"
  "hb_heap (hub_deregister c h) = hb_heap h" "hb_revokedTokens (hub_deregister c h) = hb_revokedTokens h"
  "hb_conns (hub_deregister c h) = removeAll c (hb_conns h)"
  "hb_heap (revoke_mark i h) = hb_heap h"
  by (simp_all add: upd_conn_def conn_close_def hub_deregister_def revoke_mark_def)

lemma heap_close [simp]:
  "hb_heap (conn_close c h) d = (if d = c then map_option (\<lambda>k. k\<lparr>cn_closed := True\<rparr>) (hb_heap h c) else hb_heap h d)"
  by (simp add: conn_close_def)

lemma isRevoked_cong: "hb_revokedTokens h' = hb_revokedTokens h \<Longrightarrow> isRevoked i h' = isRevoked i h"
  by (simp add: isRevoked_def)

lemma hub_inv_drop: "hub_inv h \<Longrightarrow> hub_inv (conn_close c (hub_deregister c h))"
  by (auto simp: hub_inv_def distinct_removeAll)

lemma hub_inv_serve: "hub_inv h \<Longrightarrow> serveWS ps u i c h = WsConnected h' \<Longrightarrow> hub_inv h'"
  by (auto simp: serveWS_def Let_def hub_register_def hub_inv_def split: if_splits)

lemma hub_inv_pumps: "hub_inv h \<Longrightarrow> hub_inv (fst (writePump c h))" "hub_inv h \<Longrightarrow> hub_inv (readPump_end c h)"
  by (auto simp: writePump_def readPump_end_def hub_inv_def distinct_removeAll split: option.split list.split)

lemma fold_close:
  "hb_conns (fold conn_close cs h) = hb_conns h \<and> hb_revokedTokens (fold conn_close cs h) = hb_revokedTokens h
   \<and> hb_heap (fold conn_close cs h) d = (if d \<in> set cs then map_option (\<lambda>k. k\<lparr>cn_closed := True\<rparr>) (hb_heap h d) else hb_heap h d)"
  by (induction cs arbitrary: h) (auto simp: option.map_comp comp_def cong: map_option_cong)

lemma hub_inv_Revoke: "hub_inv h \<Longrightarrow> hub_inv (hub_RevokeToken i h)"
  by (auto simp: hub_inv_def hub_RevokeToken_def fold_close) (auto simp: revoke_mark_def)

text \<open>What one pass of the broadcast loop does to a connection, given what it was at the start.\<close>

definition after_send :: "jval \<Rightarrow> hub \<Rightarrow> conn \<Rightarrow> conn" where
  "after_send data h k =
     (if isRevoked (cn_tokenID k) h \<or> sendBufSize \<le> length (cn_send k) then k\<lparr>cn_closed := True\<rparr>
      else k\<lparr>cn_send := cn_send k @ [data]\<rparr>)"

definition stays :: "hub \<Rightarrow> nat \<Rightarrow> bool" where
  "stays h c \<longleftrightarrow> (case hb_heap h c of None \<Rightarrow> False
     | Some k \<Rightarrow> \<not> isRevoked (cn_tokenID k) h \<and> length (cn_send k) < sendBufSize)"

lemma removeAll_filter: "removeAll c (filter P xs) = filter P (removeAll c xs)"
  by (induction xs) auto

lemma broadcast_loop_spec:
  assumes "distinct cs" and "\<forall>c \<in> set cs. \<exists>k. hb_heap h c = Some k \<and> \<not> cn_closed k"
  shows "\<exists>h'. broadcast_loop cs data h = Some h'
     \<and> hb_conns h' = filter (\<lambda>c. c \<in> set cs \<longrightarrow> stays h c) (hb_conns h)
     \<and> hb_revokedTokens h' = hb_revokedTokens h
     \<and> (\<forall>d. hb_heap h' d = (if d \<in> set cs then map_option (after_send data h) (hb_heap h d) else hb_heap h d))"
  using assms
proof (induction cs arbitrary: h)
  case Nil
  then show ?case by simp
next
  case (Cons c cs)
  then obtain k where k: "hb_heap h c = Some k" "\<not> cn_closed k" by auto
  have tok: "tokenID_of c h = cn_tokenID k" by (simp add: tokenID_of_def k)
  define h1 where "h1 = (if isRevoked (cn_tokenID k) h \<or> sendBufSize \<le> length (cn_send k)
      then conn_close c (hub_deregister c h) else upd_conn c (\<lambda>k. k\<lparr>cn_send := cn_send k @ [data]\<rparr>) h)"
  have step: "broadcast_loop (c # cs) data h = broadcast_loop cs data h1"
    using k by (auto simp: tok send_or_drop_def h1_def)
  have rev: "hb_revokedTokens h1 = hb_revokedTokens h" by (simp add: h1_def)
  have heap: "hb_heap h1 d = (if d = c then Some (after_send data h k) else hb_heap h d)" for d
    using k by (auto simp: h1_def after_send_def)
  have conns: "hb_conns h1 = filter (\<lambda>d. d = c \<longrightarrow> stays h c) (hb_conns h)"
    using k by (auto simp: h1_def stays_def removeAll_filter_not_eq intro!: filter_cong)
  from Cons.prems have "distinct cs" "\<forall>d \<in> set cs. \<exists>k. hb_heap h1 d = Some k \<and> \<not> cn_closed k" by (auto simp: heap)
  from Cons.IH [OF this] obtain h' where h': "broadcast_loop cs data h1 = Some h'"
     "hb_conns h' = filter (\<lambda>c. c \<in> set cs \<longrightarrow> stays h1 c) (hb_conns h1)"
     "hb_revokedTokens h' = hb_revokedTokens h1"
     "\<forall>d. hb_heap h' d = (if d \<in> set cs then map_option (after_send data h1) (hb_heap h1 d) else hb_heap h1 d)" by blast
  have same: "after_send data h1 = after_send data h" by (simp add: after_send_def fun_eq_iff isRevoked_def rev)
  have stays: "d \<noteq> c \<Longrightarrow> stays h1 d = stays h d" for d by (simp add: stays_def heap isRevoked_def rev split: option.split)
  have stays_cs: "d \<in> set cs \<Longrightarrow> stays h1 d = stays h d" for d using stays [of d] Cons.prems(1) by auto
  have "hb_conns h' = filter (\<lambda>d. d \<in> set (c # cs) \<longrightarrow> stays h d) (hb_conns h)"
    using h'(2) conns stays_cs Cons.prems(1) by (auto simp: filter_filter intro!: filter_cong)
  moreover have "hb_heap h' d = (if d \<in> set (c # cs) then map_option (after_send data h) (hb_heap h d) else hb_heap h d)" for d
    using h'(4) heap [of d] same Cons.prems(1) k by auto
  ultimately show ?case using h'(1,3) rev step by auto
qed

lemma Broadcast_spec:
  assumes "hub_inv h"
  shows "\<exists>h'. Broadcast data h = Some h' \<and> hub_inv h' \<and> hb_conns h' = filter (stays h) (hb_conns h)
     \<and> hb_revokedTokens h' = hb_revokedTokens h
     \<and> (\<forall>d. hb_heap h' d = (if d \<in> set (hb_conns h) then map_option (after_send data h) (hb_heap h d) else hb_heap h d))"
proof -
  from assms have d: "distinct (hb_conns h)" "\<forall>c \<in> set (hb_conns h). \<exists>k. hb_heap h c = Some k \<and> \<not> cn_closed k"
    by (auto simp: hub_inv_def)
  from broadcast_loop_spec [OF d, of data] obtain h' where h': "broadcast_loop (hb_conns h) data h = Some h'"
     "hb_conns h' = filter (\<lambda>c. c \<in> set (hb_conns h) \<longrightarrow> stays h c) (hb_conns h)"
     "hb_revokedTokens h' = hb_revokedTokens h"
     "\<forall>d. hb_heap h' d = (if d \<in> set (hb_conns h) then map_option (after_send data h) (hb_heap h d) else hb_heap h d)" by blast
  have conns: "hb_conns h' = filter (stays h) (hb_conns h)"
    unfolding h'(2) by (rule filter_cong) auto
  have "\<exists>k. hb_heap h' c = Some k \<and> \<not> cn_closed k" if c: "c \<in> set (filter (stays h) (hb_conns h))" for c
  proof -
    from c d(2) obtain k where "hb_heap h c = Some k" "\<not> cn_closed k" "stays h c" "c \<in> set (hb_conns h)" by auto
    then show ?thesis by (simp add: h'(4) stays_def after_send_def)
  qed
  with d(1) conns have "hub_inv h'" by (simp add: hub_inv_def)
  with h' conns show ?thesis by (auto simp: Broadcast_def)
qed

lemma Revoke_heap:
  "hb_heap (hub_RevokeToken i h) d =
     (if d \<in> set (victims i h) then map_option (\<lambda>k. k\<lparr>cn_closed := True\<rparr>) (hb_heap h d) else hb_heap h d)"
  by (simp add: hub_RevokeToken_def fold_close)

lemma Revoke_conns: "hb_conns (hub_RevokeToken i h) = filter (\<lambda>c. tokenID_of c h \<noteq> i) (hb_conns h)"
  by (auto simp: hub_RevokeToken_def fold_close revoke_mark_def victims_def intro: filter_cong)

lemma Revoke_revoked: "set (hb_revokedTokens (hub_RevokeToken i h)) = insert i (set (hb_revokedTokens h))"
  by (simp add: hub_RevokeToken_def fold_close revoke_mark_def)

section \<open>Properties of the uninterrupted operations\<close>

text \<open>
  A broadcast that is not interleaved with another operation never panics and treats every
  connection separately: a connection whose token is not revoked and whose queue of 256 frames has
  room gets the frame, once, behind those it already has, and stays; any other connection of the hub
  is removed and closed without the frame; nothing else changes.
\<close>

theorem Broadcast_exact:
  assumes "hub_inv h"
  shows "\<exists>h'. Broadcast data h = Some h' \<and> hub_inv h'
    \<and> (\<forall>c k. hb_heap h c = Some k \<longrightarrow>
         (if c \<notin> set (hb_conns h) then hb_heap h' c = Some k \<and> c \<notin> set (hb_conns h')
          else if \<not> isRevoked (cn_tokenID k) h \<and> length (cn_send k) < 256
          then hb_heap h' c = Some (k\<lparr>cn_send := cn_send k @ [data]\<rparr>) \<and> c \<in> set (hb_conns h')
          else hb_heap h' c = Some (k\<lparr>cn_closed := True\<rparr>) \<and> c \<notin> set (hb_conns h')))"
proof -
  from Broadcast_spec [OF assms, of data] obtain h' where h': "Broadcast data h = Some h'" "hub_inv h'"
     "hb_conns h' = filter (stays h) (hb_conns h)"
     "\<forall>d. hb_heap h' d = (if d \<in> set (hb_conns h) then map_option (after_send data h) (hb_heap h d) else hb_heap h d)"
    by blast
  have "if c \<notin> set (hb_conns h) then hb_heap h' c = Some k \<and> c \<notin> set (hb_conns h')
          else if \<not> isRevoked (cn_tokenID k) h \<and> length (cn_send k) < 256
          then hb_heap h' c = Some (k\<lparr>cn_send := cn_send k @ [data]\<rparr>) \<and> c \<in> set (hb_conns h')
          else hb_heap h' c = Some (k\<lparr>cn_closed := True\<rparr>) \<and> c \<notin> set (hb_conns h')"
    if "hb_heap h c = Some k" for c k
    using that h'(3,4) by (auto simp: stays_def after_send_def sendBufSize_def)
  with h'(1,2) show ?thesis by blast
qed

definition hub_example :: hub where
  "hub_example = \<lparr>hb_conns = [1, 2], hb_revokedTokens = [''t2''],
     hb_heap = [1 \<mapsto> \<lparr>cn_tokenID = ''t1'', cn_send = [], cn_closed = False\<rparr>,
                2 \<mapsto> \<lparr>cn_tokenID = ''t2'', cn_send = [], cn_closed = False\<rparr>]\<rparr>"

lemma hub_inv_example: "hub_inv hub_example"
  by (simp add: hub_inv_def hub_example_def)

theorem Broadcast_exact_witness:
  "\<exists>h'. Broadcast JNull hub_example = Some h' \<and> hub_inv h'
     \<and> hb_heap h' 1 = Some \<lparr>cn_tokenID = ''t1'', cn_send = [JNull], cn_closed = False\<rparr> \<and> 2 \<notin> set (hb_conns h')"
proof -
  from Broadcast_exact [OF hub_inv_example, of JNull] obtain h' where b: "Broadcast JNull hub_example = Some h'" "hub_inv h'"
    by blast
  moreover from b(1) have "hb_heap h' 1 = Some \<lparr>cn_tokenID = ''t1'', cn_send = [JNull], cn_closed = False\<rparr> \<and> 2 \<notin> set (hb_conns h')"
    by (auto simp: Broadcast_def hub_example_def isRevoked_def tokenID_of_def send_or_drop_def sendBufSize_def)
  ultimately show ?thesis by blast
qed

text \<open>
  Revoking a token takes effect at once: every connection of the hub that was opened with it leaves
  the hub and is closed, the other connections stay as they are, and whatever is broadcast later no
  connection with that token receives another frame, one that is opened after the revocation (with
  a request authenticated just before it) included.
\<close>

theorem Revoke_silences:
  assumes "hub_inv h" and "tok \<noteq> []"
  shows "let h1 = hub_RevokeToken tok h in
      hub_inv h1 \<and> hb_conns h1 = filter (\<lambda>c. tokenID_of c h \<noteq> tok) (hb_conns h)
      \<and> (\<forall>c k. c \<in> set (hb_conns h) \<and> hb_heap h c = Some k \<longrightarrow>
           hb_heap h1 c = Some (if cn_tokenID k = tok then k\<lparr>cn_closed := True\<rparr> else k))
      \<and> (\<forall>ps u c data h2 h3. serveWS ps u tok c h1 = WsConnected h2 \<and> Broadcast data h2 = Some h3 \<longrightarrow>
           c \<notin> set (hb_conns h3) \<and> (\<exists>k. hb_heap h3 c = Some k \<and> cn_closed k \<and> cn_send k = [reconnect_frame]))"
proof -
  let ?h1 = "hub_RevokeToken tok h"
  have inv1: "hub_inv ?h1" by (rule hub_inv_Revoke [OF assms(1)])
  have kept: "hb_heap ?h1 c = Some (if cn_tokenID k = tok then k\<lparr>cn_closed := True\<rparr> else k)"
    if "c \<in> set (hb_conns h)" "hb_heap h c = Some k" for c k
    using that by (auto simp: Revoke_heap victims_def tokenID_of_def)
  have late: "c \<notin> set (hb_conns h3) \<and> (\<exists>k. hb_heap h3 c = Some k \<and> cn_closed k \<and> cn_send k = [reconnect_frame])"
    if s: "serveWS ps u tok c ?h1 = WsConnected h2" and b: "Broadcast data h2 = Some h3" for ps u c data h2 h3
  proof -
    from Broadcast_spec [OF hub_inv_serve [OF inv1 s], of data] b
    have h3: "hb_conns h3 = filter (stays h2) (hb_conns h2)"
      "\<forall>d. hb_heap h3 d = (if d \<in> set (hb_conns h2) then map_option (after_send data h2) (hb_heap h2 d) else hb_heap h2 d)"
      by auto
    from s have h2: "c \<in> set (hb_conns h2)" "hb_revokedTokens h2 = hb_revokedTokens ?h1"
      "hb_heap h2 c = Some \<lparr>cn_tokenID = tok, cn_send = [reconnect_frame], cn_closed = False\<rparr>"
      by (auto simp: serveWS_def Let_def hub_register_def sendBufSize_def split: if_splits)
    then have "isRevoked tok h2" using assms(2) by (simp add: isRevoked_def Revoke_revoked)
    with h2 h3 show ?thesis by (simp add: stays_def after_send_def)
  qed
  show ?thesis unfolding Let_def using inv1 Revoke_conns [of tok h] kept late by blast
qed

theorem Revoke_silences_witness:
  "hub_inv (hub_RevokeToken ''t1'' hub_example) \<and> hb_conns (hub_RevokeToken ''t1'' hub_example) = [2]"
  using Revoke_silences [OF hub_inv_example, of "''t1''"]
  by (simp add: Let_def hub_example_def tokenID_of_def)

section \<open>Interleaved operations\<close>

text \<open>
  The goroutines, each between two points at which another one can run: \<open>BSnap\<close> takes the read lock and
  copies the connections, \<open>BNext\<close> asks whether the next one is revoked, \<open>BSend\<close> is at the \<open>select\<close>,
  \<open>BDrop\<close> has decided to drop and deregisters, \<open>BClose\<close> closes; \<open>RMark\<close> holds the lock of a revocation,
  \<open>RClose\<close> closes its victims; \<open>WConn\<close> is the send of the reconnect frame in \<open>serveWS\<close>.
\<close>

datatype thread =
    BSnap jval
  | BNext jval "nat list"
  | BSend jval nat "nat list"
  | BDrop jval nat "nat list"
  | BClose jval nat "nat list"
  | RMark string
  | RClose "nat list"
  | WConn nat
  | Finished

fun thread_step :: "thread \<Rightarrow> hub \<Rightarrow> (hub \<times> thread) option" where
  "thread_step (BSnap data) h = Some (h, BNext data (hb_conns h))"
| "thread_step (BNext data []) h = Some (h, Finished)"
| "thread_step (BNext data (c # cs)) h =
     Some (h, if isRevoked (tokenID_of c h) h then BDrop data c cs else BSend data c cs)"
| "thread_step (BSend data c cs) h =
     (case hb_heap h c of
        None \<Rightarrow> None
      | Some k \<Rightarrow>
          if cn_closed k then None
          else if length (cn_send k) < sendBufSize
          then Some (upd_conn c (\<lambda>k. k\<lparr>cn_send := cn_send k @ [data]\<rparr>) h, BNext data cs)
          else Some (h, BDrop data c cs))"
| "thread_step (BDrop data c cs) h = Some (hub_deregister c h, BClose data c cs)"
| "thread_step (BClose data c cs) h = Some (conn_close c h, BNext data cs)"
| "thread_step (RMark i) h = Some (revoke_mark i h, RClose (victims i h))"
| "thread_step (RClose []) h = Some (h, Finished)"
| "thread_step (RClose (c # cs)) h = Some (conn_close c h, RClose cs)"
| "thread_step (WConn c) h =
     (case hb_heap h c of
        None \<Rightarrow> None
      | Some k \<Rightarrow>
          if cn_closed k then None
          else if length (cn_send k) < sendBufSize
          then Some (upd_conn c (\<lambda>k. k\<lparr>cn_send := cn_send k @ [reconnect_frame]\<rparr>) h, Finished)
          else Some (h, Finished))"
| "thread_step Finished h = Some (h, Finished)"

text \<open>A configuration: the hub and its goroutines, or the crashed process.\<close>

datatype hub_config = Running hub "thread list" | Panicked

inductive conc_step :: "hub_config \<Rightarrow> hub_config \<Rightarrow> bool" where
  go: "i < length ts \<Longrightarrow> thread_step (ts ! i) h = Some (h', t) \<Longrightarrow> conc_step (Running h ts) (Running h' (ts[i := t]))"
| crash: "i < length ts \<Longrightarrow> thread_step (ts ! i) h = None \<Longrightarrow> conc_step (Running h ts) Panicked"
| drain: "hb_heap h c = Some k \<Longrightarrow> cn_send k = f # fs \<Longrightarrow>
    conc_step (Running h ts) (Running (upd_conn c (\<lambda>k. k\<lparr>cn_send := fs\<rparr>) h) ts)"

inductive conc_reach :: "hub_config \<Rightarrow> hub_config \<Rightarrow> bool" for c where
  here: "conc_reach c c"
| step: "conc_reach c d \<Longrightarrow> conc_step d e \<Longrightarrow> conc_reach c e"

inductive_simps conc_step_panicked: "conc_step Panicked c"

text \<open>One broadcast on its own runs through the same states as the uninterrupted operation.\<close>

fun run_thread :: "nat \<Rightarrow> thread \<Rightarrow> hub \<Rightarrow> (hub \<times> thread) option" where
  "run_thread 0 t h = Some (h, t)"
| "run_thread (Suc n) t h = (case thread_step t h of None \<Rightarrow> None | Some (h', t') \<Rightarrow> run_thread n t' h')"

lemma run_thread_add:
  "run_thread (m + n) t h = (case run_thread m t h of None \<Rightarrow> None | Some (h', t') \<Rightarrow> run_thread n t' h')"
  by (induction m arbitrary: t h) (auto split: option.split prod.split)

lemma run_finished [simp]: "run_thread n Finished h = Some (h, Finished)"
  by (induction n) auto

lemma dereg_close: "hub_deregister c (conn_close c h) = conn_close c (hub_deregister c h)"
  by (simp add: conn_close_def upd_conn_def hub_deregister_def)

lemma run_more:
  assumes "\<And>g. run_thread n t g = map_option (\<lambda>h'. (h', Finished)) (f g)"
  shows "run_thread (m + n) t g = run_thread n t g"
proof -
  have "run_thread (n + m) t g = map_option (\<lambda>h'. (h', Finished)) (f g)"
    unfolding run_thread_add [of n m] assms by (cases "f g") simp_all
  then show ?thesis by (simp only: add.commute [of m] assms)
qed

lemma run_loop:
  "run_thread (4 * length cs + 1) (BNext data cs) h = map_option (\<lambda>h'. (h', Finished)) (broadcast_loop cs data h)"
proof (induction cs arbitrary: h)
  case Nil
  then show ?case by simp
next
  case (Cons c cs)
  note more = run_more [of "4 * length cs + 1", OF Cons.IH]
  have n: "4 * length (c # cs) + 1 = Suc (Suc (2 + (4 * length cs + 1)))" by simp
  show ?case
  proof (cases "isRevoked (tokenID_of c h) h")
    case True
    have "run_thread (4 * length (c # cs) + 1) (BNext data (c # cs)) h
        = run_thread (1 + (4 * length cs + 1)) (BNext data cs) (conn_close c (hub_deregister c h))"
      by (simp add: True numeral_eq_Suc)
    then show ?thesis using more [of 1] Cons.IH True by simp
  next
    case False
    show ?thesis
    proof (cases "send_or_drop c data h")
      case None
      then show ?thesis using False unfolding n
        by (auto simp: send_or_drop_def split: option.splits if_splits)
    next
      case (Some h')
      then obtain k where k: "hb_heap h c = Some k" "\<not> cn_closed k"
        by (auto simp: send_or_drop_def split: option.splits if_splits)
      show ?thesis
      proof (cases "length (cn_send k) < sendBufSize")
        case True
        with k Some have "h' = upd_conn c (\<lambda>k. k\<lparr>cn_send := cn_send k @ [data]\<rparr>) h" by (simp add: send_or_drop_def)
        then have "run_thread (4 * length (c # cs) + 1) (BNext data (c # cs)) h
            = run_thread (2 + (4 * length cs + 1)) (BNext data cs) h'"
          by (simp add: False k True numeral_eq_Suc)
        then show ?thesis using more [of 2] Cons.IH False Some by simp
      next
        case full: False
        with k Some have "h' = conn_close c (hub_deregister c h)" by (simp add: send_or_drop_def)
        then have "run_thread (4 * length (c # cs) + 1) (BNext data (c # cs)) h
            = run_thread (4 * length cs + 1) (BNext data cs) h'"
          unfolding n by (simp add: False k full numeral_eq_Suc)
        then show ?thesis using Cons.IH False Some by simp
      qed
    qed
  qed
qed

text \<open>
  The uninterrupted broadcast is what the goroutine does when it runs alone: after at most
  \<open>4 n + 2\<close> of its steps, \<open>n\<close> being the number of connections, it has finished in the same state, and
  (the hub being well-formed) without a panic.
\<close>

theorem Broadcast_refines:
  "run_thread (4 * length (hb_conns h) + 2) (BSnap data) h = map_option (\<lambda>h'. (h', Finished)) (Broadcast data h)"
  using run_loop [of "hb_conns h" data h] by (simp add: Broadcast_def)

definition slow_hub :: hub where
  "slow_hub = \<lparr>hb_conns = [1], hb_revokedTokens = [],
     hb_heap = [1 \<mapsto> \<lparr>cn_tokenID = ''t'', cn_send = replicate 256 JNull, cn_closed = False\<rparr>]\<rparr>"

text \<open>A schedule is the list of the goroutines that move.\<close>

fun run_sched :: "nat list \<Rightarrow> hub \<Rightarrow> thread list \<Rightarrow> hub_config" where
  "run_sched [] h ts = Running h ts"
| "run_sched (i # is) h ts =
     (if i < length ts then
        (case thread_step (ts ! i) h of None \<Rightarrow> Panicked | Some (h', t) \<Rightarrow> run_sched is h' (ts[i := t]))
      else run_sched is h ts)"

lemma conc_reach_trans: "conc_reach d e \<Longrightarrow> conc_reach c d \<Longrightarrow> conc_reach c e"
  by (induction rule: conc_reach.induct) (auto intro: conc_reach.step)

lemma run_sched_reach: "conc_reach (Running h ts) (run_sched is h ts)"
proof (induction "is" h ts rule: run_sched.induct)
  case (1 h ts)
  then show ?case by (simp add: conc_reach.here)
next
  case (2 i "is" h ts)
  show ?case
  proof (cases "i < length ts")
    case True
    show ?thesis
    proof (cases "thread_step (ts ! i) h")
      case None
      with True show ?thesis by (auto intro: conc_reach.intros conc_step.crash)
    next
      case (Some r)
      obtain h' t where r: "r = (h', t)" by (cases r)
      have "conc_reach (Running h ts) (Running h' (ts[i := t]))"
        using True Some r by (auto intro: conc_reach.intros conc_step.go)
      moreover have "conc_reach (Running h' (ts[i := t])) (run_sched is h' (ts[i := t]))"
        using "2.IH"(1) [OF True Some r [symmetric]] .
      ultimately show ?thesis using True Some r by (simp add: conc_reach_trans)
    qed
  qed (use 2 in simp)
qed

text \<open>
  Two broadcasts at the same time can crash the server: from a well-formed hub with one connection
  whose client is 256 frames behind, both take their copy of the connections, one drops and closes
  the slow connection, and the other one sends on the closed channel, which panics. A broadcast and a
  revocation of the connection's token can do the same even when its queue is empty.
\<close>

theorem concurrent_broadcasts_panic:
  "hub_inv slow_hub \<and> conc_reach (Running slow_hub [BSnap a, BSnap b]) Panicked
   \<and> hub_inv hub_example \<and> conc_reach (Running hub_example [BSnap a, RMark ''t1'']) Panicked"
proof -
  have "hub_inv slow_hub" by (simp add: hub_inv_def slow_hub_def)
  moreover have "run_sched [0, 1, 0, 1, 0, 0, 0, 1] slow_hub [BSnap a, BSnap b] = Panicked"
    by (simp add: slow_hub_def isRevoked_def tokenID_of_def sendBufSize_def conn_close_def upd_conn_def hub_deregister_def)
  moreover have "run_sched [0, 0, 1, 1, 0] hub_example [BSnap a, RMark ''t1''] = Panicked"
    by (simp add: hub_example_def isRevoked_def tokenID_of_def sendBufSize_def conn_close_def upd_conn_def
        revoke_mark_def victims_def)
  ultimately show ?thesis using run_sched_reach hub_inv_example by metis
qed

end
