(* ===== verification/Auth_Store.thy ===== *)
theory Auth_Store
  imports Go_Strings
begin

text \<open>
  \<open>internal/auth/auth.go\<close>: the access tokens. The hash function is the parameter \<open>H\<close> (the hexadecimal
  SHA-256 of a string), the random bytes are an argument of \<open>Create\<close>; what the code relies on is that
  a hash has at least 16 characters (it has 64), and, where stated, that two secrets in play do not
  collide. Times are in nanoseconds; the zero time, which means that a token does not expire, is
  \<open>None\<close>.
\<close>

definition tokenBytes :: nat where "tokenBytes = 32"

record token =
  tk_ID :: string
  tk_Hash :: string
  tk_CreatedAt :: int
  tk_ExpiresAt :: "int option"
  tk_Panes :: "string list"
  tk_Windows :: "string list"

definition IsExpired :: "int \<Rightarrow> token \<Rightarrow> bool" where
  "IsExpired now t = (case tk_ExpiresAt t of None \<Rightarrow> False | Some e \<Rightarrow> e < now)"

definition HasPaneAccess :: "string \<Rightarrow> token \<Rightarrow> bool" where
  "HasPaneAccess paneID t = (if tk_Panes t = [] then True else list_ex (\<lambda>p. p = paneID) (tk_Panes t))"

type_synonym token_store = "(string, token) gomap"

definition NewTokenStore :: token_store where "NewTokenStore = []"

record create_options =
  co_Expiry :: int
  co_Panes :: "string list"
  co_Windows :: "string list"

definition hex_digit :: "nat \<Rightarrow> char" where
  "hex_digit n = (if n < 10 then char_of (48 + n) else char_of (87 + n))"

text \<open>\<open>hex.EncodeToString\<close>.\<close>

definition hex_encode :: "string \<Rightarrow> string" where
  "hex_encode bs = concat (map (\<lambda>b. [hex_digit (of_char b div 16), hex_digit (of_char b mod 16)]) bs)"

definition auth_Create ::
    "(string \<Rightarrow> string) \<Rightarrow> string result \<Rightarrow> int \<Rightarrow> create_options \<Rightarrow> token_store \<Rightarrow> (string \<times> token \<times> token_store) result" where
  "auth_Create H entropy now opts s =
     (case entropy of
        Inl e \<Rightarrow> Inl (Wrapf ''generating token entropy: %w'' [] e)
      | Inr raw \<Rightarrow>
          let plain = hex_encode raw;
              hash = H plain;
              tid = take 16 hash;
              tok = \<lparr>tk_ID = tid, tk_Hash = hash, tk_CreatedAt = now,
                     tk_ExpiresAt = (if 0 < co_Expiry opts then Some (now + co_Expiry opts) else None),
                     tk_Panes = co_Panes opts, tk_Windows = co_Windows opts\<rparr>
          in Inr (plain, tok, gm_put tid tok s))"

definition auth_Verify :: "(string \<Rightarrow> string) \<Rightarrow> int \<Rightarrow> string \<Rightarrow> token_store \<Rightarrow> token option" where
  "auth_Verify H now plaintext s =
     (let hash = H plaintext in
      case gm_get s (take 16 hash) of
        None \<Rightarrow> None
      | Some tok \<Rightarrow>
          if tk_Hash tok \<noteq> hash then None
          else if IsExpired now tok then None
          else Some tok)"

definition auth_Revoke :: "string \<Rightarrow> token_store \<Rightarrow> token_store \<times> bool" where
  "auth_Revoke tid s = (gm_del tid s, gm_get s tid \<noteq> None)"

definition auth_List :: "int \<Rightarrow> token_store \<Rightarrow> token list" where
  "auth_List now s = filter (\<lambda>t. \<not> IsExpired now t) (map snd s)"

definition auth_Len :: "token_store \<Rightarrow> nat" where "auth_Len s = length s"

section \<open>Invariant\<close>

definition auth_inv :: "token_store \<Rightarrow> bool" where
  "auth_inv s \<longleftrightarrow> gm_ok s \<and> list_all (\<lambda>(k, t). tk_ID t = k \<and> take 16 (tk_Hash t) = k) s"

lemma auth_inv_New [simp]: "auth_inv NewTokenStore"
  by (simp add: auth_inv_def NewTokenStore_def)

lemma auth_inv_Create [inv_intros]: "auth_inv s \<Longrightarrow> auth_Create H r now o1 s = Inr (p, t, s') \<Longrightarrow> auth_inv s'"
  by (auto simp: auth_Create_def auth_inv_def Let_def intro!: gm_all_put split: sum.splits)

lemma auth_inv_Revoke [inv_intros]: "auth_inv s \<Longrightarrow> auth_inv (fst (auth_Revoke i s))"
  by (auto simp: auth_Revoke_def auth_inv_def intro!: gm_all_del)

section \<open>Properties\<close>

text \<open>A history of the store: creations with their random bytes and clock, and revocations.\<close>

datatype auth_op = AuthCreate string int create_options | AuthRevoke string

fun auth_step :: "(string \<Rightarrow> string) \<Rightarrow> token_store \<Rightarrow> auth_op \<Rightarrow> token_store" where
  "auth_step H s (AuthCreate raw now opts) =
     (case auth_Create H (Inr raw) now opts s of Inl _ \<Rightarrow> s | Inr (p, t, s') \<Rightarrow> s')"
| "auth_step H s (AuthRevoke i) = fst (auth_Revoke i s)"

text \<open>Why a secret is accepted: the creation, and that its identifier was not revoked since.\<close>

definition justified :: "(string \<Rightarrow> string) \<Rightarrow> auth_op list \<Rightarrow> int \<Rightarrow> string \<Rightarrow> bool" where
  "justified H ops now plain \<longleftrightarrow>
     (\<exists>before raw t opts later. ops = before @ AuthCreate raw t opts # later \<and> H (hex_encode raw) = H plain
        \<and> AuthRevoke (take 16 (H plain)) \<notin> set later \<and> (co_Expiry opts \<le> 0 \<or> now \<le> t + co_Expiry opts))"

lemma get_after:
  "gm_get (foldl (auth_step H) s ops) k = Some tok \<Longrightarrow>
     (gm_get s k = Some tok \<and> AuthRevoke k \<notin> set ops) \<or>
     (\<exists>before raw t opts later. ops = before @ AuthCreate raw t opts # later \<and> AuthRevoke k \<notin> set later
        \<and> take 16 (H (hex_encode raw)) = k \<and> tk_Hash tok = H (hex_encode raw)
        \<and> tk_ExpiresAt tok = (if 0 < co_Expiry opts then Some (t + co_Expiry opts) else None))"
proof (induction ops arbitrary: s rule: rev_induct)
  case Nil
  then show ?case by simp
next
  case (snoc x ops)
  let ?s = "foldl (auth_step H) s ops"
  have get: "gm_get (auth_step H ?s x) k = Some tok" using snoc.prems by simp
  consider (old) "gm_get ?s k = Some tok" "x \<noteq> AuthRevoke k"
    | (new) raw t opts where "x = AuthCreate raw t opts" "take 16 (H (hex_encode raw)) = k"
        "tk_Hash tok = H (hex_encode raw)" "tk_ExpiresAt tok = (if 0 < co_Expiry opts then Some (t + co_Expiry opts) else None)"
  proof (cases x)
    case (AuthCreate raw t opts)
    with get show ?thesis
      by (cases "take 16 (H (hex_encode raw)) = k") (auto simp: auth_Create_def Let_def gm_get_put intro: that)
  next
    case (AuthRevoke i)
    with get show ?thesis by (cases "i = k") (auto simp: auth_Revoke_def gm_get_del intro: that)
  qed
  then show ?case
  proof cases
    case old
    from snoc.IH [OF old(1)] show ?thesis
    proof
      assume "gm_get s k = Some tok \<and> AuthRevoke k \<notin> set ops"
      with old(2) show ?thesis by auto
    next
      assume "\<exists>before raw t opts later. ops = before @ AuthCreate raw t opts # later \<and> AuthRevoke k \<notin> set later
        \<and> take 16 (H (hex_encode raw)) = k \<and> tk_Hash tok = H (hex_encode raw)
        \<and> tk_ExpiresAt tok = (if 0 < co_Expiry opts then Some (t + co_Expiry opts) else None)"
      then obtain bef raw t opts later where h: "ops = bef @ AuthCreate raw t opts # later" "AuthRevoke k \<notin> set later"
        "take 16 (H (hex_encode raw)) = k" "tk_Hash tok = H (hex_encode raw)"
        "tk_ExpiresAt tok = (if 0 < co_Expiry opts then Some (t + co_Expiry opts) else None)" by (elim exE conjE)
      from h(1) have "ops @ [x] = bef @ AuthCreate raw t opts # (later @ [x])" by simp
      moreover from h(2) old(2) have "AuthRevoke k \<notin> set (later @ [x])" by auto
      ultimately show ?thesis using h(3-5) by blast
    qed
  next
    case (new raw t opts)
    then have "ops @ [x] = ops @ AuthCreate raw t opts # []" by simp
    with new(2-4) show ?thesis by (metis list.set(1) empty_iff)
  qed
qed

text \<open>
  Only a secret that was handed out is accepted: whatever was created and revoked since the store
  was new, a presented string is verified only if a token was created whose secret has the same hash,
  its identifier was not revoked after that, and it has not expired (a token created with an expiry
  of zero or less never does).
\<close>

theorem Verify_justified:
  assumes "auth_Verify H now plain (foldl (auth_step H) NewTokenStore ops) = Some tok"
  shows "\<exists>before raw t opts later. ops = before @ AuthCreate raw t opts # later \<and> H (hex_encode raw) = H plain
        \<and> AuthRevoke (take 16 (H plain)) \<notin> set later \<and> (co_Expiry opts \<le> 0 \<or> now \<le> t + co_Expiry opts)"
proof -
  let ?s = "foldl (auth_step H) NewTokenStore ops"
  from assms have v: "gm_get ?s (take 16 (H plain)) = Some tok" "tk_Hash tok = H plain" "\<not> IsExpired now tok"
    by (auto simp: auth_Verify_def Let_def split: option.splits if_splits)
  from get_after [OF v(1)] obtain bef raw t opts later where
    h: "ops = bef @ AuthCreate raw t opts # later" "AuthRevoke (take 16 (H plain)) \<notin> set later"
      "tk_Hash tok = H (hex_encode raw)"
      "tk_ExpiresAt tok = (if 0 < co_Expiry opts then Some (t + co_Expiry opts) else None)"
    by (auto simp: NewTokenStore_def)
  from v(3) h(4) have "co_Expiry opts \<le> 0 \<or> now \<le> t + co_Expiry opts"
    by (auto simp: IsExpired_def split: if_splits)
  with h v(2) show ?thesis by metis
qed

text \<open>A hash function for examples; any function with long enough values will do.\<close>

definition pad_hash :: "string \<Rightarrow> string" where
  "pad_hash s = take 64 (s @ replicate 64 (CHR ''0''))"

theorem Verify_justified_witness:
  "\<exists>tok. auth_Verify pad_hash 50 ''4142'' (foldl (auth_step pad_hash) NewTokenStore
        [AuthCreate ''AB'' 10 \<lparr>co_Expiry = 60, co_Panes = [], co_Windows = []\<rparr>, AuthRevoke ''zz'']) = Some tok
     \<and> (\<exists>before raw t opts later.
          [AuthCreate ''AB'' 10 \<lparr>co_Expiry = 60, co_Panes = [], co_Windows = []\<rparr>, AuthRevoke ''zz'']
            = before @ AuthCreate raw t opts # later \<and> (co_Expiry opts \<le> 0 \<or> 50 \<le> t + co_Expiry opts))"
proof -
  let ?ops = "[AuthCreate ''AB'' 10 \<lparr>co_Expiry = 60, co_Panes = [], co_Windows = []\<rparr>, AuthRevoke ''zz'']"
  have "is_ok (case auth_Verify pad_hash 50 ''4142'' (foldl (auth_step pad_hash) NewTokenStore ?ops) of
      None \<Rightarrow> Inl (Extern []) | Some t \<Rightarrow> Inr t)"
    by code_simp
  then obtain tok where tok: "auth_Verify pad_hash 50 ''4142'' (foldl (auth_step pad_hash) NewTokenStore ?ops) = Some tok"
    by (cases "auth_Verify pad_hash 50 ''4142'' (foldl (auth_step pad_hash) NewTokenStore ?ops)") auto
  with Verify_justified [OF tok] show ?thesis by blast
qed

text \<open>
  A fresh secret works until it expires or is revoked: right after its creation it is verified, as
  the token that was returned, at every time up to its expiry and at none after it; once its
  identifier is revoked it is not verified at any time, and other tokens are not affected by either.
\<close>

theorem Create_Verify_Revoke:
  assumes "auth_Create H (Inr raw) t opts s = Inr (plain, tok, s')"
  shows "auth_Verify H now plain s' = (if co_Expiry opts \<le> 0 \<or> now \<le> t + co_Expiry opts then Some tok else None)
    \<and> tk_ID tok = take 16 (H plain) \<and> tk_Panes tok = co_Panes opts
    \<and> auth_Verify H now plain (fst (auth_Revoke (tk_ID tok) s')) = None \<and> snd (auth_Revoke (tk_ID tok) s')
    \<and> (take 16 (H other) \<noteq> tk_ID tok \<longrightarrow>
         auth_Verify H now other s' = auth_Verify H now other s
         \<and> auth_Verify H now other (fst (auth_Revoke (tk_ID tok) s')) = auth_Verify H now other s)"
  using assms
  by (auto simp: auth_Create_def Let_def auth_Verify_def gm_get_put gm_get_del IsExpired_def auth_Revoke_def)

theorem Create_Verify_Revoke_witness:
  "\<exists>tok s'. auth_Create pad_hash (Inr ''AB'') 10 \<lparr>co_Expiry = 60, co_Panes = [''p''], co_Windows = []\<rparr> NewTokenStore = Inr (''4142'', tok, s')
     \<and> auth_Verify pad_hash 70 ''4142'' s' = Some tok \<and> auth_Verify pad_hash 71 ''4142'' s' = None"
proof -
  let ?o = "\<lparr>co_Expiry = 60, co_Panes = [''p''], co_Windows = []\<rparr>"
  have "hex_encode ''AB'' = ''4142''" by code_simp
  then obtain tok s' where c: "auth_Create pad_hash (Inr ''AB'') 10 ?o NewTokenStore = Inr (''4142'', tok, s')"
    by (simp add: auth_Create_def Let_def)
  from conjunct1 [OF Create_Verify_Revoke [OF c, of 70]] conjunct1 [OF Create_Verify_Revoke [OF c, of 71]] c
  show ?thesis by simp
qed

text \<open>The scope of a token: no listed pane means every pane.\<close>

lemma HasPaneAccess_iff: "HasPaneAccess p t \<longleftrightarrow> tk_Panes t = [] \<or> p \<in> set (tk_Panes t)"
  by (auto simp: HasPaneAccess_def list_ex_iff)

end
