(* ===== verification/Rate_Limit.thy ===== *)
theory Rate_Limit
  imports Go_Strings
begin

text \<open>
  The rate limiter of \<open>internal/server/middleware.go\<close>: at most ten requests per source address and
  window of one minute. Times are in nanoseconds.
\<close>

definition rateLimitRequests :: nat where "rateLimitRequests = 10"
definition rateLimitWindow :: int where "rateLimitWindow = 60 * 1000000000"

record rate_bucket =
  rb_count :: nat
  rb_resetAt :: int

type_synonym rate_limiter = "(string, rate_bucket) gomap"

definition NewRateLimiter :: rate_limiter where "NewRateLimiter = []"

definition Allow :: "int \<Rightarrow> string \<Rightarrow> rate_limiter \<Rightarrow> rate_limiter \<times> bool" where
  "Allow now ip rl =
     (case gm_get rl ip of
        None \<Rightarrow> (gm_put ip \<lparr>rb_count = 1, rb_resetAt = now + rateLimitWindow\<rparr> rl, True)
      | Some b \<Rightarrow>
          if rb_resetAt b < now then (gm_put ip \<lparr>rb_count = 1, rb_resetAt = now + rateLimitWindow\<rparr> rl, True)
          else if rateLimitRequests \<le> rb_count b then (rl, False)
          else (gm_put ip (b\<lparr>rb_count := rb_count b + 1\<rparr>) rl, True))"

section \<open>Runs\<close>

text \<open>A history of requests, each with its time and source, and the answers of the limiter.\<close>

fun allow_run :: "(int \<times> string) list \<Rightarrow> rate_limiter \<Rightarrow> rate_limiter \<times> bool list" where
  "allow_run [] rl = (rl, [])"
| "allow_run ((t, ip) # rs) rl =
     (case Allow t ip rl of (rl', a) \<Rightarrow> (case allow_run rs rl' of (rl'', as) \<Rightarrow> (rl'', a # as)))"

text \<open>The answers to one source, with the times of its requests.\<close>

definition allowed_times :: "string \<Rightarrow> (int \<times> string) list \<Rightarrow> rate_limiter \<Rightarrow> int list" where
  "allowed_times ip rs rl =
     map (fst \<circ> fst) (filter (\<lambda>(r, a). snd r = ip \<and> a) (zip rs (snd (allow_run rs rl))))"

lemma allowed_Nil [simp]: "allowed_times ip [] rl = []"
  by (simp add: allowed_times_def)

lemma allowed_Cons:
  "allowed_times ip ((t, j) # rs) rl =
     (if j = ip \<and> snd (Allow t j rl) then [t] else []) @ allowed_times ip rs (fst (Allow t j rl))"
  by (auto simp: allowed_times_def split: prod.split)

lemma Allow_other: "j \<noteq> ip \<Longrightarrow> gm_get (fst (Allow t j rl)) ip = gm_get rl ip"
  by (auto simp: Allow_def gm_get_put split: option.split)

text \<open>
  Requests up to the end of the current window of a source: what is left of its ten is all that is
  allowed.
\<close>

lemma allowed_in_window:
  "gm_get rl ip = Some b \<Longrightarrow> rb_count b \<le> rateLimitRequests \<Longrightarrow> (\<And>t j. (t, j) \<in> set rs \<Longrightarrow> j = ip \<Longrightarrow> t \<le> rb_resetAt b) \<Longrightarrow>
     allowed_times ip rs rl = take (rateLimitRequests - rb_count b) (map fst (filter (\<lambda>(t, j). j = ip) rs))"
proof (induction rs arbitrary: rl b)
  case Nil
  then show ?case by simp
next
  case (Cons r rs)
  obtain t j where r: "r = (t, j)" by (cases r)
  show ?case
  proof (cases "j = ip")
    case False
    with Cons.prems Cons.IH [of "fst (Allow t j rl)" b] show ?thesis
      by (simp add: r allowed_Cons Allow_other)
  next
    case True
    with Cons.prems(3) r have t: "\<not> rb_resetAt b < t" by force
    show ?thesis
    proof (cases "rateLimitRequests \<le> rb_count b")
      case full: True
      then have "Allow t j rl = (rl, False)" using True t Cons.prems(1) by (simp add: Allow_def)
      with full True Cons.prems Cons.IH [of rl b] show ?thesis by (simp add: r allowed_Cons)
    next
      case False
      let ?b = "b\<lparr>rb_count := rb_count b + 1\<rparr>"
      have step: "Allow t ip rl = (gm_put ip ?b rl, True)" using False t Cons.prems(1) by (simp add: Allow_def)
      have "gm_get (gm_put ip ?b rl) ip = Some ?b" by (simp add: gm_get_put)
      moreover have "rb_count ?b \<le> rateLimitRequests" using False by simp
      moreover have "(t, j) \<in> set rs \<Longrightarrow> j = ip \<Longrightarrow> t \<le> rb_resetAt ?b" for t j using Cons.prems(3) by auto
      ultimately have "allowed_times ip rs (gm_put ip ?b rl) =
          take (rateLimitRequests - (rb_count b + 1)) (map fst (filter (\<lambda>(t, j). j = ip) rs))"
        using Cons.IH [of "gm_put ip ?b rl" ?b] by simp
      moreover have "rateLimitRequests - rb_count b = Suc (rateLimitRequests - (rb_count b + 1))" using False by simp
      ultimately show ?thesis using True by (simp add: r allowed_Cons step)
    qed
  qed
qed

section \<open>Properties\<close>

text \<open>
  From a source that is new (or whose window is over), the first ten requests of the next minute are
  allowed and every later one of that minute is refused, however the requests of other sources are
  mixed in; and a source in the middle of its minute with \<open>n\<close> requests counted gets exactly the
  remaining \<open>10 - n\<close>.
\<close>

theorem rate_limit_window:
  assumes "case gm_get rl ip of None \<Rightarrow> True | Some b \<Rightarrow> rb_resetAt b < t0"
    and "list_all (\<lambda>(t, j). j = ip \<longrightarrow> t \<le> t0 + 60000000000) rs"
  shows "allowed_times ip ((t0, ip) # rs) rl = take 10 (map fst (filter (\<lambda>(t, j). j = ip) ((t0, ip) # rs)))
    \<and> length (allowed_times ip ((t0, ip) # rs) rl) \<le> 10"
proof -
  let ?b = "\<lparr>rb_count = 1, rb_resetAt = t0 + rateLimitWindow\<rparr>"
  have step: "Allow t0 ip rl = (gm_put ip ?b rl, True)"
    using assms(1) by (auto simp: Allow_def split: option.splits)
  have "allowed_times ip rs (gm_put ip ?b rl) = take (rateLimitRequests - rb_count ?b) (map fst (filter (\<lambda>(t, j). j = ip) rs))"
    using assms(2) by (intro allowed_in_window) (auto simp: gm_get_put list_all_iff rateLimitRequests_def rateLimitWindow_def)
  then have "allowed_times ip ((t0, ip) # rs) rl = take 10 (map fst (filter (\<lambda>(t, j). j = ip) ((t0, ip) # rs)))"
    by (simp add: allowed_Cons step rateLimitRequests_def numeral_eq_Suc)
  then show ?thesis by simp
qed

theorem rate_limit_window_witness:
  "allowed_times ''10.0.0.1'' ((0, ''10.0.0.1'') # (5, ''10.0.0.2'') # map (\<lambda>k. (int k, ''10.0.0.1'')) [1..<20]) NewRateLimiter
     = map int [0..<10]"
proof -
  have "list_all (\<lambda>(t, j). j = ''10.0.0.1'' \<longrightarrow> t \<le> 0 + 60000000000) ((5, ''10.0.0.2'') # map (\<lambda>k. (int k, ''10.0.0.1'')) [1..<20])"
    by (simp add: list_all_iff)
  from rate_limit_window [OF _ this, of NewRateLimiter]
  show ?thesis by (simp add: NewRateLimiter_def upt_rec)
qed

text \<open>A bucket is never removed: the memory of the limiter grows with the number of sources seen.\<close>

lemma buckets_kept: "gm_get rl ip \<noteq> None \<Longrightarrow> gm_get (fst (allow_run rs rl)) ip \<noteq> None"
proof (induction rs rl rule: allow_run.induct)
  case (2 t j rs rl)
  obtain rl' a where al: "Allow t j rl = (rl', a)" by fastforce
  have "gm_get (fst (Allow t j rl)) ip \<noteq> None"
    using "2.prems" by (auto simp: Allow_def gm_get_put split: option.split)
  with "2.IH" [OF al [symmetric]] al show ?case by (auto split: prod.split)
qed simp

end
