(* ===== verification/Highlight_Store.thy ===== *)
theory Highlight_Store
  imports Go_Json
begin

text \<open>
  \<open>internal/highlight/highlight.go\<close>: the named highlight profiles. Whether a pattern compiles is decided
  by the \<open>regexp\<close> package, the parameter \<open>compile\<close> (\<open>None\<close> for success, else the error).
\<close>

record hl_rule =
  hr_Pattern :: string
  hr_Class :: string

record hl_profile =
  hp_Name :: string
  hp_Rules :: "hl_rule list"

type_synonym highlights = "(string, hl_profile) gomap"

definition hl_New :: highlights where "hl_New = []"

fun check_rules :: "(string \<Rightarrow> go_err option) \<Rightarrow> string \<Rightarrow> nat \<Rightarrow> hl_rule list \<Rightarrow> go_err option" where
  "check_rules compile name i [] = None"
| "check_rules compile name i (r # rs) =
     (case compile (hr_Pattern r) of
        Some e \<Rightarrow> Some (Wrapf ''highlight: profile %q rule %d pattern %q: %w'' [AStr name, AInt (int i), AStr (hr_Pattern r)] e)
      | None \<Rightarrow>
          if hr_Class r = [] then
            Some (Errorf ''highlight: profile %q rule %d: class must not be empty'' [AStr name, AInt (int i)])
          else check_rules compile name (Suc i) rs)"

definition hl_Add :: "(string \<Rightarrow> go_err option) \<Rightarrow> hl_profile \<Rightarrow> highlights \<Rightarrow> highlights result" where
  "hl_Add compile p s =
     (if hp_Name p = [] then Inl (Errorf ''highlight: profile name must not be empty'' [])
      else (case check_rules compile (hp_Name p) 0 (hp_Rules p) of
              Some e \<Rightarrow> Inl e
            | None \<Rightarrow> Inr (gm_put (hp_Name p) p s)))"

definition hl_Remove :: "string \<Rightarrow> highlights \<Rightarrow> highlights result" where
  "hl_Remove name s =
     (case gm_get s name of
        None \<Rightarrow> Inl (Errorf ''highlight: profile %q not found'' [AStr name])
      | Some _ \<Rightarrow> Inr (gm_del name s))"

definition hl_Get :: "highlights \<Rightarrow> string \<Rightarrow> hl_profile option" where "hl_Get s name = gm_get s name"
definition hl_All :: "highlights \<Rightarrow> hl_profile list" where "hl_All s = map snd s"
definition hl_Len :: "highlights \<Rightarrow> nat" where "hl_Len s = length s"

definition enc_rule :: "hl_rule \<Rightarrow> jval" where
  "enc_rule r = JObj [(''pattern'', JStr (hr_Pattern r)), (''class'', JStr (hr_Class r))]"

definition enc_profile :: "hl_profile \<Rightarrow> jval" where
  "enc_profile p = JObj [(''name'', JStr (hp_Name p)), (''rules'', JArr (map enc_rule (hp_Rules p)))]"

definition dec_rule :: "jval \<Rightarrow> hl_rule result" where
  "dec_rule v = bindr (dec_obj v) (\<lambda>fs.
     bindr (dec_str (jfield ''pattern'' fs)) (\<lambda>p.
     bindr (dec_str (jfield ''class'' fs)) (\<lambda>c. Inr \<lparr>hr_Pattern = p, hr_Class = c\<rparr>)))"

definition dec_profile :: "jval \<Rightarrow> hl_profile result" where
  "dec_profile v = bindr (dec_obj v) (\<lambda>fs.
     bindr (dec_str (jfield ''name'' fs)) (\<lambda>n.
     bindr (dec_list dec_rule (jfield ''rules'' fs)) (\<lambda>rs. Inr \<lparr>hp_Name = n, hp_Rules = rs\<rparr>)))"

section \<open>The store contract\<close>

definition rule_ok :: "(string \<Rightarrow> go_err option) \<Rightarrow> hl_rule \<Rightarrow> bool" where
  "rule_ok compile r \<longleftrightarrow> compile (hr_Pattern r) = None \<and> hr_Class r \<noteq> []"

lemma check_rules_None: "check_rules compile n i rs = None \<longleftrightarrow> list_all (rule_ok compile) rs"
  by (induction rs arbitrary: i) (auto simp: rule_ok_def split: option.split)

definition hl_inv :: "(string \<Rightarrow> go_err option) \<Rightarrow> highlights \<Rightarrow> bool" where
  "hl_inv compile s \<longleftrightarrow> gm_ok s \<and> list_all (\<lambda>(k, p). hp_Name p = k \<and> k \<noteq> [] \<and> list_all (rule_ok compile) (hp_Rules p)) s"

lemma hl_inv_New [simp]: "hl_inv compile hl_New"
  by (simp add: hl_inv_def hl_New_def)

lemma hl_inv_Add [inv_intros]: "hl_inv compile s \<Longrightarrow> hl_Add compile p s = Inr s' \<Longrightarrow> hl_inv compile s'"
  by (auto simp: hl_Add_def hl_inv_def check_rules_None intro!: gm_all_put split: if_splits option.splits)

lemma hl_inv_Remove [inv_intros]: "hl_inv compile s \<Longrightarrow> hl_Remove n s = Inr s' \<Longrightarrow> hl_inv compile s'"
  by (auto simp: hl_Remove_def hl_inv_def intro!: gm_all_del split: option.splits)

text \<open>A client names a profile and gives its rules.\<close>

definition hl_rules_of :: "highlights \<Rightarrow> string \<Rightarrow> hl_rule list option" where
  "hl_rules_of s n = map_option hp_Rules (hl_Get s n)"

definition hl_put_rules :: "(string \<Rightarrow> go_err option) \<Rightarrow> string \<Rightarrow> hl_rule list \<Rightarrow> highlights \<Rightarrow> highlights result" where
  "hl_put_rules compile n rs s = hl_Add compile \<lparr>hp_Name = n, hp_Rules = rs\<rparr> s"

interpretation hls: removable_store hl_rules_of "hl_put_rules compile" "hl_inv compile"
  "\<lambda>s n rs. n \<noteq> [] \<and> list_all (rule_ok compile) rs" hl_Remove "\<lambda>s n. hl_rules_of s n \<noteq> None"
  for compile
proof unfold_locales
  fix s s' :: highlights and k :: string and v :: "hl_rule list"
  show "is_ok (hl_put_rules compile k v s) \<longleftrightarrow> k \<noteq> [] \<and> list_all (rule_ok compile) v"
    by (auto simp: hl_put_rules_def hl_Add_def simp flip: check_rules_None [of compile k 0] split: option.split)
  show "is_ok (hl_Remove k s) \<longleftrightarrow> hl_rules_of s k \<noteq> None"
    by (auto simp: hl_Remove_def hl_rules_of_def hl_Get_def split: option.split)
  show "hl_rules_of s' = (hl_rules_of s)(k \<mapsto> v)" if "hl_put_rules compile k v s = Inr s'"
    using that by (auto simp: hl_put_rules_def hl_Add_def hl_rules_of_def hl_Get_def gm_get_put fun_eq_iff
        split: if_splits option.splits)
  show "hl_rules_of s' = (hl_rules_of s)(k := None)" if "hl_Remove k s = Inr s'"
    using that by (auto simp: hl_Remove_def hl_rules_of_def hl_Get_def gm_get_del fun_eq_iff split: option.splits)
qed (auto simp: hl_put_rules_def intro: inv_intros)

section \<open>Properties\<close>

lemma dec_rule_enc: "dec_rule (enc_rule r) = Inr r"
  by (cases r) (simp add: dec_rule_def enc_rule_def jfield_Cons ascii_lower_def)

lemma dec_profile_enc: "dec_profile (enc_profile p) = Inr p"
  using mapr_map [of "hp_Rules p" dec_rule enc_rule id]
  by (cases p) (simp add: dec_profile_def enc_profile_def jfield_Cons ascii_lower_def dec_rule_enc)

text \<open>
  A profile sent as JSON is stored exactly when it has a name, every pattern compiles and every rule
  has a class; then it is read back with its rules in order, every other profile is unchanged, and
  removing it leaves no profile of that name.
\<close>

theorem highlight_store:
  assumes "hl_inv compile s"
  shows "case bindr (dec_profile (enc_profile p)) (\<lambda>q. hl_Add compile q s) of
      Inl e \<Rightarrow> hp_Name p = [] \<or> \<not> list_all (\<lambda>r. compile (hr_Pattern r) = None \<and> hr_Class r \<noteq> []) (hp_Rules p)
    | Inr s' \<Rightarrow> hp_Name p \<noteq> [] \<and> list_all (\<lambda>r. compile (hr_Pattern r) = None \<and> hr_Class r \<noteq> []) (hp_Rules p)
        \<and> hl_rules_of s' = (hl_rules_of s)(hp_Name p \<mapsto> hp_Rules p)
        \<and> (\<exists>s''. hl_Remove (hp_Name p) s' = Inr s'' \<and> hl_rules_of s'' = (hl_rules_of s)(hp_Name p := None))"
proof -
  have put: "hl_Add compile p s = hl_put_rules compile (hp_Name p) (hp_Rules p) s"
    by (cases p) (simp add: hl_put_rules_def)
  have ok: "list_all (rule_ok compile) (hp_Rules p) \<longleftrightarrow> list_all (\<lambda>r. compile (hr_Pattern r) = None \<and> hr_Class r \<noteq> []) (hp_Rules p)"
    by (simp add: rule_ok_def [abs_def])
  show ?thesis
  proof (cases "hl_Add compile p s")
    case (Inl e)
    with put have "\<not> is_ok (hl_put_rules compile (hp_Name p) (hp_Rules p) s)" by (metis is_ok.simps(1))
    with hls.accepts_iff [OF assms, of "hp_Name p" "hp_Rules p"] ok have
      "hp_Name p = [] \<or> \<not> list_all (\<lambda>r. compile (hr_Pattern r) = None \<and> hr_Class r \<noteq> []) (hp_Rules p)" by blast
    with Inl show ?thesis by (simp add: dec_profile_enc)
  next
    case (Inr s')
    with put have add: "hl_put_rules compile (hp_Name p) (hp_Rules p) s = Inr s'" by simp
    from hls.rm_iff [OF hls.add_ok [OF assms add], of "hp_Name p"] hls.add_same [OF assms add]
    obtain s'' where rm: "hl_Remove (hp_Name p) s' = Inr s''" by (auto simp: is_ok_iff)
    from hls.accepts_iff [OF assms, of "hp_Name p" "hp_Rules p"] add ok
      hls.add_get [OF assms add] hls.add_then_rm [OF assms add rm] rm Inr
    show ?thesis by (simp add: dec_profile_enc)
  qed
qed

theorem highlight_store_witness:
  "\<exists>s'. hl_Add (\<lambda>_. None) \<lparr>hp_Name = ''err'', hp_Rules = [\<lparr>hr_Pattern = ''ERROR'', hr_Class = ''red''\<rparr>]\<rparr> hl_New = Inr s'
     \<and> hl_rules_of s' ''err'' = Some [\<lparr>hr_Pattern = ''ERROR'', hr_Class = ''red''\<rparr>]"
  using highlight_store [of "\<lambda>_. None" hl_New "\<lparr>hp_Name = ''err'', hp_Rules = [\<lparr>hr_Pattern = ''ERROR'', hr_Class = ''red''\<rparr>]\<rparr>"]
  by (simp add: dec_profile_enc hl_Add_def)

end
