(* ===== verification/Focus_Cycle.thy ===== *)
theory Focus_Cycle
  imports Go_Strings
begin

text \<open>
  \<open>internal/cycle/cycle.go\<close>: the rotation of the focus. The goroutine of \<open>Run\<close> and its consumer are a step
  relation on the cycle's index, the channel (a buffer of one event) and what the consumer received.
\<close>

record cycle =
  cy_windows :: "string list"
  cy_interval :: int
  cy_index :: nat

definition cy_New :: "string list \<Rightarrow> int \<Rightarrow> cycle result" where
  "cy_New windows interval =
     (if windows = [] then Inl (Errorf ''cycle: window list must not be empty'' [])
      else if interval \<le> 0 then Inl (Errorf ''cycle: interval must be positive'' [])
      else Inr \<lparr>cy_windows = windows, cy_interval = interval, cy_index = 0\<rparr>)"

definition cy_Windows :: "cycle \<Rightarrow> string list" where "cy_Windows c = cy_windows c"
definition cy_Interval :: "cycle \<Rightarrow> int" where "cy_Interval c = cy_interval c"

datatype cy_phase = Starting | Looping | Stopped

record cy_state =
  cs_cycle :: cycle
  cs_phase :: cy_phase
  cs_chan :: "string list"
  cs_received :: "string list"
  cs_ticks :: nat

definition cy_start :: "cycle \<Rightarrow> cy_state" where
  "cy_start c = \<lparr>cs_cycle = c, cs_phase = Starting, cs_chan = [], cs_received = [], cs_ticks = 0\<rparr>"

definition cy_advance :: "cycle \<Rightarrow> cycle" where
  "cy_advance c = c\<lparr>cy_index := (cy_index c + 1) mod length (cy_windows c)\<rparr>"

text \<open>
  The first send, a tick with room in the channel, a tick that finds it full (the event is dropped, the
  index has moved on), the consumer's receive, and the end of the context, which closes the channel.
\<close>

inductive cy_step :: "cy_state \<Rightarrow> cy_state \<Rightarrow> bool" where
  first: "cs_phase s = Starting \<Longrightarrow> cs_chan s = [] \<Longrightarrow>
    cy_step s (s\<lparr>cs_phase := Looping, cs_chan := [cy_windows (cs_cycle s) ! cy_index (cs_cycle s)]\<rparr>)"
| tick: "cs_phase s = Looping \<Longrightarrow> c = cy_advance (cs_cycle s) \<Longrightarrow> cs_chan s = [] \<Longrightarrow>
    cy_step s (s\<lparr>cs_cycle := c, cs_chan := [cy_windows c ! cy_index c], cs_ticks := cs_ticks s + 1\<rparr>)"
| tick_drop: "cs_phase s = Looping \<Longrightarrow> c = cy_advance (cs_cycle s) \<Longrightarrow> cs_chan s \<noteq> [] \<Longrightarrow>
    cy_step s (s\<lparr>cs_cycle := c, cs_ticks := cs_ticks s + 1\<rparr>)"
| receive: "cs_chan s = w # ws \<Longrightarrow> cy_step s (s\<lparr>cs_chan := ws, cs_received := cs_received s @ [w]\<rparr>)"
| stop: "cs_phase s \<noteq> Stopped \<Longrightarrow> cy_step s (s\<lparr>cs_phase := Stopped\<rparr>)"

inductive cy_reach :: "cycle \<Rightarrow> cy_state \<Rightarrow> bool" for c where
  init: "cy_reach c (cy_start c)"
| step: "cy_reach c s \<Longrightarrow> cy_step s t \<Longrightarrow> cy_reach c t"

section \<open>Invariant\<close>

text \<open>
  The \<open>k\<close>-th tick stands for the window at position \<open>k\<close> of the rotation; the received events and the one
  in the channel are the windows of an increasing sequence of ticks that starts with tick 0.
\<close>

definition window_at :: "cycle \<Rightarrow> nat \<Rightarrow> string" where
  "window_at c k = cy_windows c ! (k mod length (cy_windows c))"

definition cy_inv :: "cycle \<Rightarrow> cy_state \<Rightarrow> bool" where
  "cy_inv c s \<longleftrightarrow> cy_windows (cs_cycle s) = cy_windows c \<and> cy_interval (cs_cycle s) = cy_interval c
     \<and> cy_index (cs_cycle s) = cs_ticks s mod length (cy_windows c) \<and> length (cs_chan s) \<le> 1
     \<and> (cs_phase s = Looping \<longrightarrow> cs_received s @ cs_chan s \<noteq> [])
     \<and> (cs_phase s = Starting \<longrightarrow> cs_chan s = [] \<and> cs_received s = [] \<and> cs_ticks s = 0)
     \<and> (\<exists>ks. cs_received s @ cs_chan s = map (window_at c) ks \<and> sorted_wrt (<) ks \<and> (\<forall>k \<in> set ks. k \<le> cs_ticks s)
          \<and> (ks \<noteq> [] \<longrightarrow> hd ks = 0))"

lemma cy_inv_start: "cy_New ws i = Inr c \<Longrightarrow> cy_inv c (cy_start c)"
  by (auto simp: cy_New_def cy_inv_def cy_start_def split: if_splits)

lemma cy_inv_step:
  assumes "cy_inv c s" and "cy_step s t"
  shows "cy_inv c t"
  using assms(2)
proof (cases rule: cy_step.cases)
  case first
  then show ?thesis using assms(1)
    by (auto simp: cy_inv_def window_at_def intro!: exI [of _ "[0]"])
next
  case (tick d)
  from assms(1) tick obtain ks where ks: "cs_received s = map (window_at c) ks" "sorted_wrt (<) ks"
      "\<forall>k \<in> set ks. k \<le> cs_ticks s" "ks \<noteq> []" "hd ks = 0" by (auto simp: cy_inv_def)
  let ?ks = "ks @ [Suc (cs_ticks s)]"
  have "cs_received t @ cs_chan t = map (window_at c) ?ks"
    using tick ks(1) assms(1) by (simp add: cy_inv_def window_at_def cy_advance_def mod_Suc_eq)
  moreover have "sorted_wrt (<) ?ks" using ks(2,3) by (auto simp: sorted_wrt_append)
  moreover have "\<forall>k \<in> set ?ks. k \<le> cs_ticks t" using tick ks(3) by auto
  moreover have "hd ?ks = 0" using ks(4,5) by simp
  ultimately show ?thesis
    using assms(1) tick unfolding cy_inv_def
    by (intro conjI exI [of _ ?ks]) (auto simp: cy_advance_def mod_Suc_eq)
next
  case (tick_drop d)
  from assms(1) obtain ks where ks: "cs_received s @ cs_chan s = map (window_at c) ks" "sorted_wrt (<) ks"
      "\<forall>k \<in> set ks. k \<le> cs_ticks s" "ks \<noteq> [] \<longrightarrow> hd ks = 0" by (auto simp: cy_inv_def)
  with assms(1) tick_drop show ?thesis unfolding cy_inv_def
    by (intro conjI exI [of _ ks]) (auto simp: cy_advance_def mod_Suc_eq le_Suc_eq)
qed (use assms(1) in \<open>auto simp: cy_inv_def\<close>)

lemma cy_inv_reach: "cy_reach c s \<Longrightarrow> cy_New ws i = Inr c \<Longrightarrow> cy_inv c s"
  by (induction rule: cy_reach.induct) (auto intro: cy_inv_start cy_inv_step)

section \<open>Properties\<close>

text \<open>
  The rotation never shows a window out of turn: in every reachable state of a running cycle the
  events received so far are the windows at the positions of a strictly increasing sequence of ticks,
  beginning with the first window at tick 0, so a slow consumer skips windows but never repeats one
  within a tick or goes back; at most one event is waiting, and the index is always in range.
\<close>

theorem cycle_in_turn:
  assumes "cy_New windows interval = Inr c" and "cy_reach c s"
  shows "\<exists>ks. cs_received s = map (\<lambda>k. windows ! (k mod length windows)) ks \<and> sorted_wrt (<) ks
      \<and> list_all (\<lambda>k. k \<le> cs_ticks s) ks \<and> (ks = [] \<or> hd ks = 0)
    \<and> length (cs_chan s) \<le> 1 \<and> cy_index (cs_cycle s) < length windows"
proof -
  from assms(1) have c: "cy_windows c = windows" "windows \<noteq> []" by (auto simp: cy_New_def split: if_splits)
  from cy_inv_reach [OF assms(2,1)] obtain ks where ks: "cs_received s @ cs_chan s = map (window_at c) ks"
      "sorted_wrt (<) ks" "\<forall>k \<in> set ks. k \<le> cs_ticks s" "ks \<noteq> [] \<longrightarrow> hd ks = 0"
    and rest: "length (cs_chan s) \<le> 1" "cy_index (cs_cycle s) = cs_ticks s mod length windows"
    by (auto simp: cy_inv_def c)
  let ?js = "take (length (cs_received s)) ks"
  have "cs_received s = map (window_at c) ?js"
    using ks(1) by (metis append_eq_conv_conj take_map)
  moreover have "sorted_wrt (<) ?js" using ks(2) by (rule sorted_wrt_take)
  moreover have "list_all (\<lambda>k. k \<le> cs_ticks s) ?js" using ks(3) by (auto simp: list_all_iff dest: in_set_takeD)
  moreover have "?js = [] \<or> hd ?js = 0" using ks(4) by (cases ks; cases "length (cs_received s)") auto
  ultimately show ?thesis using rest c by (intro exI [of _ ?js]) (auto simp: window_at_def [abs_def])
qed

theorem cycle_in_turn_witness:
  "\<exists>c s. cy_New [''a'', ''b'', ''c''] 5 = Inr c \<and> cy_reach c s \<and> cs_received s = [''a'', ''c'']
     \<and> cy_index (cs_cycle s) < length [''a'', ''b'', ''c'']"
proof -
  define c where "c = \<lparr>cy_windows = [''a'', ''b'', ''c''], cy_interval = 5, cy_index = 0\<rparr>"
  have new: "cy_New [''a'', ''b'', ''c''] 5 = Inr c" by (simp add: cy_New_def c_def)
  define s1 where "s1 = (cy_start c)\<lparr>cs_phase := Looping, cs_chan := [''a'']\<rparr>"
  define s2 where "s2 = s1\<lparr>cs_cycle := cy_advance c, cs_ticks := 1\<rparr>"
  define s3 where "s3 = s2\<lparr>cs_chan := [], cs_received := [''a'']\<rparr>"
  define s4 where "s4 = s3\<lparr>cs_cycle := cy_advance (cy_advance c), cs_chan := [''c''], cs_ticks := 2\<rparr>"
  define s5 where "s5 = s4\<lparr>cs_chan := [], cs_received := [''a'', ''c'']\<rparr>"
  note defs = c_def cy_start_def s1_def s2_def s3_def s4_def s5_def cy_advance_def
  have "cy_step (cy_start c) s1" using cy_step.first [of "cy_start c"] by (simp add: defs)
  moreover have "cy_step s1 s2" using cy_step.tick_drop [of s1 "cy_advance c"] by (simp add: defs)
  moreover have "cy_step s2 s3" using cy_step.receive [of s2 "''a''" "[]"] by (simp add: defs)
  moreover have "cy_step s3 s4" using cy_step.tick [of s3 "cy_advance (cy_advance c)"] by (simp add: defs numeral_2_eq_2)
  moreover have "cy_step s4 s5" using cy_step.receive [of s4 "''c''" "[]"] by (simp add: defs)
  ultimately have "cy_reach c s5" by (meson cy_reach.intros)
  moreover have "cs_received s5 = [''a'', ''c'']" by (simp add: s5_def)
  ultimately show ?thesis using new cycle_in_turn [OF new] by blast
qed

end
