(* ===== verification/Terminal_Panes.thy ===== *)
theory Terminal_Panes
  imports Go_Strings
begin

text \<open>
  \<open>internal/terminal/terminal.go\<close>: the terminal panes. The operating system is a record of parameters: the
  port it hands out, where an executable is found, and the start of a process with its argument
  vector; a process is a value of type \<open>'p\<close>. \<open>Kill\<close> returns the process it kills.
\<close>

record 'p term_os =
  to_allocPort :: "nat result"
  to_LookPath :: "string \<Rightarrow> string option"
  to_Start :: "string list \<Rightarrow> 'p result"

record 'p term_pane =
  tp_ID :: string
  tp_Port :: nat
  tp_cmd :: 'p

type_synonym 'p terminals = "(string, 'p term_pane) gomap"

definition tm_New :: "'p terminals" where "tm_New = []"

definition socat_exec :: "string \<Rightarrow> string" where
  "socat_exec cmd =
     ''EXEC:'' @ [CHR 0x27] @ ''su -s /bin/sh nobody -c '' @ [DQUOTE] @ cmd @ [DQUOTE, CHR 0x27] @ '',pty,stderr''"

definition tm_argv :: "'p term_os \<Rightarrow> nat \<Rightarrow> string \<Rightarrow> string list option" where
  "tm_argv os port cmd =
     (case to_LookPath os ''ttyd'' of
        Some ttyd \<Rightarrow>
          Some [ttyd, ''-p'', show_nat port, ''--once'', ''su'', ''-s'', ''/bin/sh'', ''nobody'', ''-c'', cmd]
      | None \<Rightarrow>
          (case to_LookPath os ''socat'' of
             None \<Rightarrow> None
           | Some socat \<Rightarrow> Some [socat, ''TCP-LISTEN:'' @ show_nat port @ '',reuseaddr,fork'', socat_exec cmd]))"

definition tm_Launch :: "'p term_os \<Rightarrow> string \<Rightarrow> string \<Rightarrow> 'p terminals \<Rightarrow> (nat \<times> 'p terminals) result" where
  "tm_Launch os tid cmd0 m =
     (let cmd = (if cmd0 = [] then ''/bin/sh'' else cmd0) in
      case to_allocPort os of
        Inl e \<Rightarrow> Inl (Wrapf ''terminal: no free port: %w'' [] e)
      | Inr port \<Rightarrow>
          (case tm_argv os port cmd of
             None \<Rightarrow> Inl (Errorf ''terminal: neither ttyd nor socat found; install ttyd for terminal pane support'' [])
           | Some argv \<Rightarrow>
               (case to_Start os argv of
                  Inl e \<Rightarrow> Inl (Wrapf ''terminal: launch %q: %w'' [AStr tid] e)
                | Inr p \<Rightarrow> Inr (port, gm_put tid \<lparr>tp_ID = tid, tp_Port = port, tp_cmd = p\<rparr> m))))"

definition tm_Kill :: "string \<Rightarrow> 'p terminals \<Rightarrow> ('p \<times> 'p terminals) result" where
  "tm_Kill tid m =
     (case gm_get m tid of
        None \<Rightarrow> Inl (Errorf ''terminal: pane %q not found'' [AStr tid])
      | Some p \<Rightarrow> Inr (tp_cmd p, gm_del tid m))"

definition tm_Get :: "string \<Rightarrow> 'p terminals \<Rightarrow> 'p term_pane option" where "tm_Get tid m = gm_get m tid"
definition tm_All :: "'p terminals \<Rightarrow> 'p term_pane list" where "tm_All m = map snd m"

section \<open>Properties\<close>

lemma Launch_Inr:
  "tm_Launch os tid cmd m = Inr (port, m') \<longleftrightarrow>
     to_allocPort os = Inr port \<and> (\<exists>argv p. tm_argv os port (if cmd = [] then ''/bin/sh'' else cmd) = Some argv
        \<and> to_Start os argv = Inr p \<and> m' = gm_put tid \<lparr>tp_ID = tid, tp_Port = port, tp_cmd = p\<rparr> m)"
  by (auto simp: tm_Launch_def Let_def split: sum.splits option.splits)

text \<open>
  A terminal runs as the user nobody or not at all: when a launch succeeds, the process was started
  with \<open>su -s /bin/sh nobody -c\<close> and the command, as separate arguments of \<open>ttyd\<close> if that is
  installed; the pane is then found under its identifier, other panes are unchanged, and killing it
  ends that process and removes the pane. Launching a second terminal for the same identifier forgets
  the first: the kill ends only the second process.
\<close>

theorem terminal_launch:
  assumes "tm_Launch os tid cmd m = Inr (port, m1)" and "to_LookPath os ''ttyd'' = Some ttyd"
    and "tm_Launch os2 tid cmd2 m1 = Inr (port2, m2)"
  shows "\<exists>p. to_Start os [ttyd, ''-p'', show_nat port, ''--once'', ''su'', ''-s'', ''/bin/sh'', ''nobody'', ''-c'',
                        if cmd = [] then ''/bin/sh'' else cmd] = Inr p
    \<and> (\<forall>u. tm_Get u m1 = (if u = tid then Some \<lparr>tp_ID = tid, tp_Port = port, tp_cmd = p\<rparr> else tm_Get u m))
    \<and> (\<exists>m3. tm_Kill tid m1 = Inr (p, m3) \<and> (\<forall>u. tm_Get u m3 = (if u = tid then None else tm_Get u m)))
    \<and> (\<exists>argv p2 m3. tm_argv os2 port2 (if cmd2 = [] then ''/bin/sh'' else cmd2) = Some argv \<and> to_Start os2 argv = Inr p2 \<and> tm_Kill tid m2 = Inr (p2, m3) \<and> tm_Get tid m3 = None)"
proof -
  from assms(1,2) obtain p where start: "to_Start os [ttyd, ''-p'', show_nat port, ''--once'', ''su'', ''-s'', ''/bin/sh'',
      ''nobody'', ''-c'', if cmd = [] then ''/bin/sh'' else cmd] = Inr p"
    and m1: "m1 = gm_put tid \<lparr>tp_ID = tid, tp_Port = port, tp_cmd = p\<rparr> m"
    by (auto simp: Launch_Inr tm_argv_def)
  from assms(3) obtain argv p2 where two: "to_Start os2 argv = Inr p2"
    "tm_argv os2 port2 (if cmd2 = [] then ''/bin/sh'' else cmd2) = Some argv" "m2 = gm_put tid \<lparr>tp_ID = tid, tp_Port = port2, tp_cmd = p2\<rparr> m1"
    by (auto simp: Launch_Inr)
  have "tm_Kill tid m1 = Inr (p, gm_del tid m1)" by (simp add: tm_Kill_def m1 gm_get_put)
  moreover have "tm_Get u (gm_del tid m1) = (if u = tid then None else tm_Get u m)" for u
    by (simp add: tm_Get_def m1 gm_get_del gm_get_put)
  moreover have "tm_Kill tid m2 = Inr (p2, gm_del tid m2)" "tm_Get tid (gm_del tid m2) = None"
    by (simp_all add: tm_Kill_def two(3) gm_get_put tm_Get_def gm_get_del)
  moreover have "tm_Get u m1 = (if u = tid then Some \<lparr>tp_ID = tid, tp_Port = port, tp_cmd = p\<rparr> else tm_Get u m)" for u
    by (simp add: tm_Get_def m1 gm_get_put)
  ultimately show ?thesis using start two(1,2) by blast
qed

definition term_os_example :: "nat \<Rightarrow> nat term_os" where
  "term_os_example n =
     \<lparr>to_allocPort = Inr (5000 + n), to_LookPath = (\<lambda>x. if x = ''ttyd'' then Some ''/usr/bin/ttyd'' else None),
      to_Start = (\<lambda>argv. Inr (n + length argv))\<rparr>"

theorem terminal_launch_witness:
  "\<exists>m1 m2. tm_Launch (term_os_example 1) ''a'' [] tm_New = Inr (5001, m1)
     \<and> tm_Launch (term_os_example 2) ''a'' ''top'' m1 = Inr (5002, m2)
     \<and> (\<exists>m3. tm_Kill ''a'' m1 = Inr (11, m3)) \<and> (\<exists>m3. tm_Kill ''a'' m2 = Inr (12, m3))"
proof -
  obtain m1 where l1: "tm_Launch (term_os_example 1) ''a'' [] tm_New = Inr (5001, m1)"
    by (simp add: tm_Launch_def tm_argv_def term_os_example_def)
  obtain m2 where l2: "tm_Launch (term_os_example 2) ''a'' ''top'' m1 = Inr (5002, m2)"
    by (simp add: tm_Launch_def tm_argv_def term_os_example_def)
  have "to_LookPath (term_os_example 1) ''ttyd'' = Some ''/usr/bin/ttyd''" by (simp add: term_os_example_def)
  from terminal_launch [OF l1 this l2] l1 l2 show ?thesis by (auto simp: term_os_example_def tm_argv_def)
qed

text \<open>
  With the fallback to \<open>socat\<close> the command is put between double quotes in one argument, so a command
  with a double quote ends the quoting: what follows it is outside the argument of \<open>su\<close>.
\<close>

lemma socat_quote_ends:
  "socat_exec (a @ [DQUOTE] @ b) =
     ''EXEC:'' @ [CHR 0x27] @ ''su -s /bin/sh nobody -c '' @ [DQUOTE] @ a @ [DQUOTE] @ b @ [DQUOTE, CHR 0x27] @ '',pty,stderr''"
  by (simp add: socat_exec_def)

end
