(* ===== verification/Export_Bundle.thy ===== *)
theory Export_Bundle
  imports Go_Base64
begin

text \<open>
  \<open>internal/export/export.go\<close>: the Markdown bundle. A path is the list of the parts that
  \<open>filepath.Join\<close> puts together; the file system is a record of what its calls answer, and the files
  that were written are returned in order. \<open>now\<close> is the RFC 3339 text of the clock.
\<close>

type_synonym path = "string list"

record export_fs =
  fs_MkdirAll :: "path \<Rightarrow> go_err option"
  fs_WriteFile :: "path \<Rightarrow> string \<Rightarrow> go_err option"

record pane_export =
  pe_TargetID :: string
  pe_Lines :: "string list"

record window_export =
  we_Name :: string
  we_Panes :: "pane_export list"

definition sniffImageExt :: "string \<Rightarrow> string" where
  "sniffImageExt d =
     (if length d < 4 then ''.bin''
      else if d ! 0 = CHR 0x89 \<and> d ! 1 = CHR ''P'' \<and> d ! 2 = CHR ''N'' \<and> d ! 3 = CHR ''G'' then ''.png''
      else if d ! 0 = CHR 0xFF \<and> d ! 1 = CHR 0xD8 then ''.jpg''
      else if d ! 0 = CHR ''<'' then ''.svg''
      else if 6 \<le> length d \<and> take 4 d = ''GIF8'' then ''.gif''
      else ''.bin'')"

definition isANSITerminator :: "char \<Rightarrow> bool" where
  "isANSITerminator c \<longleftrightarrow> 0x40 \<le> (of_char c :: nat) \<and> (of_char c :: nat) \<le> 0x7E"

abbreviation ESC :: char where "ESC \<equiv> CHR 0x1B"

text \<open>What is left after the parameters and the terminator of a sequence.\<close>

definition after_sequence :: "string \<Rightarrow> string" where
  "after_sequence s = drop 1 (dropWhile (\<lambda>c. \<not> isANSITerminator c) s)"

lemma length_after: "length (after_sequence s) \<le> length s"
  by (simp add: after_sequence_def) (meson diff_le_self length_dropWhile_le order_trans)

function stripANSI :: "string \<Rightarrow> string" where
  "stripANSI [] = []"
| "stripANSI (c # s) =
     (if c = ESC \<and> s \<noteq> [] \<and> hd s = CHR ''['' then stripANSI (after_sequence (tl s))
      else c # stripANSI s)"
  by pat_completeness auto
termination
proof (relation "measure length")
  fix c :: char and s :: string
  assume "c = ESC \<and> s \<noteq> [] \<and> hd s = CHR ''[''"
  then show "(after_sequence (tl s), c # s) \<in> measure length"
    using length_after [of "tl s"] by simp
qed simp_all

definition FENCE :: string where "FENCE = [CHR 0x60, CHR 0x60, CHR 0x60]"

text \<open>\<open>%04d\<close>.\<close>

definition pad4 :: "nat \<Rightarrow> string" where
  "pad4 n = replicate (4 - length (show_nat n)) (CHR ''0'') @ show_nat n"

text \<open>The builder: the text so far, the image counter, and the files written.\<close>

record md_bundle =
  bu_text :: string
  bu_images :: nat
  bu_files :: "(path \<times> string) list"

definition bu_write :: "string \<Rightarrow> md_bundle \<Rightarrow> md_bundle" where
  "bu_write t b = b\<lparr>bu_text := bu_text b @ t\<rparr>"

definition bundle_line :: "export_fs \<Rightarrow> path \<Rightarrow> string \<Rightarrow> string \<Rightarrow> md_bundle \<Rightarrow> md_bundle" where
  "bundle_line fs assetsDir target line b =
     (if HasPrefix line ''b64:'' then
        let b1 = b\<lparr>bu_images := bu_images b + 1\<rparr> in
        (case b64_decode (drop 4 line) of
           None \<Rightarrow> bu_write (line @ [LF]) b1
         | Some decoded \<Rightarrow>
             let name = ''image-'' @ pad4 (bu_images b1) @ sniffImageExt decoded;
                 path = assetsDir @ [name]
             in (case fs_WriteFile fs path decoded of
                   Some _ \<Rightarrow> bu_write (line @ [LF]) b1
                 | None \<Rightarrow>
                     bu_write (FENCE @ [LF, LF] @ ''!['' @ target @ ''](assets/'' @ name @ '')'' @ [LF, LF] @ FENCE @ [LF])
                       (b1\<lparr>bu_files := bu_files b1 @ [(path, decoded)]\<rparr>)))
      else bu_write (stripANSI line @ [LF]) b)"

definition bundle_pane :: "export_fs \<Rightarrow> path \<Rightarrow> pane_export \<Rightarrow> md_bundle \<Rightarrow> md_bundle" where
  "bundle_pane fs assetsDir p b =
     bu_write (FENCE @ [LF, LF])
       (fold (bundle_line fs assetsDir (pe_TargetID p)) (pe_Lines p)
         (bu_write (FENCE @ [LF]) (bu_write (''## Pane: '' @ pe_TargetID p @ [LF, LF]) b)))"

definition bundle_window :: "export_fs \<Rightarrow> path \<Rightarrow> window_export \<Rightarrow> md_bundle \<Rightarrow> md_bundle" where
  "bundle_window fs assetsDir w b =
     fold (bundle_pane fs assetsDir) (we_Panes w) (bu_write (''# Window: '' @ we_Name w @ [LF, LF]) b)"

definition Bundle :: "export_fs \<Rightarrow> string \<Rightarrow> window_export list \<Rightarrow> string \<Rightarrow> string \<Rightarrow> (path \<times> string) list \<times> go_err option" where
  "Bundle fs now windows outDir filename =
     (case fs_MkdirAll fs [outDir] of
        Some e \<Rightarrow> ([], Some (Wrapf ''creating output directory %q: %w'' [AStr outDir] e))
      | None \<Rightarrow>
          let assetsDir = [outDir, ''assets''] in
          (case fs_MkdirAll fs assetsDir of
             Some e \<Rightarrow> ([], Some (Wrapf ''creating assets directory: %w'' [] e))
           | None \<Rightarrow>
               let b0 = \<lparr>bu_text = ''<!-- Generated by rdw at '' @ now @ '' -->'' @ [LF, LF], bu_images = 0, bu_files = []\<rparr>;
                   b = fold (bundle_window fs assetsDir) windows b0;
                   mdPath = [outDir, filename]
               in (case fs_WriteFile fs mdPath (bu_text b) of
                     Some e \<Rightarrow> (bu_files b, Some (Wrapf ''writing %q: %w'' [AStr outDir, AStr filename] e))
                   | None \<Rightarrow> (bu_files b @ [(mdPath, bu_text b)], None))))"

section \<open>Stripping\<close>

lemma stripANSI_plain: "ESC \<notin> set s \<Longrightarrow> stripANSI s = s"
  by (induction s) auto

lemma stripANSI_append_plain: "ESC \<notin> set p \<Longrightarrow> stripANSI (p @ s) = p @ stripANSI s"
  by (induction p) auto

lemma stripANSI_csi:
  "list_all (\<lambda>c. \<not> isANSITerminator c) ps \<Longrightarrow> isANSITerminator t \<Longrightarrow>
     stripANSI (ESC # CHR ''['' # ps @ t # s) = stripANSI s"
proof -
  assume p: "list_all (\<lambda>c. \<not> isANSITerminator c) ps" and t: "isANSITerminator t"
  have "dropWhile (\<lambda>c. \<not> isANSITerminator c) (ps @ t # s) = t # s"
    using p t by (induction ps) auto
  then show ?thesis by (simp add: after_sequence_def)
qed

text \<open>Coloured text: a control sequence before each plain piece.\<close>

definition csi :: "string \<times> char \<Rightarrow> bool" where
  "csi q \<longleftrightarrow> list_all (\<lambda>c. \<not> isANSITerminator c) (fst q) \<and> isANSITerminator (snd q)"

text \<open>
  Colours are removed and nothing else is: a line made of pieces without escape characters, each
  preceded by a control sequence (parameters and a terminator), is exported as its pieces, and a line
  without escape characters is exported unchanged.
\<close>

theorem stripANSI_pieces:
  assumes "list_all (\<lambda>(q, t). csi q \<and> ESC \<notin> set t) pieces" and "ESC \<notin> set p"
  shows "stripANSI (p @ concat (map (\<lambda>((ps, c), t). ESC # CHR ''['' # ps @ c # t) pieces)) = p @ concat (map snd pieces)"
  using assms
proof (induction pieces arbitrary: p)
  case Nil
  then show ?case by (simp add: stripANSI_plain)
next
  case (Cons x pieces)
  obtain ps c t where x: "x = ((ps, c), t)" by (cases x) auto
  from Cons.prems x have h: "list_all (\<lambda>c. \<not> isANSITerminator c) ps" "isANSITerminator c" "ESC \<notin> set t"
    "list_all (\<lambda>(q, t). csi q \<and> ESC \<notin> set t) pieces" by (auto simp: csi_def)
  have "stripANSI (p @ ESC # CHR ''['' # ps @ c # t @ concat (map (\<lambda>((ps, c), t). ESC # CHR ''['' # ps @ c # t) pieces))
      = p @ stripANSI (t @ concat (map (\<lambda>((ps, c), t). ESC # CHR ''['' # ps @ c # t) pieces))"
    using stripANSI_append_plain [OF Cons.prems(2)] stripANSI_csi [OF h(1,2)] by simp
  with Cons.IH [OF h(4,3)] x show ?case by simp
qed

theorem stripANSI_pieces_witness:
  "stripANSI (''a '' @ [ESC] @ ''[1;31mred'' @ [ESC] @ ''[0m end'') = ''a red end''"
proof -
  have "list_all (\<lambda>(q, t). csi q \<and> ESC \<notin> set t) [((''1;31'', CHR ''m''), ''red''), ((''0'', CHR ''m''), '' end'')]"
    by (simp add: csi_def isANSITerminator_def)
  from stripANSI_pieces [OF this, of "''a ''"] show ?thesis by simp
qed

text \<open>Removing one sequence can put another one together, so the result is not free of them.\<close>

lemma stripANSI_leftover: "stripANSI ([ESC, ESC] @ ''[m[31mx'') = [ESC] @ ''[31mx''"
  by code_simp

section \<open>The document\<close>

text \<open>The document of windows whose lines are plain text (no escape characters, not base64).\<close>

definition plain_line :: "string \<Rightarrow> bool" where
  "plain_line l \<longleftrightarrow> ESC \<notin> set l \<and> \<not> HasPrefix l ''b64:''"

definition pane_doc :: "pane_export \<Rightarrow> string" where
  "pane_doc p = ''## Pane: '' @ pe_TargetID p @ [LF, LF] @ FENCE @ [LF]
     @ concat (map (\<lambda>l. l @ [LF]) (pe_Lines p)) @ FENCE @ [LF, LF]"

definition window_doc :: "window_export \<Rightarrow> string" where
  "window_doc w = ''# Window: '' @ we_Name w @ [LF, LF] @ concat (map pane_doc (we_Panes w))"

lemma bu_write_simps [simp]:
  "bu_text (bu_write t b) = bu_text b @ t" "bu_images (bu_write t b) = bu_images b" "bu_files (bu_write t b) = bu_files b"
  by (simp_all add: bu_write_def)

lemma bu_eq: "bu_text a = bu_text b \<Longrightarrow> bu_images a = bu_images b \<Longrightarrow> bu_files a = bu_files b \<Longrightarrow> a = (b :: md_bundle)"
  by (cases a; cases b) simp

lemma bu_write_write [simp]: "bu_write t (bu_write s b) = bu_write (s @ t) b"
  by (rule bu_eq) simp_all

lemma bundle_lines_plain:
  "list_all plain_line ls \<Longrightarrow> fold (bundle_line fs d t) ls b = bu_write (concat (map (\<lambda>l. l @ [LF]) ls)) b"
proof (induction ls arbitrary: b)
  case Nil
  then show ?case by (simp add: bu_write_def)
next
  case (Cons l ls)
  then show ?case by (simp add: bundle_line_def plain_line_def stripANSI_plain)
qed

lemma bundle_pane_plain: "list_all plain_line (pe_Lines p) \<Longrightarrow> bundle_pane fs d p b = bu_write (pane_doc p) b"
  by (simp add: bundle_pane_def bundle_lines_plain pane_doc_def)

lemma bundle_panes_plain:
  "list_all (\<lambda>p. list_all plain_line (pe_Lines p)) ps \<Longrightarrow> fold (bundle_pane fs d) ps b = bu_write (concat (map pane_doc ps)) b"
  by (induction ps arbitrary: b) (auto simp: bundle_pane_plain bu_write_def)

definition window_plain :: "window_export \<Rightarrow> bool" where
  "window_plain w \<longleftrightarrow> list_all (\<lambda>p. list_all plain_line (pe_Lines p)) (we_Panes w)"

lemma bundle_windows_plain:
  "list_all window_plain ws \<Longrightarrow> fold (bundle_window fs d) ws b = bu_write (concat (map window_doc ws)) b"
  by (induction ws arbitrary: b) (auto simp: bundle_window_def bundle_panes_plain window_plain_def window_doc_def bu_write_def)

text \<open>
  An export of plain lines is complete and in order: when the directories and the file can be
  written, the only file is the document, with every window, every pane in it and every line of each
  pane, in order and unchanged, between its headings and fences.
\<close>

theorem Bundle_plain:
  assumes "list_all window_plain ws" and "\<And>p. fs_MkdirAll fs p = None" and "\<And>p t. fs_WriteFile fs p t = None"
  shows "Bundle fs now ws outDir filename =
    ([([outDir, filename], ''<!-- Generated by rdw at '' @ now @ '' -->'' @ [LF, LF] @ concat (map window_doc ws))], None)"
  using assms by (simp add: Bundle_def Let_def bundle_windows_plain)

theorem Bundle_plain_witness:
  "Bundle \<lparr>fs_MkdirAll = \<lambda>_. None, fs_WriteFile = \<lambda>_ _. None\<rparr> ''T''
     [\<lparr>we_Name = ''w'', we_Panes = [\<lparr>pe_TargetID = ''log'', pe_Lines = [''x'', ''y'']\<rparr>]\<rparr>] ''.'' ''session.md'' =
   ([([''.'', ''session.md''], ''<!-- Generated by rdw at T -->'' @ [LF, LF] @ ''# Window: w'' @ [LF, LF]
       @ ''## Pane: log'' @ [LF, LF] @ FENCE @ [LF] @ ''x'' @ [LF] @ ''y'' @ [LF] @ FENCE @ [LF, LF])], None)"
proof -
  have "list_all window_plain [\<lparr>we_Name = ''w'', we_Panes = [\<lparr>pe_TargetID = ''log'', pe_Lines = [''x'', ''y'']\<rparr>]\<rparr>]"
    by (simp add: window_plain_def plain_line_def)
  from Bundle_plain [OF this, of "\<lparr>fs_MkdirAll = \<lambda>_. None, fs_WriteFile = \<lambda>_ _. None\<rparr>" "''T''" "''.''" "''session.md''"]
  show ?thesis by (simp add: window_doc_def pane_doc_def)
qed

end
