(* ===== verification/Formatters.thy ===== *)
theory Formatters
  imports Go_Base64
begin

text \<open>
  \<open>internal/format\<close>: the content formatters and their registry. A formatter turns the lines of a pane
  into HTML. The decoders it calls (\<open>encoding/json\<close>, \<open>gopkg.in/yaml.v3\<close>, \<open>encoding/csv\<close>), the Unicode
  tables and the external commands are a record of parameters; the bytes that are written, the escaping
  and the loops are the code's. A result is the HTML, an error, a run-time panic, or no result at all.
\<close>

record fmt_lib =
  fl_json_indent :: "string \<Rightarrow> string option"
  fl_yaml_canon :: "string \<Rightarrow> string option"
  fl_csv_read :: "char \<Rightarrow> string \<Rightarrow> string list option"
  fl_run :: "string \<Rightarrow> string list \<Rightarrow> string \<Rightarrow> string \<times> string \<times> go_err option"
  fl_ulower :: "string \<Rightarrow> string"

datatype outcome = Html string | FormatError go_err | FormatPanics | FormatHangs

definition escapeHTML :: "string \<Rightarrow> string" where
  "escapeHTML s =
     (let s1 = ReplaceByte (CHR ''&'') ''&amp;'' s;
          s2 = ReplaceByte (CHR ''<'') ''&lt;'' s1;
          s3 = ReplaceByte (CHR ''>'') ''&gt;'' s2;
          s4 = ReplaceByte DQUOTE ''&#34;'' s3
      in ReplaceByte (CHR 0x27) ''&#39;'' s4)"

text \<open>The literals of the source: a start tag with its attributes, and an end tag.\<close>

definition tag :: "string \<Rightarrow> (string \<times> string) list \<Rightarrow> string" where
  "tag n as = ''<'' @ n @ concat (map (\<lambda>(a, v). '' '' @ a @ ''='' @ [DQUOTE] @ v @ [DQUOTE]) as) @ ''>''"

definition end_tag :: "string \<Rightarrow> string" where
  "end_tag n = ''</'' @ n @ ''>''"

abbreviation cls :: "string \<Rightarrow> (string \<times> string) list" where
  "cls c \<equiv> [(''class'', c)]"

abbreviation elem :: "string \<Rightarrow> string \<Rightarrow> string \<Rightarrow> string" where
  "elem n c body \<equiv> tag n (cls c) @ body @ end_tag n"

section \<open>text.go\<close>

definition Text_Format :: "string list \<Rightarrow> string" where
  "Text_Format ls = tag ''pre'' (cls ''rdw-text'') @ concat (map (\<lambda>l. escapeHTML l @ [LF]) ls) @ end_tag ''pre''"

section \<open>cmd.go\<close>

record cmd_formatter =
  cm_name :: string
  cm_cmdStr :: string
  cm_kv :: "(string, string) gomap"

definition NewCmdFormatter :: "string \<Rightarrow> string \<Rightarrow> (string, string) gomap \<Rightarrow> cmd_formatter" where
  "NewCmdFormatter name cmdStr kv = \<lparr>cm_name = name, cm_cmdStr = cmdStr, cm_kv = kv\<rparr>"

definition sandboxHTML :: "string \<Rightarrow> string" where
  "sandboxHTML html =
     tag ''iframe'' [(''class'', ''rdw-fmt-sandbox''), (''sandbox'', ''allow-popups''),
       (''srcdoc'', ReplaceByte DQUOTE ''&quot;'' (escapeHTML html)),
       (''style'', ''width:100%;height:100%;border:none;background:#fff'')] @ end_tag ''iframe''"

definition Cmd_Format :: "fmt_lib \<Rightarrow> cmd_formatter \<Rightarrow> string list \<Rightarrow> outcome" where
  "Cmd_Format lib f ls =
     (case fl_run lib (cm_cmdStr f) (map (\<lambda>(k, v). k @ ''='' @ v) (cm_kv f)) (join_with [LF] ls @ [LF]) of
        (stdout, stderr, Some e) \<Rightarrow>
          FormatError (Wrapf (''cmdformatter %q: %w'' @ [LF] @ ''stderr: %s'') [AStr (cm_name f), AStr stderr] e)
      | (stdout, stderr, None) \<Rightarrow> Html (sandboxHTML stdout))"

section \<open>json.go\<close>

text \<open>
  The string token: \<open>s\<close> is what follows the opening quote, the result is how much of it belongs to the
  token, and \<open>None\<close> is the slice out of range of a trailing backslash.
\<close>

fun json_token :: "string \<Rightarrow> nat option" where
  "json_token [] = Some 0"
| "json_token (c # s) =
     (if c = CHR 0x5C then (case s of [] \<Rightarrow> None | d # s' \<Rightarrow> map_option (\<lambda>n. n + 2) (json_token s'))
      else if c = DQUOTE then Some 1
      else map_option Suc (json_token s))"

definition json_number_char :: "char \<Rightarrow> bool" where
  "json_number_char c \<longleftrightarrow> is_digit c \<or> c \<in> set ''.eE+-''"

definition json_keyword :: "string \<Rightarrow> string option" where
  "json_keyword s = find (\<lambda>kw. HasPrefix s kw) [''true'', ''false'', ''null'']"

definition json_span :: "string \<Rightarrow> string \<Rightarrow> string" where
  "json_span c body = elem ''span'' (''rdw-json-'' @ c) body"

text \<open>One turn of the loop: what is written, and how many bytes are consumed.\<close>

definition json_turn :: "char \<Rightarrow> string \<Rightarrow> (string \<times> nat) option" where
  "json_turn c s =
     (if c = DQUOTE then
        (case json_token s of
           None \<Rightarrow> None
         | Some n \<Rightarrow>
             let rest = dropWhile (\<lambda>x. x = CHR '' '' \<or> x = TAB) (drop n s);
                 kind = (if rest \<noteq> [] \<and> hd rest = CHR '':'' then ''key'' else ''string'')
             in Some (json_span kind (escapeHTML (c # take n s)), Suc n))
      else if c = CHR ''t'' \<or> c = CHR ''f'' \<or> c = CHR ''n'' then
        (case json_keyword (c # s) of
           Some kw \<Rightarrow> Some (json_span ''literal'' kw, length kw)
         | None \<Rightarrow> Some ([c], 1))
      else if is_digit c \<or> c = CHR ''-'' then
        let num = c # takeWhile json_number_char s in Some (json_span ''number'' (escapeHTML num), length num)
      else if c \<in> set ''{}[]:,'' then Some (json_span ''punct'' [c], 1)
      else Some ([c], 1))"

function highlightJSON :: "string \<Rightarrow> string option" where
  "highlightJSON [] = Some []"
| "highlightJSON (c # s) =
     (case json_turn c s of
        None \<Rightarrow> None
      | Some (out, n) \<Rightarrow> map_option (\<lambda>r. out @ r) (highlightJSON (drop (n - 1) s)))"
  by pat_completeness auto
termination
  by (relation "measure length") auto

definition JSON_line :: "fmt_lib \<Rightarrow> string \<Rightarrow> string option" where
  "JSON_line lib raw0 =
     (let raw = TrimRight raw0 [CR] in
      if raw = [] then Some (elem ''div'' ''rdw-json-blank'' [])
      else (case fl_json_indent lib raw of
              None \<Rightarrow> Some (elem ''pre'' ''rdw-json-raw'' (escapeHTML raw))
            | Some pretty \<Rightarrow> map_option (elem ''pre'' ''rdw-json-block'') (highlightJSON pretty)))"

definition JSON_Format :: "fmt_lib \<Rightarrow> string list \<Rightarrow> outcome" where
  "JSON_Format lib ls =
     (case those (map (JSON_line lib) ls) of
        None \<Rightarrow> FormatPanics
      | Some out \<Rightarrow> Html (elem ''div'' ''rdw-json'' (concat out)))"

section \<open>yaml.go\<close>

fun splitYAMLDocs_loop :: "string list \<Rightarrow> string \<Rightarrow> string list" where
  "splitYAMLDocs_loop [] cur = (if cur = [] then [] else [cur])"
| "splitYAMLDocs_loop (l # ls) cur =
     (if l = ''---'' \<or> l = ''...'' then cur # splitYAMLDocs_loop ls []
      else splitYAMLDocs_loop ls (cur @ l @ [LF]))"

definition splitYAMLDocs :: "string list \<Rightarrow> string list" where
  "splitYAMLDocs ls = splitYAMLDocs_loop ls []"

definition yaml_span :: "string \<Rightarrow> string \<Rightarrow> string" where
  "yaml_span c body = elem ''span'' (''rdw-yaml-'' @ c) body"

definition colorYAMLValue :: "string \<Rightarrow> string" where
  "colorYAMLValue v =
     (if v \<in> set [''true'', ''false'', ''null'', ''~''] then yaml_span ''literal'' (escapeHTML v)
      else if v \<noteq> [] \<and> (is_digit (hd v) \<or> hd v = CHR ''-'') then yaml_span ''number'' (escapeHTML v)
      else if HasPrefix v [DQUOTE] \<or> HasPrefix v [CHR 0x27] then yaml_span ''string'' (escapeHTML v)
      else yaml_span ''value'' (escapeHTML v))"

definition highlightYAML_line :: "string \<Rightarrow> string" where
  "highlightYAML_line line =
     (if line = [] then [LF]
      else
        let trimmed = TrimLeft line ('' '' @ [TAB]);
            indent = take (length line - length trimmed) line;
            entry = (case go_Index trimmed '': '' of
                       None \<Rightarrow> None | Some idx \<Rightarrow> if 0 < idx then Some idx else None)
        in (case entry of
              Some idx \<Rightarrow>
                escapeHTML indent @ yaml_span ''key'' (escapeHTML (take idx trimmed))
                  @ yaml_span ''punct'' '': '' @ colorYAMLValue (drop (idx + 2) trimmed)
            | None \<Rightarrow>
                if HasSuffix trimmed '':'' then
                  escapeHTML indent @ yaml_span ''key'' (escapeHTML (TrimSuffix trimmed '':''))
                    @ yaml_span ''punct'' '':''
                else if HasPrefix trimmed ''- '' then
                  escapeHTML indent @ yaml_span ''punct'' ''- '' @ colorYAMLValue (drop 2 trimmed)
                else escapeHTML line)
           @ [LF])"

definition highlightYAML :: "string \<Rightarrow> string" where
  "highlightYAML src = concat (map highlightYAML_line (split_on LF src))"

definition YAML_doc :: "fmt_lib \<Rightarrow> string \<Rightarrow> string" where
  "YAML_doc lib doc =
     (if TrimSpace doc = [] then []
      else (case fl_yaml_canon lib doc of
              Some out \<Rightarrow> elem ''pre'' ''rdw-yaml-block'' (highlightYAML out)
            | None \<Rightarrow> elem ''pre'' ''rdw-yaml-raw'' (escapeHTML doc)))"

definition YAML_Format :: "fmt_lib \<Rightarrow> string list \<Rightarrow> string" where
  "YAML_Format lib ls = elem ''div'' ''rdw-yaml'' (concat (map (YAML_doc lib) (splitYAMLDocs ls)))"

section \<open>csv.go\<close>

definition count_byte :: "char \<Rightarrow> string \<Rightarrow> nat" where
  "count_byte c s = length (filter (\<lambda>x. x = c) s)"

definition csv_delim :: "string \<Rightarrow> char" where
  "csv_delim l0 = (if count_byte (CHR '','') l0 < count_byte TAB l0 then TAB else CHR '','')"

definition csv_rows :: "fmt_lib \<Rightarrow> char \<Rightarrow> string list \<Rightarrow> string list list" where
  "csv_rows lib delim ls =
     map (\<lambda>l. case fl_csv_read lib delim l of None \<Rightarrow> [l] | Some cells \<Rightarrow> cells)
       (filter (\<lambda>l. TrimSpace l \<noteq> []) ls)"

definition csv_head :: "string list \<Rightarrow> string" where
  "csv_head row =
     tag ''thead'' [] @ tag ''tr'' []
     @ concat (map (\<lambda>(i, cell). tag ''th'' [(''data-col'', escapeHTML [digit_char (i mod 10)])] @ escapeHTML cell @ end_tag ''th'')
         (enumerate 0 row))
     @ end_tag ''tr'' @ end_tag ''thead''"

definition csv_body :: "string list list \<Rightarrow> string" where
  "csv_body rows =
     (if rows = [] then []
      else tag ''tbody'' []
        @ concat (map (\<lambda>row. tag ''tr'' [] @ concat (map (\<lambda>cell. tag ''td'' [] @ escapeHTML cell @ end_tag ''td'') row)
                         @ end_tag ''tr'') rows)
        @ end_tag ''tbody'')"

definition CSV_Format :: "fmt_lib \<Rightarrow> string list \<Rightarrow> string" where
  "CSV_Format lib ls =
     (case ls of
        [] \<Rightarrow> elem ''div'' ''rdw-csv'' []
      | l0 # _ \<Rightarrow>
          (case csv_rows lib (csv_delim l0) ls of
             [] \<Rightarrow> elem ''div'' ''rdw-csv'' []
           | row # rows \<Rightarrow>
               tag ''div'' (cls ''rdw-csv'') @ tag ''table'' (cls ''rdw-csv-table'') @ csv_head row @ csv_body rows
               @ end_tag ''table'' @ end_tag ''div''))"

section \<open>image.go\<close>

text \<open>
  The decoded bytes and the capacity of their slice: \<open>DecodeString\<close> allocates \<open>DecodedLen\<close> bytes and
  returns a prefix of them, and \<open>data[:100]\<close> reads up to the capacity (zero bytes beyond the data).
  \<open>None\<close> is the slice out of range.
\<close>

definition reslice :: "string \<Rightarrow> nat \<Rightarrow> nat \<Rightarrow> string option" where
  "reslice data capacity n = (if n \<le> capacity then Some (take n (data @ replicate (n - length data) (CHR 0x00))) else None)"

definition detectMIME :: "string \<Rightarrow> nat \<Rightarrow> string option" where
  "detectMIME data capacity =
     (if 8 \<le> length data \<and> take 8 data = [CHR 0x89, CHR ''P'', CHR ''N'', CHR ''G'', CR, LF, CHR 0x1A, LF]
        then Some ''image/png''
      else if 3 \<le> length data \<and> take 3 data = [CHR 0xFF, CHR 0xD8, CHR 0xFF] then Some ''image/jpeg''
      else if 6 \<le> length data \<and> (take 6 data = ''GIF87a'' \<or> take 6 data = ''GIF89a'') then Some ''image/gif''
      else if 4 \<le> length data \<and> take 4 data = ''<svg'' then Some ''image/svg+xml''
      else
        let webp = (if 12 \<le> length data \<and> take 4 data = ''RIFF'' \<and> take 4 (drop 8 data) = ''WEBP''
                    then ''image/webp'' else ''image/png'')
        in if 5 < length data then
             (case reslice data capacity 100 of
                None \<Rightarrow> None
              | Some v \<Rightarrow> Some (if HasPrefix (TrimSpace v) ''<svg'' then ''image/svg+xml'' else webp))
           else Some webp)"

definition Image_line :: "string \<Rightarrow> string option" where
  "Image_line l0 =
     (let l1 = TrimSpace l0 in
      if l1 = [] then Some []
      else
        let l = TrimPrefix l1 ''b64:'';
            decoded = (case b64_decode l of
                         Some d \<Rightarrow> Some (d, length l div 4 * 3)
                       | None \<Rightarrow> map_option (\<lambda>d. (d, length l * 6 div 8)) (rawurl_decode l))
        in (case decoded of
              None \<Rightarrow> Some (elem ''p'' ''rdw-image-err'' ''invalid base64 data'')
            | Some (d, capacity) \<Rightarrow>
                map_option (\<lambda>mime. tag ''img'' [(''class'', ''rdw-image-img''),
                    (''src'', ''data:'' @ mime @ '';base64,'' @ b64_encode d), (''alt'', ''rdw image'')])
                  (detectMIME d capacity)))"

definition Image_Format :: "string list \<Rightarrow> outcome" where
  "Image_Format ls =
     (case those (map Image_line ls) of
        None \<Rightarrow> FormatPanics
      | Some out \<Rightarrow> Html (elem ''div'' ''rdw-image'' (concat out)))"

text \<open>A line of base64 text of a short file that is no image is enough for the panic.\<close>

lemma image_short_panics: "Image_Format [''aGVsbG8gd29ybGQ='' ] = FormatPanics"
  by code_simp

section \<open>Escaping\<close>

text \<open>The successive replacements are one simultaneous replacement.\<close>

definition esc1 :: "char \<Rightarrow> string" where
  "esc1 c =
     (if c = CHR ''&'' then ''&amp;'' else if c = CHR ''<'' then ''&lt;'' else if c = CHR ''>'' then ''&gt;''
      else if c = DQUOTE then ''&#34;'' else if c = CHR 0x27 then ''&#39;'' else [c])"

lemma escapeHTML_exact: "escapeHTML s = concat (map esc1 s)"
proof (induction s)
  case Nil
  then show ?case by (simp add: escapeHTML_def)
next
  case (Cons c s)
  have "escapeHTML (c # s) = escapeHTML [c] @ escapeHTML s"
    by (simp add: escapeHTML_def Let_def)
  moreover have "escapeHTML [c] = esc1 c"
    by (simp add: escapeHTML_def esc1_def Let_def)
  ultimately show ?case using Cons.IH by simp
qed

lemma escapeHTML_simps [simp]:
  "escapeHTML [] = []" "escapeHTML (c # s) = esc1 c @ escapeHTML s" "escapeHTML (s @ t) = escapeHTML s @ escapeHTML t"
  by (simp_all add: escapeHTML_exact)

text \<open>Text without markup: it holds no tag delimiter and cannot end an attribute value.\<close>

definition inert :: "string \<Rightarrow> bool" where
  "inert s \<longleftrightarrow> CHR ''<'' \<notin> set s \<and> CHR ''>'' \<notin> set s \<and> DQUOTE \<notin> set s"

lemma inert_Nil [simp]: "inert []"
  by (simp add: inert_def)

lemma inert_append [simp]: "inert (s @ t) \<longleftrightarrow> inert s \<and> inert t"
  by (auto simp: inert_def)

lemma inert_escape [simp]: "inert (escapeHTML s)"
  by (induction s) (auto simp: esc1_def inert_def)

lemma inert_esc1 [simp]: "inert (esc1 c)"
  by (simp add: esc1_def inert_def)

lemma inert_subset: "inert s \<Longrightarrow> set t \<subseteq> set s \<Longrightarrow> inert t"
  by (auto simp: inert_def)

text \<open>
  HTML that only the formatters can have written: inert text between tags of a fixed list, with
  attributes of a fixed list and inert values. \<open>script\<close> is not among the tags and no event handler is
  among the attributes.
\<close>

definition allowed_tags :: "string list" where
  "allowed_tags = [''div'', ''pre'', ''span'', ''p'', ''code'', ''hr'', ''blockquote'', ''ul'', ''ol'', ''li'', ''strong'', ''em'',
     ''a'', ''table'', ''thead'', ''tbody'', ''tr'', ''th'', ''td'', ''img'', ''iframe'', ''h1'', ''h2'', ''h3'', ''h4'', ''h5'', ''h6'']"

definition allowed_attrs :: "string list" where
  "allowed_attrs = [''class'', ''data-col'', ''href'', ''target'', ''src'', ''alt'', ''sandbox'', ''srcdoc'', ''style'']"

datatype node = TextNode string | StartNode string "(string \<times> string) list" | EndNode string

primrec node_html :: "node \<Rightarrow> string" where
  "node_html (TextNode s) = s"
| "node_html (StartNode n as) = tag n as"
| "node_html (EndNode n) = end_tag n"

primrec node_ok :: "node \<Rightarrow> bool" where
  "node_ok (TextNode s) = inert s"
| "node_ok (StartNode n as) =
     (n \<in> set allowed_tags \<and> list_all (\<lambda>(a, v). a \<in> set allowed_attrs \<and> inert v) as)"
| "node_ok (EndNode n) = (n \<in> set allowed_tags)"

definition safe_html :: "string \<Rightarrow> bool" where
  "safe_html h \<longleftrightarrow> (\<exists>ns. h = concat (map node_html ns) \<and> list_all node_ok ns)"

named_theorems safe_intros \<open>composing safe HTML\<close>

lemma safe_text [safe_intros]: "inert s \<Longrightarrow> safe_html s"
  unfolding safe_html_def by (rule exI [where x = "[TextNode s]"]) simp

lemma safe_tag [safe_intros]:
  "n \<in> set allowed_tags \<Longrightarrow> list_all (\<lambda>(a, v). a \<in> set allowed_attrs \<and> inert v) as \<Longrightarrow> safe_html (tag n as)"
  unfolding safe_html_def by (rule exI [where x = "[StartNode n as]"]) simp

lemma safe_end [safe_intros]: "n \<in> set allowed_tags \<Longrightarrow> safe_html (end_tag n)"
  unfolding safe_html_def by (rule exI [where x = "[EndNode n]"]) simp

lemma safe_append [safe_intros]: "safe_html a \<Longrightarrow> safe_html b \<Longrightarrow> safe_html (a @ b)"
  unfolding safe_html_def
proof (elim exE conjE)
  fix ms ns
  assume "a = concat (map node_html ms)" "list_all node_ok ms" "b = concat (map node_html ns)" "list_all node_ok ns"
  then show "\<exists>ns. a @ b = concat (map node_html ns) \<and> list_all node_ok ns"
    by (intro exI [where x = "ms @ ns"]) simp
qed

lemma safe_concat [safe_intros]: "(\<And>x. x \<in> set xs \<Longrightarrow> safe_html x) \<Longrightarrow> safe_html (concat xs)"
  by (induction xs) (auto intro: safe_append safe_text)

lemma safe_elem: "n \<in> set allowed_tags \<Longrightarrow> inert c \<Longrightarrow> safe_html b \<Longrightarrow> safe_html (elem n c b)"
  by (intro safe_append safe_tag safe_end) (simp_all add: allowed_attrs_def)

lemma safe_empty: "n \<in> set allowed_tags \<Longrightarrow> inert c \<Longrightarrow> safe_html (tag n (cls c) @ end_tag n)"
  by (intro safe_append safe_tag safe_end) (simp_all add: allowed_attrs_def)

lemma safe_bare: "n \<in> set allowed_tags \<Longrightarrow> safe_html b \<Longrightarrow> safe_html (tag n [] @ b @ end_tag n)"
  by (intro safe_append safe_tag safe_end) simp_all

lemma safe_escape [simp]: "safe_html (escapeHTML s)"
  by (rule safe_text) simp

lemma allowed_mem [simp]:
  "''div'' \<in> set allowed_tags" "''pre'' \<in> set allowed_tags" "''span'' \<in> set allowed_tags" "''p'' \<in> set allowed_tags"
  "''code'' \<in> set allowed_tags" "''hr'' \<in> set allowed_tags" "''blockquote'' \<in> set allowed_tags"
  "''ul'' \<in> set allowed_tags" "''ol'' \<in> set allowed_tags" "''li'' \<in> set allowed_tags" "''strong'' \<in> set allowed_tags"
  "''em'' \<in> set allowed_tags" "''a'' \<in> set allowed_tags" "''table'' \<in> set allowed_tags" "''thead'' \<in> set allowed_tags"
  "''tbody'' \<in> set allowed_tags" "''tr'' \<in> set allowed_tags" "''th'' \<in> set allowed_tags" "''td'' \<in> set allowed_tags"
  "''img'' \<in> set allowed_tags" "''iframe'' \<in> set allowed_tags"
  by (simp_all add: allowed_tags_def)

lemma allowed_attr_mem [simp]:
  "''class'' \<in> set allowed_attrs" "''data-col'' \<in> set allowed_attrs" "''href'' \<in> set allowed_attrs"
  "''target'' \<in> set allowed_attrs" "''src'' \<in> set allowed_attrs" "''alt'' \<in> set allowed_attrs"
  "''sandbox'' \<in> set allowed_attrs" "''srcdoc'' \<in> set allowed_attrs" "''style'' \<in> set allowed_attrs"
  by (simp_all add: allowed_attrs_def)

lemma inert_Cons [simp]: "inert (c # s) \<longleftrightarrow> c \<noteq> CHR ''<'' \<and> c \<noteq> CHR ''>'' \<and> c \<noteq> DQUOTE \<and> inert s"
  by (auto simp: inert_def)

lemma safe_lines: "safe_html (concat (map (\<lambda>l. escapeHTML l @ [LF]) ls))"
  by (rule safe_concat) (auto intro: safe_text)

lemma Text_safe: "safe_html (Text_Format ls)"
  unfolding Text_Format_def by (intro safe_append safe_tag safe_end safe_lines) simp_all

lemma Cmd_safe: "Cmd_Format lib f ls = Html h \<Longrightarrow> safe_html h"
proof -
  assume "Cmd_Format lib f ls = Html h"
  then obtain out where h: "h = sandboxHTML out"
    by (auto simp: Cmd_Format_def split: prod.splits option.splits)
  have "inert (ReplaceByte DQUOTE ''&quot;'' (escapeHTML out))"
    using inert_escape [of out] by (subst ReplaceByte_id) (simp_all add: inert_def)
  then show ?thesis unfolding h sandboxHTML_def by (intro safe_append safe_tag safe_end) simp_all
qed

lemma json_span_safe: "inert c \<Longrightarrow> inert body \<Longrightarrow> safe_html (json_span c body)"
  unfolding json_span_def by (intro safe_elem safe_text) simp_all

lemma json_keyword_inert: "json_keyword t = Some kw \<Longrightarrow> inert kw"
  by (auto simp: json_keyword_def split: if_splits)

lemma json_turn_safe:
  assumes "json_turn c s = Some (out, n)" and "c \<noteq> CHR ''<''" and "c \<noteq> CHR ''>''"
  shows "safe_html out"
proof -
  consider (str) "c = DQUOTE" | (lit) "c \<noteq> DQUOTE" "c = CHR ''t'' \<or> c = CHR ''f'' \<or> c = CHR ''n''"
    | (other) "c \<noteq> DQUOTE" "\<not> (c = CHR ''t'' \<or> c = CHR ''f'' \<or> c = CHR ''n'')" by blast
  then show ?thesis
  proof cases
    case str
    with assms(1) obtain k m where "out = json_span k (escapeHTML (c # take m s))" "k = ''key'' \<or> k = ''string''"
      by (auto simp: json_turn_def Let_def simp del: escapeHTML_simps split: option.splits if_splits)
    then show ?thesis by (auto simp del: escapeHTML_simps intro!: json_span_safe)
  next
    case lit
    show ?thesis
    proof (cases "json_keyword (c # s)")
      case None
      with lit assms have "out = [c]" by (auto simp: json_turn_def)
      then show ?thesis using lit(1) assms(2,3) by (simp add: safe_text)
    next
      case (Some kw)
      with lit assms have "out = json_span ''literal'' kw" by (auto simp: json_turn_def)
      then show ?thesis using json_keyword_inert [OF Some] by (simp add: json_span_safe)
    qed
  next
    case other
    have "out = [c] \<or> out = json_span ''punct'' [c] \<or> out = json_span ''number'' (escapeHTML (c # takeWhile json_number_char s))"
      using other assms(1) by (simp add: json_turn_def Let_def split: if_splits)
    then show ?thesis using other(1) assms(2,3) by (elim disjE) (simp_all add: json_span_safe safe_text)
  qed
qed

lemma highlightJSON_safe:
  "highlightJSON s = Some h \<Longrightarrow> CHR ''<'' \<notin> set s \<Longrightarrow> CHR ''>'' \<notin> set s \<Longrightarrow> safe_html h"
proof (induction s arbitrary: h rule: highlightJSON.induct)
  case 1
  then show ?case by (simp add: safe_text)
next
  case (2 c s)
  from 2(2) obtain out n r where t: "json_turn c s = Some (out, n)" "highlightJSON (drop (n - 1) s) = Some r" "h = out @ r"
    by (auto split: option.splits prod.splits)
  have "safe_html out" using t(1) 2(3,4) by (auto intro: json_turn_safe)
  moreover have "safe_html r"
    using t(1,2) 2(3,4) by (intro 2(1)) (auto dest: in_set_dropD)
  ultimately show ?case using t(3) by (simp add: safe_append)
qed

lemma yaml_span_safe: "inert c \<Longrightarrow> inert body \<Longrightarrow> safe_html (yaml_span c body)"
  unfolding yaml_span_def by (intro safe_elem safe_text) simp_all

lemma colorYAML_safe: "safe_html (colorYAMLValue v)"
  by (auto simp: colorYAMLValue_def intro!: yaml_span_safe)

lemma YAML_line_safe: "safe_html (highlightYAML_line l)"
  unfolding highlightYAML_line_def Let_def
  by (auto split: option.split intro!: safe_append yaml_span_safe colorYAML_safe safe_text [of "[LF]"])

lemma highlightYAML_safe: "safe_html (highlightYAML s)"
  unfolding highlightYAML_def by (rule safe_concat) (auto intro: YAML_line_safe)

lemma YAML_safe: "safe_html (YAML_Format lib ls)"
  unfolding YAML_Format_def
proof (intro safe_elem safe_concat)
  fix x
  assume "x \<in> set (map (YAML_doc lib) (splitYAMLDocs ls))"
  then show "safe_html x"
    by (auto simp: YAML_doc_def safe_text split: option.split intro!: safe_elem highlightYAML_safe)
qed simp_all

lemma cells_safe: "safe_html (concat (map (\<lambda>cell. tag ''td'' [] @ escapeHTML cell @ end_tag ''td'') row))"
  by (rule safe_concat) (auto intro: safe_bare)

lemma csv_head_safe: "safe_html (csv_head row)"
  unfolding csv_head_def
proof (intro safe_append safe_tag safe_end safe_concat)
  fix x
  assume "x \<in> set (map (\<lambda>(i, cell). tag ''th'' [(''data-col'', escapeHTML [digit_char (i mod 10)])] @ escapeHTML cell @ end_tag ''th'')
         (enumerate 0 row))"
  then show "safe_html x"
    by (auto intro!: safe_append safe_tag safe_end simp del: escapeHTML_simps)
qed simp_all

lemma csv_body_safe: "safe_html (csv_body rows)"
proof -
  have "safe_html (tag ''tr'' [] @ concat (map (\<lambda>cell. tag ''td'' [] @ escapeHTML cell @ end_tag ''td'') row) @ end_tag ''tr'')" for row
    by (rule safe_bare) (simp_all add: cells_safe)
  then show ?thesis unfolding csv_body_def
    by (auto simp: safe_text intro!: safe_bare safe_concat)
qed

lemma CSV_safe: "safe_html (CSV_Format lib ls)"
proof (cases ls)
  case Nil
  then show ?thesis unfolding CSV_Format_def by (simp only: list.case) (rule safe_elem; simp add: safe_text)
next
  case (Cons l0 rest)
  show ?thesis
  proof (cases "csv_rows lib (csv_delim l0) ls")
    case Nil
    have "safe_html (elem ''div'' ''rdw-csv'' [])" by (rule safe_elem) (simp_all add: safe_text)
    then show ?thesis using Cons Nil by (simp add: CSV_Format_def)
  next
    case (Cons row rows)
    have "safe_html (tag ''div'' (cls ''rdw-csv'') @ tag ''table'' (cls ''rdw-csv-table'') @ csv_head row @ csv_body rows
        @ end_tag ''table'' @ end_tag ''div'')"
      by (intro safe_append safe_tag safe_end csv_head_safe csv_body_safe) simp_all
    then show ?thesis using \<open>ls = l0 # rest\<close> Cons by (simp add: CSV_Format_def)
  qed
qed

lemma sym_plain_all: "list_all (\<lambda>n. inert [sym n]) [0..<64]"
  by code_simp

lemma sym_plain: "n < 64 \<Longrightarrow> inert [sym n]"
  using sym_plain_all by (simp add: list_all_iff del: inert_Cons)

lemma b64_inert: "inert (b64_encode d)"
proof (induction d rule: b64_encode.induct)
  case (2 a)
  then show ?case using sym_plain six_bits by (simp add: inert_def)
next
  case (3 a b)
  then show ?case using sym_plain six_bits by (simp add: inert_def)
next
  case (4 a b c r)
  then show ?case using sym_plain six_bits by (simp add: inert_def)
qed simp

lemma those_Some: "those xs = Some ys \<Longrightarrow> y \<in> set ys \<Longrightarrow> Some y \<in> set xs"
  by (induction xs arbitrary: ys) (auto split: option.splits)

lemma JSON_safe:
  assumes "\<And>l p. fl_json_indent lib l = Some p \<Longrightarrow> CHR ''<'' \<notin> set p \<and> CHR ''>'' \<notin> set p"
    and "JSON_Format lib ls = Html h"
  shows "safe_html h"
proof -
  from assms(2) obtain out where out: "those (map (JSON_line lib) ls) = Some out"
    and h: "h = elem ''div'' ''rdw-json'' (concat out)"
    by (auto simp: JSON_Format_def split: option.splits)
  have "safe_html x" if x: "x \<in> set out" for x
  proof -
    from those_Some [OF out x] obtain l where l: "JSON_line lib l = Some x" by auto
    show ?thesis
    proof (cases "fl_json_indent lib (TrimRight l [CR])")
      case None
      with l have "x = elem ''div'' ''rdw-json-blank'' [] \<or> x = elem ''pre'' ''rdw-json-raw'' (escapeHTML (TrimRight l [CR]))"
        by (simp add: JSON_line_def Let_def split: if_splits)
      then show ?thesis by (elim disjE) (simp_all add: safe_empty safe_elem)
    next
      case (Some p)
      with l have "x = elem ''div'' ''rdw-json-blank'' [] \<or> (\<exists>r. highlightJSON p = Some r \<and> x = elem ''pre'' ''rdw-json-block'' r)"
        by (auto simp: JSON_line_def Let_def split: if_splits)
      then show ?thesis
        using highlightJSON_safe [of p] assms(1) [OF Some] by (elim disjE exE conjE) (simp_all add: safe_empty safe_elem)
    qed
  qed
  then show ?thesis unfolding h by (intro safe_elem safe_concat) simp_all
qed

lemma mime_inert: "detectMIME d c = Some m \<Longrightarrow> inert m"
  by (auto simp: detectMIME_def Let_def split: if_splits option.splits)

lemma Image_line_safe: "Image_line l = Some h \<Longrightarrow> safe_html h"
proof -
  have err: "safe_html (elem ''p'' ''rdw-image-err'' ''invalid base64 data'')"
    by (rule safe_elem) (simp_all add: safe_text)
  have img: "safe_html (tag ''img'' [(''class'', ''rdw-image-img''), (''src'', ''data:'' @ m @ '';base64,'' @ b64_encode d), (''alt'', ''rdw image'')])"
    if "inert m" for m d
    using that b64_inert by (intro safe_tag) simp_all
  assume "Image_line l = Some h"
  then have "h = [] \<or> h = elem ''p'' ''rdw-image-err'' ''invalid base64 data''
      \<or> (\<exists>d c m. detectMIME d c = Some m \<and> h = tag ''img'' [(''class'', ''rdw-image-img''),
             (''src'', ''data:'' @ m @ '';base64,'' @ b64_encode d), (''alt'', ''rdw image'')])"
    unfolding Image_line_def Let_def by (auto split: if_splits option.splits)
  then show ?thesis
  proof (elim disjE exE conjE)
    assume "h = []"
    then show ?thesis by (simp add: safe_text)
  next
    assume "h = elem ''p'' ''rdw-image-err'' ''invalid base64 data''"
    then show ?thesis using err by (simp only:)
  next
    fix d c m
    assume "detectMIME d c = Some m" and h: "h = tag ''img'' [(''class'', ''rdw-image-img''),
             (''src'', ''data:'' @ m @ '';base64,'' @ b64_encode d), (''alt'', ''rdw image'')]"
    then show ?thesis using img mime_inert by (simp only:)
  qed
qed

lemma Image_safe: "Image_Format ls = Html h \<Longrightarrow> safe_html h"
proof -
  assume "Image_Format ls = Html h"
  then obtain out where out: "those (map Image_line ls) = Some out"
    and h: "h = elem ''div'' ''rdw-image'' (concat out)"
    by (auto simp: Image_Format_def split: option.splits)
  have "safe_html x" if "x \<in> set out" for x
    using those_Some [OF out that] Image_line_safe by (auto dest: sym)
  then show ?thesis unfolding h by (intro safe_elem safe_concat) simp_all
qed

end
