(* ===== verification/Markdown_Format.thy ===== *)
theory Markdown_Format
  imports Formatters
begin

text \<open>
  \<open>internal/format/markdown.go\<close>: the Markdown renderer. The outer loop is a
  \<open>partial_function (option)\<close>, because the code has inputs on which it does not end: \<open>None\<close> is a call
  that never returns. Each turn is \<open>md_block\<close>, which says what is written and how many lines are consumed.
\<close>

definition md_literal :: "char \<Rightarrow> string" where
  "md_literal c = escapeHTML (string_of_byte c)"

text \<open>One turn of the inline loop at the byte \<open>c\<close> with \<open>s\<close> after it: what is written and the bytes consumed.\<close>

definition md_code_turn :: "char \<Rightarrow> string \<Rightarrow> string \<times> nat" where
  "md_code_turn c s =
     (case go_Index s [CHR 0x60] of
        Some j \<Rightarrow> (elem ''code'' ''rdw-md-ic'' (escapeHTML (take j s)), j + 2)
      | None \<Rightarrow> (md_literal c, 1))"

definition md_emph_turn :: "char \<Rightarrow> string \<Rightarrow> string \<times> nat" where
  "md_emph_turn c s =
     (if s \<noteq> [] \<and> hd s = c then
        (case go_Index (tl s) [c, c] of
           Some e \<Rightarrow> (tag ''strong'' [] @ escapeHTML (take e (tl s)) @ end_tag ''strong'', e + 4)
         | None \<Rightarrow> (md_literal c, 1))
      else
        (case go_Index s [c] of
           Some e \<Rightarrow> (tag ''em'' [] @ escapeHTML (take e s) @ end_tag ''em'', e + 2)
         | None \<Rightarrow> (md_literal c, 1)))"

definition md_link_turn :: "char \<Rightarrow> string \<Rightarrow> string \<times> nat" where
  "md_link_turn c s =
     (case go_Index s '']'' of
        None \<Rightarrow> (md_literal c, 1)
      | Some t \<Rightarrow>
          if t + 1 < length s \<and> s ! (t + 1) = CHR ''('' then
            let u = drop (t + 2) s in
            (case go_Index u '')'' of
               None \<Rightarrow> (md_literal c, 1)
             | Some e \<Rightarrow>
                 (tag ''a'' [(''href'', escapeHTML (take e u)), (''target'', ''_blank'')]
                    @ escapeHTML (take t s) @ end_tag ''a'', t + e + 4))
          else (md_literal c, 1))"

definition md_turn :: "char \<Rightarrow> string \<Rightarrow> string \<times> nat" where
  "md_turn c s =
     (if c = CHR 0x60 then md_code_turn c s
      else if c = CHR ''*'' \<or> c = CHR ''_'' then md_emph_turn c s
      else if c = CHR ''['' then md_link_turn c s
      else (md_literal c, 1))"

function inlineMarkdown :: "string \<Rightarrow> string" where
  "inlineMarkdown [] = []"
| "inlineMarkdown (c # s) =
     (case md_turn c s of (out, n) \<Rightarrow> out @ inlineMarkdown (drop (n - 1) s))"
  by pat_completeness auto
termination
  by (relation "measure length") auto

section \<open>Blocks\<close>

definition md_fence :: string where "md_fence = [CHR 0x60, CHR 0x60, CHR 0x60]"

abbreviation is_fence :: "string \<Rightarrow> bool" where "is_fence l \<equiv> HasPrefix l md_fence"

definition md_level :: "string \<Rightarrow> nat" where
  "md_level l = length (takeWhile (\<lambda>c. c = CHR ''#'') l)"

definition md_heading :: "string \<Rightarrow> bool" where
  "md_heading l \<longleftrightarrow> HasPrefix l ''#'' \<and> md_level l \<le> 6 \<and> (length l = md_level l \<or> l ! md_level l = CHR '' '')"

definition md_bullet :: "string \<Rightarrow> bool" where
  "md_bullet l \<longleftrightarrow> HasPrefix l ''- '' \<or> HasPrefix l ''* ''"

definition md_item_start :: "string \<Rightarrow> bool" where
  "md_item_start l \<longleftrightarrow> 2 < length l \<and> is_digit (l ! 0) \<and> l ! 0 \<noteq> CHR ''0'' \<and> l ! 1 = CHR ''.'' \<and> l ! 2 = CHR '' ''"

definition md_item_next :: "string \<Rightarrow> bool" where
  "md_item_next l \<longleftrightarrow> 2 < length l \<and> is_digit (l ! 0) \<and> l ! 1 = CHR ''.''"

definition md_para_line :: "string \<Rightarrow> bool" where
  "md_para_line l \<longleftrightarrow> TrimSpace l \<noteq> [] \<and> \<not> HasPrefix l ''#'' \<and> \<not> is_fence l \<and> \<not> HasPrefix l ''> ''
     \<and> \<not> HasPrefix l ''- '' \<and> \<not> HasPrefix l ''* ''"

definition md_code_block :: "string list \<Rightarrow> string \<times> nat" where
  "md_code_block ls =
     (let lang = TrimPrefix (hd ls) md_fence;
          body = takeWhile (\<lambda>l. \<not> is_fence l) (tl ls)
      in (tag ''pre'' (cls ''rdw-md-code'')
          @ tag ''code'' (if lang = [] then [] else cls (''language-'' @ escapeHTML lang))
          @ concat (map (\<lambda>l. escapeHTML l @ [LF]) body) @ end_tag ''code'' @ end_tag ''pre'',
          length body + 2))"

definition md_heading_block :: "string \<Rightarrow> string" where
  "md_heading_block l =
     (let h = ''h'' @ [digit_char (md_level l)]
      in elem h ''rdw-md-h'' (inlineMarkdown (TrimSpace (drop (md_level l) l))))"

definition md_quote_block :: "string list \<Rightarrow> string \<times> nat" where
  "md_quote_block ls =
     (let qs = takeWhile (\<lambda>l. HasPrefix l ''> '') ls
      in (elem ''blockquote'' ''rdw-md-bq''
            (concat (map (\<lambda>l. tag ''p'' [] @ inlineMarkdown (drop 2 l) @ end_tag ''p'') qs)), length qs))"

definition md_list_block :: "string list \<Rightarrow> string \<times> nat" where
  "md_list_block ls =
     (let qs = takeWhile md_bullet ls
      in (elem ''ul'' ''rdw-md-ul''
            (concat (map (\<lambda>l. tag ''li'' [] @ inlineMarkdown (drop 2 l) @ end_tag ''li'') qs)), length qs))"

definition md_ordered_block :: "string list \<Rightarrow> string \<times> nat" where
  "md_ordered_block ls =
     (let qs = takeWhile md_item_next ls
      in (elem ''ol'' ''rdw-md-ol''
            (concat (map (\<lambda>l. case go_Index l ''. '' of None \<Rightarrow> []
                           | Some k \<Rightarrow> tag ''li'' [] @ inlineMarkdown (drop (k + 2) l) @ end_tag ''li'') qs)), length qs))"

text \<open>A blank is written before every line whose index in the input is not 0.\<close>

definition md_para_block :: "nat \<Rightarrow> string list \<Rightarrow> string \<times> nat" where
  "md_para_block i ls =
     (let qs = takeWhile md_para_line ls
      in (elem ''p'' ''rdw-md-p''
            (concat (map (\<lambda>(j, l). (if 0 < j then '' '' else []) @ inlineMarkdown l) (enumerate i qs))), length qs))"

definition md_block :: "nat \<Rightarrow> string list \<Rightarrow> string \<times> nat" where
  "md_block i ls =
     (let line = hd ls in
      if is_fence line then md_code_block ls
      else if md_heading line then (md_heading_block line, 1)
      else if line = ''---'' \<or> line = ''***'' \<or> line = ''___'' then (tag ''hr'' (cls ''rdw-md-hr''), 1)
      else if HasPrefix line ''> '' then md_quote_block ls
      else if md_bullet line then md_list_block ls
      else if md_item_start line then md_ordered_block ls
      else if TrimSpace line = [] then ([], 1)
      else md_para_block i ls)"

partial_function (option) md_loop :: "nat \<Rightarrow> string list \<Rightarrow> string \<Rightarrow> string option" where
  "md_loop i ls b =
     (if ls = [] then Some b
      else case md_block i ls of (out, k) \<Rightarrow> md_loop (i + k) (drop k ls) (b @ out))"

definition renderMarkdown :: "string list \<Rightarrow> string option" where
  "renderMarkdown ls = md_loop 0 ls []"

definition Markdown_Format :: "string list \<Rightarrow> outcome" where
  "Markdown_Format ls =
     (case renderMarkdown ls of
        None \<Rightarrow> FormatHangs
      | Some h \<Rightarrow> Html (elem ''div'' ''rdw-markdown'' h))"

section \<open>When the renderer returns\<close>

text \<open>The lines outside the code fences, and the lines that only look like headings.\<close>

function outside_fences :: "string list \<Rightarrow> string list" where
  "outside_fences [] = []"
| "outside_fences (l # ls) =
     (if is_fence l then outside_fences (drop 1 (dropWhile (\<lambda>l. \<not> is_fence l) ls)) else l # outside_fences ls)"
  by pat_completeness auto
termination
proof (relation "measure length")
  fix l :: string and ls :: "string list"
  show "(drop 1 (dropWhile (\<lambda>l. \<not> is_fence l) ls), l # ls) \<in> measure length"
    using length_dropWhile_le [of "\<lambda>l. \<not> is_fence l" ls] by simp
qed simp_all

definition bad_heading :: "string \<Rightarrow> bool" where
  "bad_heading l \<longleftrightarrow> HasPrefix l ''#'' \<and> \<not> md_heading l"

lemma outside_append: "list_all (\<lambda>l. \<not> is_fence l) qs \<Longrightarrow> outside_fences (qs @ ls) = qs @ outside_fences ls"
  by (induction qs) auto

lemma hash_excludes:
  assumes "HasPrefix l ''#''"
  shows "\<not> is_fence l" and "\<not> HasPrefix l ''> ''" and "\<not> md_bullet l" and "\<not> md_item_next l"
    and "\<not> md_item_start l" and "\<not> md_para_line l" and "l \<noteq> ''---''" and "l \<noteq> ''***''" and "l \<noteq> ''___''"
    and "TrimSpace l \<noteq> []"
proof -
  from assms obtain t where l: "l = CHR ''#'' # t" by (auto simp: HasPrefix_iff)
  then show "\<not> is_fence l" "\<not> HasPrefix l ''> ''" "\<not> md_bullet l" "\<not> md_item_next l" "\<not> md_item_start l"
    "\<not> md_para_line l" "l \<noteq> ''---''" "l \<noteq> ''***''" "l \<noteq> ''___''"
    by (simp_all add: md_fence_def md_bullet_def md_item_next_def md_item_start_def md_para_line_def is_digit_def)
  have "CHR ''#'' \<in> set (TrimSpace l)"
    by (rule TrimSpace_keeps) (simp_all add: l is_graph_def)
  then show "TrimSpace l \<noteq> []" by auto
qed

text \<open>Which lines a block may consume after its first line.\<close>

lemma drop_takeWhile: "drop (length (takeWhile P ls)) ls = dropWhile P ls"
  by (simp add: dropWhile_eq_drop)

definition bad_ahead :: "string list \<Rightarrow> bool" where
  "bad_ahead ls \<longleftrightarrow> list_ex bad_heading (outside_fences ls)"

lemma bad_ahead_simps [simp]:
  "\<not> bad_ahead []" "\<not> is_fence l \<Longrightarrow> bad_ahead (l # ls) \<longleftrightarrow> bad_heading l \<or> bad_ahead ls"
  by (simp_all add: bad_ahead_def)

lemma consumed_takeWhile:
  assumes "\<And>l. P l \<Longrightarrow> \<not> is_fence l \<and> \<not> bad_heading l"
  shows "bad_ahead (drop (length (takeWhile P ls)) ls) \<longleftrightarrow> bad_ahead ls"
  using assms by (induction ls) auto

lemma length_takeWhile_pos: "ls \<noteq> [] \<Longrightarrow> P (hd ls) \<Longrightarrow> 0 < length (takeWhile P ls)"
  by (cases ls) auto

text \<open>
  A block consumes at least one line and no line that only looks like a heading outside a fence,
  unless it is such a line.
\<close>

text \<open>Which block a line starts, and how many lines it takes.\<close>

lemma md_block_cases:
  assumes "\<not> bad_heading line" and "md_block i (line # rest) = (out, k)"
  obtains (fence) "is_fence line" | (one) "\<not> is_fence line" "k = 1"
    | (quote) "HasPrefix line ''> ''" "k = length (takeWhile (\<lambda>l. HasPrefix l ''> '') (line # rest))"
    | (bullet) "md_bullet line" "k = length (takeWhile md_bullet (line # rest))"
    | (item) "md_item_start line" "k = length (takeWhile md_item_next (line # rest))"
    | (para) "md_para_line line" "k = length (takeWhile md_para_line (line # rest))"
proof -
  have not_hash: "md_heading line \<or> \<not> HasPrefix line ''#''" using assms(1) by (auto simp: bad_heading_def)
  have k: "k = snd (md_block i (line # rest))" using assms(2) by simp
  show thesis
  proof (cases "is_fence line \<or> md_heading line \<or> line \<in> {''---'', ''***'', ''___''} \<or> TrimSpace line = []")
    case True
    then show ?thesis using that k
      by (auto simp: md_block_def Let_def md_quote_block_def md_list_block_def md_ordered_block_def split: if_splits)
  next
    case False
    then have para: "\<not> HasPrefix line ''> '' \<Longrightarrow> \<not> md_bullet line \<Longrightarrow> md_para_line line"
      using not_hash by (simp add: md_para_line_def md_bullet_def)
    show ?thesis
      using False that k para
      by (simp add: md_block_def Let_def md_quote_block_def md_list_block_def md_ordered_block_def
          md_para_block_def split: if_splits)
  qed
qed

text \<open>The lines that a block goes on with open no fence and are no bad heading.\<close>

lemma block_lines_ok:
  "HasPrefix l ''> '' \<Longrightarrow> \<not> is_fence l \<and> \<not> bad_heading l" "md_bullet l \<Longrightarrow> \<not> is_fence l \<and> \<not> bad_heading l"
  "md_item_next l \<Longrightarrow> \<not> is_fence l \<and> \<not> bad_heading l" "md_para_line l \<Longrightarrow> \<not> is_fence l \<and> \<not> bad_heading l"
  using hash_excludes(2-4) [of l]
  by (auto simp: bad_heading_def md_fence_def HasPrefix_iff md_bullet_def md_item_next_def is_digit_def md_para_line_def)

lemma block_taken:
  assumes "\<And>l. P l \<Longrightarrow> \<not> is_fence l \<and> \<not> bad_heading l" and "P (hd ls)" and "ls \<noteq> []"
  shows "0 < length (takeWhile P ls) \<and> (bad_ahead (drop (length (takeWhile P ls)) ls) \<longleftrightarrow> bad_ahead ls)"
  using consumed_takeWhile [where P = P and ls = ls, OF assms(1)] length_takeWhile_pos [OF assms(3), of P] assms(2) by blast

lemma md_block_progress:
  assumes "ls \<noteq> []" and "\<not> bad_heading (hd ls)" and "md_block i ls = (out, k)"
  shows "0 < k \<and> (bad_ahead (drop k ls) \<longleftrightarrow> bad_ahead ls)"
proof -
  obtain line rest where ls: "ls = line # rest" using assms(1) by (cases ls) auto
  from assms(2) ls have nb: "\<not> bad_heading line" by simp
  from nb assms(3) [unfolded ls] show ?thesis
  proof (cases rule: md_block_cases)
    case fence
    then have "k = length (takeWhile (\<lambda>l. \<not> is_fence l) rest) + 2"
      using assms(3) ls by (simp add: md_block_def md_code_block_def Let_def)
    then have "drop k ls = drop 1 (dropWhile (\<lambda>l. \<not> is_fence l) rest)"
      by (simp add: ls dropWhile_eq_drop)
    then show ?thesis using fence \<open>k = _\<close> by (simp add: ls bad_ahead_def)
  next
    case one
    then show ?thesis using nb by (simp add: ls)
  next
    case quote
    then show ?thesis using block_taken [of "\<lambda>l. HasPrefix l ''> ''" ls, OF block_lines_ok(1)] by (simp only: ls list.sel) blast
  next
    case bullet
    then show ?thesis using block_taken [of md_bullet ls, OF block_lines_ok(2)] by (simp only: ls list.sel) blast
  next
    case item
    then have "md_item_next line" by (simp add: md_item_start_def md_item_next_def)
    then show ?thesis using item(2) block_taken [of md_item_next ls, OF block_lines_ok(3)] by (simp only: ls list.sel) blast
  next
    case para
    then show ?thesis using block_taken [of md_para_line ls, OF block_lines_ok(4)] by (simp only: ls list.sel) blast
  qed
qed

lemma md_block_stuck:
  assumes "bad_heading (hd ls)"
  shows "snd (md_block i ls) = 0"
proof -
  let ?l = "hd ls"
  have h: "HasPrefix ?l ''#''" "\<not> md_heading ?l" using assms by (simp_all add: bad_heading_def)
  note ex = hash_excludes [OF h(1)]
  have "takeWhile md_para_line ls = []" using ex(6) by (cases ls) simp_all
  then show ?thesis using h(2) ex by (simp add: md_block_def Let_def md_para_block_def)
qed

lemma md_loop_stuck:
  assumes "md_loop i ls b = Some h"
  shows "ls = [] \<or> \<not> bad_heading (hd ls)"
proof (rule md_loop.raw_induct [where P = "\<lambda>i ls b h. ls = [] \<or> \<not> bad_heading (hd ls)", OF _ assms])
  fix loop i ls b h
  assume ih: "\<And>i ls b h. loop i ls b = Some h \<Longrightarrow> ls = [] \<or> \<not> bad_heading (hd ls)"
    and eq: "(if ls = [] then Some b else case md_block i ls of (out, k) \<Rightarrow> loop (i + k) (drop k ls) (b @ out)) = Some h"
  show "ls = [] \<or> \<not> bad_heading (hd ls)"
  proof (rule ccontr)
    assume "\<not> (ls = [] \<or> \<not> bad_heading (hd ls))"
    then have ls: "ls \<noteq> []" "bad_heading (hd ls)" by auto
    obtain out k where k: "md_block i ls = (out, k)" by (cases "md_block i ls")
    with md_block_stuck [OF ls(2), of i] have "k = 0" by simp
    with k eq ls(1) have "loop i ls (b @ out) = Some h" by simp
    from ih [OF this] ls show False by simp
  qed
qed

lemma md_loop_returns:
  "\<not> bad_ahead ls \<Longrightarrow> \<exists>h. md_loop i ls b = Some h"
proof (induction "length ls" arbitrary: i ls b rule: less_induct)
  case less
  show ?case
  proof (cases "ls = []")
    case True
    then show ?thesis by (simp add: md_loop.simps)
  next
    case False
    then have nb: "\<not> bad_heading (hd ls)"
      using less.prems hash_excludes(1) by (cases ls) (auto simp: bad_ahead_def bad_heading_def)
    obtain out k where k: "md_block i ls = (out, k)" by (cases "md_block i ls")
    from md_block_progress [OF False nb k] less.prems have "0 < k" "\<not> bad_ahead (drop k ls)" by auto
    moreover have "length (drop k ls) < length ls" using \<open>0 < k\<close> False by simp
    ultimately show ?thesis using less.hyps k False by (simp add: md_loop.simps [of i ls])
  qed
qed

lemma md_loop_hangs:
  "bad_ahead ls \<Longrightarrow> md_loop i ls b = None"
proof (induction "length ls" arbitrary: i ls b rule: less_induct)
  case less
  then have ne: "ls \<noteq> []" by auto
  show ?case
  proof (cases "bad_heading (hd ls)")
    case True
    then show ?thesis using md_loop_stuck [of i ls b] ne by (cases "md_loop i ls b") auto
  next
    case False
    obtain out k where k: "md_block i ls = (out, k)" by (cases "md_block i ls")
    from md_block_progress [OF ne False k] less.prems have "0 < k" "bad_ahead (drop k ls)" by auto
    moreover have "length (drop k ls) < length ls" using \<open>0 < k\<close> ne by simp
    ultimately show ?thesis using less.hyps k ne by (simp add: md_loop.simps [of i ls])
  qed
qed

text \<open>
  C40: The Markdown renderer returns exactly on the inputs in which every line outside a code fence that
  starts with a hash sign is a heading (at most six hash signs, then a blank or the end of the line). On
  any other input, a hashtag such as \<open>#todo\<close> for instance, it writes empty paragraphs for ever.
\<close>

theorem renderMarkdown_returns_iff:
  "(\<exists>h. renderMarkdown ls = Some h) \<longleftrightarrow> list_all (\<lambda>l. HasPrefix l ''#'' \<longrightarrow> md_heading l) (outside_fences ls)"
proof -
  have "list_all (\<lambda>l. HasPrefix l ''#'' \<longrightarrow> md_heading l) (outside_fences ls) \<longleftrightarrow> \<not> bad_ahead ls"
    by (auto simp: bad_ahead_def bad_heading_def list_all_iff list_ex_iff)
  then show ?thesis
    using md_loop_returns [of ls 0 "[]"] md_loop_hangs [of ls 0 "[]"] by (auto simp: renderMarkdown_def)
qed

theorem renderMarkdown_returns_iff_witness:
  "renderMarkdown [''# Notes'', ''#todo: x''] = None"
proof -
  have "\<not> list_all (\<lambda>l. HasPrefix l ''#'' \<longrightarrow> md_heading l) (outside_fences [''# Notes'', ''#todo: x''])"
    by (simp add: md_fence_def md_heading_def md_level_def)
  then show ?thesis using renderMarkdown_returns_iff [of "[''# Notes'', ''#todo: x'']"] by auto
qed

section \<open>Safety of the output\<close>

lemma md_literal_inert [simp]: "inert (md_literal c)"
  by (simp add: md_literal_def)

lemma md_code_safe: "safe_html (fst (md_code_turn c s))"
proof (cases "go_Index s [CHR 0x60]")
  case (Some j)
  then show ?thesis by (simp add: md_code_turn_def safe_elem)
qed (simp add: md_code_turn_def safe_text)

lemma md_emph_safe: "safe_html (fst (md_emph_turn c s))"
proof -
  have lit: "safe_html (md_literal c)" by (simp add: safe_text)
  have b: "safe_html (tag ''strong'' [] @ escapeHTML t @ end_tag ''strong'')"
    "safe_html (tag ''em'' [] @ escapeHTML t @ end_tag ''em'')" for t
    by (rule safe_bare; simp)+
  show ?thesis using lit b b(1) [of "[]"] b(2) [of "[]"] by (simp add: md_emph_turn_def split: option.split)
qed

lemma md_link_safe: "safe_html (fst (md_link_turn c s))"
proof -
  have lit: "safe_html (md_literal c)" by (simp add: safe_text)
  have b: "safe_html (tag ''a'' [(''href'', escapeHTML u), (''target'', ''_blank'')] @ escapeHTML t @ end_tag ''a'')" for t u
    by (intro safe_append safe_tag safe_end) simp_all
  show ?thesis using lit b by (simp add: md_link_turn_def Let_def split: option.split)
qed

lemma md_turn_safe: "safe_html (fst (md_turn c s))"
  by (simp add: md_turn_def md_code_safe md_emph_safe md_link_safe safe_text)

lemma inline_safe: "safe_html (inlineMarkdown s)"
proof (induction s rule: inlineMarkdown.induct)
  case 1
  then show ?case by (simp add: safe_text)
next
  case (2 c s)
  then show ?case using md_turn_safe [of c s] by (auto split: prod.split intro: safe_append)
qed

lemma level_digits:
  "digit_char (Suc 0) = CHR ''1''" "digit_char 2 = CHR ''2''" "digit_char 3 = CHR ''3''"
  "digit_char 4 = CHR ''4''" "digit_char 5 = CHR ''5''" "digit_char 6 = CHR ''6''"
  by code_simp+

lemma level_tag: "md_heading l \<Longrightarrow> ''h'' @ [digit_char (md_level l)] \<in> set allowed_tags"
proof -
  assume h: "md_heading l"
  then have "0 < md_level l" "md_level l \<le> 6" by (auto simp: md_heading_def md_level_def HasPrefix_iff)
  then have "md_level l \<in> {1, 2, 3, 4, 5, 6}" by auto
  then show ?thesis by (auto simp: allowed_tags_def level_digits)
qed

lemma safe_items:
  "(\<And>l. safe_html (f l)) \<Longrightarrow> safe_html (concat (map f ls))"
  by (rule safe_concat) auto

lemma md_block_safe:
  assumes "ls \<noteq> []"
  shows "safe_html (fst (md_block i ls))"
proof -
  have item: "safe_html (tag n [] @ inlineMarkdown t @ end_tag n)" if "n \<in> set allowed_tags" for n t
    using that inline_safe by (rule safe_bare)
  have code: "safe_html (fst (md_code_block ls))"
    unfolding md_code_block_def Let_def fst_conv
    by (intro safe_append safe_tag safe_end safe_lines) simp_all
  have quote: "safe_html (fst (md_quote_block ls))"
    unfolding md_quote_block_def Let_def fst_conv
    by (intro safe_elem safe_items item) simp_all
  have bullets: "safe_html (fst (md_list_block ls))"
    unfolding md_list_block_def Let_def fst_conv
    by (intro safe_elem safe_items item) simp_all
  have "safe_html (case go_Index l ''. '' of None \<Rightarrow> []
          | Some k \<Rightarrow> tag ''li'' [] @ inlineMarkdown (drop (k + 2) l) @ end_tag ''li'')" for l
    by (cases "go_Index l ''. ''") (simp_all add: safe_text item)
  then have ordered: "safe_html (fst (md_ordered_block ls))"
    unfolding md_ordered_block_def Let_def fst_conv
    by (intro safe_elem safe_items) simp_all
  have "safe_html (case p of (j, l) \<Rightarrow> (if 0 < j then '' '' else []) @ inlineMarkdown l)" for p :: "nat \<times> string"
  proof (cases p)
    case (Pair j l)
    have "safe_html ((if 0 < j then '' '' else []) @ inlineMarkdown l)"
      by (rule safe_append [OF safe_text inline_safe]) simp
    with Pair show ?thesis by (simp only: prod.case)
  qed
  then have para: "safe_html (fst (md_para_block i ls))"
    unfolding md_para_block_def Let_def fst_conv
    by (intro safe_elem safe_items) simp_all
  have heading: "safe_html (md_heading_block (hd ls))" if "md_heading (hd ls)"
    unfolding md_heading_block_def Let_def
    by (intro safe_elem level_tag that inline_safe) simp
  have rule: "safe_html (tag ''hr'' (cls ''rdw-md-hr''))" by (rule safe_tag) simp_all
  show ?thesis
    using code quote bullets ordered para heading rule by (simp add: md_block_def Let_def safe_text)
qed

lemma md_loop_safe:
  assumes "md_loop i ls b = Some h"
  shows "safe_html b \<longrightarrow> safe_html h"
proof (rule md_loop.raw_induct [where P = "\<lambda>i ls b h. safe_html b \<longrightarrow> safe_html h", OF _ assms])
  fix loop i ls b h
  assume ih: "\<And>i ls b h. loop i ls b = Some h \<Longrightarrow> safe_html b \<longrightarrow> safe_html h"
    and eq: "(if ls = [] then Some b else case md_block i ls of (out, k) \<Rightarrow> loop (i + k) (drop k ls) (b @ out)) = Some h"
  show "safe_html b \<longrightarrow> safe_html h"
  proof (cases "ls = []")
    case True
    with eq show ?thesis by simp
  next
    case False
    obtain out k where k: "md_block i ls = (out, k)" by (cases "md_block i ls")
    with eq False have "loop (i + k) (drop k ls) (b @ out) = Some h" by simp
    from ih [OF this] md_block_safe [OF False, of i] k show ?thesis by (auto intro: safe_append)
  qed
qed

lemma Markdown_safe: "Markdown_Format ls = Html h \<Longrightarrow> safe_html h"
proof -
  assume "Markdown_Format ls = Html h"
  then obtain r where r: "renderMarkdown ls = Some r" and h: "h = elem ''div'' ''rdw-markdown'' r"
    by (auto simp: Markdown_Format_def split: option.splits)
  from md_loop_safe [OF r [unfolded renderMarkdown_def]] have "safe_html r" by (simp add: safe_text)
  then show ?thesis unfolding h by (intro safe_elem) simp_all
qed

text \<open>The address of a link is escaped but its scheme is not restricted.\<close>

lemma link_scheme:
  "inlineMarkdown ''[x](javascript:f)'' =
     tag ''a'' [(''href'', ''javascript:f''), (''target'', ''_blank'')] @ ''x'' @ end_tag ''a''"
  by code_simp

text \<open>A byte above 127 is written as the encoding of a code point of its own, so UTF-8 text is not kept.\<close>

lemma utf8_mangled: "inlineMarkdown [CHR 0xC3, CHR 0xA9] = [CHR 0xC3, CHR 0x83, CHR 0xC2, CHR 0xA9]"
  by code_simp

end
