(* ===== verification/Format_Registry.thy ===== *)
theory Format_Registry
  imports Markdown_Format
begin

text \<open>
  \<open>internal/format/format.go\<close>: the registry of formatters by name, with the names that cannot be
  overridden, and the dispatch of \<open>Format\<close> over the formatter types.
\<close>

datatype formatter =
    TextFormatter | JSONFormatter | YAMLFormatter | MarkdownFormatter | CSVFormatter | ImageFormatter
  | CmdFormatter cmd_formatter

primrec fmt_Name :: "formatter \<Rightarrow> string" where
  "fmt_Name TextFormatter = ''text''"
| "fmt_Name JSONFormatter = ''json''"
| "fmt_Name YAMLFormatter = ''yaml''"
| "fmt_Name MarkdownFormatter = ''markdown''"
| "fmt_Name CSVFormatter = ''csv''"
| "fmt_Name ImageFormatter = ''image''"
| "fmt_Name (CmdFormatter f) = cm_name f"

primrec fmt_Format :: "fmt_lib \<Rightarrow> formatter \<Rightarrow> string list \<Rightarrow> outcome" where
  "fmt_Format lib TextFormatter ls = Html (Text_Format ls)"
| "fmt_Format lib JSONFormatter ls = JSON_Format lib ls"
| "fmt_Format lib YAMLFormatter ls = Html (YAML_Format lib ls)"
| "fmt_Format lib MarkdownFormatter ls = Markdown_Format ls"
| "fmt_Format lib CSVFormatter ls = Html (CSV_Format lib ls)"
| "fmt_Format lib ImageFormatter ls = Image_Format ls"
| "fmt_Format lib (CmdFormatter f) ls = Cmd_Format lib f ls"

type_synonym registry = "(string, formatter) gomap"

definition fmt_registry :: registry where
  "fmt_registry =
     [(''text'', TextFormatter), (''json'', JSONFormatter), (''yaml'', YAMLFormatter),
      (''markdown'', MarkdownFormatter), (''csv'', CSVFormatter), (''image'', ImageFormatter)]"

definition builtins :: "string list" where
  "builtins = [''text'', ''json'', ''yaml'', ''markdown'', ''csv'', ''image'']"

definition fmt_Get :: "fmt_lib \<Rightarrow> string \<Rightarrow> registry \<Rightarrow> formatter result" where
  "fmt_Get lib name reg =
     (case gm_get reg (ToLower (fl_ulower lib) name) of
        None \<Rightarrow> Inl (Errorf ''unknown formatter %q'' [AStr name])
      | Some f \<Rightarrow> Inr f)"

definition fmt_Register :: "fmt_lib \<Rightarrow> formatter \<Rightarrow> registry \<Rightarrow> registry result" where
  "fmt_Register lib f reg =
     (let name = ToLower (fl_ulower lib) (fmt_Name f) in
      if name \<in> set builtins then Inl (Errorf ''cannot override built-in formatter %q'' [AStr name])
      else Inr (gm_put name f reg))"

definition fmt_Unregister :: "fmt_lib \<Rightarrow> string \<Rightarrow> registry \<Rightarrow> registry result" where
  "fmt_Unregister lib name0 reg =
     (let name = ToLower (fl_ulower lib) name0 in
      if name \<in> set builtins then Inl (Errorf ''cannot unregister built-in formatter %q'' [AStr name])
      else (case gm_get reg name of
              None \<Rightarrow> Inl (Errorf ''formatter %q not found'' [AStr name])
            | Some _ \<Rightarrow> Inr (gm_del name reg)))"

definition fmt_Names :: "registry \<Rightarrow> string list" where "fmt_Names reg = gm_keys reg"

section \<open>Output\<close>

text \<open>
  C39: No formatter lets its input inject markup: whatever the lines hold, the HTML of every formatter
  (the built-in ones and the external commands) is inert text between tags and attributes of the fixed
  lists, all of them written by the formatter itself; a script element or an event handler cannot
  appear. Of the JSON encoder it needs what its documentation says: angle brackets are escaped.
\<close>

theorem Format_injection_free:
  assumes "\<And>l p. fl_json_indent lib l = Some p \<Longrightarrow> CHR ''<'' \<notin> set p \<and> CHR ''>'' \<notin> set p"
    and "fmt_Format lib f ls = Html h"
  shows "\<exists>nodes. h = concat (map node_html nodes) \<and> list_all node_ok nodes"
proof -
  have "safe_html h"
    using assms(2)
    by (cases f) (auto simp: Text_safe YAML_safe CSV_safe intro: JSON_safe [OF assms(1)] Markdown_safe Image_safe Cmd_safe)
  then show ?thesis by (simp only: safe_html_def)
qed

definition fmt_lib_example :: fmt_lib where
  "fmt_lib_example =
     \<lparr>fl_json_indent = (\<lambda>l. if l = ''1'' then Some ''1'' else None), fl_yaml_canon = Some,
      fl_csv_read = (\<lambda>c l. Some (split_on c l)), fl_run = (\<lambda>cmd env stdin. (stdin, [], None)), fl_ulower = (\<lambda>s. s)\<rparr>"

theorem Format_injection_free_witness:
  "\<exists>nodes. Text_Format [''<script>alert(1)</script>''] = concat (map node_html nodes) \<and> list_all node_ok nodes"
proof -
  have j: "CHR ''<'' \<notin> set p \<and> CHR ''>'' \<notin> set p" if "fl_json_indent fmt_lib_example l = Some p" for l p
    using that by (auto simp: fmt_lib_example_def split: if_splits)
  show ?thesis by (rule Format_injection_free [OF j, where f = TextFormatter]) simp_all
qed

section \<open>The registry\<close>

definition fmt_inv :: "registry \<Rightarrow> bool" where
  "fmt_inv reg \<longleftrightarrow> gm_ok reg \<and> (\<forall>n \<in> set builtins. gm_get reg n = gm_get fmt_registry n)"

lemma fmt_inv_init [simp]: "fmt_inv fmt_registry"
  by (simp add: fmt_inv_def gm_ok_def fmt_registry_def)

lemma fmt_inv_Register [inv_intros]: "fmt_inv reg \<Longrightarrow> fmt_Register lib f reg = Inr reg' \<Longrightarrow> fmt_inv reg'"
  by (auto simp: fmt_inv_def fmt_Register_def Let_def gm_get_put split: if_splits)

lemma fmt_inv_Unregister [inv_intros]: "fmt_inv reg \<Longrightarrow> fmt_Unregister lib n reg = Inr reg' \<Longrightarrow> fmt_inv reg'"
  by (auto simp: fmt_inv_def fmt_Unregister_def Let_def gm_get_del split: if_splits option.splits)

datatype fmt_op = FmtRegister formatter | FmtUnregister string

fun fmt_step :: "fmt_lib \<Rightarrow> registry \<Rightarrow> fmt_op \<Rightarrow> registry" where
  "fmt_step lib reg (FmtRegister f) = (case fmt_Register lib f reg of Inl _ \<Rightarrow> reg | Inr r \<Rightarrow> r)"
| "fmt_step lib reg (FmtUnregister n) = (case fmt_Unregister lib n reg of Inl _ \<Rightarrow> reg | Inr r \<Rightarrow> r)"

lemma fmt_inv_step: "fmt_inv reg \<Longrightarrow> fmt_inv (fmt_step lib reg op)"
  by (cases op) (auto intro: fmt_inv_Register fmt_inv_Unregister split: sum.split)

lemma fmt_inv_steps: "fmt_inv reg \<Longrightarrow> fmt_inv (foldl (fmt_step lib) reg ops)"
  by (induction ops arbitrary: reg) (simp_all add: fmt_inv_step)

text \<open>
  The built-in formatters cannot be replaced or removed: after any sequence of registrations and
  removals, in whatever case the names are written, each of the six names finds its own formatter.
\<close>

theorem builtins_permanent:
  "list_all (\<lambda>f. fmt_Get lib (fmt_Name f) (foldl (fmt_step lib) fmt_registry ops) = Inr f)
     [TextFormatter, JSONFormatter, YAMLFormatter, MarkdownFormatter, CSVFormatter, ImageFormatter]"
proof -
  have "fmt_inv (foldl (fmt_step lib) fmt_registry ops)" by (simp add: fmt_inv_steps)
  then have "\<And>n. n \<in> set builtins \<Longrightarrow> gm_get (foldl (fmt_step lib) fmt_registry ops) n = gm_get fmt_registry n"
    by (simp add: fmt_inv_def)
  then show ?thesis
    by (simp add: fmt_Get_def builtins_def fmt_registry_def gm_get_def ToLower_def is_ascii_def ascii_lower_def)
qed

text \<open>
  A command registered as a formatter is found under its name in any case, until it is removed, and
  no other name changes; removing it makes the name unknown again.
\<close>

theorem fmt_Register_Get:
  assumes "fmt_inv reg" and "list_all is_ascii (fmt_Name f)" and "map ascii_lower (fmt_Name f) \<notin> set builtins"
    and "list_all is_ascii n" and "map ascii_lower n = map ascii_lower (fmt_Name f)"
  shows "\<exists>reg' reg''. fmt_Register lib f reg = Inr reg' \<and> fmt_Get lib n reg' = Inr f
    \<and> (\<forall>m. m \<noteq> map ascii_lower n \<longrightarrow> gm_get reg' m = gm_get reg m)
    \<and> fmt_Unregister lib n reg' = Inr reg'' \<and> \<not> is_ok (fmt_Get lib n reg'')"
  using assms
  by (simp add: fmt_Register_def fmt_Get_def fmt_Unregister_def ToLower_def Let_def gm_get_put gm_get_del)

theorem fmt_Register_Get_witness:
  "\<exists>reg' reg''. fmt_Register fmt_lib_example (CmdFormatter (NewCmdFormatter ''Rot13'' ''tr a-z n-za-m'' [])) fmt_registry = Inr reg'
    \<and> fmt_Get fmt_lib_example ''ROT13'' reg' = Inr (CmdFormatter (NewCmdFormatter ''Rot13'' ''tr a-z n-za-m'' []))
    \<and> fmt_Unregister fmt_lib_example ''ROT13'' reg' = Inr reg''"
proof -
  have "list_all is_ascii ''Rot13''" "map ascii_lower ''Rot13'' \<notin> set builtins" "list_all is_ascii ''ROT13''"
    "map ascii_lower ''ROT13'' = map ascii_lower ''Rot13''"
    by code_simp+
  then show ?thesis
    using fmt_Register_Get [OF fmt_inv_init, where f = "CmdFormatter (NewCmdFormatter ''Rot13'' ''tr a-z n-za-m'' [])"
        and n = "''ROT13''" and lib = fmt_lib_example]
    by (auto simp: NewCmdFormatter_def)
qed

end
