(* ===== verification/Key_Bindings.thy ===== *)
theory Key_Bindings
  imports Go_Strings
begin

text \<open>
  \<open>internal/bindings/bindings.go\<close>: the keyboard bindings of the browser. An action is its name; the
  bindings are a Go map from actions to key strings, so the order of the association list stands for
  the order of one \<open>range\<close>. A conflict is the format and arguments of the \<open>Sprintf\<close> that reports it.
\<close>

type_synonym action = string

text \<open>The constants, by the name they have in the source.\<close>

definition actions :: "(string \<times> action) list" where
  "actions =
     [(''ActionWindowNext'', ''window.next''), (''ActionWindowPrev'', ''window.prev''),
      (''ActionWindowFirst'', ''window.first''), (''ActionWindowLast'', ''window.last''),
      (''ActionWindowNew'', ''window.new''), (''ActionWindowClose'', ''window.close''),
      (''ActionWindowRename'', ''window.rename''),
      (''ActionPaneFocusLeft'', ''pane.focus.left''), (''ActionPaneFocusDown'', ''pane.focus.down''),
      (''ActionPaneFocusUp'', ''pane.focus.up''), (''ActionPaneFocusRight'', ''pane.focus.right''),
      (''ActionPaneSplitH'', ''pane.split.h''), (''ActionPaneSplitV'', ''pane.split.v''),
      (''ActionPaneResizeLeft'', ''pane.resize.left''), (''ActionPaneResizeDown'', ''pane.resize.down''),
      (''ActionPaneResizeUp'', ''pane.resize.up''), (''ActionPaneResizeRight'', ''pane.resize.right''),
      (''ActionPaneClose'', ''pane.close''), (''ActionPaneZoom'', ''pane.zoom''),
      (''ActionPaneRename'', ''pane.rename''), (''ActionPaneSwap'', ''pane.swap''),
      (''ActionScrollUp'', ''scroll.up''), (''ActionScrollDown'', ''scroll.down''),
      (''ActionScrollTop'', ''scroll.top''), (''ActionScrollBottom'', ''scroll.bottom''),
      (''ActionScrollClear'', ''scroll.clear''),
      (''ActionSearchOpen'', ''search.open''), (''ActionSearchNext'', ''search.next''),
      (''ActionSearchPrev'', ''search.prev''),
      (''ActionLayoutSave'', ''layout.save''), (''ActionLayoutReload'', ''layout.reload''),
      (''ActionEscape'', ''mode.escape'')]"

record binding =
  bd_Keys :: "string list"

type_synonym bindings = "(action, binding) gomap"

definition bd_Default :: bindings where
  "bd_Default =
     map (\<lambda>(a, ks). (a, \<lparr>bd_Keys = ks\<rparr>))
     [(''window.next'', [''g t'']), (''window.prev'', [''g T'']), (''window.first'', [''g 0'']),
      (''window.last'', [''g $'']), (''window.new'', [''g n'']), (''window.close'', [''g x'']),
      (''window.rename'', [''g r'']),
      (''pane.focus.left'', [''h'']), (''pane.focus.down'', [''j'']), (''pane.focus.up'', [''k'']),
      (''pane.focus.right'', [''l'']),
      (''pane.split.h'', [''s'']), (''pane.split.v'', [''v'']),
      (''pane.resize.left'', [''H'']), (''pane.resize.down'', [''J'']), (''pane.resize.up'', [''K'']),
      (''pane.resize.right'', [''L'']),
      (''pane.close'', [''q'']), (''pane.zoom'', [''z'']), (''pane.rename'', [''R'']), (''pane.swap'', [''x'']),
      (''scroll.up'', [''Control+u'']), (''scroll.down'', [''Control+d'']), (''scroll.top'', [''g g'']),
      (''scroll.bottom'', [''G'']), (''scroll.clear'', [''Control+l'']),
      (''search.open'', [''/'']), (''search.next'', [''n'']), (''search.prev'', [''N'']),
      (''layout.save'', [''Control+w s'']), (''layout.reload'', [''Control+w r'']),
      (''mode.escape'', [''Escape'', ''Control+c''])]"

definition bd_Merge :: "bindings \<Rightarrow> bindings \<Rightarrow> bindings" where
  "bd_Merge base overrides =
     fold (\<lambda>(action, b) r. if bd_Keys b = [] then gm_del action r else gm_put action b r) overrides
       (fold (\<lambda>(action, b) r. gm_put action b r) base [])"

definition normaliseKey :: "string \<Rightarrow> string" where "normaliseKey k = TrimSpace k"

text \<open>One key of one action: the keys seen so far and the conflicts found.\<close>

definition bd_check :: "action \<Rightarrow> string \<Rightarrow> (string, action) gomap \<times> go_err list \<Rightarrow> (string, action) gomap \<times> go_err list" where
  "bd_check action key0 st =
     (case st of (seen, conflicts) \<Rightarrow>
        let key = normaliseKey key0 in
        (case gm_get seen key of
           Some prev \<Rightarrow>
             (seen, conflicts @ [Errorf ''key %q assigned to both %q and %q'' [AStr key, AStr prev, AStr action]])
         | None \<Rightarrow> (gm_put key action seen, conflicts)))"

definition bd_Validate :: "bindings \<Rightarrow> go_err list" where
  "bd_Validate b = snd (fold (\<lambda>(action, binding). fold (bd_check action) (bd_Keys binding)) b ([], []))"

fun bd_Lookup :: "bindings \<Rightarrow> string \<Rightarrow> action option" where
  "bd_Lookup [] key = None"
| "bd_Lookup ((action, binding) # b) key =
     (if list_ex (\<lambda>k. normaliseKey k = normaliseKey key) (bd_Keys binding) then Some action
      else bd_Lookup b key)"

definition bd_JSON :: "bindings \<Rightarrow> (string, string list) gomap" where
  "bd_JSON b = fold (\<lambda>(action, binding) out. gm_put action (bd_Keys binding) out) b []"

section \<open>Merging\<close>

text \<open>Writing the entries of a map one by one, whatever is done with each of them.\<close>

lemma fold_entries_get:
  assumes "gm_ok m" and put: "\<And>a b r. gm_get (f a b r) = (gm_get r)(a := g a b)"
  shows "gm_get (fold (\<lambda>(a, b). f a b) m r) k = (case gm_get m k of None \<Rightarrow> gm_get r k | Some b \<Rightarrow> g k b)"
  using assms(1)
proof (induction m arbitrary: r)
  case Nil
  then show ?case by simp
next
  case (Cons x m)
  obtain a b where x: "x = (a, b)" by (cases x)
  from Cons.prems x have m: "gm_ok m" "gm_get m a = None"
    by (auto simp: gm_ok_def gm_get_None_iff gm_keys_def)
  have "gm_get (fold (\<lambda>(a, b). f a b) (x # m) r) k
      = (case gm_get m k of None \<Rightarrow> gm_get (f a b r) k | Some b \<Rightarrow> g k b)"
    using Cons.IH [OF m(1)] x by simp
  also have "\<dots> = (case gm_get (x # m) k of None \<Rightarrow> gm_get r k | Some b \<Rightarrow> g k b)"
  proof (cases "k = a")
    case True
    then show ?thesis using m(2) x by (simp add: put) (simp add: gm_get_def)
  next
    case False
    then have "gm_get (x # m) k = gm_get m k" using x by (simp add: gm_get_def)
    then show ?thesis using False by (simp add: put split: option.split)
  qed
  finally show ?case .
qed

lemma gm_get_copy: "gm_ok b \<Longrightarrow> gm_get (fold (\<lambda>(a, v). gm_put a v) b []) = gm_get b"
  by (rule ext, subst fold_entries_get [where g = "\<lambda>a v. Some v"]) (auto simp: gm_get_put split: option.split)

text \<open>
  Overriding bindings: an action that is not overridden keeps its base binding, an override with
  keys replaces it, an override without keys removes it, and the order in which either map is visited
  makes no difference.
\<close>

theorem Merge_exact:
  assumes "gm_ok base" and "gm_ok ov" and "mset base' = mset base" and "mset ov' = mset ov"
  shows "gm_get (bd_Merge base' ov') a =
    (case gm_get ov a of None \<Rightarrow> gm_get base a | Some b \<Rightarrow> if bd_Keys b = [] then None else Some b)"
proof -
  note base = gm_perm [OF assms(1,3)] and ov = gm_perm [OF assms(2,4)]
  have "gm_get (bd_Merge base' ov') a =
      (case gm_get ov' a of None \<Rightarrow> gm_get (fold (\<lambda>(a, v). gm_put a v) base' []) a
       | Some b \<Rightarrow> if bd_Keys b = [] then None else Some b)"
    unfolding bd_Merge_def by (rule fold_entries_get [OF ov(1)]) (simp add: gm_get_put gm_get_del)
  then show ?thesis by (simp only: ov(2) gm_get_copy [OF base(1)] base(2))
qed

theorem Merge_exact_witness:
  "gm_get (bd_Merge bd_Default [(''pane.zoom'', \<lparr>bd_Keys = []\<rparr>), (''pane.close'', \<lparr>bd_Keys = [''Q'']\<rparr>)]) ''pane.zoom'' = None
   \<and> gm_get (bd_Merge bd_Default [(''pane.zoom'', \<lparr>bd_Keys = []\<rparr>), (''pane.close'', \<lparr>bd_Keys = [''Q'']\<rparr>)]) ''pane.close''
       = Some \<lparr>bd_Keys = [''Q'']\<rparr>"
proof -
  let ?ov = "[(''pane.zoom'', \<lparr>bd_Keys = []\<rparr>), (''pane.close'', \<lparr>bd_Keys = [''Q'']\<rparr>)]"
  have d: "gm_ok bd_Default" by (simp add: gm_ok_def bd_Default_def)
  have o: "gm_ok ?ov" by (simp add: gm_ok_def)
  have g: "gm_get ?ov ''pane.zoom'' = Some \<lparr>bd_Keys = []\<rparr>" "gm_get ?ov ''pane.close'' = Some \<lparr>bd_Keys = [''Q'']\<rparr>"
    by (simp_all add: gm_get_def)
  show ?thesis
    using Merge_exact [OF d o refl refl, of "''pane.zoom''"] Merge_exact [OF d o refl refl, of "''pane.close''"] g
    by simp
qed

section \<open>Conflicts and lookups\<close>

text \<open>All keys of a binding set, each with its action.\<close>

definition bd_pairs :: "bindings \<Rightarrow> (string \<times> action) list" where
  "bd_pairs b = concat (map (\<lambda>(a, bd). map (\<lambda>k. (normaliseKey k, a)) (bd_Keys bd)) b)"

lemma pairs_iff:
  "(normaliseKey key, a) \<in> set (bd_pairs b) \<longleftrightarrow>
     (\<exists>bd k. (a, bd) \<in> set b \<and> k \<in> set (bd_Keys bd) \<and> normaliseKey k = normaliseKey key)"
proof -
  have "(normaliseKey key, a) \<in> set (bd_pairs b) \<longleftrightarrow>
      (\<exists>x \<in> set b. fst x = a \<and> (\<exists>k \<in> set (bd_Keys (snd x)). normaliseKey k = normaliseKey key))"
    by (simp add: bd_pairs_def split_beta image_iff) metis
  then show ?thesis by (simp add: Bex_def split_paired_Ex)
qed

lemma check_keys: "fold (bd_check a) ks st = fold (\<lambda>(k, a). bd_check a k) (map (\<lambda>k. (k, a)) ks) st"
  by (induction ks arbitrary: st) auto

definition pair_step :: "string \<times> action \<Rightarrow> (string, action) gomap \<times> go_err list \<Rightarrow> (string, action) gomap \<times> go_err list" where
  "pair_step p st =
     (case gm_get (fst st) (fst p) of
        Some prev \<Rightarrow> (fst st, snd st @ [Errorf ''key %q assigned to both %q and %q'' [AStr (fst p), AStr prev, AStr (snd p)]])
      | None \<Rightarrow> (gm_put (fst p) (snd p) (fst st), snd st))"

lemma Validate_pairs: "bd_Validate b = snd (fold pair_step (bd_pairs b) ([], []))"
proof -
  have one: "bd_check a k = pair_step (normaliseKey k, a)" for a k
    by (rule ext) (auto simp: bd_check_def pair_step_def split: prod.split option.split)
  have keys: "fold (bd_check a) ks st = fold pair_step (map (\<lambda>k. (normaliseKey k, a)) ks) st" for a ks st
    by (induction ks arbitrary: st) (simp_all add: one)
  have "fold (\<lambda>(action, bd). fold (bd_check action) (bd_Keys bd)) b st = fold pair_step (bd_pairs b) st" for st
    by (induction b arbitrary: st) (auto simp: bd_pairs_def keys)
  then show ?thesis by (simp add: bd_Validate_def)
qed

lemma pair_step_simps:
  "gm_get seen (fst p) = None \<Longrightarrow> pair_step p (seen, cs) = (gm_put (fst p) (snd p) seen, cs)"
  "gm_get seen (fst p) = Some q \<Longrightarrow> \<exists>e. pair_step p (seen, cs) = (seen, cs @ [e])"
  by (simp_all add: pair_step_def)

lemma pair_steps_clean:
  "snd (fold pair_step ps (seen, cs)) = [] \<longleftrightarrow>
     cs = [] \<and> distinct (map fst ps) \<and> (\<forall>p \<in> set ps. gm_get seen (fst p) = None)"
proof (induction ps arbitrary: seen cs)
  case Nil
  then show ?case by simp
next
  case (Cons p ps)
  show ?case
  proof (cases "gm_get seen (fst p)")
    case None
    then show ?thesis by (auto simp: pair_step_simps(1) Cons.IH gm_get_put image_iff dest: bspec)
  next
    case (Some q)
    then obtain e where "pair_step p (seen, cs) = (seen, cs @ [e])" using pair_step_simps(2) by blast
    then show ?thesis using Some by (simp add: Cons.IH)
  qed
qed

lemma Lookup_pairs: "bd_Lookup b key = map_of (bd_pairs b) (normaliseKey key)"
proof (induction b)
  case Nil
  then show ?case by (simp add: bd_pairs_def)
next
  case (Cons x b)
  obtain a bd where x: "x = (a, bd)" by (cases x)
  have "map_of (map (\<lambda>k. (normaliseKey k, a)) ks) q = (if q \<in> normaliseKey ` set ks then Some a else None)" for ks q
    by (induction ks) auto
  then show ?case using Cons.IH x
    by (auto simp: bd_pairs_def map_add_def list_ex_iff image_iff split: option.split)
qed

text \<open>
  A binding set without conflicts is unambiguous: \<open>Validate\<close> is silent exactly when no two keys,
  of one action or of two, agree up to surrounding white space; a key then triggers an action exactly
  when it is one of its keys, whatever order the map is visited in.
\<close>

theorem Validate_Lookup:
  assumes "mset b' = mset b"
  shows "(bd_Validate b = [] \<longleftrightarrow> distinct (map fst (bd_pairs b)))
    \<and> (bd_Validate b = [] \<longrightarrow> (bd_Lookup b' key = Some a \<longleftrightarrow>
         (\<exists>bd k. (a, bd) \<in> set b \<and> k \<in> set (bd_Keys bd) \<and> normaliseKey k = normaliseKey key)))"
proof -
  have v: "bd_Validate b = [] \<longleftrightarrow> distinct (map fst (bd_pairs b))"
    by (simp add: Validate_pairs pair_steps_clean)
  have "mset (bd_pairs b') = mset (bd_pairs b)"
    using assms by (simp add: bd_pairs_def mset_concat flip: sum_mset_sum_list)
  then have p: "gm_ok (bd_pairs b) \<Longrightarrow> gm_get (bd_pairs b') = gm_get (bd_pairs b)"
    using gm_perm(2) by blast
  have "bd_Lookup b' key = Some a \<longleftrightarrow>
         (\<exists>bd k. (a, bd) \<in> set b \<and> k \<in> set (bd_Keys bd) \<and> normaliseKey k = normaliseKey key)"
    if "bd_Validate b = []"
  proof -
    from that v have ok: "gm_ok (bd_pairs b)" by (simp add: gm_ok_def)
    have "bd_Lookup b' key = Some a \<longleftrightarrow> (normaliseKey key, a) \<in> set (bd_pairs b)"
      using fun_cong [OF p [OF ok], of "normaliseKey key"] gm_get_iff [OF ok, of "normaliseKey key" a]
      by (simp add: Lookup_pairs gm_get_def)
    also have "\<dots> \<longleftrightarrow> (\<exists>bd k. (a, bd) \<in> set b \<and> k \<in> set (bd_Keys bd) \<and> normaliseKey k = normaliseKey key)"
      by (rule pairs_iff)
    finally show ?thesis .
  qed
  with v show ?thesis by blast
qed

lemma normaliseKey_graph: "s \<noteq> [] \<Longrightarrow> is_graph (hd s) \<Longrightarrow> is_graph (last s) \<Longrightarrow> normaliseKey s = s"
  by (simp add: normaliseKey_def TrimSpace_graph)

lemma Default_clean: "bd_Validate bd_Default = []"
proof -
  have "distinct (map fst (bd_pairs bd_Default))"
    by (simp add: bd_pairs_def bd_Default_def normaliseKey_graph is_graph_def)
  then show ?thesis by (simp only: Validate_pairs pair_steps_clean) simp
qed

theorem Validate_Lookup_witness:
  "bd_Lookup (rev bd_Default) ''Control+w s'' = Some ''layout.save''"
  using Validate_Lookup [where b = bd_Default and b' = "rev bd_Default" and key = "''Control+w s''" and a = "''layout.save''"]
    Default_clean by (simp add: bd_Default_def)

end
