(* ===== verification/Kv_Persist.thy ===== *)
theory Kv_Persist
  imports Kv_Store
begin

text \<open>
  \<open>internal/kvstore/persist.go\<close>: the database beside the store. The table \<open>kv\<close> has the key as its
  primary key, so it is a map; the two statements the code sends are an insert that updates on conflict
  and a delete. Whether the database refuses a statement is the argument \<open>fail\<close>.
\<close>

type_synonym kv_table = "(string, string) gomap"

text \<open>
  \<open>OpenDB\<close>: \<open>connect\<close> is the driver, which answers with the table of the file, empty when it is new, and
  \<open>create\<close> whether it refuses to make the table where there is none.
\<close>

definition OpenDB :: "(string \<Rightarrow> kv_table result) \<Rightarrow> (kv_table \<Rightarrow> go_err option) \<Rightarrow> string \<Rightarrow> kv_table result" where
  "OpenDB connect create path =
     (case connect (path @ ''?_journal_mode=WAL&_synchronous=NORMAL'') of
        Inl e \<Rightarrow> Inl (Wrapf ''kvstore: open %s: %w'' [AStr path] e)
      | Inr db \<Rightarrow>
          (case create db of
             Some e \<Rightarrow> Inl (Wrapf ''kvstore: create table: %w'' [] e)
           | None \<Rightarrow> Inr db))"

definition db_Persist :: "go_err option \<Rightarrow> key \<Rightarrow> string \<Rightarrow> kv_table \<Rightarrow> kv_table \<times> go_err option" where
  "db_Persist fail k value db =
     (case fail of
        Some e \<Rightarrow> (db, Some (Wrapf ''kvstore: persist %q: %w'' [AStr (key_String k)] e))
      | None \<Rightarrow> (gm_put (key_String k) value db, None))"

definition db_Remove :: "go_err option \<Rightarrow> key \<Rightarrow> kv_table \<Rightarrow> kv_table \<times> go_err option" where
  "db_Remove fail k db =
     (case fail of
        Some e \<Rightarrow> (db, Some (Wrapf ''kvstore: remove %q: %w'' [AStr (key_String k)] e))
      | None \<Rightarrow> (gm_del (key_String k) db, None))"

text \<open>The rows of the table, in whatever order the query returns them, all readable.\<close>

definition db_rows :: "kv_table \<Rightarrow> (string \<times> string) option list" where
  "db_rows db = map Some db"

text \<open>\<open>Load\<close>: \<open>rows\<close> is what the query answers, a row that cannot be read is \<open>None\<close>; \<open>rows_err\<close> ends the iteration.\<close>

definition db_Load :: "(string \<times> string) option list result \<Rightarrow> go_err option \<Rightarrow> kv_store \<Rightarrow> kv_store \<times> go_err option" where
  "db_Load rows rows_err s =
     (case rows of
        Inl e \<Rightarrow> (s, Some (Wrapf ''kvstore: load: %w'' [] e))
      | Inr rs \<Rightarrow> (kv_Load rs s, rows_err))"

section \<open>Persisting and restoring\<close>

datatype persist_op = PsSet key string | PsDelete key

text \<open>What the request handlers do with a store and its database.\<close>

fun persist_step :: "kv_store \<times> kv_table \<Rightarrow> persist_op \<Rightarrow> kv_store \<times> kv_table" where
  "persist_step (s, db) (PsSet k v) =
     (case kv_Set k v s of Inl _ \<Rightarrow> (s, db) | Inr s' \<Rightarrow> (s', fst (db_Persist None k v db)))"
| "persist_step (s, db) (PsDelete k) = (kv_Delete k s, fst (db_Remove None k db))"

definition key_valid :: "key \<Rightarrow> bool" where
  "key_valid k \<longleftrightarrow> ParseKey (key_String k) = Inr k"

primrec op_key :: "persist_op \<Rightarrow> key" where
  "op_key (PsSet k v) = k"
| "op_key (PsDelete k) = k"

definition agree :: "kv_store \<Rightarrow> kv_table \<Rightarrow> bool" where
  "agree s db \<longleftrightarrow> kv_inv s \<and> gm_ok db \<and> (\<forall>k. gm_get db (key_String k) = kv_Get s k)
     \<and> (\<forall>k. kv_Get s k \<noteq> None \<longrightarrow> key_valid k)"

lemma agree_step: "agree s db \<Longrightarrow> key_valid (op_key x) \<Longrightarrow> persist_step (s, db) x = (s', db') \<Longrightarrow> agree s' db'"
  by (cases x)
     (auto simp: agree_def db_Persist_def db_Remove_def gm_get_put gm_get_del kv_Get_Delete kvs.add_get
       split: sum.splits if_splits intro: inv_intros)

lemma agree_run:
  "agree s db \<Longrightarrow> list_all (\<lambda>x. key_valid (op_key x)) ops \<Longrightarrow> foldl persist_step (s, db) ops = (s', db') \<Longrightarrow> agree s' db'"
proof (induction ops arbitrary: s db)
  case Nil
  then show ?case by simp
next
  case (Cons x ops)
  obtain s1 db1 where one: "persist_step (s, db) x = (s1, db1)" by fastforce
  with Cons.prems agree_step [of s db x s1 db1] have "agree s1 db1" by simp
  with Cons one show ?case by simp
qed

text \<open>Loading entries that fit together loads all of them.\<close>

lemma Load_all:
  assumes "kv_inv s" and "gm_ok m" and "\<forall>k \<in> set (gm_keys m). kv_Get s k = None \<and> key_valid k"
    and "list_all (\<lambda>(k, v). length v \<le> ValueMaxBytes) m"
    and "kv_totalBytes s + gm_sum str_size m \<le> int StoreMaxBytes"
  shows "kv_Get (kv_Load (map (\<lambda>(k, v). Some (key_String k, v)) m) s) = kv_Get s ++ gm_get m"
  using assms
proof (induction m arbitrary: s)
  case Nil
  then show ?case by (simp add: gm_get_def)
next
  case (Cons x m)
  obtain k v where x: "x = (k, v)" by (cases x)
  have nonneg: "0 \<le> gm_sum str_size m" by (rule gm_sum_nonneg) simp
  from Cons.prems x have k: "kv_Get s k = None" "ParseKey (key_String k) = Inr k" "k \<notin> set (gm_keys m)"
    by (auto simp: gm_keys_def key_valid_def gm_ok_def)
  have "kv_accepts s k v"
    using Cons.prems(4,5) x k(1) nonneg by (auto simp: kv_accepts_def gm_sum_def)
  then obtain s' where s': "kv_Set k v s = Inr s'"
    using kvs.accepts_iff [OF Cons.prems(1), of k v] by (auto simp: is_ok_iff)
  have get: "kv_Get s' = (kv_Get s)(k \<mapsto> v)" by (rule kvs.add_get [OF Cons.prems(1) s'])
  have tot: "kv_totalBytes s' = kv_totalBytes s + str_size v"
    using s' k(1) by (auto simp: kv_Set_alt split: if_splits)
  have "kv_Get (kv_Load (map (\<lambda>(k, v). Some (key_String k, v)) m) s') = kv_Get s' ++ gm_get m"
  proof (rule Cons.IH)
    show "kv_inv s'" using Cons.prems(1) s' by (rule kv_inv_Set)
    show "gm_ok m" using Cons.prems(2) by (simp add: gm_ok_def)
    show "\<forall>k \<in> set (gm_keys m). kv_Get s' k = None \<and> key_valid k"
      using Cons.prems(3) get k(3) by (auto simp: gm_keys_def)
    show "list_all (\<lambda>(k, v). length v \<le> ValueMaxBytes) m" using Cons.prems(4) by simp
    show "kv_totalBytes s' + gm_sum str_size m \<le> int StoreMaxBytes"
      using Cons.prems(5) x tot by (simp add: gm_sum_def)
  qed
  moreover have "kv_Get s' ++ gm_get m = kv_Get s ++ gm_get (x # m)"
    unfolding get x
  proof (rule ext)
    fix j
    have "map_of m k = None" using k(3) by (simp add: gm_keys_def map_of_eq_None_iff)
    then show "((kv_Get s)(k \<mapsto> v) ++ gm_get m) j = (kv_Get s ++ gm_get ((k, v) # m)) j"
      by (simp add: gm_get_def map_add_def split: option.split)
  qed
  ultimately show ?case using x k(2) s' by simp
qed

text \<open>Two maps with the same lookups have the same entries.\<close>

lemma gm_same_entries:
  assumes "gm_ok m" and "gm_ok n" and "gm_get m = gm_get n"
  shows "mset m = mset n"
proof -
  have "set m = set n"
  proof (rule set_eqI)
    fix x
    show "x \<in> set m \<longleftrightarrow> x \<in> set n"
      using assms gm_get_iff [of m "fst x" "snd x"] gm_get_iff [of n "fst x" "snd x"] by simp
  qed
  moreover have "distinct m" "distinct n" using assms(1,2) by (auto simp: gm_ok_def distinct_map)
  ultimately show ?thesis using set_eq_iff_mset_eq_distinct by blast
qed

lemma gm_sum_mset: "mset m = mset n \<Longrightarrow> gm_sum f m = gm_sum f n"
proof -
  assume "mset m = mset n"
  then have "mset (map (f \<circ> snd) m) = mset (map (f \<circ> snd) n)" by simp
  then show ?thesis unfolding gm_sum_def by (metis sum_mset_sum_list)
qed

text \<open>
  A store with a database survives a restart: after any sequence of accepted or refused writes and of
  deletions, loading the rows of the database, in any order, into a new store gives the same value for
  every key; no entry is dropped by the limits on the way.
\<close>

theorem persist_restore:
  assumes "list_all (\<lambda>x. key_valid (op_key x)) ops" and "foldl persist_step (kv_New, []) ops = (s, db)"
    and "mset rows = mset (db_rows db)"
  shows "kv_Get (kv_Load rows kv_New) = kv_Get s"
proof -
  have "agree kv_New []" by (simp add: agree_def kv_Get_def) (simp add: kv_New_def)
  from agree_run [OF this assms(1,2)] have ag: "agree s db" .
  define m where "m = map (\<lambda>r. case the r of (ks, v) \<Rightarrow> (Key ks, v)) rows"
  have "set rows = Some ` set db" using assms(3) by (metis db_rows_def mset_eq_setD set_map)
  then have rows: "rows = map (\<lambda>(k, v). Some (key_String k, v)) m"
    unfolding m_def map_map comp_def by (intro map_idI [symmetric]) auto
  have mm: "mset m = mset (map (\<lambda>(ks, v). (Key ks, v)) db)"
    using assms(3) unfolding m_def db_rows_def by (simp add: mset_map multiset.map_comp comp_def)
  let ?d = "map (\<lambda>(ks, v). (Key ks, v)) db"
  have d: "gm_ok ?d" "gm_get ?d = kv_Get s"
  proof -
    have "gm_get (map (\<lambda>(ks, v). (Key ks, v)) xs) k = gm_get xs (key_String k)" for xs :: kv_table and k
      by (cases k, induction xs) (auto simp: gm_get_def)
    then show "gm_get ?d = kv_Get s" using ag by (auto simp: agree_def)
    have "map fst ?d = map Key (map fst db)" by auto
    then show "gm_ok ?d" using ag by (simp add: gm_ok_def agree_def distinct_map inj_on_def)
  qed
  note m = gm_perm [OF d(1) mm]
  have data: "mset m = mset (kv_data s)"
    using ag m d(2) by (intro gm_same_entries) (auto simp: agree_def kv_inv_def kv_Get_def)
  have "kv_Get (kv_Load rows kv_New) = kv_Get kv_New ++ gm_get m"
    unfolding rows
  proof (rule Load_all)
    show "\<forall>k \<in> set (gm_keys m). kv_Get kv_New k = None \<and> key_valid k"
    proof
      fix k
      assume "k \<in> set (gm_keys m)"
      then have "kv_Get s k \<noteq> None" using m(2) d(2) gm_get_None_iff [of m k] by simp
      then have "key_valid k" using ag by (simp add: agree_def)
      then show "kv_Get kv_New k = None \<and> key_valid k" by (simp add: kv_New_def kv_Get_def)
    qed
    show "list_all (\<lambda>(k, v). length v \<le> ValueMaxBytes) m"
      using ag mset_eq_setD [OF data] by (simp add: agree_def kv_inv_def list_all_iff)
    show "kv_totalBytes kv_New + gm_sum str_size m \<le> int StoreMaxBytes"
      using ag gm_sum_mset [OF data] by (simp add: agree_def kv_inv_def kv_New_def)
  qed (simp_all add: m)
  moreover have "kv_Get kv_New = Map.empty" by (simp add: kv_Get_def kv_New_def fun_eq_iff)
  ultimately show ?thesis using m(2) d(2) by simp
qed

theorem persist_restore_witness:
  "kv_Get (kv_Load [Some (''b'', ''2''), Some (''a'', ''3'')] kv_New) (Key ''a'') = Some ''3''"
proof -
  let ?ops = "[PsSet (Key ''a'') ''1'', PsSet (Key ''b'') ''2'', PsSet (Key ''a'') ''3'', PsSet (Key ''c'') ''4'', PsDelete (Key ''c'')]"
  have v: "list_all (\<lambda>x. key_valid (op_key x)) ?ops"
    by (simp add: key_valid_def ParseKey_def KeyMaxLen_def keyPattern_def word_char_def)
  obtain s where s: "foldl persist_step (kv_New, []) ?ops = (s, [(''a'', ''3''), (''b'', ''2'')])"
    and g: "kv_Get s (Key ''a'') = Some ''3''"
    by (simp add: kv_Set_def kv_New_def ValueMaxBytes_def StoreMaxBytes_def db_Persist_def db_Remove_def gm_put_def
        gm_get_def gm_del_def kv_Delete_def kv_Get_def)
  show ?thesis
    using persist_restore [OF v s, of "[Some (''b'', ''2''), Some (''a'', ''3'')]"] g by (simp add: db_rows_def)
qed

end
