(* ===== verification/Go_Path.thy ===== *)
theory Go_Path
  imports Go_Strings
begin

text \<open>
  What the program uses of \<open>path/filepath\<close>, on a system whose separator is the slash: \<open>Clean\<close>, \<open>Join\<close>,
  \<open>Dir\<close> and \<open>Rel\<close>. A path is worked on as the list of its elements.
\<close>

text \<open>The elements that are left, the last one first; \<open>rooted\<close> says whether the path starts at the root.\<close>

fun clean_parts :: "bool \<Rightarrow> string list \<Rightarrow> string list \<Rightarrow> string list" where
  "clean_parts rooted acc [] = rev acc"
| "clean_parts rooted acc (s # ss) =
     (if s = [] \<or> s = ''.'' then clean_parts rooted acc ss
      else if s = ''..'' then
        (case acc of
           a # as \<Rightarrow> if a = ''..'' then clean_parts rooted (''..'' # acc) ss else clean_parts rooted as ss
         | [] \<Rightarrow> if rooted then clean_parts rooted [] ss else clean_parts rooted [''..''] ss)
      else clean_parts rooted (s # acc) ss)"

definition path_Clean :: "string \<Rightarrow> string" where
  "path_Clean p =
     (let out = join_with ''/'' (clean_parts (HasPrefix p ''/'') [] (split_on (CHR ''/'') p))
      in if HasPrefix p ''/'' then ''/'' @ out else if out = [] then ''.'' else out)"

definition path_Join :: "string list \<Rightarrow> string" where
  "path_Join ps =
     (case filter (\<lambda>p. p \<noteq> []) ps of [] \<Rightarrow> [] | qs \<Rightarrow> path_Clean (join_with ''/'' qs))"

text \<open>\<open>Dir\<close>: everything up to the last slash, cleaned.\<close>

definition path_Dir :: "string \<Rightarrow> string" where
  "path_Dir p = path_Clean (rev (dropWhile (\<lambda>c. c \<noteq> CHR ''/'') (rev p)))"

text \<open>\<open>Rel\<close>: the common elements are dropped, each that is left of the base is a step up.\<close>

fun strip_common :: "string list \<Rightarrow> string list \<Rightarrow> string list \<times> string list" where
  "strip_common (b # bs) (t # ts) = (if b = t then strip_common bs ts else (b # bs, t # ts))"
| "strip_common bs ts = (bs, ts)"

definition path_elements :: "string \<Rightarrow> string list" where
  "path_elements p = (if p = [] then [] else split_on (CHR ''/'') p)"

definition path_Rel :: "string \<Rightarrow> string \<Rightarrow> string result" where
  "path_Rel basepath targpath =
     (let base = path_Clean basepath; targ = path_Clean targpath;
          base1 = (if base = ''.'' then [] else base)
      in if targ = base then Inr ''.''
         else if HasPrefix base1 ''/'' \<noteq> HasPrefix targ ''/'' then Inl (Errorf ''Rel: can't make relative'' [AStr targpath, AStr basepath])
         else (case strip_common (path_elements base1) (path_elements targ) of
                 (bs, ts) \<Rightarrow>
                   if bs \<noteq> [] \<and> ts \<noteq> [] \<and> hd bs = ''..'' then Inl (Errorf ''Rel: can't make relative'' [AStr targpath, AStr basepath])
                   else Inr (join_with ''/'' (replicate (length bs) ''..'' @ ts))))"

section \<open>Paths of plain names\<close>

definition plain_part :: "string \<Rightarrow> bool" where
  "plain_part s \<longleftrightarrow> s \<noteq> [] \<and> s \<noteq> ''.'' \<and> s \<noteq> ''..'' \<and> CHR ''/'' \<notin> set s"

definition plain_file :: "string list \<Rightarrow> bool" where
  "plain_file ps \<longleftrightarrow> list_all plain_part ps"

lemma clean_plain_parts: "list_all plain_part ps \<Longrightarrow> clean_parts r acc (ps @ ss) = clean_parts r (rev ps @ acc) ss"
  by (induction ps arbitrary: acc) (auto simp: plain_part_def)

lemma plain_free: "plain_file ps \<Longrightarrow> x \<in> set ps \<Longrightarrow> CHR ''/'' \<notin> set x"
  by (simp add: plain_file_def list_all_iff plain_part_def)

lemma split_plain_file: "plain_file ps \<Longrightarrow> ps \<noteq> [] \<Longrightarrow> split_on (CHR ''/'') (join_with ''/'' ps) = ps"
  by (rule split_on_join) (auto simp: plain_file_def list_all_iff plain_part_def)

lemma join_plain_head: "plain_file ps \<Longrightarrow> ps \<noteq> [] \<Longrightarrow> join_with ''/'' ps \<noteq> [] \<and> \<not> HasPrefix (join_with ''/'' ps) ''/''"
proof -
  assume p: "plain_file ps" "ps \<noteq> []"
  then obtain c s qs where ps: "ps = (c # s) # qs" "c \<noteq> CHR ''/''"
    by (cases ps; cases "hd ps") (auto simp: plain_file_def plain_part_def)
  then show ?thesis by (cases qs) simp_all
qed

lemma Clean_plain: "plain_file ps \<Longrightarrow> path_Clean (join_with ''/'' ps) = (if ps = [] then ''.'' else join_with ''/'' ps)"
proof (cases "ps = []")
  case False
  assume p: "plain_file ps"
  then have "clean_parts False [] ps = ps" using clean_plain_parts [of ps False "[]" "[]"] by (simp add: plain_file_def)
  then show ?thesis using join_plain_head [OF p False] split_plain_file [OF p False] False by (simp add: path_Clean_def Let_def)
qed (simp add: path_Clean_def)

lemma join_snoc: "ps \<noteq> [] \<Longrightarrow> join_with sep (ps @ [p]) = join_with sep ps @ sep @ p"
  by (induction ps rule: induct_list012) simp_all

lemma dropWhile_rev_free: "c \<notin> set p \<Longrightarrow> rev (dropWhile (\<lambda>x. x \<noteq> c) (rev (d @ c # p))) = d @ [c]"
proof -
  assume "c \<notin> set p"
  then have "\<forall>x \<in> set (rev p). x \<noteq> c" by auto
  then have "dropWhile (\<lambda>x. x \<noteq> c) (rev p @ c # rev d) = c # rev d" by (induction "rev p") (simp_all add: dropWhile_append3)
  then show ?thesis by simp
qed

lemma Dir_plain: "plain_file (ds @ [f]) \<Longrightarrow> path_Dir (join_with ''/'' (ds @ [f])) = (if ds = [] then ''.'' else join_with ''/'' ds)"
proof -
  assume p: "plain_file (ds @ [f])"
  then have f: "CHR ''/'' \<notin> set f" and ds: "plain_file ds" by (simp_all add: plain_file_def plain_part_def)
  show ?thesis
  proof (cases "ds = []")
    case True
    have "dropWhile (\<lambda>c. c \<noteq> CHR ''/'') (rev f) = []" using f by auto
    then have "path_Dir f = path_Clean []" unfolding path_Dir_def by (simp only: rev.simps)
    then show ?thesis using True by (simp add: path_Clean_def)
  next
    case False
    have "rev (dropWhile (\<lambda>c. c \<noteq> CHR ''/'') (rev (join_with ''/'' (ds @ [f])))) = join_with ''/'' ds @ ''/''"
      using dropWhile_rev_free [OF f, of "join_with ''/'' ds"] False by (simp add: join_snoc)
    moreover have "split_on (CHR ''/'') (join_with ''/'' (ds @ [[]])) = ds @ [[]]"
      by (rule split_on_join) (use plain_free [OF ds] in \<open>fastforce+\<close>)
    then have "split_on (CHR ''/'') (join_with ''/'' ds @ ''/'') = ds @ [[]]" using False by (simp add: join_snoc)
    moreover have "clean_parts False [] (ds @ [[]]) = ds" using clean_plain_parts [of ds False "[]" "[[]]"] ds by (simp add: plain_file_def)
    moreover have "\<not> HasPrefix (join_with ''/'' ds @ ''/'') ''/''" "join_with ''/'' ds \<noteq> []"
      using join_plain_head [OF ds False] by (cases "join_with ''/'' ds"; simp)+
    ultimately show ?thesis using False by (simp add: path_Dir_def path_Clean_def Let_def)
  qed
qed

lemma strip_common_spec: "strip_common bs ts = (b, t) \<Longrightarrow> \<exists>c. bs = c @ b \<and> ts = c @ t"
proof (induction bs ts rule: strip_common.induct)
  case (1 b' bs t' ts)
  show ?case
  proof (cases "b' = t'")
    case True
    then obtain c where "bs = c @ b" "ts = c @ t" using 1 by auto
    then show ?thesis using True by (intro exI [of _ "b' # c"]) simp
  next
    case False
    then show ?thesis using 1(2) by simp
  qed
qed auto

lemma plain_elements: "plain_file ps \<Longrightarrow> path_elements (join_with ''/'' ps) = ps"
  using join_plain_head [of ps] split_plain_file [of ps] by (cases "ps = []") (auto simp: path_elements_def)

lemma join_dot: "plain_file ps \<Longrightarrow> join_with ''/'' ps \<noteq> ''.''"
proof
  assume p: "plain_file ps" and e: "join_with ''/'' ps = ''.''"
  then have "ps \<noteq> []" by auto
  from split_plain_file [OF p this] e have "ps = [''.'']" by simp
  with p show False by (simp add: plain_file_def plain_part_def)
qed

text \<open>From the directory of a file, the relative path leads to the target.\<close>

lemma clean_ups:
  "list_all plain_part bs \<Longrightarrow> clean_parts False (rev (c @ bs)) (replicate (length bs) ''..'' @ rest) = clean_parts False (rev c) rest"
proof (induction bs rule: rev_induct)
  case (snoc x bs)
  then show ?case by (simp add: plain_part_def)
qed simp

lemma Rel_plain:
  assumes "plain_file ds" and "plain_file ts" and "ts \<noteq> []"
  shows "\<exists>rel. path_Rel (if ds = [] then ''.'' else join_with ''/'' ds) (join_with ''/'' ts) = Inr rel
    \<and> clean_parts False [] (ds @ split_on (CHR ''/'') rel) = ts"
proof -
  let ?b = "join_with ''/'' ds" and ?t = "join_with ''/'' ts"
  have cb: "path_Clean (if ds = [] then ''.'' else ?b) = (if ds = [] then ''.'' else ?b)"
    using Clean_plain [OF assms(1)] by (simp add: path_Clean_def)
  have ct: "path_Clean ?t = ?t" using Clean_plain [OF assms(2)] assms(3) by simp
  show ?thesis
  proof (cases "ds \<noteq> [] \<and> ?t = ?b")
    case True
    then have "ts = ds" using split_plain_file [OF assms(2,3)] split_plain_file [OF assms(1)] by metis
    moreover have "clean_parts False [] (ds @ [''.'']) = ds"
      using clean_plain_parts [of ds False "[]" "[''.'']"] assms(1) by (simp add: plain_file_def)
    ultimately show ?thesis using True cb ct by (simp add: path_Rel_def Let_def)
  next
    case False
    obtain bs us where sc: "strip_common ds ts = (bs, us)" by fastforce
    then obtain c where c: "ds = c @ bs" "ts = c @ us" using strip_common_spec by blast
    let ?ups = "replicate (length bs) ''..''"
    have up: "bs = [] \<or> hd bs \<noteq> ''..''" using assms(1) c(1) by (cases bs) (auto simp: plain_file_def plain_part_def)
    have base: "(if (if ds = [] then ''.'' else ?b) = ''.'' then [] else (if ds = [] then ''.'' else ?b)) = ?b"
      using join_dot [OF assms(1)] by simp
    have slash: "\<not> HasPrefix ?t ''/''" "\<not> HasPrefix ?b ''/''"
      using join_plain_head [OF assms(2,3)] join_plain_head [OF assms(1)] by (auto, cases "ds = []", auto)
    have ne: "?t \<noteq> (if ds = [] then ''.'' else ?b)" using False join_dot [OF assms(2)] by auto
    have rel: "path_Rel (if ds = [] then ''.'' else ?b) ?t = Inr (join_with ''/'' (?ups @ us))"
      unfolding path_Rel_def Let_def cb ct base plain_elements [OF assms(1)] plain_elements [OF assms(2)] sc split
      using ne slash up by simp blast
    have some: "?ups @ us \<noteq> []" using False assms(3) c by auto
    have "CHR ''/'' \<notin> set x" if "x \<in> set (?ups @ us)" for x using that plain_free [OF assms(2)] c(2) by auto
    from split_on_join [OF this some] have split: "split_on (CHR ''/'') (join_with ''/'' (?ups @ us)) = ?ups @ us" by simp
    have "clean_parts False [] (ds @ ?ups @ us) = clean_parts False (rev c) us"
      using clean_plain_parts [of ds False "[]" "?ups @ us"] clean_ups [of bs c us] assms(1) c(1) by (simp add: plain_file_def)
    also have "\<dots> = ts" using clean_plain_parts [of us False "rev c" "[]"] assms(2) c(2) by (simp add: plain_file_def)
    finally show ?thesis using rel split by auto
  qed
qed

end
