(* ===== verification/Rdw_Config.thy ===== *)
theory Rdw_Config
  imports Go_Path
begin

text \<open>
  \<open>internal/config\<close>: the server configuration, its defaults, and loading it from a file. What the
  operating system and the YAML decoder do is a parameter: \<open>read\<close> gives the bytes of a file, \<open>yaml\<close>
  overwrites the members of the defaults that the document names.
\<close>

definition DefaultPort :: int where "DefaultPort = 7681"
definition cfg_DefaultScrollbackCap :: int where "cfg_DefaultScrollbackCap = 10000"
definition DefaultTokenExpiry :: int where "DefaultTokenExpiry = 24 * 3600 * 1000000000"
definition DefaultFilterChainMax :: int where "DefaultFilterChainMax = 8"
definition DefaultReconnectQueueLen :: int where "DefaultReconnectQueueLen = 1000"

record user_formatter =
  uf_Name :: string
  uf_Cmd :: string

record server_config =
  sc_Port :: int
  sc_NetworkExpose :: bool
  sc_OpenBrowser :: bool
  sc_FilterChainMax :: int
  sc_ScrollbackCap :: int
  sc_ReconnectQueueLen :: int

record auth_config =
  ac_NoAuth :: bool
  ac_AdminLocalOnly :: bool
  ac_AdminToken :: string

record log_config =
  lc_Level :: string
  lc_Format :: string

record config =
  cg_Server :: server_config
  cg_Auth :: auth_config
  cg_KV_PersistPath :: string
  cg_Log :: log_config
  cg_Bindings :: "(string, string list) gomap option"
  cg_UserFormatters :: "user_formatter list"

definition cfg_Default :: config where
  "cfg_Default =
     \<lparr>cg_Server = \<lparr>sc_Port = DefaultPort, sc_NetworkExpose = False, sc_OpenBrowser = False,
        sc_FilterChainMax = DefaultFilterChainMax, sc_ScrollbackCap = cfg_DefaultScrollbackCap,
        sc_ReconnectQueueLen = DefaultReconnectQueueLen\<rparr>,
      cg_Auth = \<lparr>ac_NoAuth = False, ac_AdminLocalOnly = True, ac_AdminToken = []\<rparr>,
      cg_KV_PersistPath = [], cg_Log = \<lparr>lc_Level = ''info'', lc_Format = ''console''\<rparr>,
      cg_Bindings = None, cg_UserFormatters = []\<rparr>"

definition cfg_validate :: "config \<Rightarrow> go_err option" where
  "cfg_validate c =
     (let s = cg_Server c; l = cg_Log c in
      if sc_Port s < 1 \<or> 65535 < sc_Port s then
        Some (Errorf ''server.port %d is out of range [1, 65535]'' [AInt (sc_Port s)])
      else if sc_FilterChainMax s < 1 then Some (Errorf ''server.filter_chain_max must be >= 1'' [])
      else if 64 < sc_FilterChainMax s then Some (Errorf ''server.filter_chain_max must be <= 64'' [])
      else if sc_ScrollbackCap s < 1 then Some (Errorf ''server.scrollback_cap must be >= 1'' [])
      else if sc_ReconnectQueueLen s < 1 then Some (Errorf ''server.reconnect_queue_len must be >= 1'' [])
      else if lc_Level l \<notin> set [''debug'', ''info'', ''warn'', ''error''] then
        Some (Errorf ''log.level %q is invalid; must be one of: debug, info, warn, error'' [AStr (lc_Level l)])
      else if lc_Format l \<notin> set [''json'', ''console''] then
        Some (Errorf ''log.format %q is invalid; must be one of: json, console'' [AStr (lc_Format l)])
      else None)"

definition cfg_Load :: "(string \<Rightarrow> string result) \<Rightarrow> (string \<Rightarrow> config \<Rightarrow> config result) \<Rightarrow> string \<Rightarrow> config result" where
  "cfg_Load read yaml path =
     (if path = [] then Inr cfg_Default
      else (case read path of
              Inl e \<Rightarrow> Inl (Wrapf ''reading config file %q: %w'' [AStr path] e)
            | Inr d \<Rightarrow>
                (case yaml d cfg_Default of
                   Inl e \<Rightarrow> Inl (Wrapf ''parsing config file %q: %w'' [AStr path] e)
                 | Inr cfg \<Rightarrow>
                     (case cfg_validate cfg of
                        Some e \<Rightarrow> Inl (Wrapf ''invalid config: %w'' [] e)
                      | None \<Rightarrow> Inr cfg))))"

text \<open>The file that \<open>DefaultConfigPath\<close> names; \<open>dir\<close> is the answer of \<open>os.UserConfigDir\<close>. Nothing calls it.\<close>

definition DefaultConfigPath :: "string result \<Rightarrow> string" where
  "DefaultConfigPath dir = (case dir of Inl _ \<Rightarrow> [] | Inr d \<Rightarrow> path_Join [d, ''rdw'', ''config.yaml''])"

text \<open>What every loaded configuration satisfies; a router made from it keeps its own limits.\<close>

definition cfg_ok :: "config \<Rightarrow> bool" where
  "cfg_ok c \<longleftrightarrow> 1 \<le> sc_Port (cg_Server c) \<and> sc_Port (cg_Server c) \<le> 65535
     \<and> 1 \<le> sc_FilterChainMax (cg_Server c) \<and> sc_FilterChainMax (cg_Server c) \<le> 64
     \<and> 1 \<le> sc_ScrollbackCap (cg_Server c) \<and> 1 \<le> sc_ReconnectQueueLen (cg_Server c)
     \<and> lc_Level (cg_Log c) \<in> {''debug'', ''info'', ''warn'', ''error''} \<and> lc_Format (cg_Log c) \<in> {''json'', ''console''}"

lemma validate_ok: "cfg_validate c = None \<longleftrightarrow> cfg_ok c"
  by (simp add: cfg_validate_def cfg_ok_def Let_def not_less)

lemma Default_ok: "cfg_ok cfg_Default"
  by (simp add: cfg_ok_def cfg_Default_def DefaultPort_def DefaultFilterChainMax_def cfg_DefaultScrollbackCap_def
      DefaultReconnectQueueLen_def)

text \<open>
  Loading a configuration gives exactly the defaults overwritten by the document, and only when every
  bound holds: a configuration is returned if and only if the path is empty (then it is the default one,
  which is within the bounds) or the file is read, decoded and within the bounds.
\<close>

theorem Load_exact:
  "cfg_Load read yaml path = Inr c \<longleftrightarrow>
     (if path = [] then c = cfg_Default
      else \<exists>d. read path = Inr d \<and> yaml d cfg_Default = Inr c \<and> cfg_ok c)"
  by (auto simp: cfg_Load_def simp flip: validate_ok split: sum.splits option.splits)

theorem Load_exact_witness:
  "cfg_Load (\<lambda>p. Inr ''port: 9000'') (\<lambda>d c. Inr (c\<lparr>cg_Server := (cg_Server c)\<lparr>sc_Port := 9000\<rparr>\<rparr>)) ''rdw.yaml''
     = Inr (cfg_Default\<lparr>cg_Server := (cg_Server cfg_Default)\<lparr>sc_Port := 9000\<rparr>\<rparr>)"
  using Load_exact [where read = "\<lambda>p. Inr ''port: 9000''" and path = "''rdw.yaml''"
      and yaml = "\<lambda>d c. Inr (c\<lparr>cg_Server := (cg_Server c)\<lparr>sc_Port := 9000\<rparr>\<rparr>)"
      and c = "cfg_Default\<lparr>cg_Server := (cg_Server cfg_Default)\<lparr>sc_Port := 9000\<rparr>\<rparr>"] Default_ok
  by (simp add: cfg_ok_def)

end
