(* ===== verification/Rdw_Server.thy ===== *)
theory Rdw_Server
  imports Session_Manager Router Cmd_Filter Bookmarks Hub Auth_Store Rate_Limit Highlight_Store Focus_Cycle
    Terminal_Panes Export_Bundle Format_Registry Key_Bindings Kv_Persist Rdw_Config
begin

text \<open>
  \<open>internal/server/server.go\<close>: the server record, \<open>New\<close>, the control handler and the sink it installs in
  its router, and the broadcasts. The server extends the host record of the router: its pipelines and its
  key-value store are shared with the router, as the pointers of the code are. What the operating system,
  the clock, the hash and the libraries answer to one request is the record \<open>env\<close>. A send on a closed
  channel is recorded in \<open>sv_panicked\<close>; no reachable state has it set.
\<close>

record 'p env =
  ev_now :: int
  ev_now_text :: string
  ev_pid :: int
  ev_entropy :: "string result"
  ev_H :: "string \<Rightarrow> string"
  ev_compile :: "string \<Rightarrow> go_err option"
  ev_os :: "'p os_proc"
  ev_term :: "'p term_os"
  ev_fmt :: fmt_lib
  ev_fs :: export_fs
  ev_db_fail :: "go_err option"
  ev_host :: "string \<Rightarrow> string option"
  ev_loopback :: "string \<Rightarrow> bool"

record options =
  op_SessionID :: string
  op_PersistPath :: string
  op_Restore :: bool

text \<open>
  The sink and the control handler are one closure each, over the server itself, so both are named by
  \<open>()\<close>. \<open>sv_cycle\<close> is the running focus cycle (\<open>cycleCancel\<close> is not nil), \<open>sv_next\<close> the next unused
  connection address, \<open>sv_registry\<close> the formatter registry of the process.
\<close>

record 'p server = "('p cmd_filter, unit, unit) host" +
  sv_cfg :: config
  sv_opts :: options
  sv_hub :: hub
  sv_next :: nat
  sv_tokens :: token_store
  sv_rl :: rate_limiter
  sv_kvDB :: "kv_table option"
  sv_highlights :: highlights
  sv_terminals :: "'p terminals"
  sv_cycle :: "cycle option"
  sv_cycleState :: "string list \<times> int"
  sv_manager :: manager
  sv_port :: int
  sv_layouts :: "(string, jval) gomap"
  sv_registry :: registry
  sv_panicked :: bool

definition sv_New :: "config \<Rightarrow> options \<Rightarrow> 'p server" where
  "sv_New cfg opts =
     (let port = sc_Port (cg_Server cfg);
          sessionID = (if op_SessionID opts = [] then show_int port else op_SessionID opts);
          r = rt_New (Some ()) \<lparr>ro_AllowUnassigned = False, ro_FilterChainMax = sc_FilterChainMax (cg_Server cfg),
                ro_DefaultScrollbackCap = sc_ScrollbackCap (cg_Server cfg)\<rparr>
      in \<lparr>h_router = rt_SetControlHandler () r, h_kv = kv_New, sv_cfg = cfg,
          sv_opts = \<lparr>op_SessionID = sessionID, op_PersistPath = [], op_Restore = False\<rparr>,
          sv_hub = NewHub, sv_next = 0, sv_tokens = NewTokenStore, sv_rl = NewRateLimiter, sv_kvDB = None,
          sv_highlights = hl_New, sv_terminals = tm_New, sv_cycle = None, sv_cycleState = ([], 0),
          sv_manager = NewManager, sv_port = port, sv_layouts = [], sv_registry = fmt_registry, sv_panicked = False\<rparr>)"

section \<open>Frames\<close>

definition message :: "target_id \<Rightarrow> string \<Rightarrow> jval" where
  "message t line = JObj [(''target_id'', JStr (tid_String t)), (''line'', JStr line)]"

definition special :: "string \<Rightarrow> jval \<Rightarrow> jval" where
  "special ty payload = JObj [(''type'', JStr ty), (''payload'', payload)]"

definition jstrs :: "(string \<times> string) list \<Rightarrow> jval" where
  "jstrs kvs = JObj (map (\<lambda>(k, v). (k, JStr v)) kvs)"

definition sv_broadcast :: "jval \<Rightarrow> 'p server \<Rightarrow> 'p server" where
  "sv_broadcast data s =
     (case Broadcast data (sv_hub s) of None \<Rightarrow> s\<lparr>sv_panicked := True\<rparr> | Some h \<Rightarrow> s\<lparr>sv_hub := h\<rparr>)"

definition broadcastLayoutUpdate :: "'p server \<Rightarrow> 'p server" where
  "broadcastLayoutUpdate s = sv_broadcast (special ''layout_update'' (mg_Snapshot (sv_manager s))) s"

definition sv_put_pipe :: "target_id \<Rightarrow> ('p cmd_filter, unit, unit) pipeline \<Rightarrow> 'p server \<Rightarrow> 'p server" where
  "sv_put_pipe t p s = s\<lparr>h_router := rt_put_pipe t p (h_router s)\<rparr>"

definition sv_write_pane :: "target_id \<Rightarrow> (pane_state \<Rightarrow> pane_state) \<Rightarrow> 'p server \<Rightarrow> 'p server" where
  "sv_write_pane t f s = s\<lparr>sv_manager := write_pane t f (sv_manager s)\<rparr>"

section \<open>The control handler\<close>

definition ctl_title :: "target_id \<Rightarrow> string \<Rightarrow> 'p server \<Rightarrow> 'p server" where
  "ctl_title t payload s =
     (if payload = [] then s
      else (case FindPane t (sv_manager s) of
              None \<Rightarrow> s
            | Some _ \<Rightarrow> broadcastLayoutUpdate (sv_write_pane t (\<lambda>p. p\<lparr>pn_Label := payload\<rparr>) s)))"

definition ctl_bookmark :: "int \<Rightarrow> target_id \<Rightarrow> string \<Rightarrow> 'p server \<Rightarrow> 'p server" where
  "ctl_bookmark now t payload s =
     (case rt_Bookmarks t (h_router s) of
        None \<Rightarrow> s
      | Some bs \<Rightarrow>
          if payload = [] then s
          else
            let lineIdx = (case rt_Get t (h_router s) of None \<Rightarrow> 0 | Some pl \<Rightarrow> int (sb_Len (pl_scrollback pl)))
            in (case bm_Add now payload lineIdx bs of
                  Inl _ \<Rightarrow> s
                | Inr bs' \<Rightarrow> s\<lparr>h_router := rt_put_bookmarks t bs' (h_router s)\<rparr>))"

definition ctl_highlight :: "target_id \<Rightarrow> string \<Rightarrow> 'p server \<Rightarrow> 'p server" where
  "ctl_highlight t payload s =
     (if payload = [] then s
      else (case hl_Get (sv_highlights s) payload of
              None \<Rightarrow> s
            | Some p \<Rightarrow>
                sv_broadcast (JObj [(''type'', JStr ''highlight_set''), (''target_id'', JStr (tid_String t)),
                  (''profile'', enc_profile p)]) s))"

definition ctl_scrollback :: "target_id \<Rightarrow> string \<Rightarrow> 'p server \<Rightarrow> 'p server" where
  "ctl_scrollback t payload s =
     (if payload = [] then s
      else
        let s1 = (if payload = ''clear'' then
                    (case rt_Get t (h_router s) of
                       None \<Rightarrow> s
                     | Some pl \<Rightarrow> sv_put_pipe t (pl\<lparr>pl_scrollback := sb_Clear (pl_scrollback pl)\<rparr>) s)
                  else s)
        in sv_broadcast (jstrs [(''type'', ''scrollback_ctl''), (''target_id'', tid_String t), (''action'', payload)]) s1)"

definition ctl_scale :: "target_id \<Rightarrow> string \<Rightarrow> 'p server \<Rightarrow> 'p server" where
  "ctl_scale t payload s =
     (if payload = [] then s
      else sv_broadcast (jstrs [(''type'', ''pane_scale''), (''target_id'', tid_String t), (''scale'', payload)]) s)"

definition ctl_image :: "bool \<Rightarrow> target_id \<Rightarrow> string \<Rightarrow> 'p server \<Rightarrow> 'p server" where
  "ctl_image isImage t payload s =
     (case FindPane t (sv_manager s) of
        None \<Rightarrow> s
      | Some (_, pane) \<Rightarrow>
          let savedFmt = pn_Formatter pane;
              targetFmt = (if isImage then ''image'' else ''svg'');
              s1 = sv_write_pane t (\<lambda>p. p\<lparr>pn_Formatter := targetFmt, pn_SavedFormatter := savedFmt\<rparr>) s;
              msgType = (if isImage then ''image_render'' else ''svg_render'');
              s2 = sv_broadcast (jstrs [(''type'', msgType), (''target_id'', tid_String t), (''data'', payload), (''scale'', ''fit'')]) s1;
              s3 = sv_write_pane t (\<lambda>p. p\<lparr>pn_Formatter := savedFmt, pn_SavedFormatter := []\<rparr>) s2
          in sv_broadcast (jstrs [(''type'', ''formatter_set''), (''target_id'', tid_String t), (''formatter'', savedFmt)]) s3)"

definition control_handler :: "int \<Rightarrow> target_id \<Rightarrow> sequence \<Rightarrow> 'p server \<Rightarrow> 'p server" where
  "control_handler now t seq s =
     (let payload = sq_Payload seq in
      case sq_Kind seq of
        KindTitle \<Rightarrow> ctl_title t payload s
      | KindBookmark \<Rightarrow> ctl_bookmark now t payload s
      | KindHighlight \<Rightarrow> ctl_highlight t payload s
      | KindScrollback \<Rightarrow> ctl_scrollback t payload s
      | KindScale \<Rightarrow> ctl_scale t payload s
      | KindImage \<Rightarrow> ctl_image True t payload s
      | KindSVGData \<Rightarrow> ctl_image False t payload s
      | _ \<Rightarrow> s)"

text \<open>What the router's effects do in the server.\<close>

fun sv_exec :: "int \<Rightarrow> (unit, unit) effect \<Rightarrow> 'p server \<Rightarrow> 'p server" where
  "sv_exec now (CallSink _ t line) s = sv_broadcast (message t line) s"
| "sv_exec now (CallHandler _ t seq) s = control_handler now t seq s"

definition sv_Route :: "'p env \<Rightarrow> target_id \<Rightarrow> string \<Rightarrow> 'p server \<Rightarrow> 'p server \<times> go_err option" where
  "sv_Route ev t line s = rt_Route (cf_Filter (ev_os ev)) (ev_now_text ev) (sv_exec (ev_now ev)) t line s"

section \<open>Run and shutdown\<close>

text \<open>Registering the formatters of the configuration; a refused one is reported and skipped.\<close>

definition register_user_formatters :: "fmt_lib \<Rightarrow> user_formatter list \<Rightarrow> registry \<Rightarrow> registry" where
  "register_user_formatters lib ufs reg =
     fold (\<lambda>uf r. case fmt_Register lib (CmdFormatter (NewCmdFormatter (uf_Name uf) (uf_Cmd uf) [])) r of
                    Inl _ \<Rightarrow> r | Inr r' \<Rightarrow> r') ufs reg"

text \<open>The first part of \<open>Run\<close>: \<open>open\<close> is the database file, \<open>rows\<close> what its query returns.\<close>

definition sv_Run_start ::
    "'p env \<Rightarrow> (string \<Rightarrow> kv_table result) \<Rightarrow> (string \<times> string) option list result \<Rightarrow> 'p server \<Rightarrow> 'p server result" where
  "sv_Run_start ev open rows s =
     (let s1 = s\<lparr>sv_registry := register_user_formatters (ev_fmt ev) (cg_UserFormatters (sv_cfg s)) (sv_registry s)\<rparr> in
      if op_PersistPath (sv_opts s1) = [] then Inr s1
      else (case open (op_PersistPath (sv_opts s1)) of
              Inl e \<Rightarrow> Inl (Wrapf ''kv-persist: %w'' [] e)
            | Inr db \<Rightarrow>
                let s2 = s1\<lparr>sv_kvDB := Some db\<rparr> in
                if op_Restore (sv_opts s2) then
                  (case rows of Inl _ \<Rightarrow> Inr s2 | Inr rs \<Rightarrow> Inr (s2\<lparr>h_kv := kv_Load rs (h_kv s2)\<rparr>))
                else Inr s2))"

end
