(* ===== verification/Rdw_Invariant.thy ===== *)
theory Rdw_Invariant
  imports Rdw_Server
begin

text \<open>
  The invariant of the server: every component's own invariant, and that no send has panicked. It holds
  of a new server, and the functions the server installs in its router keep it; so the server is a host
  in the sense of the router's contract, and routing a line keeps it too.
\<close>

named_theorems srv_intros \<open>preservation of the server's invariant\<close>

text \<open>A saved layout is one that, when it can be read back, restores a valid session.\<close>

definition saved_ok :: "jval \<Rightarrow> bool" where
  "saved_ok v \<longleftrightarrow> (\<forall>m m'. mg_inv m \<longrightarrow> RestoreSnapshot (Inr v) m = Inr m' \<longrightarrow> mg_inv m')"

definition hub_fresh :: "nat \<Rightarrow> hub \<Rightarrow> bool" where
  "hub_fresh n h \<longleftrightarrow> (\<forall>c k. hb_heap h c = Some k \<longrightarrow> c < n)"

definition srv_ok :: "(string \<Rightarrow> go_err option) \<Rightarrow> 'p server \<Rightarrow> bool" where
  "srv_ok compile s \<longleftrightarrow> rt_inv (h_router s) \<and> kv_inv (h_kv s) \<and> hub_inv (sv_hub s) \<and> hub_fresh (sv_next s) (sv_hub s)
     \<and> auth_inv (sv_tokens s) \<and> gm_ok (sv_rl s) \<and> (\<forall>db. sv_kvDB s = Some db \<longrightarrow> gm_ok db)
     \<and> hl_inv compile (sv_highlights s) \<and> gm_ok (sv_terminals s) \<and> mg_inv (sv_manager s)
     \<and> gm_ok (sv_layouts s) \<and> list_all (saved_ok \<circ> snd) (sv_layouts s) \<and> fmt_inv (sv_registry s) \<and> \<not> sv_panicked s"

lemma srv_ok_New [simp]: "srv_ok compile (sv_New cfg opts)"
  by (simp add: srv_ok_def sv_New_def Let_def hub_fresh_def rt_inv_SetControlHandler NewRateLimiter_def tm_New_def)
     (simp add: NewHub_def)

section \<open>Parts and updates\<close>

lemma srv_parts:
  assumes "srv_ok compile s"
  shows "rt_inv (h_router s)" and "kv_inv (h_kv s)" and "hub_inv (sv_hub s)" and "hub_fresh (sv_next s) (sv_hub s)"
    and "auth_inv (sv_tokens s)" and "gm_ok (sv_rl s)" and "hl_inv compile (sv_highlights s)" and "gm_ok (sv_terminals s)"
    and "mg_inv (sv_manager s)" and "gm_ok (sv_layouts s)" and "list_all (saved_ok \<circ> snd) (sv_layouts s)"
    and "fmt_inv (sv_registry s)" and "\<not> sv_panicked s" and "sv_kvDB s = Some db \<Longrightarrow> gm_ok db"
  using assms by (simp_all add: srv_ok_def)

lemma srv_upd [srv_intros]:
  assumes "srv_ok compile s"
  shows "rt_inv r \<Longrightarrow> srv_ok compile (s\<lparr>h_router := r\<rparr>)"
    and "kv_inv kv \<Longrightarrow> srv_ok compile (s\<lparr>h_kv := kv\<rparr>)"
    and "auth_inv ts \<Longrightarrow> srv_ok compile (s\<lparr>sv_tokens := ts\<rparr>)"
    and "gm_ok rl \<Longrightarrow> srv_ok compile (s\<lparr>sv_rl := rl\<rparr>)"
    and "gm_ok db \<Longrightarrow> srv_ok compile (s\<lparr>sv_kvDB := Some db\<rparr>)"
    and "hl_inv compile hs \<Longrightarrow> srv_ok compile (s\<lparr>sv_highlights := hs\<rparr>)"
    and "gm_ok tm \<Longrightarrow> srv_ok compile (s\<lparr>sv_terminals := tm\<rparr>)"
    and "mg_inv m \<Longrightarrow> srv_ok compile (s\<lparr>sv_manager := m\<rparr>)"
    and "saved_ok v \<Longrightarrow> srv_ok compile (s\<lparr>sv_layouts := gm_put n v (sv_layouts s)\<rparr>)"
    and "fmt_inv reg \<Longrightarrow> srv_ok compile (s\<lparr>sv_registry := reg\<rparr>)"
    and "srv_ok compile (s\<lparr>sv_cycle := c\<rparr>)"
    and "srv_ok compile (s\<lparr>sv_cycleState := cs\<rparr>)"
  using assms by (simp_all add: srv_ok_def gm_all_put)

lemma hub_fresh_Revoke: "hub_fresh n h \<Longrightarrow> hub_fresh n (hub_RevokeToken i h)"
  by (auto simp: hub_fresh_def Revoke_heap split: if_splits)

lemma srv_Revoke [srv_intros]: "srv_ok compile s \<Longrightarrow> srv_ok compile (s\<lparr>sv_hub := hub_RevokeToken i (sv_hub s)\<rparr>)"
  by (simp add: srv_ok_def hub_inv_Revoke hub_fresh_Revoke)

section \<open>Broadcasts\<close>

lemma hub_fresh_Broadcast: "hub_inv h \<Longrightarrow> hub_fresh n h \<Longrightarrow> Broadcast data h = Some h' \<Longrightarrow> hub_fresh n h'"
  using Broadcast_spec [of h data] by (auto simp: hub_fresh_def split: if_splits)

text \<open>In a server that is well, a broadcast changes the hub and nothing else.\<close>

lemma broadcast_hub:
  assumes "srv_ok compile s"
  obtains h where "sv_broadcast data s = s\<lparr>sv_hub := h\<rparr>" and "Broadcast data (sv_hub s) = Some h"
    and "srv_ok compile (s\<lparr>sv_hub := h\<rparr>)"
proof -
  note p = srv_parts [OF assms]
  from Broadcast_spec [OF p(3), of data] obtain h where h: "Broadcast data (sv_hub s) = Some h" "hub_inv h" by blast
  have "srv_ok compile (s\<lparr>sv_hub := h\<rparr>)"
    using assms h(2) hub_fresh_Broadcast [OF p(3,4) h(1)] by (simp add: srv_ok_def)
  then show thesis using h(1) by (intro that) (simp_all add: sv_broadcast_def)
qed

lemma srv_broadcast [srv_intros]: "srv_ok compile s \<Longrightarrow> srv_ok compile (sv_broadcast data s)"
  by (erule broadcast_hub [where data = data]) simp

lemma broadcast_fields [simp]:
  "h_router (sv_broadcast data s) = h_router s" "h_kv (sv_broadcast data s) = h_kv s"
  "sv_manager (sv_broadcast data s) = sv_manager s" "sv_highlights (sv_broadcast data s) = sv_highlights s"
  "sv_tokens (sv_broadcast data s) = sv_tokens s" "sv_layouts (sv_broadcast data s) = sv_layouts s"
  "sv_cfg (sv_broadcast data s) = sv_cfg s" "sv_opts (sv_broadcast data s) = sv_opts s"
  "sv_kvDB (sv_broadcast data s) = sv_kvDB s" "sv_rl (sv_broadcast data s) = sv_rl s"
  "sv_registry (sv_broadcast data s) = sv_registry s"
  by (simp_all add: sv_broadcast_def split: option.split)

lemma layoutUpdate_fields [simp]:
  "h_router (broadcastLayoutUpdate s) = h_router s" "h_kv (broadcastLayoutUpdate s) = h_kv s"
  "sv_manager (broadcastLayoutUpdate s) = sv_manager s" "sv_tokens (broadcastLayoutUpdate s) = sv_tokens s"
  "sv_layouts (broadcastLayoutUpdate s) = sv_layouts s" "sv_cfg (broadcastLayoutUpdate s) = sv_cfg s"
  "sv_opts (broadcastLayoutUpdate s) = sv_opts s" "sv_kvDB (broadcastLayoutUpdate s) = sv_kvDB s"
  "sv_rl (broadcastLayoutUpdate s) = sv_rl s" "sv_registry (broadcastLayoutUpdate s) = sv_registry s"
  by (simp_all add: broadcastLayoutUpdate_def)

lemma srv_layoutUpdate [srv_intros]: "srv_ok compile s \<Longrightarrow> srv_ok compile (broadcastLayoutUpdate s)"
  by (simp add: broadcastLayoutUpdate_def srv_broadcast)

lemma srv_write_pane [srv_intros]: "srv_ok compile s \<Longrightarrow> srv_ok compile (sv_write_pane t f s)"
  by (simp add: sv_write_pane_def srv_upd mg_inv_write srv_parts)

section \<open>The control handler and the sink\<close>

lemma srv_ctl_title: "srv_ok compile s \<Longrightarrow> srv_ok compile (ctl_title t q s)"
  by (auto simp: ctl_title_def split: option.split intro: srv_intros)

lemma srv_ctl_bookmark: "srv_ok compile s \<Longrightarrow> srv_ok compile (ctl_bookmark now t q s)"
proof -
  assume ok: "srv_ok compile s"
  have "srv_ok compile (s\<lparr>h_router := rt_put_bookmarks t bs' (h_router s)\<rparr>)"
    if "rt_Bookmarks t (h_router s) = Some bs" "bm_Add now q i bs = Inr bs'" for bs bs' i
  proof -
    from srv_parts(1) [OF ok] that(1) have "bm_inv bs" "rt_Get t (h_router s) \<noteq> None"
      using rt_inv_dom [of "h_router s" t] by (auto simp: rt_inv_def)
    with that(2) srv_parts(1) [OF ok] show ?thesis
      by (intro srv_upd(1) [OF ok] rt_inv_put_bookmarks) (auto intro: bm_inv_Add)
  qed
  with ok show ?thesis by (auto simp: ctl_bookmark_def Let_def split: option.split sum.split)
qed

lemma srv_ctl_scrollback: "srv_ok compile s \<Longrightarrow> srv_ok compile (ctl_scrollback t q s)"
proof -
  assume ok: "srv_ok compile s"
  have "srv_ok compile (sv_put_pipe t (pl\<lparr>pl_scrollback := sb_Clear (pl_scrollback pl)\<rparr>) s)"
    if "rt_Get t (h_router s) = Some pl" for pl
  proof -
    have "pipe_ok t pl" using srv_parts(1) [OF ok] that by (simp add: rt_inv_def)
    then have "pipe_ok t (pl\<lparr>pl_scrollback := sb_Clear (pl_scrollback pl)\<rparr>)" by (simp add: pipe_ok_def sb_inv_Clear)
    then show ?thesis
      using srv_parts(1) [OF ok] that unfolding sv_put_pipe_def
      by (intro srv_upd(1) [OF ok] rt_inv_put_pipe) auto
  qed
  with ok show ?thesis by (auto simp: ctl_scrollback_def Let_def split: option.split intro!: srv_broadcast)
qed

lemma srv_ctl_image: "srv_ok compile s \<Longrightarrow> srv_ok compile (ctl_image b t q s)"
  by (auto simp: ctl_image_def Let_def split: option.split intro!: srv_broadcast srv_write_pane)

lemma srv_ctl_rest:
  "srv_ok compile s \<Longrightarrow> srv_ok compile (ctl_highlight t q s)" "srv_ok compile s \<Longrightarrow> srv_ok compile (ctl_scale t q s)"
  by (auto simp: ctl_highlight_def ctl_scale_def split: option.split intro: srv_broadcast)

lemma srv_control_handler: "srv_ok compile s \<Longrightarrow> srv_ok compile (control_handler now t seq s)"
  by (simp add: control_handler_def Let_def srv_ctl_title srv_ctl_bookmark srv_ctl_scrollback srv_ctl_image srv_ctl_rest
      split: kind.split)

lemma srv_exec [srv_intros]: "srv_ok compile s \<Longrightarrow> srv_ok compile (sv_exec now e s)"
  by (cases e) (simp_all add: srv_broadcast srv_control_handler)

text \<open>Only a scrollback control sequence touches a pipeline, and none is ever removed.\<close>

lemma write_pane_fields [simp]: "h_router (sv_write_pane t f s) = h_router s" "h_kv (sv_write_pane t f s) = h_kv s"
  by (simp_all add: sv_write_pane_def)

lemma exec_keeps_pipes: "rt_Get u (h_router (sv_exec now e s)) \<noteq> None \<longleftrightarrow> rt_Get u (h_router s) \<noteq> None"
proof (cases e)
  case (CallHandler h t seq)
  have "rt_Get u (h_router (ctl_bookmark now t q s)) = rt_Get u (h_router s)" for q
    by (auto simp: ctl_bookmark_def Let_def rt_put_bookmarks_def rt_Get_def split: option.split sum.split)
  moreover have "rt_Get u (h_router (ctl_scrollback t q s)) \<noteq> None \<longleftrightarrow> rt_Get u (h_router s) \<noteq> None" for q
    by (auto simp: ctl_scrollback_def Let_def sv_put_pipe_def rt_put_pipe_def rt_Get_def gm_get_put split: option.split)
  moreover have "h_router (ctl_title t q s) = h_router s" "h_router (ctl_highlight t q s) = h_router s"
    "h_router (ctl_scale t q s) = h_router s" "h_router (ctl_image b t q s) = h_router s" for q b
    by (auto simp: ctl_title_def ctl_highlight_def ctl_scale_def ctl_image_def Let_def split: option.split)
  ultimately show ?thesis using CallHandler by (simp add: control_handler_def Let_def split: kind.split)
qed simp

interpretation host: effect_host "sv_exec now" "srv_ok compile"
  for now and compile
proof unfold_locales
  fix st :: "'a server" and e t r kv
  assume ok: "srv_ok compile st"
  show "rt_inv (h_router st) \<and> kv_inv (h_kv st)" using srv_parts [OF ok] by simp
  show "srv_ok compile (sv_exec now e st)" by (rule srv_exec [OF ok])
  show "rt_Get t (h_router (sv_exec now e st)) \<noteq> None" if "rt_Get t (h_router st) \<noteq> None"
    using that exec_keeps_pipes by metis
  show "srv_ok compile (st\<lparr>h_router := r, h_kv := kv\<rparr>)" if "rt_inv r" "kv_inv kv"
    using ok that by (simp add: srv_ok_def)
qed

lemma srv_Route [srv_intros]: "srv_ok compile s \<Longrightarrow> srv_ok compile (fst (sv_Route ev t line s))"
  unfolding sv_Route_def by (rule host.Route_ok)

lemma srv_Route_result: "sv_Route ev t line s = (s', err) \<Longrightarrow> srv_ok compile s \<Longrightarrow> srv_ok compile s'"
  using srv_Route [of compile s ev t line] by simp

section \<open>Layout snapshots\<close>

lemma dec_int_value: "dec_int (JNum n) = Inr x \<Longrightarrow> x = n"
  by (simp split: if_splits)

lemma enc_pane_dec_only: "dec_pane (enc_pane p) = Inr q \<Longrightarrow> q = p"
proof (cases "int64 (pn_ScrollbackCap p)")
  case True
  then show "dec_pane (enc_pane p) = Inr q \<Longrightarrow> q = p" by (simp add: enc_pane_dec)
next
  case False
  then have "dec_int (JNum (pn_ScrollbackCap p)) = Inl json_type_error" by (simp add: int64_def)
  then have "dec_pane (enc_pane p) = Inl json_type_error"
    by (cases p; cases "pn_TargetID p")
       (simp add: dec_pane_def enc_pane_def jfield_Cons jfield_str_omit jfield_bool_omit ascii_lower_def
         del: dec_int.simps append_Nil2 split: if_split)
  then show "dec_pane (enc_pane p) = Inr q \<Longrightarrow> q = p" by simp
qed

lemma mapr_inverse: "(\<And>x y. f (g x) = Inr y \<Longrightarrow> y = x) \<Longrightarrow> mapr f (map g xs) = Inr ys \<Longrightarrow> ys = xs"
  by (induction xs arbitrary: ys) (auto simp: bindr_Inr)

lemma mapr_enc_pane: "mapr dec_pane (map enc_pane ps) = Inr qs \<Longrightarrow> qs = ps"
  by (rule mapr_inverse [OF enc_pane_dec_only])

lemma enc_window_dec_only: "dec_window (enc_window w) = Inr v \<Longrightarrow> v = w"
proof (cases "wn_Panes w = []")
  case True
  then show "dec_window (enc_window w) = Inr v \<Longrightarrow> v = w"
    by (cases w) (simp add: dec_window_def enc_window_def jfield_Cons ascii_lower_def)
next
  case False
  show "v = w" if d: "dec_window (enc_window w) = Inr v"
  proof -
    from d False obtain ps where ps: "mapr dec_pane (map enc_pane (wn_Panes w)) = Inr ps" "v = \<lparr>wn_Name = wn_Name w, wn_Panes = ps\<rparr>"
      by (auto simp: dec_window_def enc_window_def jfield_Cons ascii_lower_def bindr_Inr)
    from mapr_enc_pane [OF ps(1)] ps(2) show "v = w" by simp
  qed
qed

text \<open>A saved snapshot that can be read back is the session it was taken of.\<close>

lemma Restore_saved:
  assumes "RestoreSnapshot (Inr (mg_Snapshot m)) m0 = Inr m'"
  shows "m' = m0\<lparr>mg_windows := mg_windows m, mg_active := (if int (length (mg_windows m)) \<le> mg_active m then 0 else mg_active m)\<rparr>"
proof -
  from assms obtain ws act where ws: "mapr dec_window (map enc_window (mg_windows m)) = Inr ws"
    and act: "dec_int (JNum (mg_active m)) = Inr act"
    and m': "m' = m0\<lparr>mg_windows := ws, mg_active := (if int (length ws) \<le> act then 0 else act)\<rparr>"
    by (auto simp: RestoreSnapshot_def mg_Snapshot_def jfield_Cons ascii_lower_def bindr_Inr simp del: dec_int.simps
        split: sum.splits)
  from mapr_inverse [OF enc_window_dec_only ws] dec_int_value [OF act] m' show ?thesis by simp
qed

lemma saved_ok_Snapshot [srv_intros]: "mg_inv m \<Longrightarrow> saved_ok (mg_Snapshot m)"
  by (auto simp: saved_ok_def mg_inv_def dest!: Restore_saved)

end
