(* ===== verification/Api_Base.thy ===== *)
theory Api_Base
  imports Rdw_Invariant
begin

text \<open>
  Requests, responses and the decoding of request bodies, for the handlers of \<open>routes.go\<close>. A request is
  what the handlers read of it; its body is the JSON value the decoder finds, or the decoder's error. A
  handler takes the environment, the request and the server and returns the server and the response.
  Objects that Go builds as maps are written in the order of the source; their member order carries no
  meaning.
\<close>

record request =
  rq_pattern :: string
  rq_path :: "(string \<times> string) list"
  rq_url_path :: string
  rq_query :: "(string \<times> string) list"
  rq_auth :: string
  rq_remote :: string
  rq_body :: "jval result"
  rq_protos :: "string list"
  rq_upgrade :: bool

datatype response =
    NoContent
  | Created
  | ApiError nat string "go_err option"
  | JsonOk jval
  | JsonCreated jval
  | HttpError nat string
  | Page string
  | NotFound
  | Upgraded nat
  | UpgradeFailed
  | Aborted
  | NoReply

type_synonym 'p handler = "'p env \<Rightarrow> request \<Rightarrow> 'p server \<Rightarrow> 'p server \<times> response"

definition PathValue :: "request \<Rightarrow> string \<Rightarrow> string" where
  "PathValue r name = (case map_of (rq_path r) name of None \<Rightarrow> [] | Some v \<Rightarrow> v)"

definition QueryGet :: "request \<Rightarrow> string \<Rightarrow> string" where
  "QueryGet r name = (case map_of (rq_query r) name of None \<Rightarrow> [] | Some v \<Rightarrow> v)"

text \<open>\<open>json.NewDecoder(r.Body).Decode(&body)\<close> into a structure whose members \<open>d\<close> reads.\<close>

definition decode_body :: "request \<Rightarrow> ((string \<times> jval) list \<Rightarrow> 'b result) \<Rightarrow> 'b result" where
  "decode_body r d = bindr (rq_body r) (\<lambda>v. bindr (dec_obj v) d)"

definition body_str :: "string \<Rightarrow> (string \<times> jval) list \<Rightarrow> string result" where
  "body_str name fs = dec_str (jfield name fs)"

definition body_str2 :: "string \<Rightarrow> string \<Rightarrow> (string \<times> jval) list \<Rightarrow> (string \<times> string) result" where
  "body_str2 a b fs = bindr (dec_str (jfield a fs)) (\<lambda>x. bindr (dec_str (jfield b fs)) (\<lambda>y. Inr (x, y)))"

definition body_int :: "string \<Rightarrow> (string \<times> jval) list \<Rightarrow> int result" where
  "body_int name fs = dec_int (jfield name fs)"

text \<open>64-bit wrap-around of a product, as in \<open>time.Duration(n) * time.Second\<close>.\<close>

definition wrap64 :: "int \<Rightarrow> int" where
  "wrap64 x = (x + 2 ^ 63) mod 2 ^ 64 - 2 ^ 63"

definition Second :: int where "Second = 1000000000"
definition Millisecond :: int where "Millisecond = 1000000"

text \<open>A time as the encoder writes it: the instant, or the zero time.\<close>

definition enc_time :: "int option \<Rightarrow> jval" where
  "enc_time t = (case t of None \<Rightarrow> JStr ''0001-01-01T00:00:00Z'' | Some i \<Rightarrow> JNum i)"

definition enc_strs :: "string list \<Rightarrow> jval" where
  "enc_strs xs = JArr (map JStr xs)"

text \<open>A nil slice is encoded as null.\<close>

definition enc_slice :: "string list \<Rightarrow> jval" where
  "enc_slice xs = (if xs = [] then JNull else enc_strs xs)"

end
