(* ===== verification/Api_Session.thy ===== *)
theory Api_Session
  imports Api_Base
begin

text \<open>
  The handlers of \<open>routes.go\<close> for streams, windows, panes, groups and layouts, and that each of them keeps
  the server's invariant.
\<close>

definition handleSession :: "'p handler" where
  "handleSession ev r s = (s, JsonOk (mg_Snapshot (sv_manager s)))"

definition handleStreamPost :: "'p handler" where
  "handleStreamPost ev r s =
     (case ParseTargetID (PathValue r ''id'') of
        Inl e \<Rightarrow> (s, ApiError 400 ''invalid target ID: '' (Some e))
      | Inr t \<Rightarrow>
          (case decode_body r (body_str ''line'') of
             Inl e \<Rightarrow> (s, ApiError 400 ''invalid JSON: '' (Some e))
           | Inr line \<Rightarrow>
               (case sv_Route ev t line s of
                  (s', Some e) \<Rightarrow> (s', ApiError 404 [] (Some e))
                | (s', None) \<Rightarrow> (s', NoContent))))"

section \<open>Windows\<close>

definition handleWindowList :: "'p handler" where
  "handleWindowList ev r s = (s, JsonOk (JObj [(''windows'', JArr (map enc_window (Windows (sv_manager s))))]))"

definition handleWindowCreate :: "'p handler" where
  "handleWindowCreate ev r s =
     (case decode_body r (body_str ''name'') of
        Inl e \<Rightarrow> (s, ApiError 400 ''invalid JSON'' None)
      | Inr name \<Rightarrow>
          (case CreateWindow name (sv_manager s) of
             Inl e \<Rightarrow> (s, ApiError 409 [] (Some e))
           | Inr m \<Rightarrow> (s\<lparr>sv_manager := m\<rparr>, Created)))"

definition handleWindowClose :: "'p handler" where
  "handleWindowClose ev r s =
     (case CloseWindow (PathValue r ''name'') (sv_manager s) of
        Inl e \<Rightarrow> (s, ApiError 404 [] (Some e))
      | Inr m \<Rightarrow> (s\<lparr>sv_manager := m\<rparr>, NoContent))"

definition handleWindowRename :: "'p handler" where
  "handleWindowRename ev r s =
     (case decode_body r (body_str ''name'') of
        Inl e \<Rightarrow> (s, ApiError 400 ''invalid JSON'' None)
      | Inr name \<Rightarrow>
          (case RenameWindow (PathValue r ''name'') name (sv_manager s) of
             Inl e \<Rightarrow> (s, ApiError 409 [] (Some e))
           | Inr m \<Rightarrow> (s\<lparr>sv_manager := m\<rparr>, NoContent)))"

definition handleWindowFocus :: "'p handler" where
  "handleWindowFocus ev r s =
     (let name = PathValue r ''name'' in
      case FocusWindow name (sv_manager s) of
        Inl e \<Rightarrow> (s, ApiError 404 [] (Some e))
      | Inr m \<Rightarrow> (sv_broadcast (special ''window_focus'' (jstrs [(''name'', name)])) (s\<lparr>sv_manager := m\<rparr>), NoContent))"

section \<open>Panes\<close>

record split_body =
  sp_Direction :: string
  sp_NewID :: string
  sp_Group :: string
  sp_Private :: bool
  sp_Size :: string

definition body_split :: "(string \<times> jval) list \<Rightarrow> split_body result" where
  "body_split fs =
     bindr (dec_str (jfield ''direction'' fs)) (\<lambda>d.
     bindr (dec_str (jfield ''new_id'' fs)) (\<lambda>n.
     bindr (dec_str (jfield ''group'' fs)) (\<lambda>g.
     bindr (dec_bool (jfield ''private'' fs)) (\<lambda>p.
     bindr (dec_str (jfield ''size'' fs)) (\<lambda>z.
       Inr \<lparr>sp_Direction = d, sp_NewID = n, sp_Group = g, sp_Private = p, sp_Size = z\<rparr>)))))"

definition split_pane :: "target_id \<Rightarrow> split_body \<Rightarrow> pane_state" where
  "split_pane t b =
     \<lparr>pn_TargetID = t, pn_Label = [], pn_Group = sp_Group b, pn_Private = sp_Private b, pn_ScrollbackCap = 0,
      pn_Split = sp_Direction b, pn_Size = sp_Size b, pn_Formatter = [], pn_SavedFormatter = []\<rparr>"

text \<open>Adding the pane and registering its pipeline, with the removal that undoes the first.\<close>

definition split_into :: "string \<Rightarrow> pane_state \<Rightarrow> 'p server \<Rightarrow> 'p server \<times> response" where
  "split_into winName pane s =
     (case AddPane winName pane (sv_manager s) of
        Inl e \<Rightarrow> (s, ApiError 409 [] (Some e))
      | Inr m \<Rightarrow>
          (case Register (pn_TargetID pane) 0 (h_router s) of
             Inl e \<Rightarrow>
               (s\<lparr>sv_manager := (case RemovePane (pn_TargetID pane) m of Inl _ \<Rightarrow> m | Inr m' \<Rightarrow> m')\<rparr>,
                ApiError 409 [] (Some e))
           | Inr rt \<Rightarrow> (broadcastLayoutUpdate (s\<lparr>sv_manager := m, h_router := rt\<rparr>), Created)))"

definition handlePaneSplit :: "'p handler" where
  "handlePaneSplit ev r s =
     (case decode_body r body_split of
        Inl e \<Rightarrow> (s, ApiError 400 ''invalid JSON'' None)
      | Inr body \<Rightarrow>
          if sp_Direction body \<noteq> ''h'' \<and> sp_Direction body \<noteq> ''v'' then
            (s, ApiError 400 (''direction must be '' @ [DQUOTE] @ ''h'' @ [DQUOTE] @ '' or '' @ [DQUOTE] @ ''v'' @ [DQUOTE]) None)
          else (case ParseTargetID (sp_NewID body) of
                  Inl e \<Rightarrow> (s, ApiError 400 ''invalid new_id: '' (Some e))
                | Inr newID \<Rightarrow>
                    (case ParseTargetID (PathValue r ''id'') of
                       Inl e \<Rightarrow> (s, ApiError 400 ''invalid parent target ID'' None)
                     | Inr parent \<Rightarrow>
                         (case FindPane parent (sv_manager s) of
                            None \<Rightarrow> (s, ApiError 404 ''parent pane not found'' None)
                          | Some (win, _) \<Rightarrow> split_into (wn_Name win) (split_pane newID body) s))))"

definition handlePaneZoom :: "'p handler" where
  "handlePaneZoom ev r s =
     (let idStr = PathValue r ''id'' in
      case ParseTargetID idStr of
        Inl e \<Rightarrow> (s, ApiError 400 [] (Some e))
      | Inr t \<Rightarrow>
          (case FindPane t (sv_manager s) of
             None \<Rightarrow> (s, ApiError 404 ''pane not found'' None)
           | Some _ \<Rightarrow> (sv_broadcast (special ''pane_zoom'' (jstrs [(''target_id'', idStr)])) s, NoContent)))"

definition handlePaneClose :: "'p handler" where
  "handlePaneClose ev r s =
     (case ParseTargetID (PathValue r ''id'') of
        Inl e \<Rightarrow> (s, ApiError 400 [] (Some e))
      | Inr t \<Rightarrow>
          (case RemovePane t (sv_manager s) of
             Inl e \<Rightarrow> (s, ApiError 404 [] (Some e))
           | Inr m \<Rightarrow> (broadcastLayoutUpdate (s\<lparr>sv_manager := m, h_router := Deregister t (h_router s)\<rparr>), NoContent)))"

definition handlePaneResize :: "'p handler" where
  "handlePaneResize ev r s =
     (case decode_body r (body_str2 ''direction'' ''size'') of
        Inl e \<Rightarrow> (s, ApiError 400 ''invalid JSON'' None)
      | Inr (direction, sz) \<Rightarrow>
          (case ParseResizeArg sz of
             Inl e \<Rightarrow> (s, ApiError 400 ''invalid size: '' (Some e))
           | Inr _ \<Rightarrow>
               (sv_broadcast (special ''pane_resize''
                  (jstrs [(''target_id'', PathValue r ''id''), (''direction'', direction), (''size'', sz)])) s, NoContent)))"

text \<open>
  The swap exchanges the positions' \<open>Split\<close> and \<open>Size\<close> through the two pane pointers, and the pointers
  themselves only when the panes live in windows of different names.
\<close>

definition put_pane :: "nat \<times> nat \<Rightarrow> pane_state \<Rightarrow> window_state list \<Rightarrow> window_state list" where
  "put_pane ki p ws =
     (case ki of (k, i) \<Rightarrow> ws[k := (ws ! k)\<lparr>wn_Panes := (wn_Panes (ws ! k))[i := p]\<rparr>])"

definition swap_panes :: "target_id \<Rightarrow> target_id \<Rightarrow> manager \<Rightarrow> manager" where
  "swap_panes idA idB m =
     (let ws = mg_windows m in
      case (pane_pos idA ws, pane_pos idB ws) of
        (Some (ka, ia), Some (kb, ib)) \<Rightarrow>
          let a = wn_Panes (ws ! ka) ! ia;
              b = wn_Panes (ws ! kb) ! ib;
              a' = a\<lparr>pn_Split := pn_Split b, pn_Size := pn_Size b\<rparr>;
              b' = b\<lparr>pn_Split := pn_Split a, pn_Size := pn_Size a\<rparr>
          in m\<lparr>mg_windows :=
                 (if wn_Name (ws ! ka) \<noteq> wn_Name (ws ! kb) then put_pane (kb, ib) a' (put_pane (ka, ia) b' ws)
                  else put_pane (kb, ib) b' (put_pane (ka, ia) a' ws))\<rparr>
      | _ \<Rightarrow> m)"

definition handlePaneSwap :: "'p handler" where
  "handlePaneSwap ev r s =
     (let aStr = PathValue r ''id'' in
      case decode_body r (body_str ''target'') of
        Inl e \<Rightarrow> (s, ApiError 400 ''invalid JSON: '' (Some e))
      | Inr target \<Rightarrow>
          (case ParseTargetID aStr of
             Inl e \<Rightarrow> (s, ApiError 400 ''invalid pane ID: '' (Some e))
           | Inr idA \<Rightarrow>
               (case ParseTargetID target of
                  Inl e \<Rightarrow> (s, ApiError 400 ''invalid target ID: '' (Some e))
                | Inr idB \<Rightarrow>
                    (case FindPane idA (sv_manager s) of
                       None \<Rightarrow> (s, ApiError 404 (''pane '' @ aStr @ '' not found'') None)
                     | Some _ \<Rightarrow>
                         (case FindPane idB (sv_manager s) of
                            None \<Rightarrow> (s, ApiError 404 (''pane '' @ target @ '' not found'') None)
                          | Some _ \<Rightarrow>
                              (broadcastLayoutUpdate (s\<lparr>sv_manager := swap_panes idA idB (sv_manager s)\<rparr>), NoContent))))))"

definition handlePaneRename :: "'p handler" where
  "handlePaneRename ev r s =
     (let idStr = PathValue r ''id'' in
      case decode_body r (body_str2 ''title'' ''label'') of
        Inl e \<Rightarrow> (s, ApiError 400 ''invalid JSON: '' (Some e))
      | Inr (title0, label) \<Rightarrow>
          let title = (if title0 = [] then label else title0) in
          if title = [] then (s, ApiError 400 ''title is required'' None)
          else (case ParseTargetID idStr of
                  Inl e \<Rightarrow> (s, ApiError 400 ''invalid pane ID: '' (Some e))
                | Inr t \<Rightarrow>
                    (case FindPane t (sv_manager s) of
                       None \<Rightarrow> (s, ApiError 404 (''pane not found: '' @ idStr) None)
                     | Some _ \<Rightarrow> (broadcastLayoutUpdate (sv_write_pane t (\<lambda>p. p\<lparr>pn_Label := title\<rparr>) s), NoContent))))"

section \<open>Groups\<close>

definition group_targets :: "string \<Rightarrow> manager \<Rightarrow> target_id list" where
  "group_targets g m =
     concat (map (\<lambda>w. map pn_TargetID (filter (\<lambda>p. pn_Group p = g) (wn_Panes w))) (Windows m))"

definition kill_pane :: "target_id \<Rightarrow> 'p server \<Rightarrow> 'p server" where
  "kill_pane t s =
     s\<lparr>sv_manager := (case RemovePane t (sv_manager s) of Inl _ \<Rightarrow> sv_manager s | Inr m \<Rightarrow> m),
       h_router := Deregister t (h_router s)\<rparr>"

datatype group_action = GroupHide | GroupShow | GroupFocus | GroupKill

definition handleGroupAction :: "group_action \<Rightarrow> 'p handler" where
  "handleGroupAction action ev r s =
     (let groupName = PathValue r ''name'' in
      if groupName = [] then (s, ApiError 400 ''group name required'' None)
      else
        (case group_targets groupName (sv_manager s) of
           [] \<Rightarrow> (s, ApiError 404 (''no panes found in group '' @ groupName) None)
         | t # ts \<Rightarrow>
             ((case action of
                 GroupKill \<Rightarrow> broadcastLayoutUpdate (fold kill_pane (t # ts) s)
               | GroupHide \<Rightarrow> sv_broadcast (special ''group_hide'' (jstrs [(''group'', groupName)])) s
               | GroupShow \<Rightarrow> sv_broadcast (special ''group_show'' (jstrs [(''group'', groupName)])) s
               | GroupFocus \<Rightarrow> sv_broadcast (special ''pane_focus'' (jstrs [(''target_id'', tid_String t)])) s),
              NoContent)))"

section \<open>Layouts\<close>

definition handleLayoutList :: "'p handler" where
  "handleLayoutList ev r s = (s, JsonOk (JObj [(''layouts'', enc_strs (gm_keys (sv_layouts s)))]))"

definition handleLayoutSave :: "'p handler" where
  "handleLayoutSave ev r s =
     (case decode_body r (body_str ''name'') of
        Inl e \<Rightarrow> (s, ApiError 400 ''name required'' None)
      | Inr name \<Rightarrow>
          if name = [] then (s, ApiError 400 ''name required'' None)
          else (s\<lparr>sv_layouts := gm_put name (mg_Snapshot (sv_manager s)) (sv_layouts s)\<rparr>, Created))"

definition deregister_missing :: "target_id list \<Rightarrow> target_id list \<Rightarrow> ('f, 's, 'h) router \<Rightarrow> ('f, 's, 'h) router" where
  "deregister_missing before after rt = fold (\<lambda>t r. if t \<in> set after then r else Deregister t r) before rt"

definition register_new :: "int \<Rightarrow> target_id list \<Rightarrow> ('f, 's, 'h) router \<Rightarrow> ('f, 's, 'h) router" where
  "register_new c after rt =
     fold (\<lambda>t r. case rt_Get t r of
             Some _ \<Rightarrow> r | None \<Rightarrow> (case Register t c r of Inl _ \<Rightarrow> r | Inr r' \<Rightarrow> r')) after rt"

definition handleLayoutApply :: "'p handler" where
  "handleLayoutApply ev r s =
     (let name = PathValue r ''name'' in
      case gm_get (sv_layouts s) name of
        None \<Rightarrow> (s, ApiError 404 (''layout not found: '' @ name) None)
      | Some snap \<Rightarrow>
          let before = AllPaneIDs (sv_manager s) in
          (case RestoreSnapshot (Inr snap) (sv_manager s) of
             Inl e \<Rightarrow> (s, ApiError 500 [] (Some e))
           | Inr m \<Rightarrow>
               let after = remdups (AllPaneIDs m);
                   rt = register_new (sc_ScrollbackCap (cg_Server (sv_cfg s))) after
                          (deregister_missing before after (h_router s))
               in (broadcastLayoutUpdate (s\<lparr>sv_manager := m, h_router := rt\<rparr>), NoContent)))"

section \<open>The invariant\<close>

lemma put_pane_shape:
  "k < length ws \<Longrightarrow> map wn_Name (put_pane (k, i) p ws) = map wn_Name ws
     \<and> map (length \<circ> wn_Panes) (put_pane (k, i) p ws) = map (length \<circ> wn_Panes) ws"
  by (simp add: put_pane_def map_upd_same)

lemma mg_inv_shape:
  assumes "mg_inv m" and "map wn_Name ws = map wn_Name (mg_windows m)"
    and "map (length \<circ> wn_Panes) ws = map (length \<circ> wn_Panes) (mg_windows m)"
  shows "mg_inv (m\<lparr>mg_windows := ws\<rparr>)"
proof -
  have len: "length ws = length (mg_windows m)" using assms(2) by (metis length_map)
  have "list_all (\<lambda>n. n \<le> 64) (map (length \<circ> wn_Panes) (mg_windows m))"
    using assms(1) by (simp add: mg_inv_def list_all_iff)
  then have "list_all (\<lambda>w. length (wn_Panes w) \<le> 64) ws"
    using assms(3) by (metis (mono_tags, lifting) list.pred_map list_all_iff comp_apply)
  with assms(1,2) len show ?thesis by (auto simp: mg_inv_def)
qed

lemma mg_inv_swap: "mg_inv m \<Longrightarrow> mg_inv (swap_panes a b m)"
proof -
  assume inv: "mg_inv m"
  show ?thesis
  proof (cases "pane_pos a (mg_windows m) = None \<or> pane_pos b (mg_windows m) = None")
    case True
    with inv show ?thesis by (auto simp: swap_panes_def Let_def split: option.split)
  next
    case False
    then obtain ka ia kb ib where pos: "pane_pos a (mg_windows m) = Some (ka, ia)" "pane_pos b (mg_windows m) = Some (kb, ib)"
      by auto
    have shape: "mg_inv (m\<lparr>mg_windows := put_pane (kb, ib) y (put_pane (ka, ia) x (mg_windows m))\<rparr>)" for x y
    proof -
      have "ka < length (mg_windows m)" "kb < length (put_pane (ka, ia) x (mg_windows m))"
        using pane_pos_bound [OF pos(1)] pane_pos_bound [OF pos(2)] by (simp_all add: put_pane_def)
      with put_pane_shape [of kb "put_pane (ka, ia) x (mg_windows m)" ib y] put_pane_shape [of ka "mg_windows m" ia x]
      show ?thesis by (intro mg_inv_shape [OF inv]) simp_all
    qed
    show ?thesis using shape by (simp add: swap_panes_def pos Let_def)
  qed
qed

lemma rt_inv_missing: "rt_inv rt \<Longrightarrow> rt_inv (deregister_missing bs as rt)"
  unfolding deregister_missing_def by (induction bs arbitrary: rt) (simp_all add: rt_inv_Deregister)

lemma rt_inv_register_new: "rt_inv rt \<Longrightarrow> rt_inv (register_new c as rt)"
  unfolding register_new_def
  by (induction as arbitrary: rt) (auto split: option.split sum.split intro: rt_inv_Register)

lemma srv_kill: "srv_ok compile s \<Longrightarrow> srv_ok compile (kill_pane t s)"
proof -
  assume ok: "srv_ok compile s"
  have "mg_inv (case RemovePane t (sv_manager s) of Inl _ \<Rightarrow> sv_manager s | Inr m \<Rightarrow> m)"
    using srv_parts(9) [OF ok] by (auto split: sum.split intro: mg_inv_RemovePane)
  then show ?thesis
    using ok rt_inv_Deregister [OF srv_parts(1) [OF ok]] by (simp add: kill_pane_def srv_ok_def)
qed

lemma srv_kills: "srv_ok compile s \<Longrightarrow> srv_ok compile (fold kill_pane ts s)"
  by (induction ts arbitrary: s) (simp_all add: srv_kill)

lemma srv_mg_rt:
  "srv_ok compile s \<Longrightarrow> mg_inv m \<Longrightarrow> rt_inv rt \<Longrightarrow> srv_ok compile (s\<lparr>sv_manager := m, h_router := rt\<rparr>)"
  by (simp add: srv_ok_def)

lemma ok_split_into:
  assumes ok: "srv_ok compile s"
  shows "srv_ok compile (fst (split_into n p s))"
proof (cases "AddPane n p (sv_manager s)")
  case (Inr m)
  have m: "mg_inv m" using srv_parts(9) [OF ok] Inr by (rule mg_inv_AddPane)
  have "mg_inv (case RemovePane (pn_TargetID p) m of Inl _ \<Rightarrow> m | Inr m' \<Rightarrow> m')"
    using m by (auto split: sum.split intro: mg_inv_RemovePane)
  then show ?thesis
    using Inr m ok rt_inv_Register [OF srv_parts(1) [OF ok]]
    by (auto simp: split_into_def split: sum.split intro!: srv_layoutUpdate srv_mg_rt srv_upd(8) [OF ok])
qed (simp add: split_into_def ok)

lemma ok_windows:
  assumes ok: "srv_ok compile s"
  shows "srv_ok compile (fst (handleWindowCreate ev r s))" and "srv_ok compile (fst (handleWindowClose ev r s))"
    and "srv_ok compile (fst (handleWindowRename ev r s))" and "srv_ok compile (fst (handleWindowFocus ev r s))"
  using ok srv_parts(9) [OF ok]
  by (auto simp: handleWindowCreate_def handleWindowClose_def handleWindowRename_def handleWindowFocus_def Let_def
      split: sum.split intro!: srv_broadcast srv_upd(8) [OF ok]
      intro: mg_inv_Create mg_inv_Close mg_inv_Rename mg_inv_Focus)

lemma ok_panes:
  assumes ok: "srv_ok compile s"
  shows "srv_ok compile (fst (handlePaneSplit ev r s))" and "srv_ok compile (fst (handlePaneZoom ev r s))"
    and "srv_ok compile (fst (handlePaneClose ev r s))" and "srv_ok compile (fst (handlePaneResize ev r s))"
    and "srv_ok compile (fst (handlePaneSwap ev r s))" and "srv_ok compile (fst (handlePaneRename ev r s))"
  using ok srv_parts(1,9) [OF ok]
  by (auto simp: handlePaneSplit_def handlePaneZoom_def handlePaneClose_def handlePaneResize_def handlePaneSwap_def
      handlePaneRename_def Let_def ok_split_into
      split: sum.split option.split intro!: srv_broadcast srv_layoutUpdate srv_mg_rt srv_write_pane srv_upd(8) [OF ok]
      intro: mg_inv_RemovePane rt_inv_Deregister mg_inv_swap)

lemma ok_groups: "srv_ok compile s \<Longrightarrow> srv_ok compile (fst (handleGroupAction a ev r s))"
  by (auto simp: handleGroupAction_def Let_def srv_broadcast srv_layoutUpdate srv_kill srv_kills
      split: list.split group_action.split)

lemma ok_layouts:
  assumes ok: "srv_ok compile s"
  shows "srv_ok compile (fst (handleLayoutSave ev r s))" and "srv_ok compile (fst (handleLayoutApply ev r s))"
proof -
  show "srv_ok compile (fst (handleLayoutSave ev r s))"
    using ok saved_ok_Snapshot [OF srv_parts(9) [OF ok]]
    by (auto simp: handleLayoutSave_def split: sum.split intro!: srv_upd(9) [OF ok])
  have "mg_inv m" if "gm_get (sv_layouts s) n = Some v" "RestoreSnapshot (Inr v) (sv_manager s) = Inr m" for n v m
    using srv_parts(9,11) [OF ok] that(2) gm_get_Some_in [OF that(1)] by (auto simp: list_all_iff saved_ok_def)
  then show "srv_ok compile (fst (handleLayoutApply ev r s))"
    using ok srv_parts(1) [OF ok]
    by (auto simp: handleLayoutApply_def Let_def split: option.split sum.split
        intro!: srv_layoutUpdate srv_mg_rt rt_inv_register_new rt_inv_missing)
qed

lemma ok_stream: "srv_ok compile s \<Longrightarrow> srv_ok compile (fst (handleStreamPost ev r s))"
  by (auto simp: handleStreamPost_def split: sum.split prod.split option.split dest: srv_Route_result)

lemma ok_reads:
  "fst (handleSession ev r s) = s" "fst (handleWindowList ev r s) = s" "fst (handleLayoutList ev r s) = s"
  by (simp_all add: handleSession_def handleWindowList_def handleLayoutList_def)

end
