(* ===== verification/Api_Stores.thy ===== *)
theory Api_Stores
  imports Api_Base
begin

text \<open>
  The handlers of \<open>routes.go\<close> for the stores of the server: keys and values, tokens, bookmarks, highlight
  profiles, formatters, key bindings and pipeline filters, and that each of them keeps the invariant.
\<close>

section \<open>Keys and values\<close>

definition handleKVList :: "'p handler" where
  "handleKVList ev r s =
     (s, JsonOk (JObj [(''keys'', enc_strs (map key_String (kv_Keys (QueryGet r ''prefix'') (h_kv s))))]))"

definition handleKVGet :: "'p handler" where
  "handleKVGet ev r s =
     (let keyStr = PathValue r ''key'' in
      case ParseKey keyStr of
        Inl e \<Rightarrow> (s, ApiError 400 ''invalid key: '' (Some e))
      | Inr k \<Rightarrow>
          (case kv_Get (h_kv s) k of
             None \<Rightarrow> (s, ApiError 404 ''key not found'' None)
           | Some v \<Rightarrow> (s, JsonOk (jstrs [(''key'', keyStr), (''value'', v)]))))"

definition handleKVSet :: "'p handler" where
  "handleKVSet ev r s =
     (case ParseKey (PathValue r ''key'') of
        Inl e \<Rightarrow> (s, ApiError 400 ''invalid key: '' (Some e))
      | Inr k \<Rightarrow>
          (case decode_body r (body_str ''value'') of
             Inl e \<Rightarrow> (s, ApiError 400 ''invalid JSON'' None)
           | Inr v \<Rightarrow>
               (case kv_Set k v (h_kv s) of
                  Inl e \<Rightarrow> (s, ApiError 413 [] (Some e))
                | Inr kv \<Rightarrow>
                    let s1 = s\<lparr>h_kv := kv\<rparr> in
                    (case sv_kvDB s1 of
                       None \<Rightarrow> (s1, NoContent)
                     | Some db \<Rightarrow> (s1\<lparr>sv_kvDB := Some (fst (db_Persist (ev_db_fail ev) k v db))\<rparr>, NoContent)))))"

definition handleKVDelete :: "'p handler" where
  "handleKVDelete ev r s =
     (case ParseKey (PathValue r ''key'') of
        Inl e \<Rightarrow> (s, ApiError 400 ''invalid key: '' (Some e))
      | Inr k \<Rightarrow>
          let s1 = s\<lparr>h_kv := kv_Delete k (h_kv s)\<rparr> in
          (case sv_kvDB s1 of
             None \<Rightarrow> (s1, NoContent)
           | Some db \<Rightarrow> (s1\<lparr>sv_kvDB := Some (fst (db_Remove (ev_db_fail ev) k db))\<rparr>, NoContent)))"

section \<open>Tokens\<close>

definition token_view :: "token \<Rightarrow> jval" where
  "token_view t =
     JObj ([(''id'', JStr (tk_ID t)), (''created_at'', enc_time (Some (tk_CreatedAt t))),
            (''expires_at'', enc_time (tk_ExpiresAt t))]
       @ (if tk_Panes t = [] then [] else [(''panes'', enc_strs (tk_Panes t))])
       @ (if tk_Windows t = [] then [] else [(''windows'', enc_strs (tk_Windows t))]))"

definition handleTokenList :: "'p handler" where
  "handleTokenList ev r s =
     (s, JsonOk (JObj [(''tokens'', JArr (map token_view (auth_List (ev_now ev) (sv_tokens s))))]))"

definition body_token :: "(string \<times> jval) list \<Rightarrow> (int \<times> string list \<times> string list) result" where
  "body_token fs =
     bindr (dec_int (jfield ''expiry_seconds'' fs)) (\<lambda>e.
     bindr (dec_list dec_str (jfield ''panes'' fs)) (\<lambda>ps.
     bindr (dec_list dec_str (jfield ''windows'' fs)) (\<lambda>ws. Inr (e, ps, ws))))"

definition token_expiry :: "int \<Rightarrow> int \<Rightarrow> int" where
  "token_expiry dflt secs = (if secs = 0 then dflt else wrap64 (secs * Second))"

definition token_reply :: "string \<Rightarrow> token \<Rightarrow> jval" where
  "token_reply plain tok =
     JObj [(''token'', JStr plain), (''id'', JStr (tk_ID tok)), (''expires_at'', enc_time (tk_ExpiresAt tok))]"

definition handleTokenCreate :: "'p handler" where
  "handleTokenCreate ev r s =
     (case decode_body r body_token of
        Inl e \<Rightarrow> (s, ApiError 400 ''invalid JSON'' None)
      | Inr (secs, panes, windows) \<Rightarrow>
          (case auth_Create (ev_H ev) (ev_entropy ev) (ev_now ev)
                  \<lparr>co_Expiry = token_expiry (24 * 3600 * Second) secs, co_Panes = panes, co_Windows = windows\<rparr> (sv_tokens s) of
             Inl e \<Rightarrow> (s, ApiError 500 [] (Some e))
           | Inr (plain, tok, ts) \<Rightarrow> (s\<lparr>sv_tokens := ts\<rparr>, JsonCreated (token_reply plain tok))))"

definition revoke_token :: "string \<Rightarrow> 'p server \<Rightarrow> 'p server \<times> bool" where
  "revoke_token i s =
     (case auth_Revoke i (sv_tokens s) of
        (ts, found) \<Rightarrow> (s\<lparr>sv_hub := hub_RevokeToken i (sv_hub s), sv_tokens := ts\<rparr>, found))"

definition handleTokenRevoke :: "'p handler" where
  "handleTokenRevoke ev r s =
     (case revoke_token (PathValue r ''id'') s of
        (s', found) \<Rightarrow> if \<not> found then (s', ApiError 404 ''token not found'' None) else (s', NoContent))"

section \<open>Bookmarks\<close>

definition enc_bookmark :: "bookmark \<Rightarrow> jval" where
  "enc_bookmark b =
     JObj [(''name'', JStr (bm_Name b)), (''line_index'', JNum (bm_LineIndex b)),
           (''created_at'', enc_time (Some (bm_CreatedAt b)))]"

definition handleBookmarkList :: "'p handler" where
  "handleBookmarkList ev r s =
     (case ParseTargetID (PathValue r ''id'') of
        Inl e \<Rightarrow> (s, ApiError 400 [] (Some e))
      | Inr t \<Rightarrow>
          (case rt_Bookmarks t (h_router s) of
             None \<Rightarrow> (s, ApiError 404 (''pane not found: '' @ PathValue r ''id'') None)
           | Some bs \<Rightarrow> (s, JsonOk (JObj [(''bookmarks'', JArr (map enc_bookmark (bm_All bs)))]))))"

definition handleBookmarkAdd :: "'p handler" where
  "handleBookmarkAdd ev r s =
     (case ParseTargetID (PathValue r ''id'') of
        Inl e \<Rightarrow> (s, ApiError 400 [] (Some e))
      | Inr t \<Rightarrow>
          (case decode_body r (body_int ''line_index'') of
             Inl e \<Rightarrow> (s, ApiError 400 ''invalid JSON: '' (Some e))
           | Inr lineIndex \<Rightarrow>
               (case rt_Bookmarks t (h_router s) of
                  None \<Rightarrow> (s, ApiError 404 (''pane not found: '' @ PathValue r ''id'') None)
                | Some bs \<Rightarrow>
                    (case bm_Add (ev_now ev) (PathValue r ''name'') lineIndex bs of
                       Inl e \<Rightarrow> (s, ApiError 400 [] (Some e))
                     | Inr bs' \<Rightarrow> (s\<lparr>h_router := rt_put_bookmarks t bs' (h_router s)\<rparr>, NoContent)))))"

definition handleBookmarkDelete :: "'p handler" where
  "handleBookmarkDelete ev r s =
     (case ParseTargetID (PathValue r ''id'') of
        Inl e \<Rightarrow> (s, ApiError 400 [] (Some e))
      | Inr t \<Rightarrow>
          (case rt_Bookmarks t (h_router s) of
             None \<Rightarrow> (s, ApiError 404 (''pane not found: '' @ PathValue r ''id'') None)
           | Some bs \<Rightarrow>
               (case bm_Remove (PathValue r ''name'') bs of
                  Inl e \<Rightarrow> (s, ApiError 404 [] (Some e))
                | Inr bs' \<Rightarrow> (s\<lparr>h_router := rt_put_bookmarks t bs' (h_router s)\<rparr>, NoContent))))"

section \<open>Highlight profiles\<close>

definition handleHighlightList :: "'p handler" where
  "handleHighlightList ev r s = (s, JsonOk (JObj [(''profiles'', JArr (map enc_profile (hl_All (sv_highlights s))))]))"

definition handleHighlightAdd :: "'p handler" where
  "handleHighlightAdd ev r s =
     (case decode_body r (\<lambda>fs. dec_list dec_rule (jfield ''rules'' fs)) of
        Inl e \<Rightarrow> (s, ApiError 400 ''invalid JSON: '' (Some e))
      | Inr rules \<Rightarrow>
          (case hl_Add (ev_compile ev) \<lparr>hp_Name = PathValue r ''name'', hp_Rules = rules\<rparr> (sv_highlights s) of
             Inl e \<Rightarrow> (s, ApiError 400 [] (Some e))
           | Inr hs \<Rightarrow> (s\<lparr>sv_highlights := hs\<rparr>, NoContent)))"

definition handleHighlightDelete :: "'p handler" where
  "handleHighlightDelete ev r s =
     (case hl_Remove (PathValue r ''name'') (sv_highlights s) of
        Inl e \<Rightarrow> (s, ApiError 404 [] (Some e))
      | Inr hs \<Rightarrow> (s\<lparr>sv_highlights := hs\<rparr>, NoContent))"

section \<open>Formatters and filters\<close>

definition handleFormatters :: "'p handler" where
  "handleFormatters ev r s = (s, JsonOk (JObj [(''formatters'', enc_strs (fmt_Names (sv_registry s)))]))"

definition handlePaneFormat :: "'p handler" where
  "handlePaneFormat ev r s =
     (let idStr = PathValue r ''id'' in
      case decode_body r (body_str ''formatter'') of
        Inl e \<Rightarrow> (s, ApiError 400 ''invalid JSON: '' (Some e))
      | Inr name \<Rightarrow>
          (case ParseTargetID idStr of
             Inl e \<Rightarrow> (s, ApiError 400 ''invalid pane ID: '' (Some e))
           | Inr t \<Rightarrow>
               (case rt_Get t (h_router s) of
                  None \<Rightarrow> (s, ApiError 404 (''pane pipeline not found: '' @ idStr) None)
                | Some pl \<Rightarrow>
                    (case fmt_Get (ev_fmt ev) name (sv_registry s) of
                       Inl e \<Rightarrow> (s, ApiError 400 [] (Some e))
                     | Inr f \<Rightarrow>
                         (case fmt_Format (ev_fmt ev) f (sb_Lines (pl_scrollback pl)) of
                            Html html \<Rightarrow> (s, JsonOk (jstrs [(''html'', html)]))
                          | FormatError e \<Rightarrow> (s, ApiError 500 [] (Some e))
                          | FormatPanics \<Rightarrow> (s, Aborted)
                          | FormatHangs \<Rightarrow> (s, NoReply))))))"

definition handleFormatterRegister :: "'p handler" where
  "handleFormatterRegister ev r s =
     (case decode_body r (body_str2 ''name'' ''cmd'') of
        Inl e \<Rightarrow> (s, ApiError 400 ''invalid JSON: '' (Some e))
      | Inr (name, cmd) \<Rightarrow>
          if name = [] \<or> cmd = [] then (s, ApiError 400 ''name and cmd are required'' None)
          else
            let snap = map (\<lambda>(k, v). (key_String k, v)) (kv_Snapshot (h_kv s)) in
            (case fmt_Register (ev_fmt ev) (CmdFormatter (NewCmdFormatter name cmd snap)) (sv_registry s) of
               Inl e \<Rightarrow> (s, ApiError 409 [] (Some e))
             | Inr reg \<Rightarrow> (s\<lparr>sv_registry := reg\<rparr>, NoContent)))"

definition handleFormatterUnregister :: "'p handler" where
  "handleFormatterUnregister ev r s =
     (case fmt_Unregister (ev_fmt ev) (PathValue r ''name'') (sv_registry s) of
        Inl e \<Rightarrow> (s, ApiError 404 [] (Some e))
      | Inr reg \<Rightarrow> (s\<lparr>sv_registry := reg\<rparr>, NoContent))"

definition handlePaneFilterAdd :: "'p handler" where
  "handlePaneFilterAdd ev r s =
     (let idStr = PathValue r ''id'' in
      case decode_body r (body_str ''cmd'') of
        Inl e \<Rightarrow> (s, ApiError 400 ''invalid JSON: '' (Some e))
      | Inr cmd \<Rightarrow>
          if cmd = [] then (s, ApiError 400 ''cmd is required'' None)
          else (case ParseTargetID idStr of
                  Inl e \<Rightarrow> (s, ApiError 400 ''invalid pane ID: '' (Some e))
                | Inr t \<Rightarrow>
                    (case rt_Get t (h_router s) of
                       None \<Rightarrow> (s, ApiError 404 (''pane not found: '' @ idStr) None)
                     | Some pl \<Rightarrow>
                         (case NewCmdFilterWithKV (ev_os ev) cmd (h_kv s) of
                            Inl e \<Rightarrow> (s, ApiError 500 [] (Some e))
                          | Inr cf \<Rightarrow>
                              (case AddFilter cf pl of
                                 Inl e \<Rightarrow> (s, ApiError 409 [] (Some e))
                               | Inr pl' \<Rightarrow> (sv_put_pipe t pl' s, NoContent))))))"

definition handleBindings :: "'p handler" where
  "handleBindings ev r s =
     (let b = (case cg_Bindings (sv_cfg s) of
                 None \<Rightarrow> bd_Default
               | Some over \<Rightarrow> bd_Merge bd_Default (map (\<lambda>(a, ks). (a, \<lparr>bd_Keys = ks\<rparr>)) over))
      in (s, JsonOk (JObj (map (\<lambda>(a, ks). (a, enc_slice ks)) (bd_JSON b)))))"

section \<open>The invariant\<close>

lemma ok_kv:
  assumes ok: "srv_ok compile s"
  shows "srv_ok compile (fst (handleKVSet ev r s))" and "srv_ok compile (fst (handleKVDelete ev r s))"
proof -
  have db: "srv_ok compile (s\<lparr>h_kv := kv, sv_kvDB := Some (fst (db_Persist f k v db))\<rparr>)"
      "srv_ok compile (s\<lparr>h_kv := kv, sv_kvDB := Some (fst (db_Remove f k db))\<rparr>)"
    if "kv_inv kv" "sv_kvDB s = Some db" for kv f k v db
    using ok that by (auto simp: srv_ok_def db_Persist_def db_Remove_def split: option.split)
  show "srv_ok compile (fst (handleKVSet ev r s))"
    using ok srv_parts(2) [OF ok]
    by (auto simp: handleKVSet_def Let_def split: sum.split option.split intro!: db srv_upd(2) [OF ok] intro: kv_inv_Set)
  show "srv_ok compile (fst (handleKVDelete ev r s))"
    using ok srv_parts(2) [OF ok]
    by (auto simp: handleKVDelete_def Let_def split: sum.split option.split intro!: db srv_upd(2) [OF ok] kv_inv_Delete)
qed

lemma ok_revoke: "srv_ok compile s \<Longrightarrow> srv_ok compile (fst (revoke_token i s))"
  using auth_inv_Revoke [of "sv_tokens s" i]
  by (cases "auth_Revoke i (sv_tokens s)") (simp add: revoke_token_def srv_ok_def hub_inv_Revoke hub_fresh_Revoke)

lemma ok_tokens:
  assumes ok: "srv_ok compile s"
  shows "srv_ok compile (fst (handleTokenCreate ev r s))" and "srv_ok compile (fst (handleTokenRevoke ev r s))"
  using ok srv_parts(5) [OF ok] ok_revoke [OF ok, of "PathValue r ''id''"]
  by (auto simp: handleTokenCreate_def handleTokenRevoke_def split: sum.split prod.split
      intro!: srv_upd(3) [OF ok] intro: auth_inv_Create)

lemma bookmarks_known:
  assumes "srv_ok compile s" and "rt_Bookmarks t (h_router s) = Some bs"
  shows "bm_inv bs" and "rt_Get t (h_router s) \<noteq> None"
  using srv_parts(1) [OF assms(1)] assms(2) rt_inv_dom [of "h_router s" t] by (auto simp: rt_inv_def)

lemma srv_put_bookmarks:
  "srv_ok compile s \<Longrightarrow> rt_Bookmarks t (h_router s) = Some bs \<Longrightarrow> bm_inv bs' \<Longrightarrow>
     srv_ok compile (s\<lparr>h_router := rt_put_bookmarks t bs' (h_router s)\<rparr>)"
  by (intro srv_upd(1) rt_inv_put_bookmarks) (auto dest: bookmarks_known(2) simp: srv_parts)

lemma ok_bookmarks:
  assumes ok: "srv_ok compile s"
  shows "srv_ok compile (fst (handleBookmarkAdd ev r s))" and "srv_ok compile (fst (handleBookmarkDelete ev r s))"
  using ok bookmarks_known(1) [OF ok]
  by (auto simp: handleBookmarkAdd_def handleBookmarkDelete_def split: sum.split option.split
      intro!: srv_put_bookmarks [OF ok] intro: bm_inv_Add bm_inv_Remove)

lemma ok_highlights:
  assumes ok: "srv_ok (ev_compile ev) s"
  shows "srv_ok (ev_compile ev) (fst (handleHighlightAdd ev r s))" and "srv_ok (ev_compile ev) (fst (handleHighlightDelete ev r s))"
  using ok srv_parts(7) [OF ok]
  by (auto simp: handleHighlightAdd_def handleHighlightDelete_def split: sum.split
      intro!: srv_upd(6) [OF ok] intro: hl_inv_Add hl_inv_Remove)

lemma ok_formatters:
  assumes ok: "srv_ok compile s"
  shows "srv_ok compile (fst (handleFormatterRegister ev r s))" and "srv_ok compile (fst (handleFormatterUnregister ev r s))"
    and "fst (handlePaneFormat ev r s) = s"
  using ok srv_parts(12) [OF ok]
  by (auto simp: handleFormatterRegister_def handleFormatterUnregister_def handlePaneFormat_def Let_def
      split: sum.split option.split outcome.split intro!: srv_upd(10) [OF ok] intro: fmt_inv_Register fmt_inv_Unregister)

lemma pipe_ok_AddFilter: "pipe_ok t p \<Longrightarrow> AddFilter f p = Inr p' \<Longrightarrow> pipe_ok t p'"
  by (auto simp: pipe_ok_def AddFilter_def split: if_splits)

lemma ok_filter:
  assumes ok: "srv_ok compile s"
  shows "srv_ok compile (fst (handlePaneFilterAdd ev r s))"
proof -
  have "srv_ok compile (sv_put_pipe t p' s)" if "rt_Get t (h_router s) = Some p" "AddFilter f p = Inr p'" for t p p' f
  proof -
    have "pipe_ok t p" using srv_parts(1) [OF ok] that(1) by (simp add: rt_inv_def)
    with that srv_parts(1) [OF ok] show ?thesis
      unfolding sv_put_pipe_def by (intro srv_upd(1) [OF ok] rt_inv_put_pipe) (auto intro: pipe_ok_AddFilter)
  qed
  with ok show ?thesis
    by (auto simp: handlePaneFilterAdd_def Let_def split: sum.split option.split)
qed

lemma ok_store_reads:
  "fst (handleKVList ev r s) = s" "fst (handleKVGet ev r s) = s" "fst (handleTokenList ev r s) = s"
  "fst (handleBookmarkList ev r s) = s" "fst (handleHighlightList ev r s) = s" "fst (handleFormatters ev r s) = s"
  "fst (handleBindings ev r s) = s"
  by (simp_all add: handleKVList_def handleKVGet_def handleTokenList_def handleBookmarkList_def handleHighlightList_def
      handleFormatters_def handleBindings_def Let_def split: sum.split option.split)

end
