(* ===== verification/Api_Status.thy ===== *)
theory Api_Status
  imports Api_Base
begin

text \<open>
  The remaining handlers of \<open>routes.go\<close>: exports (with \<open>export_helpers.go\<close>), terminals, the focus cycle,
  the status pages and the commands of the Unix socket, and that each of them keeps the invariant.
\<close>

section \<open>Exports\<close>

definition scrollbackFor :: "target_id \<Rightarrow> 'p server \<Rightarrow> string list" where
  "scrollbackFor t s = (case rt_Get t (h_router s) of None \<Rightarrow> [] | Some pl \<Rightarrow> sb_Lines (pl_scrollback pl))"

definition export_of :: "'p server \<Rightarrow> pane_state \<Rightarrow> pane_export" where
  "export_of s p = \<lparr>pe_TargetID = tid_String (pn_TargetID p), pe_Lines = scrollbackFor (pn_TargetID p) s\<rparr>"

definition exportPane :: "'p env \<Rightarrow> target_id \<Rightarrow> string \<Rightarrow> 'p server \<Rightarrow> (path \<times> string) list \<times> go_err option" where
  "exportPane ev t outDir s =
     Bundle (ev_fs ev) (ev_now_text ev)
       [\<lparr>we_Name = ''pane'', we_Panes = [\<lparr>pe_TargetID = tid_String t, pe_Lines = scrollbackFor t s\<rparr>]\<rparr>]
       outDir (tid_String t @ ''.md'')"

definition exportWindow :: "'p env \<Rightarrow> window_state \<Rightarrow> string \<Rightarrow> 'p server \<Rightarrow> (path \<times> string) list \<times> go_err option" where
  "exportWindow ev win outDir s =
     Bundle (ev_fs ev) (ev_now_text ev)
       [\<lparr>we_Name = wn_Name win, we_Panes = map (export_of s) (wn_Panes win)\<rparr>] outDir (wn_Name win @ ''.md'')"

definition exportAll :: "'p env \<Rightarrow> string \<Rightarrow> 'p server \<Rightarrow> (path \<times> string) list \<times> go_err option" where
  "exportAll ev outDir s =
     Bundle (ev_fs ev) (ev_now_text ev)
       (map (\<lambda>win. \<lparr>we_Name = wn_Name win, we_Panes = map (export_of s) (wn_Panes win)\<rparr>) (Windows (sv_manager s)))
       outDir ''session.md''"

definition out_dir :: "string \<Rightarrow> string" where
  "out_dir d = (if d = [] then ''.'' else d)"

definition export_reply :: "(path \<times> string) list \<times> go_err option \<Rightarrow> response" where
  "export_reply x = (case snd x of Some e \<Rightarrow> ApiError 500 [] (Some e) | None \<Rightarrow> NoContent)"

text \<open>The files an export writes are the first component of the exporter's result; the server stays.\<close>

definition handleExportPane :: "'p handler" where
  "handleExportPane ev r s =
     (case decode_body r (body_str2 ''target_id'' ''out_dir'') of
        Inl e \<Rightarrow> (s, ApiError 400 ''invalid JSON'' None)
      | Inr (target, dir) \<Rightarrow>
          (case ParseTargetID target of
             Inl e \<Rightarrow> (s, ApiError 400 ''invalid target ID: '' (Some e))
           | Inr t \<Rightarrow>
               (case FindPane t (sv_manager s) of
                  None \<Rightarrow> (s, ApiError 404 (''pane not found: '' @ target) None)
                | Some _ \<Rightarrow> (s, export_reply (exportPane ev t (out_dir dir) s)))))"

definition handleExportWindow :: "'p handler" where
  "handleExportWindow ev r s =
     (case decode_body r (body_str2 ''name'' ''out_dir'') of
        Inl e \<Rightarrow> (s, ApiError 400 ''invalid JSON'' None)
      | Inr (name, dir) \<Rightarrow>
          (case Window name (sv_manager s) of
             None \<Rightarrow> (s, ApiError 404 (''window not found: '' @ name) None)
           | Some win \<Rightarrow> (s, export_reply (exportWindow ev win (out_dir dir) s))))"

definition handleExportAll :: "'p handler" where
  "handleExportAll ev r s =
     (case decode_body r (body_str ''out_dir'') of
        Inl e \<Rightarrow> (s, ApiError 400 ''invalid JSON'' None)
      | Inr dir \<Rightarrow> (s, export_reply (exportAll ev (out_dir dir) s)))"

section \<open>Terminals\<close>

definition handleTerminalLaunch :: "'p handler" where
  "handleTerminalLaunch ev r s =
     (let i = PathValue r ''id'';
          cmd = (case decode_body r (body_str ''cmd'') of Inl _ \<Rightarrow> [] | Inr c \<Rightarrow> c)
      in (case tm_Launch (ev_term ev) i cmd (sv_terminals s) of
            Inl e \<Rightarrow> (s, ApiError 500 [] (Some e))
          | Inr (port, tms) \<Rightarrow>
              (s\<lparr>sv_terminals := tms\<rparr>,
               JsonOk (JObj [(''id'', JStr i), (''port'', JNum (int port)),
                             (''url'', JStr (''http://127.0.0.1:'' @ show_nat port))]))))"

definition handleTerminalKill :: "'p handler" where
  "handleTerminalKill ev r s =
     (case tm_Kill (PathValue r ''id'') (sv_terminals s) of
        Inl e \<Rightarrow> (s, ApiError 404 [] (Some e))
      | Inr (_, tms) \<Rightarrow> (s\<lparr>sv_terminals := tms\<rparr>, NoContent))"

section \<open>The focus cycle\<close>

definition body_cycle :: "(string \<times> jval) list \<Rightarrow> (string list \<times> int) result" where
  "body_cycle fs =
     bindr (dec_list dec_str (jfield ''windows'' fs)) (\<lambda>ws.
     bindr (dec_int (jfield ''interval_ms'' fs)) (\<lambda>i. Inr (ws, i)))"

definition handleCycleStart :: "'p handler" where
  "handleCycleStart ev r s =
     (case decode_body r body_cycle of
        Inl e \<Rightarrow> (s, ApiError 400 ''invalid JSON: '' (Some e))
      | Inr (windows, interval0) \<Rightarrow>
          let interval = (if interval0 \<le> 0 then 5000 else interval0) in
          (case cy_New windows (wrap64 (interval * Millisecond)) of
             Inl e \<Rightarrow> (s, ApiError 400 [] (Some e))
           | Inr c \<Rightarrow>
               (s\<lparr>sv_cycle := Some c, sv_cycleState := (windows, interval)\<rparr>,
                JsonOk (JObj [(''windows'', enc_slice windows), (''interval_ms'', JNum interval)]))))"

definition handleCycleStop :: "'p handler" where
  "handleCycleStop ev r s =
     (case sv_cycle s of
        None \<Rightarrow> (s, ApiError 409 ''no cycle running'' None)
      | Some _ \<Rightarrow> (s\<lparr>sv_cycle := None\<rparr>, NoContent))"

definition enc_cycle :: "'p server \<Rightarrow> jval" where
  "enc_cycle s =
     JObj [(''running'', JBool (sv_cycle s \<noteq> None)), (''windows'', enc_slice (fst (sv_cycleState s))),
           (''interval_ms'', JNum (snd (sv_cycleState s)))]"

definition handleCycleStatus :: "'p handler" where
  "handleCycleStatus ev r s = (s, JsonOk (enc_cycle s))"

text \<open>What the goroutine of a cycle does with one event of its channel.\<close>

definition cycle_event :: "string \<Rightarrow> 'p server \<Rightarrow> 'p server" where
  "cycle_event w s =
     (case FocusWindow w (sv_manager s) of
        Inl _ \<Rightarrow> s
      | Inr m \<Rightarrow> broadcastLayoutUpdate (s\<lparr>sv_manager := m\<rparr>))"

section \<open>Status\<close>

definition pane_fields :: "target_id \<Rightarrow> 'p server \<Rightarrow> string \<times> string \<times> string" where
  "pane_fields t s =
     (case FindPane t (sv_manager s) of
        None \<Rightarrow> ([], [], [])
      | Some (_, p) \<Rightarrow> (pn_Label p, pn_Formatter p, pn_SavedFormatter p))"

definition pane_stat :: "target_id \<Rightarrow> 'p server \<Rightarrow> (string \<times> jval) option" where
  "pane_stat t s =
     (case rt_Get t (h_router s) of
        None \<Rightarrow> None
      | Some pl \<Rightarrow>
          (case pane_fields t s of (label, formatter, _) \<Rightarrow>
             Some (tid_String t,
               JObj [(''target_id'', JStr (tid_String t)), (''title'', JStr label), (''formatter'', JStr formatter),
                     (''scrollback_len'', JNum (int (sb_Len (pl_scrollback pl)))),
                     (''bookmarks'', JNum (case rt_Bookmarks t (h_router s) of None \<Rightarrow> 0 | Some b \<Rightarrow> int (bm_Len b)))])))"

definition token_info :: "token \<Rightarrow> jval" where
  "token_info t =
     JObj [(''id'', JStr (tk_ID t)), (''panes'', enc_slice (tk_Panes t)), (''windows'', enc_slice (tk_Windows t)),
           (''expires'', enc_time (tk_ExpiresAt t))]"

definition handleStatus :: "'p handler" where
  "handleStatus ev r s =
     (s, JsonOk (JObj
        [(''port'', JNum (sv_port s)),
         (''session'', mg_Snapshot (sv_manager s)),
         (''panes'', JObj (fold (\<lambda>t m. case pane_stat t s of None \<Rightarrow> m | Some (k, v) \<Rightarrow> gm_put k v m) (AllPaneIDs (sv_manager s)) [])),
         (''layouts'', enc_strs (gm_keys (sv_layouts s))),
         (''formatters'', enc_strs (fmt_Names (sv_registry s))),
         (''highlights'', enc_strs (map hp_Name (hl_All (sv_highlights s)))),
         (''tokens'', JArr (map token_info (auth_List (ev_now ev) (sv_tokens s)))),
         (''connections'', JNum (int (ConnCount (sv_hub s)))),
         (''cycle'', enc_cycle s),
         (''kv_len'', JNum (int (kv_Len (h_kv s))))]))"

definition handleStatusPane :: "'p handler" where
  "handleStatusPane ev r s =
     (let idStr = PathValue r ''id'' in
      case ParseTargetID idStr of
        Inl e \<Rightarrow> (s, ApiError 400 ''invalid pane ID: '' (Some e))
      | Inr t \<Rightarrow>
          (case rt_Get t (h_router s) of
             None \<Rightarrow> (s, ApiError 404 (''pane not found: '' @ idStr) None)
           | Some pl \<Rightarrow>
               (case pane_fields t s of (label, formatter, savedFmt) \<Rightarrow>
                  let ls = sb_Lines (pl_scrollback pl);
                      bmList = (case rt_Bookmarks t (h_router s) of
                                  None \<Rightarrow> []
                                | Some b \<Rightarrow> map (\<lambda>k. JObj [(''name'', JStr (bm_Name k)), (''line_index'', JNum (bm_LineIndex k)),
                                                          (''created_at'', enc_time (Some (bm_CreatedAt k)))]) (bm_All b))
                  in (s, JsonOk (JObj
                       [(''target_id'', JStr idStr), (''title'', JStr label), (''formatter'', JStr formatter),
                        (''saved_formatter'', JStr savedFmt),
                        (''scrollback_len'', JNum (int (sb_Len (pl_scrollback pl)))),
                        (''scrollback_cap'', JNum (int (sb_Cap (pl_scrollback pl)))),
                        (''last_line'', JStr (if ls = [] then [] else last ls)),
                        (''bookmarks'', JArr bmList)])))))"

definition handleAdminConnections :: "'p handler" where
  "handleAdminConnections ev r s = (s, JsonOk (JObj [(''connections'', JNum (int (ConnCount (sv_hub s))))]))"

definition handlePing :: "'p handler" where
  "handlePing ev r s = (s, JsonOk (jstrs [(''status'', ''ok''), (''time'', ev_now_text ev)]))"

text \<open>The pages are constants of the program, named here.\<close>

definition handleAdminPage :: "'p handler" where
  "handleAdminPage ev r s = (s, Page ''adminHTML'')"

definition handleFrontend :: "'p handler" where
  "handleFrontend ev r s = (if rq_url_path r \<noteq> ''/'' then (s, NotFound) else (s, Page ''frontendHTML''))"

section \<open>The Unix socket\<close>

record unix_response =
  ur_OK :: bool
  ur_Data :: jval
  ur_Error :: "go_err option"

definition unix_ok :: "jval \<Rightarrow> unix_response" where
  "unix_ok d = \<lparr>ur_OK = True, ur_Data = d, ur_Error = None\<rparr>"

definition unix_fail :: "go_err \<Rightarrow> unix_response" where
  "unix_fail e = \<lparr>ur_OK = False, ur_Data = JNull, ur_Error = Some e\<rparr>"

definition unix_token_create :: "'p env \<Rightarrow> jval result \<Rightarrow> 'p server \<Rightarrow> 'p server \<times> unix_response" where
  "unix_token_create ev params s =
     (case bindr params (\<lambda>v. bindr (dec_obj v) (\<lambda>fs.
             bindr (dec_int (jfield ''expiry_seconds'' fs)) (\<lambda>x.
             bindr (dec_list dec_str (jfield ''panes'' fs)) (\<lambda>ps.
             bindr (dec_list dec_str (jfield ''windows'' fs)) (\<lambda>ws. Inr (x, ps, ws)))))) of
        Inl e \<Rightarrow> (s, unix_fail e)
      | Inr (secs, panes, windows) \<Rightarrow>
          (case auth_Create (ev_H ev) (ev_entropy ev) (ev_now ev)
                  \<lparr>co_Expiry = (if secs = 0 then DefaultTokenExpiry else wrap64 (secs * Second)),
                   co_Panes = panes, co_Windows = windows\<rparr> (sv_tokens s) of
             Inl e \<Rightarrow> (s, unix_fail e)
           | Inr (plain, tok, ts) \<Rightarrow>
               (s\<lparr>sv_tokens := ts\<rparr>,
                unix_ok (JObj [(''token'', JStr plain), (''id'', JStr (tk_ID tok)), (''expires_at'', enc_time (tk_ExpiresAt tok))]))))"

definition unix_token_revoke :: "jval result \<Rightarrow> 'p server \<Rightarrow> 'p server \<times> unix_response" where
  "unix_token_revoke params s =
     (case bindr params (\<lambda>v. bindr (dec_obj v) (body_str ''id'')) of
        Inl e \<Rightarrow> (s, unix_fail e)
      | Inr i \<Rightarrow>
          let s1 = s\<lparr>sv_hub := hub_RevokeToken i (sv_hub s)\<rparr> in
          (case auth_Revoke i (sv_tokens s1) of
             (ts, found) \<Rightarrow>
               (s1\<lparr>sv_tokens := ts\<rparr>, if found then unix_ok JNull else unix_fail (Errorf ''token not found'' []))))"

definition unix_stream :: "'p env \<Rightarrow> jval result \<Rightarrow> 'p server \<Rightarrow> 'p server \<times> unix_response" where
  "unix_stream ev params s =
     (case bindr params (\<lambda>v. bindr (dec_obj v) (body_str2 ''target_id'' ''line'')) of
        Inl e \<Rightarrow> (s, unix_fail e)
      | Inr (target, line) \<Rightarrow>
          (case ParseTargetID target of
             Inl e \<Rightarrow> (s, unix_fail e)
           | Inr t \<Rightarrow>
               (case sv_Route ev t line s of
                  (s', Some e) \<Rightarrow> (s', unix_fail e)
                | (s', None) \<Rightarrow> (s', unix_ok JNull))))"

text \<open>The command \<open>stop\<close> starts the shutdown in a goroutine of its own and leaves the state to it.\<close>

definition handleUnixCommand :: "'p env \<Rightarrow> string \<Rightarrow> jval result \<Rightarrow> 'p server \<Rightarrow> 'p server \<times> unix_response" where
  "handleUnixCommand ev action params s =
     (if action = ''ping'' then
        (s, unix_ok (JObj [(''port'', JNum (sv_port s)), (''pid'', JNum (ev_pid ev)), (''started_at'', JStr (ev_now_text ev))]))
      else if action = ''stop'' then (s, unix_ok JNull)
      else if action = ''token.create'' then unix_token_create ev params s
      else if action = ''token.revoke'' then unix_token_revoke params s
      else if action = ''stream'' then unix_stream ev params s
      else (s, unix_fail (Errorf ''unknown action: %q'' [AStr action])))"

definition serveUnix :: "'p env \<Rightarrow> (string \<times> jval result) result \<Rightarrow> 'p server \<Rightarrow> 'p server \<times> unix_response" where
  "serveUnix ev cmd s =
     (case cmd of
        Inl e \<Rightarrow> (s, unix_fail (Wrapf ''invalid command: %w'' [] e))
      | Inr (action, params) \<Rightarrow> handleUnixCommand ev action params s)"

section \<open>The invariant\<close>

lemma ok_exports:
  "fst (handleExportPane ev r s) = s" "fst (handleExportWindow ev r s) = s" "fst (handleExportAll ev r s) = s"
  by (simp_all add: handleExportPane_def handleExportWindow_def handleExportAll_def split: sum.split option.split prod.split)

lemma ok_status_reads:
  "fst (handleCycleStatus ev r s) = s" "fst (handleStatus ev r s) = s" "fst (handleStatusPane ev r s) = s"
  "fst (handleAdminConnections ev r s) = s" "fst (handlePing ev r s) = s" "fst (handleAdminPage ev r s) = s"
  "fst (handleFrontend ev r s) = s"
  by (simp_all add: handleCycleStatus_def handleStatus_def handleStatusPane_def handleAdminConnections_def handlePing_def
      handleAdminPage_def handleFrontend_def Let_def split: sum.split option.split prod.split)

lemma gm_ok_terminals:
  "gm_ok m \<Longrightarrow> tm_Launch os t c m = Inr (p, m') \<Longrightarrow> gm_ok m'" "gm_ok m \<Longrightarrow> tm_Kill t m = Inr (q, m') \<Longrightarrow> gm_ok m'"
  by (auto simp: tm_Launch_def tm_Kill_def Let_def split: sum.splits option.splits)

lemma ok_terminals:
  assumes ok: "srv_ok compile s"
  shows "srv_ok compile (fst (handleTerminalLaunch ev r s))" and "srv_ok compile (fst (handleTerminalKill ev r s))"
  using ok srv_parts(8) [OF ok]
  by (auto simp: handleTerminalLaunch_def handleTerminalKill_def Let_def split: sum.split
      intro!: srv_upd(7) [OF ok] intro: gm_ok_terminals)

lemma ok_cycles:
  assumes ok: "srv_ok compile s"
  shows "srv_ok compile (fst (handleCycleStart ev r s))" and "srv_ok compile (fst (handleCycleStop ev r s))"
    and "srv_ok compile (cycle_event w s)"
  using ok srv_parts(9) [OF ok]
  by (auto simp: handleCycleStart_def handleCycleStop_def cycle_event_def Let_def srv_upd(11,12) split: sum.split option.split
      intro!: srv_layoutUpdate srv_upd(8) [OF ok] intro: mg_inv_Focus)

lemma ok_unix:
  assumes ok: "srv_ok compile s"
  shows "srv_ok compile (fst (handleUnixCommand ev a p s))"
proof -
  have create: "srv_ok compile (fst (unix_token_create ev p s))"
    using ok srv_parts(5) [OF ok]
    by (auto simp: unix_token_create_def split: sum.split intro!: srv_upd(3) [OF ok] intro: auth_inv_Create)
  have "auth_inv ts" if "auth_Revoke i (sv_tokens s) = (ts, b)" for i ts b
    using auth_inv_Revoke [OF srv_parts(5) [OF ok], of i] that by simp
  then have revoke: "srv_ok compile (fst (unix_token_revoke p s))"
    using ok by (auto simp: unix_token_revoke_def Let_def split: sum.split prod.split
        intro!: srv_upd(3) [OF srv_Revoke [OF ok]])
  have stream: "srv_ok compile (fst (unix_stream ev p s))"
    using ok by (auto simp: unix_stream_def split: sum.split prod.split option.split dest: srv_Route_result)
  show ?thesis using ok create revoke stream by (simp add: handleUnixCommand_def)
qed

end
