(* ===== verification/Rdw_Routes.thy ===== *)
theory Rdw_Routes
  imports Api_Session Api_Stores Api_Status
begin

text \<open>
  The route table of \<open>routes.go\<close> with the middleware of \<open>middleware.go\<close>, the service of one request, and
  the reachable states of the server. The pattern that the multiplexer matched is part of the request; the
  table is grouped by the guard the code puts around the handlers.
\<close>

section \<open>Middleware\<close>

definition authMiddleware :: "bool \<Rightarrow> 'p handler \<Rightarrow> 'p handler" where
  "authMiddleware noAuth next ev r s =
     (if noAuth then next ev r s
      else if rq_auth r = [] then (s, ApiError 401 ''authorization header required'' None)
      else if \<not> HasPrefix (rq_auth r) ''Bearer '' then (s, ApiError 401 ''bearer token required'' None)
      else (case auth_Verify (ev_H ev) (ev_now ev) (TrimPrefix (rq_auth r) ''Bearer '') (sv_tokens s) of
              None \<Rightarrow> (s, ApiError 401 ''invalid or expired token'' None)
            | Some _ \<Rightarrow> next ev r s))"

definition remote_host :: "'p env \<Rightarrow> request \<Rightarrow> string" where
  "remote_host ev r = (case ev_host ev (rq_remote r) of None \<Rightarrow> rq_remote r | Some h \<Rightarrow> h)"

definition loopbackOnly :: "'p handler \<Rightarrow> 'p handler" where
  "loopbackOnly next ev r s =
     (if \<not> ev_loopback ev (remote_host ev r) then (s, HttpError 403 ''admin console is restricted to loopback'')
      else next ev r s)"

definition rateLimitMiddleware :: "'p handler \<Rightarrow> 'p handler" where
  "rateLimitMiddleware next ev r s =
     (if rq_auth r = [] then
        (case Allow (ev_now ev) (remote_host ev r) (sv_rl s) of
           (rl, allowed) \<Rightarrow>
             if \<not> allowed then (s\<lparr>sv_rl := rl\<rparr>, ApiError 429 ''rate limit exceeded'' None)
             else next ev r (s\<lparr>sv_rl := rl\<rparr>))
      else next ev r s)"

definition handleWS :: "'p handler" where
  "handleWS ev r s =
     (let serve = (\<lambda>tokenID. case serveWS (rq_protos r) (rq_upgrade r) tokenID (sv_next s) (sv_hub s) of
                      WsProtoRequired \<Rightarrow> (s, HttpError 400 ''WebSocket sub-protocol rdw-v1 required'')
                    | WsUpgradeFailed \<Rightarrow> (s, UpgradeFailed)
                    | WsConnected h \<Rightarrow> (s\<lparr>sv_hub := h, sv_next := sv_next s + 1\<rparr>, Upgraded (sv_next s)))
      in if ac_NoAuth (cg_Auth (sv_cfg s)) then serve []
         else if length (rq_auth r) < 8 then (s, HttpError 401 ''authorization required'')
         else (case auth_Verify (ev_H ev) (ev_now ev) (drop 7 (rq_auth r)) (sv_tokens s) of
                 None \<Rightarrow> (s, HttpError 401 ''invalid or expired token'')
               | Some tok \<Rightarrow> serve (tk_ID tok)))"

definition handleAdmin :: "'p handler" where
  "handleAdmin ev r s =
     (let adminToken = ac_AdminToken (cg_Auth (sv_cfg s)) in
      if adminToken \<noteq> [] \<and> rq_auth r \<noteq> ''Bearer '' @ adminToken \<and> QueryGet r ''token'' \<noteq> adminToken
      then (s, HttpError 401 ''unauthorized'')
      else handleAdminPage ev r s)"

section \<open>Routes\<close>

definition unauth_routes :: "(string \<times> 'p handler) list" where
  "unauth_routes =
     [(''GET /api/v1/ping'', handlePing),
      (''GET /api/v1/bindings'', handleBindings),
      (''GET /api/v1/formatters'', handleFormatters)]"

definition authed_routes :: "(string \<times> 'p handler) list" where
  "authed_routes =
     [(''GET /api/v1/session'', handleSession),
      (''POST /api/v1/stream/{id}'', handleStreamPost),
      (''GET /api/v1/windows'', handleWindowList),
      (''POST /api/v1/windows'', handleWindowCreate),
      (''DELETE /api/v1/windows/{name}'', handleWindowClose),
      (''PATCH /api/v1/windows/{name}'', handleWindowRename),
      (''POST /api/v1/windows/{name}/focus'', handleWindowFocus),
      (''POST /api/v1/panes/{id}/split'', handlePaneSplit),
      (''POST /api/v1/panes/{id}/zoom'', handlePaneZoom),
      (''DELETE /api/v1/panes/{id}'', handlePaneClose),
      (''POST /api/v1/panes/{id}/resize'', handlePaneResize),
      (''GET /api/v1/layouts'', handleLayoutList),
      (''POST /api/v1/layouts'', handleLayoutSave),
      (''POST /api/v1/layouts/{name}/apply'', handleLayoutApply),
      (''GET /api/v1/kv'', handleKVList),
      (''GET /api/v1/kv/{key}'', handleKVGet),
      (''PUT /api/v1/kv/{key}'', handleKVSet),
      (''DELETE /api/v1/kv/{key}'', handleKVDelete),
      (''GET /api/v1/tokens'', handleTokenList),
      (''POST /api/v1/tokens'', handleTokenCreate),
      (''DELETE /api/v1/tokens/{id}'', handleTokenRevoke),
      (''POST /api/v1/groups/{name}/hide'', handleGroupAction GroupHide),
      (''POST /api/v1/groups/{name}/show'', handleGroupAction GroupShow),
      (''POST /api/v1/groups/{name}/focus'', handleGroupAction GroupFocus),
      (''POST /api/v1/groups/{name}/kill'', handleGroupAction GroupKill),
      (''POST /api/v1/panes/{id}/swap'', handlePaneSwap),
      (''PATCH /api/v1/panes/{id}'', handlePaneRename),
      (''POST /api/v1/formatters'', handleFormatterRegister),
      (''DELETE /api/v1/formatters/{name}'', handleFormatterUnregister),
      (''POST /api/v1/panes/{id}/format'', handlePaneFormat),
      (''POST /api/v1/panes/{id}/filters'', handlePaneFilterAdd),
      (''GET /api/v1/panes/{id}/bookmarks'', handleBookmarkList),
      (''PUT /api/v1/panes/{id}/bookmarks/{name}'', handleBookmarkAdd),
      (''DELETE /api/v1/panes/{id}/bookmarks/{name}'', handleBookmarkDelete),
      (''GET /api/v1/highlights'', handleHighlightList),
      (''PUT /api/v1/highlights/{name}'', handleHighlightAdd),
      (''DELETE /api/v1/highlights/{name}'', handleHighlightDelete),
      (''POST /api/v1/panes/{id}/terminal'', handleTerminalLaunch),
      (''DELETE /api/v1/panes/{id}/terminal'', handleTerminalKill),
      (''POST /api/v1/cycle/start'', handleCycleStart),
      (''POST /api/v1/cycle/stop'', handleCycleStop),
      (''GET /api/v1/cycle/status'', handleCycleStatus),
      (''GET /api/v1/status'', handleStatus),
      (''GET /api/v1/status/panes/{id}'', handleStatusPane),
      (''POST /api/v1/export/pane'', handleExportPane),
      (''POST /api/v1/export/window'', handleExportWindow),
      (''POST /api/v1/export/all'', handleExportAll)]"

definition admin_routes :: "(string \<times> 'p handler) list" where
  "admin_routes = [(''GET /api/v1/admin/connections'', handleAdminConnections)]"

definition bare_routes :: "(string \<times> 'p handler) list" where
  "bare_routes =
     [(''GET /api/v1/ws'', handleWS),
      (''GET /admin'', handleAdmin),
      (''/'', handleFrontend)]"

definition guard_admin :: "config \<Rightarrow> 'p handler \<Rightarrow> 'p handler" where
  "guard_admin cfg h =
     (let inner = authMiddleware (ac_NoAuth (cg_Auth cfg)) h in
      if ac_AdminLocalOnly (cg_Auth cfg) then loopbackOnly inner else inner)"

definition routes :: "config \<Rightarrow> (string \<times> 'p handler) list" where
  "routes cfg =
     map (\<lambda>(p, h). (p, rateLimitMiddleware h)) unauth_routes
     @ map (\<lambda>(p, h). (p, authMiddleware (ac_NoAuth (cg_Auth cfg)) h)) authed_routes
     @ map (\<lambda>(p, h). (p, guard_admin cfg h)) admin_routes
     @ bare_routes"

definition sv_serve :: "'p env \<Rightarrow> request \<Rightarrow> 'p server \<Rightarrow> 'p server \<times> response" where
  "sv_serve ev r s =
     (case map_of (routes (sv_cfg s)) (rq_pattern r) of
        None \<Rightarrow> (s, NotFound)
      | Some h \<Rightarrow> h ev r s)"

section \<open>Every handler keeps the invariant\<close>

definition keeps :: "'p handler \<Rightarrow> bool" where
  "keeps h \<longleftrightarrow> (\<forall>ev r s. srv_ok (ev_compile ev) s \<longrightarrow> srv_ok (ev_compile ev) (fst (h ev r s)))"

lemma keepsI: "(\<And>ev r s. srv_ok (ev_compile ev) s \<Longrightarrow> srv_ok (ev_compile ev) (fst (h ev r s))) \<Longrightarrow> keeps h"
  by (simp add: keeps_def)

lemma keeps_read: "(\<And>ev r s. fst (h ev r s) = s) \<Longrightarrow> keeps h"
  by (simp add: keeps_def)

lemma keeps_auth: "keeps h \<Longrightarrow> keeps (authMiddleware b h)"
  by (simp add: keeps_def authMiddleware_def split: option.split)

lemma keeps_loopback: "keeps h \<Longrightarrow> keeps (loopbackOnly h)"
  by (simp add: keeps_def loopbackOnly_def)

lemma gm_ok_Allow: "gm_ok rl \<Longrightarrow> Allow now ip rl = (rl', b) \<Longrightarrow> gm_ok rl'"
  by (auto simp: Allow_def split: option.splits if_splits)

lemma keeps_rate: "keeps h \<Longrightarrow> keeps (rateLimitMiddleware h)"
proof (rule keepsI)
  fix ev :: "'a env" and r and s :: "'a server"
  assume h: "keeps h" and ok: "srv_ok (ev_compile ev) s"
  obtain rl b where al: "Allow (ev_now ev) (remote_host ev r) (sv_rl s) = (rl, b)" by fastforce
  from gm_ok_Allow [OF srv_parts(6) [OF ok] al] have "srv_ok (ev_compile ev) (s\<lparr>sv_rl := rl\<rparr>)" by (rule srv_upd(4) [OF ok])
  with h ok al show "srv_ok (ev_compile ev) (fst (rateLimitMiddleware h ev r s))"
    by (simp add: rateLimitMiddleware_def keeps_def)
qed

lemma keeps_admin: "keeps h \<Longrightarrow> keeps (guard_admin cfg h)"
  by (simp add: guard_admin_def Let_def keeps_auth keeps_loopback)

lemma hub_fresh_serve: "hub_fresh n h \<Longrightarrow> serveWS ps u i n h = WsConnected h' \<Longrightarrow> hub_fresh (Suc n) h'"
  by (auto simp: hub_fresh_def serveWS_def Let_def hub_register_def less_Suc_eq split: if_splits)

lemma keeps_WS: "keeps handleWS"
proof (rule keepsI)
  fix ev :: "'a env" and r and s :: "'a server"
  assume ok: "srv_ok (ev_compile ev) s"
  have "srv_ok (ev_compile ev) (s\<lparr>sv_hub := h, sv_next := Suc (sv_next s)\<rparr>)"
    if "serveWS ps u i (sv_next s) (sv_hub s) = WsConnected h" for ps u i h
    using ok that hub_inv_serve [OF _ that] hub_fresh_serve [OF _ that] by (simp add: srv_ok_def)
  with ok show "srv_ok (ev_compile ev) (fst (handleWS ev r s))"
    by (auto simp: handleWS_def Let_def split: ws_result.split option.split)
qed

lemma keeps_unauth: "list_all (keeps \<circ> snd) unauth_routes"
  by (simp add: unauth_routes_def keeps_read ok_status_reads ok_store_reads)

lemma keeps_authed: "list_all (keeps \<circ> snd) authed_routes"
  by (simp add: authed_routes_def keepsI ok_windows ok_panes ok_groups ok_layouts ok_stream ok_reads ok_kv ok_tokens
      ok_bookmarks ok_highlights ok_formatters ok_filter ok_store_reads ok_exports ok_terminals ok_cycles ok_status_reads)

lemma keeps_rest: "list_all (keeps \<circ> snd) admin_routes" "list_all (keeps \<circ> snd) bare_routes"
  by (simp_all add: admin_routes_def bare_routes_def keeps_WS keeps_read handleAdmin_def Let_def ok_status_reads)

lemma keeps_routes: "(p, h) \<in> set (routes cfg) \<Longrightarrow> keeps h"
  using keeps_unauth keeps_authed keeps_rest
  by (auto simp: routes_def list_all_iff keeps_auth keeps_rate keeps_admin)

lemma serve_ok: "srv_ok (ev_compile ev) s \<Longrightarrow> srv_ok (ev_compile ev) (fst (sv_serve ev r s))"
  by (auto simp: sv_serve_def keeps_def split: option.split dest!: map_of_SomeD keeps_routes)

end
