(* ===== verification/Server_Runs.thy ===== *)
theory Server_Runs
  imports Rdw_Routes
begin

text \<open>
  The runs of the server. An event is what the process reacts to: a request, a command on the Unix
  socket, a turn of the focus cycle, a turn of a connection's write pump, the end of a connection's read
  pump. The last two events are the accessors \<open>Manager()\<close> and \<open>Router()\<close>, through which a program that
  embeds the server can add a pane; nothing in the server calls them, so a run is \<open>embedded\<close> or not.
\<close>

datatype 'p event =
    Request "'p env" request
  | Command "'p env" "(string \<times> jval result) result"
  | CycleTurn string
  | WriteTurn nat
  | ReadEnd nat
  | HostAddPane string pane_state
  | HostRegister target_id int

fun sv_event :: "'p event \<Rightarrow> 'p server \<Rightarrow> 'p server" where
  "sv_event (Request ev r) s = fst (sv_serve ev r s)"
| "sv_event (Command ev cmd) s = fst (serveUnix ev cmd s)"
| "sv_event (CycleTurn w) s = cycle_event w s"
| "sv_event (WriteTurn c) s = s\<lparr>sv_hub := fst (writePump c (sv_hub s))\<rparr>"
| "sv_event (ReadEnd c) s = s\<lparr>sv_hub := readPump_end c (sv_hub s)\<rparr>"
| "sv_event (HostAddPane w p) s = (case AddPane w p (sv_manager s) of Inl _ \<Rightarrow> s | Inr m \<Rightarrow> s\<lparr>sv_manager := m\<rparr>)"
| "sv_event (HostRegister t c) s = (case Register t c (h_router s) of Inl _ \<Rightarrow> s | Inr r \<Rightarrow> s\<lparr>h_router := r\<rparr>)"

text \<open>The regular expression compiler is one function throughout a run; the rest of an environment varies.\<close>

fun event_ok :: "bool \<Rightarrow> (string \<Rightarrow> go_err option) \<Rightarrow> 'p event \<Rightarrow> bool" where
  "event_ok embedded compile (Request ev r) \<longleftrightarrow> ev_compile ev = compile"
| "event_ok embedded compile (Command ev cmd) \<longleftrightarrow> ev_compile ev = compile"
| "event_ok embedded compile (HostAddPane w p) \<longleftrightarrow> embedded"
| "event_ok embedded compile (HostRegister t c) \<longleftrightarrow> embedded"
| "event_ok embedded compile e \<longleftrightarrow> True"

inductive sv_reach :: "bool \<Rightarrow> (string \<Rightarrow> go_err option) \<Rightarrow> 'p server \<Rightarrow> bool" for embedded compile where
  start: "sv_Run_start ev open rows (sv_New cfg opts) = Inr s \<Longrightarrow> sv_reach embedded compile s"
| event: "sv_reach embedded compile s \<Longrightarrow> event_ok embedded compile e \<Longrightarrow> sv_reach embedded compile (sv_event e s)"

section \<open>The invariant of every reachable state\<close>

lemma fmt_inv_user: "fmt_inv reg \<Longrightarrow> fmt_inv (register_user_formatters lib ufs reg)"
  unfolding register_user_formatters_def
  by (induction ufs arbitrary: reg) (auto split: sum.split intro: fmt_inv_Register)

text \<open>\<open>New\<close> forgets the path of the database, so \<open>Run\<close> opens none.\<close>

lemma start_state:
  "sv_Run_start ev open rows (sv_New cfg opts) =
     Inr ((sv_New cfg opts)\<lparr>sv_registry := register_user_formatters (ev_fmt ev) (cg_UserFormatters cfg) fmt_registry\<rparr>)"
  by (simp add: sv_Run_start_def Let_def sv_New_def)

lemma srv_ok_start: "sv_Run_start ev open rows (sv_New cfg opts) = Inr s \<Longrightarrow> srv_ok compile s"
  using srv_parts(12) [OF srv_ok_New [of compile cfg opts]]
  by (auto simp: start_state intro!: srv_upd(10) [OF srv_ok_New] fmt_inv_user)

lemma srv_ok_unix: "srv_ok compile s \<Longrightarrow> srv_ok compile (fst (serveUnix ev cmd s))"
  by (auto simp: serveUnix_def ok_unix split: sum.split prod.split)

lemma srv_ok_hub:
  "srv_ok compile s \<Longrightarrow> hub_inv h \<Longrightarrow> hub_fresh (sv_next s) h \<Longrightarrow> srv_ok compile (s\<lparr>sv_hub := h\<rparr>)"
  by (simp add: srv_ok_def)

lemma hub_fresh_pumps: "hub_fresh n h \<Longrightarrow> hub_fresh n (fst (writePump c h))" "hub_fresh n h \<Longrightarrow> hub_fresh n (readPump_end c h)"
  by (auto simp: hub_fresh_def writePump_def readPump_end_def split: option.split list.split if_splits)

lemma srv_ok_event: "srv_ok compile s \<Longrightarrow> event_ok embedded compile e \<Longrightarrow> srv_ok compile (sv_event e s)"
proof (cases e)
  case (Request ev r)
  assume "srv_ok compile s" and "event_ok embedded compile e"
  with Request serve_ok [of ev s r] show ?thesis by simp
next
  case (HostAddPane w p)
  assume ok: "srv_ok compile s"
  then show ?thesis using HostAddPane srv_parts(9) [OF ok]
    by (auto split: sum.split intro!: srv_upd(8) [OF ok] intro: mg_inv_AddPane)
next
  case (HostRegister t c)
  assume ok: "srv_ok compile s"
  then show ?thesis using HostRegister srv_parts(1) [OF ok]
    by (auto split: sum.split intro!: srv_upd(1) [OF ok] intro: rt_inv_Register)
qed (auto simp: srv_ok_unix ok_cycles srv_parts hub_inv_pumps hub_fresh_pumps intro!: srv_ok_hub)

lemma reach_ok: "sv_reach embedded compile s \<Longrightarrow> srv_ok compile s"
  by (induction rule: sv_reach.induct) (auto intro: srv_ok_start srv_ok_event)

section \<open>Properties that depend on sessions, pipelines and layouts only\<close>

text \<open>Most handlers leave these parts alone; the ones that do not are listed.\<close>

definition same_core :: "'p server \<Rightarrow> 'p server \<Rightarrow> bool" where
  "same_core s s' \<longleftrightarrow> sv_manager s' = sv_manager s \<and> h_router s' = h_router s \<and> sv_layouts s' = sv_layouts s
     \<and> (sv_kvDB s = None \<longrightarrow> sv_kvDB s' = None)"

definition active_handlers :: "'p handler list" where
  "active_handlers =
     [handleStreamPost, handleWindowCreate, handleWindowClose, handleWindowRename, handleWindowFocus,
      handlePaneSplit, handlePaneClose, handlePaneSwap, handlePaneRename, handleGroupAction GroupKill,
      handleLayoutSave, handleLayoutApply, handleBookmarkAdd, handleBookmarkDelete, handlePaneFilterAdd]"

definition quiet :: "'p handler \<Rightarrow> bool" where
  "quiet h \<longleftrightarrow> (\<forall>ev r s. same_core s (fst (h ev r s)))"

lemma same_core_refl [simp]: "same_core s s"
  by (simp add: same_core_def)

lemma quietI: "(\<And>ev r s. same_core s (fst (h ev r s))) \<Longrightarrow> quiet h"
  by (simp add: quiet_def)

lemma quiet_read: "(\<And>ev r s. fst (h ev r s) = s) \<Longrightarrow> quiet h"
  by (simp add: quiet_def)

lemma broadcast_core [simp]: "same_core s (sv_broadcast d s)"
  by (simp add: same_core_def)

lemma quiet_panes: "quiet handlePaneZoom" "quiet handlePaneResize" "quiet (handleGroupAction GroupHide)"
  "quiet (handleGroupAction GroupShow)" "quiet (handleGroupAction GroupFocus)"
  by (auto intro!: quietI simp: handlePaneZoom_def handlePaneResize_def handleGroupAction_def Let_def
      split: sum.split option.split list.split)

lemma quiet_stores: "quiet handleKVSet" "quiet handleKVDelete" "quiet handleTokenCreate" "quiet handleTokenRevoke"
  "quiet handleHighlightAdd" "quiet handleHighlightDelete" "quiet handleFormatterRegister" "quiet handleFormatterUnregister"
  by (auto intro!: quietI simp: handleKVSet_def handleKVDelete_def handleTokenCreate_def handleTokenRevoke_def
      revoke_token_def handleHighlightAdd_def handleHighlightDelete_def handleFormatterRegister_def
      handleFormatterUnregister_def same_core_def Let_def split: sum.split option.split prod.split)

lemma quiet_status: "quiet handleTerminalLaunch" "quiet handleTerminalKill" "quiet handleCycleStart" "quiet handleCycleStop"
  by (auto intro!: quietI simp: handleTerminalLaunch_def handleTerminalKill_def handleCycleStart_def handleCycleStop_def
      same_core_def Let_def split: sum.split option.split prod.split)

lemma quiet_rest: "quiet handleWS" "quiet handleAdmin"
  by (auto intro!: quietI simp: handleWS_def handleAdmin_def same_core_def Let_def ok_status_reads
      split: option.split ws_result.split)

lemma quiet_format: "quiet handlePaneFormat"
  by (rule quiet_read) (simp add: handlePaneFormat_def Let_def split: sum.split option.split outcome.split)

lemma quiet_or_active:
  "list_all (\<lambda>(p, h). quiet h) unauth_routes" "list_all (\<lambda>(p, h). quiet h \<or> h \<in> set active_handlers) authed_routes"
  "list_all (\<lambda>(p, h). quiet h) admin_routes" "list_all (\<lambda>(p, h). quiet h) bare_routes"
  by (simp_all add: unauth_routes_def authed_routes_def admin_routes_def bare_routes_def active_handlers_def quiet_read
      quiet_panes quiet_stores quiet_format quiet_status quiet_rest ok_reads ok_store_reads ok_status_reads ok_exports)

text \<open>Such a property holds in every reachable state when the listed handlers and the routing keep it.\<close>

locale core_property =
  fixes P :: "'p server \<Rightarrow> bool" and embedded :: bool
  assumes core: "P s \<Longrightarrow> same_core s s' \<Longrightarrow> P s'"
    and new: "P (sv_New cfg opts)"
    and active: "h \<in> set active_handlers \<Longrightarrow> P s \<Longrightarrow> P (fst (h ev r s))"
    and route: "P s \<Longrightarrow> P (fst (sv_Route ev t line s))"
    and focus: "P s \<Longrightarrow> FocusWindow w (sv_manager s) = Inr m \<Longrightarrow> P (s\<lparr>sv_manager := m\<rparr>)"
    and host_pane: "embedded \<Longrightarrow> P s \<Longrightarrow> AddPane w p (sv_manager s) = Inr m \<Longrightarrow> P (s\<lparr>sv_manager := m\<rparr>)"
    and host_pipe: "embedded \<Longrightarrow> P s \<Longrightarrow> Register t c (h_router s) = Inr rt \<Longrightarrow> P (s\<lparr>h_router := rt\<rparr>)"
begin

lemma quiet_keeps: "quiet h \<Longrightarrow> P s \<Longrightarrow> P (fst (h ev r s))"
  using core by (simp add: quiet_def)

lemma auth_keeps: "P s \<Longrightarrow> P (fst (h ev r s)) \<Longrightarrow> P (fst (authMiddleware b h ev r s))"
  by (simp add: authMiddleware_def split: option.split)

lemma rate_keeps: "quiet h \<Longrightarrow> P s \<Longrightarrow> P (fst (rateLimitMiddleware h ev r s))"
proof -
  assume h: "quiet h" and s: "P s"
  have "P (s\<lparr>sv_rl := rl\<rparr>)" for rl by (rule core [OF s]) (simp add: same_core_def)
  then show ?thesis using quiet_keeps [OF h] s by (simp add: rateLimitMiddleware_def split: prod.split)
qed

lemma admin_keeps: "P s \<Longrightarrow> P (fst (h ev r s)) \<Longrightarrow> P (fst (guard_admin cfg h ev r s))"
  by (simp add: guard_admin_def loopbackOnly_def Let_def auth_keeps)

lemma serve_keeps: "P s \<Longrightarrow> P (fst (sv_serve ev r s))"
proof (cases "map_of (routes (sv_cfg s) :: (string \<times> 'p handler) list) (rq_pattern r)")
  case (Some g)
  assume s: "P s"
  from map_of_SomeD [OF Some] have "P (fst (g ev r s))"
    using quiet_or_active quiet_keeps [OF _ s] active [OF _ s] s
    by (auto simp: routes_def list_all_iff auth_keeps rate_keeps admin_keeps)
  with Some show ?thesis by (simp add: sv_serve_def)
qed (simp add: sv_serve_def)

lemma token_core: "same_core s (s\<lparr>sv_hub := h, sv_tokens := ts\<rparr>)" "same_core s (s\<lparr>sv_tokens := ts\<rparr>)"
  by (simp_all add: same_core_def)

lemma stream_keeps: "P s \<Longrightarrow> P (fst (unix_stream ev p s))"
proof -
  assume s: "P s"
  have "P s'" if "sv_Route ev t line s = (s', e)" for t line s' e
    using route [OF s, of ev t line] that by simp
  with s show ?thesis by (auto simp: unix_stream_def split: sum.split prod.split option.split)
qed

lemma unix_keeps: "P s \<Longrightarrow> P (fst (serveUnix ev cmd s))"
proof -
  assume s: "P s"
  have "same_core s (fst (unix_token_create ev p s))" "same_core s (fst (unix_token_revoke p s))" for p
    by (simp_all add: unix_token_create_def unix_token_revoke_def token_core Let_def split: sum.split prod.split)
  then have "P (fst (unix_token_create ev p s))" "P (fst (unix_token_revoke p s))" for p by (blast intro: core [OF s])+
  with s show ?thesis by (simp add: serveUnix_def handleUnixCommand_def stream_keeps split: sum.split prod.split)
qed

lemma event_keeps: "P s \<Longrightarrow> event_ok embedded compile e \<Longrightarrow> P (sv_event e s)"
proof (cases e)
  case (CycleTurn w)
  assume s: "P s"
  have "same_core t (broadcastLayoutUpdate t)" for t :: "'p server" by (simp add: same_core_def)
  with CycleTurn s focus [OF s] show ?thesis by (auto simp: cycle_event_def split: sum.split intro: core)
next
  case (WriteTurn c)
  assume s: "P s"
  with WriteTurn show ?thesis by (auto simp: same_core_def intro: core [OF s])
next
  case (ReadEnd c)
  assume s: "P s"
  with ReadEnd show ?thesis by (auto simp: same_core_def intro: core [OF s])
qed (auto simp: serve_keeps unix_keeps host_pane host_pipe split: sum.split)

lemma reach: "sv_reach embedded compile s \<Longrightarrow> P s"
proof (induction rule: sv_reach.induct)
  case (start ev db rows cfg opts s)
  then have "same_core (sv_New cfg opts) s" by (auto simp: start_state same_core_def)
  then show ?case by (rule core [OF new])
qed (rule event_keeps)

end

section \<open>Routing, step by step\<close>

lemma line_induct:
  assumes "P s"
    and step: "\<And>s p raw p' kv' es err. P s \<Longrightarrow> rt_Get t (h_router s) = Some p \<Longrightarrow>
      processLine (cf_Filter (ev_os ev) (h_kv s)) (ev_now_text ev) raw p (h_kv s) = (p', kv', es, err) \<Longrightarrow>
      P (fold (sv_exec (ev_now ev)) es (s\<lparr>h_router := rt_put_pipe t p' (h_router s), h_kv := kv'\<rparr>))"
  shows "P (fst (rt_line (cf_Filter (ev_os ev)) (ev_now_text ev) (sv_exec (ev_now ev)) t raw s))"
proof (cases "rt_Get t (h_router s)")
  case (Some p)
  obtain p' kv' es err where "processLine (cf_Filter (ev_os ev) (h_kv s)) (ev_now_text ev) raw p (h_kv s) = (p', kv', es, err)"
    by (metis prod_cases4)
  with step [OF assms(1) Some this] Some show ?thesis by (simp add: rt_line_def)
qed (simp add: rt_line_def assms(1))

lemma route_induct:
  assumes "P s"
    and opened: "\<And>s r e. P s \<Longrightarrow> rt_open e t (h_router s) = Inr r \<Longrightarrow> P (s\<lparr>h_router := r\<rparr>)"
    and step: "\<And>s p raw p' kv' es err. P s \<Longrightarrow> rt_Get t (h_router s) = Some p \<Longrightarrow>
      processLine (cf_Filter (ev_os ev) (h_kv s)) (ev_now_text ev) raw p (h_kv s) = (p', kv', es, err) \<Longrightarrow>
      P (fold (sv_exec (ev_now ev)) es (s\<lparr>h_router := rt_put_pipe t p' (h_router s), h_kv := kv'\<rparr>))"
  shows "P (fst (sv_Route ev t line s))"
proof -
  let ?line = "rt_line (cf_Filter (ev_os ev)) (ev_now_text ev) (sv_exec (ev_now ev)) t"
  have lines: "P s \<Longrightarrow> P (fst (run_lines ?line d c i ls e s))" for s d c i ls e
  proof (induction ls arbitrary: i s)
    case (Cons l ls)
    have "P (fst (?line l s))" by (rule line_induct [OF Cons.prems step])
    with Cons show ?case by (auto split: prod.split option.split)
  qed simp
  show ?thesis
    using assms(1) opened by (auto simp: sv_Route_def rt_Route_def pl_Run_def lines split: sum.split prod.split)
qed

section \<open>No database\<close>

lemma exec_kvDB [simp]: "sv_kvDB (sv_exec now e s) = sv_kvDB s"
  by (cases e) (simp_all add: control_handler_def ctl_title_def ctl_bookmark_def ctl_highlight_def ctl_scrollback_def
      ctl_scale_def ctl_image_def sv_put_pipe_def sv_write_pane_def Let_def split: kind.split option.split sum.split)

lemma fold_kvDB [simp]: "sv_kvDB (fold (sv_exec now) es s) = sv_kvDB s"
  by (induction es arbitrary: s) simp_all

lemma kill_kvDB1 [simp]: "sv_kvDB (kill_pane t s) = sv_kvDB s"
  by (simp add: kill_pane_def)

lemma kill_kvDB [simp]: "sv_kvDB (fold kill_pane ts s) = sv_kvDB s"
  by (induction ts arbitrary: s) (simp_all add: kill_pane_def)

lemma route_kvDB: "sv_kvDB s = None \<Longrightarrow> sv_kvDB (fst (sv_Route ev t line s)) = None"
  by (rule route_induct [where P = "\<lambda>s. sv_kvDB s = None"]) simp_all

lemma stream_post_keeps:
  assumes "P s" and "\<And>t line. P (fst (sv_Route ev t line s))"
  shows "P (fst (handleStreamPost ev r s))"
proof -
  have "P s'" if "sv_Route ev t line s = (s', e)" for t line s' e using assms(2) [of t line] that by simp
  with assms(1) show ?thesis by (auto simp: handleStreamPost_def split: sum.split prod.split option.split)
qed

lemma active_kvDB: "h \<in> set active_handlers \<Longrightarrow> sv_kvDB s = None \<Longrightarrow> sv_kvDB (fst (h ev r s)) = None"
  unfolding active_handlers_def set_simps
  apply (elim insertE emptyE; hypsubst)
  subgoal by (rule stream_post_keeps [where P = "\<lambda>s. sv_kvDB s = None"]) (simp_all add: route_kvDB)
  by (auto simp: handleWindowCreate_def handleWindowClose_def handleWindowRename_def handleWindowFocus_def
      handlePaneSplit_def split_into_def handlePaneClose_def handlePaneSwap_def handlePaneRename_def sv_write_pane_def
      handleGroupAction_def handleLayoutSave_def handleLayoutApply_def handleBookmarkAdd_def handleBookmarkDelete_def
      handlePaneFilterAdd_def sv_put_pipe_def Let_def split: sum.split option.split list.split)

interpretation no_database: core_property "\<lambda>s. sv_kvDB s = None" embedded
  for embedded
  by unfold_locales (auto simp: same_core_def active_kvDB route_kvDB, simp add: sv_New_def Let_def)

section \<open>The wiring of the pipelines\<close>

text \<open>
  Every pipeline has the server's sink, no timestamps and no control handler: the handler that \<open>New\<close> sets
  reaches the pipelines of that moment only, and there are none.
\<close>

definition pipe_wired :: "('f, unit, unit) pipeline \<Rightarrow> bool" where
  "pipe_wired p \<longleftrightarrow> pl_sinks p = [()] \<and> pl_controlHandler p = None \<and> \<not> pl_TimestampEnabled p"

definition wired :: "('f, unit, unit) router \<Rightarrow> bool" where
  "wired r \<longleftrightarrow> rt_sinkFn r = Some () \<and> (\<forall>t p. rt_Get t r = Some p \<longrightarrow> pipe_wired p)"

lemma wired_Register: "Register t c r = Inr r' \<Longrightarrow> wired r \<Longrightarrow> wired r'"
  by (cases "gm_get (rt_pipes r) t")
     (auto simp: wired_def pipe_wired_def Register_def rt_Get_def gm_get_put newPipeline_fresh split: if_splits)

lemma wired_upd [simp]:
  "wired r \<Longrightarrow> wired (Deregister t r)" "wired r \<Longrightarrow> pipe_wired p \<Longrightarrow> wired (rt_put_pipe t p r)"
  "wired (rt_put_bookmarks t b r) \<longleftrightarrow> wired r"
  by (auto simp: wired_def Deregister_def rt_put_pipe_def rt_put_bookmarks_def rt_Get_def gm_get_del gm_get_put
      split: if_splits)

lemma process_wired:
  assumes "pipe_wired p" and "processLine run now raw p kv = (p', kv', es, err)"
  shows "pipe_wired p'" and "list_all (\<lambda>e. \<exists>s t l. e = CallSink s t l) es"
proof -
  have d: "pipe_wired q \<and> list_all (\<lambda>e. \<exists>s t l. e = CallSink s t l) fs"
    if "dispatchContent run now line p = (q, fs)" for line q fs
    using that assms(1) by (auto simp: dispatchContent_def pipe_wired_def Let_def list_all_iff split: prod.splits option.splits)
  show "pipe_wired p'" using assms by (auto simp: processLine_def split: option.splits if_splits prod.splits dest: d)
  have "pl_controlHandler p = None" using assms(1) by (simp add: pipe_wired_def)
  then show "list_all (\<lambda>e. \<exists>s t l. e = CallSink s t l) es"
    using assms by (auto simp: processLine_def split: option.splits if_splits prod.splits dest: d)
qed

lemma sinks_router: "list_all (\<lambda>e. \<exists>s t l. e = CallSink s t l) es \<Longrightarrow> h_router (fold (sv_exec now) es s) = h_router s"
  by (induction es arbitrary: s) auto

lemma wired_open: "rt_open e t r = Inr r' \<Longrightarrow> wired r \<Longrightarrow> wired r'"
  by (auto simp: rt_open_def split: option.splits if_splits sum.splits elim: wired_Register)

lemma route_wired: "wired (h_router s) \<Longrightarrow> wired (h_router (fst (sv_Route ev t line s)))"
proof (rule route_induct [where P = "\<lambda>s. wired (h_router s)"])
  fix s :: "'a server" and p raw p' kv' es err
  assume nh: "wired (h_router s)" and get: "rt_Get t (h_router s) = Some p"
    and run: "processLine (cf_Filter (ev_os ev) (h_kv s)) (ev_now_text ev) raw p (h_kv s) = (p', kv', es, err)"
  from nh get have "pipe_wired p" by (simp add: wired_def)
  from process_wired [OF this run] nh
  show "wired (h_router (fold (sv_exec (ev_now ev)) es (s\<lparr>h_router := rt_put_pipe t p' (h_router s), h_kv := kv'\<rparr>)))"
    by (simp add: sinks_router)
qed (auto elim: wired_open)

lemma kill_router [simp]: "h_router (kill_pane t s) = Deregister t (h_router s)"
  by (simp add: kill_pane_def)

lemma kills_router: "h_router (fold kill_pane ts s) = fold Deregister ts (h_router s)"
  by (induction ts arbitrary: s) (simp_all add: kill_pane_def)

lemma wired_folds:
  "wired r \<Longrightarrow> wired (fold Deregister ts r)" "wired r \<Longrightarrow> wired (deregister_missing bs as r)"
  unfolding deregister_missing_def
  by (induction ts arbitrary: r, simp_all) (induction bs arbitrary: r, simp_all)

lemma wired_new: "wired r \<Longrightarrow> wired (register_new c as r)"
  unfolding register_new_def
  by (induction as arbitrary: r) (auto split: option.split sum.split dest: wired_Register)

lemma wired_filter:
  "AddFilter f p = Inr p' \<Longrightarrow> rt_Get t r = Some p \<Longrightarrow> wired r \<Longrightarrow> wired (rt_put_pipe t p' r)"
  by (rule wired_upd(2)) (auto simp: AddFilter_def wired_def pipe_wired_def split: if_splits)

lemma active_wired: "h \<in> set active_handlers \<Longrightarrow> wired (h_router s) \<Longrightarrow> wired (h_router (fst (h ev r s)))"
  unfolding active_handlers_def set_simps
  apply (elim insertE emptyE; hypsubst)
  subgoal by (rule stream_post_keeps [where P = "\<lambda>s. wired (h_router s)"]) (simp_all add: route_wired)
  subgoal by (simp add: handleWindowCreate_def split: sum.split)
  subgoal by (simp add: handleWindowClose_def split: sum.split)
  subgoal by (simp add: handleWindowRename_def split: sum.split)
  subgoal by (simp add: handleWindowFocus_def Let_def split: sum.split)
  subgoal by (auto simp: handlePaneSplit_def split_into_def elim: wired_Register split: sum.split option.split)
  subgoal by (simp add: handlePaneClose_def split: sum.split)
  subgoal by (simp add: handlePaneSwap_def Let_def split: sum.split option.split)
  subgoal by (simp add: handlePaneRename_def sv_write_pane_def Let_def split: sum.split option.split)
  subgoal by (simp add: handleGroupAction_def Let_def kills_router wired_folds split: list.split)
  subgoal by (simp add: handleLayoutSave_def split: sum.split)
  subgoal by (simp add: handleLayoutApply_def Let_def wired_new wired_folds split: option.split sum.split)
  subgoal by (simp add: handleBookmarkAdd_def split: sum.split option.split)
  subgoal by (simp add: handleBookmarkDelete_def split: sum.split option.split)
  subgoal by (auto simp: handlePaneFilterAdd_def sv_put_pipe_def Let_def dest: wired_filter split: sum.split option.split)
  done

interpretation wiring: core_property "\<lambda>s. wired (h_router s)" embedded
  for embedded
  by unfold_locales (auto simp: same_core_def active_wired route_wired elim: wired_Register,
    simp add: sv_New_def wired_def rt_SetControlHandler_def rt_New_def rt_Get_def Let_def)

section \<open>No pane\<close>

text \<open>A session without panes whose saved layouts have none either, and a router without pipelines.\<close>

definition paneless :: "manager \<Rightarrow> bool" where
  "paneless m \<longleftrightarrow> AllPaneIDs m = []"

definition bare_layout :: "jval \<Rightarrow> bool" where
  "bare_layout v \<longleftrightarrow> (\<forall>m m'. RestoreSnapshot (Inr v) m = Inr m' \<longrightarrow> paneless m')"

definition barren :: "'p server \<Rightarrow> bool" where
  "barren s \<longleftrightarrow> paneless (sv_manager s) \<and> rt_pipes (h_router s) = [] \<and> \<not> ro_AllowUnassigned (rt_opts (h_router s))
     \<and> list_all (bare_layout \<circ> snd) (sv_layouts s)"

lemma paneless_iff: "paneless m \<longleftrightarrow> list_all (\<lambda>w. wn_Panes w = []) (mg_windows m)"
  by (simp add: paneless_def AllPaneIDs_def list_all_iff)

lemma paneless_Find: "paneless m \<Longrightarrow> FindPane t m = None"
  using FindPane_iff [of t m] by (simp add: paneless_def del: not_None_eq)

lemma paneless_Remove: "paneless m \<Longrightarrow> RemovePane t m \<noteq> Inr m'"
  using RemovePane_ok [of t m] by (auto simp: paneless_def)

lemma list_all_part: "list_all P xs \<Longrightarrow> list_all P (take n xs @ drop k xs)"
  by (auto simp: list_all_iff dest: in_set_takeD in_set_dropD)

lemma paneless_windows:
  "CreateWindow n m = Inr m' \<Longrightarrow> paneless m \<Longrightarrow> paneless m'" "CloseWindow n m = Inr m' \<Longrightarrow> paneless m \<Longrightarrow> paneless m'"
  "RenameWindow n n' m = Inr m' \<Longrightarrow> paneless m \<Longrightarrow> paneless m'" "FocusWindow n m = Inr m' \<Longrightarrow> paneless m \<Longrightarrow> paneless m'"
proof -
  show "paneless m'" if "CloseWindow n m = Inr m'" "paneless m"
    using that list_all_part by (auto simp: CloseWindow_def paneless_iff Let_def simp del: list_all_append split: if_splits)
  show "paneless m'" if "RenameWindow n n' m = Inr m'" "paneless m"
    using that by (auto simp: RenameWindow_def paneless_iff list_all_length nth_list_update index_where_Some split: if_splits option.splits)
qed (auto simp: CreateWindow_def FocusWindow_def paneless_iff Let_def split: if_splits option.splits)

lemma bare_layout_Snapshot: "paneless m \<Longrightarrow> bare_layout (mg_Snapshot m)"
  by (auto simp: bare_layout_def paneless_iff dest!: Restore_saved)

lemma paneless_groups: "paneless m \<Longrightarrow> group_targets g m = []"
  by (simp add: group_targets_def paneless_iff Windows_def list_all_iff)

lemma barren_unknown: "barren s \<Longrightarrow> rt_Get t (h_router s) = None"
  by (simp add: barren_def rt_Get_def gm_get_def)

lemma barren_Route: "barren s \<Longrightarrow> \<exists>e. sv_Route ev t line s = (s, Some e)"
  using barren_unknown [of s t] by (simp add: sv_Route_def rt_Route_def rt_open_def barren_def)

lemma route_barren: "barren s \<Longrightarrow> barren (fst (sv_Route ev t line s))"
  using barren_Route [of s ev t line] by auto

lemma active_barren: "h \<in> set active_handlers \<Longrightarrow> barren s \<Longrightarrow> barren (fst (h ev r s))"
  unfolding active_handlers_def set_simps
  apply (elim insertE emptyE; hypsubst)
  subgoal by (rule stream_post_keeps [where P = barren]) (simp_all add: route_barren)
  subgoal by (auto simp: handleWindowCreate_def barren_def dest: paneless_windows split: sum.split)
  subgoal by (auto simp: handleWindowClose_def barren_def dest: paneless_windows split: sum.split)
  subgoal by (auto simp: handleWindowRename_def barren_def dest: paneless_windows split: sum.split)
  subgoal by (auto simp: handleWindowFocus_def Let_def barren_def dest: paneless_windows split: sum.split)
  subgoal by (auto simp: handlePaneSplit_def barren_def paneless_Find split: sum.split option.split)
  subgoal by (auto simp: handlePaneClose_def barren_def paneless_Remove split: sum.split)
  subgoal by (auto simp: handlePaneSwap_def Let_def barren_def paneless_Find split: sum.split option.split)
  subgoal by (auto simp: handlePaneRename_def Let_def barren_def paneless_Find split: sum.split option.split)
  subgoal by (auto simp: handleGroupAction_def Let_def barren_def paneless_groups split: list.split)
  subgoal by (auto simp: handleLayoutSave_def barren_def gm_all_put bare_layout_Snapshot split: sum.split)
  subgoal by (auto simp: handleLayoutApply_def Let_def barren_def bare_layout_def list_all_iff paneless_def register_new_def
        deregister_missing_def dest!: gm_get_Some_in split: option.split sum.split)
  subgoal by (auto simp: handleBookmarkAdd_def barren_def rt_put_bookmarks_def split: sum.split option.split)
  subgoal by (auto simp: handleBookmarkDelete_def barren_def rt_put_bookmarks_def split: sum.split option.split)
  subgoal by (auto simp: handlePaneFilterAdd_def Let_def barren_unknown split: sum.split)
  done

interpretation no_pane: core_property barren False
proof unfold_locales
  show "barren (sv_New cfg opts)" for cfg opts
    by (simp add: sv_New_def barren_def rt_SetControlHandler_def rt_New_def Let_def paneless_def AllPaneIDs_def NewManager_def)
  show "barren s \<Longrightarrow> same_core s s' \<Longrightarrow> barren s'" for s s' :: "'a server" by (simp add: same_core_def barren_def)
  show "barren s \<Longrightarrow> FocusWindow w (sv_manager s) = Inr m \<Longrightarrow> barren (s\<lparr>sv_manager := m\<rparr>)" for s :: "'a server" and w m
    by (auto simp: barren_def dest: paneless_windows)
qed (simp_all add: active_barren route_barren)

end
