(* ===== verification/Server_Properties.thy ===== *)
theory Server_Properties
  imports Server_Runs
begin

text \<open>
  Properties of the whole server, over requests and commands as they are served. The example is a server
  without authentication whose session has a window with two panes, added by an embedding program.
\<close>

section \<open>The route of a request\<close>

lemma routes_distinct: "distinct (map fst (routes cfg))"
proof -
  have "map fst (routes cfg :: (string \<times> 'a handler) list) = map fst (unauth_routes :: (string \<times> 'a handler) list) @ map fst (authed_routes :: (string \<times> 'a handler) list)
      @ map fst (admin_routes :: (string \<times> 'a handler) list) @ map fst (bare_routes :: (string \<times> 'a handler) list)" for cfg
    by (simp add: routes_def comp_def split_beta)
  then show ?thesis
    by (simp add: unauth_routes_def authed_routes_def admin_routes_def bare_routes_def)
qed

lemma authed_route:
  "(p, h) \<in> set authed_routes \<Longrightarrow> map_of (routes cfg) p = Some (authMiddleware (ac_NoAuth (cg_Auth cfg)) h)"
  by (rule map_of_is_SomeI [OF routes_distinct]) (auto simp: routes_def)

lemma bare_route: "(p, h) \<in> set bare_routes \<Longrightarrow> map_of (routes cfg) p = Some h"
  by (rule map_of_is_SomeI [OF routes_distinct]) (simp add: routes_def)

section \<open>An example\<close>

definition env_example :: "nat env" where
  "env_example =
     \<lparr>ev_now = 0, ev_now_text = ''2024-01-01T00:00:00Z'', ev_pid = 42, ev_entropy = Inr ''AB'', ev_H = pad_hash,
      ev_compile = (\<lambda>_. None), ev_os = os_example, ev_term = term_os_example 7000, ev_fmt = fmt_lib_example,
      ev_fs = \<lparr>fs_MkdirAll = (\<lambda>_. None), fs_WriteFile = (\<lambda>_ _. None)\<rparr>, ev_db_fail = None,
      ev_host = (\<lambda>a. Some a), ev_loopback = (\<lambda>h. h = ''127.0.0.1'')\<rparr>"

definition request_of :: "string \<Rightarrow> (string \<times> string) list \<Rightarrow> string \<Rightarrow> jval \<Rightarrow> request" where
  "request_of pattern path auth body =
     \<lparr>rq_pattern = pattern, rq_path = path, rq_url_path = ''/'', rq_query = [], rq_auth = auth,
      rq_remote = ''127.0.0.1'', rq_body = Inr body, rq_protos = [], rq_upgrade = True\<rparr>"

definition cfg_example :: config where
  "cfg_example = cfg_Default\<lparr>cg_Auth := (cg_Auth cfg_Default)\<lparr>ac_NoAuth := True\<rparr>\<rparr>"

definition start_example :: "nat server" where
  "start_example = (sv_New cfg_example \<lparr>op_SessionID = [], op_PersistPath = ''kv.db'', op_Restore = True\<rparr>)
     \<lparr>sv_registry := register_user_formatters fmt_lib_example (cg_UserFormatters cfg_example) fmt_registry\<rparr>"

definition ws_request :: request where
  "ws_request = (request_of ''GET /api/v1/ws'' [] [] JNull)\<lparr>rq_protos := [wsProto]\<rparr>"

definition events_example :: "nat event list" where
  "events_example =
     [Request env_example (request_of ''POST /api/v1/windows'' [] [] (JObj [(''name'', JStr ''main'')])),
      HostAddPane ''main'' (pane_example ''a''), HostAddPane ''main'' (pane_example ''b''),
      HostRegister (TargetID ''a'') 3, HostRegister (TargetID ''b'') 0, Request env_example ws_request]"

definition server_example :: "nat server" where
  "server_example = fold sv_event events_example start_example"

lemma start_example_reach: "sv_reach embedded (\<lambda>_. None) start_example"
  by (rule sv_reach.start [where ev = env_example])
     (simp add: start_example_def start_state env_example_def)

lemma fold_reach:
  "list_all (event_ok embedded compile) es \<Longrightarrow> sv_reach embedded compile s \<Longrightarrow> sv_reach embedded compile (fold sv_event es s)"
  by (induction es arbitrary: s) (simp_all add: sv_reach.event)

lemma server_example_reach: "sv_reach True (\<lambda>_. None) server_example"
  unfolding server_example_def
  by (rule fold_reach [OF _ start_example_reach]) (simp add: events_example_def env_example_def)

text \<open>The example, computed event by event.\<close>

lemma event_create:
  assumes "ac_NoAuth (cg_Auth (sv_cfg s))"
  shows "fst (sv_serve env_example (request_of ''POST /api/v1/windows'' [] [] (JObj [(''name'', JStr n)])) s) =
    (case CreateWindow n (sv_manager s) of Inl _ \<Rightarrow> s | Inr m \<Rightarrow> s\<lparr>sv_manager := m\<rparr>)"
proof -
  have "map_of (routes (sv_cfg s) :: (string \<times> nat handler) list) ''POST /api/v1/windows'' = Some (authMiddleware (ac_NoAuth (cg_Auth (sv_cfg s))) handleWindowCreate)"
    by (rule authed_route) (simp add: authed_routes_def)
  with assms show ?thesis
    by (simp add: sv_serve_def request_of_def authMiddleware_def handleWindowCreate_def decode_body_def body_str_def jfield_Cons
        ascii_lower_def split: sum.split)
qed

lemma event_ws:
  assumes "ac_NoAuth (cg_Auth (sv_cfg s))"
  shows "fst (sv_serve env_example ws_request s) =
    (case serveWS [wsProto] True [] (sv_next s) (sv_hub s) of WsConnected h \<Rightarrow> s\<lparr>sv_hub := h, sv_next := sv_next s + 1\<rparr> | _ \<Rightarrow> s)"
proof -
  have "map_of (routes (sv_cfg s) :: (string \<times> nat handler) list) ''GET /api/v1/ws'' = Some handleWS"
    by (rule bare_route) (simp add: bare_routes_def)
  with assms show ?thesis
    by (simp add: sv_serve_def ws_request_def request_of_def handleWS_def Let_def split: ws_result.split)
qed

lemma start_fields:
  "sv_manager start_example = NewManager" "rt_pipes (h_router start_example) = []" "sv_hub start_example = NewHub"
  "sv_next start_example = 0" "h_kv start_example = kv_New" "ac_NoAuth (cg_Auth (sv_cfg start_example))"
  by (simp_all add: start_example_def sv_New_def cfg_example_def Let_def rt_SetControlHandler_def rt_New_def)


lemma example_fields:
  "Windows (sv_manager server_example) = [\<lparr>wn_Name = ''main'', wn_Panes = [pane_example ''a'', pane_example ''b'']\<rparr>]"
  "rt_Get (TargetID ''a'') (h_router server_example) = Some (newPipeline (TargetID ''a'') 3 (h_router start_example))"
  "hb_conns (sv_hub server_example) = [0]"
  "hb_heap (sv_hub server_example) 0 = Some \<lparr>cn_tokenID = [], cn_send = [reconnect_frame], cn_closed = False\<rparr>"
  "h_kv server_example = kv_New"
  by (simp_all add: server_example_def events_example_def event_create event_ws start_fields CreateWindow_def findWindow_def
      NewManager_def AddPane_def Let_def maxPanesPerWindow_def Register_def gm_get_def gm_put_def serveWS_def Windows_def rt_Get_def
      hub_register_def NewHub_def upd_conn_def sendBufSize_def)

section \<open>The invariant\<close>



section \<open>Authentication\<close>

definition authorised :: "'p env \<Rightarrow> request \<Rightarrow> 'p server \<Rightarrow> bool" where
  "authorised ev r s \<longleftrightarrow> ac_NoAuth (cg_Auth (sv_cfg s)) \<or>
     (\<exists>secret tok. rq_auth r = ''Bearer '' @ secret \<and> auth_Verify (ev_H ev) (ev_now ev) secret (sv_tokens s) = Some tok)"

text \<open>
  C2: No request gets past the guard without a token: on each guarded route, a request that
  carries no bearer token which the store accepts is answered with status 401 and changes nothing; any
  other request is handed to the route's handler unchanged.
\<close>

theorem auth_gate:
  assumes "(p, h) \<in> set authed_routes" and "rq_pattern r = p"
  shows "(authorised ev r s \<longrightarrow> sv_serve ev r s = h ev r s)
    \<and> (\<not> authorised ev r s \<longrightarrow> (\<exists>msg. sv_serve ev r s = (s, ApiError 401 msg None)))"
proof -
  have serve: "sv_serve ev r s = authMiddleware (ac_NoAuth (cg_Auth (sv_cfg s))) h ev r s"
    using authed_route [OF assms(1)] assms(2) by (simp add: sv_serve_def)
  have split: "HasPrefix x p \<longleftrightarrow> (\<exists>y. x = p @ y)" for x p by (simp add: HasPrefix_iff)
  show ?thesis
    unfolding serve by (auto simp: authMiddleware_def authorised_def split TrimPrefix_def split: option.split)
qed

theorem auth_gate_witness:
  "\<exists>msg. sv_serve env_example (request_of ''GET /api/v1/session'' [] [] JNull) (start_example\<lparr>sv_cfg := cfg_Default\<rparr>)
     = (start_example\<lparr>sv_cfg := cfg_Default\<rparr>, ApiError 401 msg None)"
proof -
  let ?r = "request_of ''GET /api/v1/session'' [] [] JNull"
  let ?s = "start_example\<lparr>sv_cfg := cfg_Default\<rparr>"
  have mem: "(''GET /api/v1/session'', handleSession) \<in> set authed_routes" by (simp add: authed_routes_def)
  have pat: "rq_pattern ?r = ''GET /api/v1/session''" by (simp add: request_of_def)
  have "\<not> authorised env_example ?r ?s" by (simp add: authorised_def request_of_def cfg_Default_def)
  with auth_gate [OF mem pat, of env_example ?s] show ?thesis by blast
qed

section \<open>Streams\<close>

text \<open>
  C27: Without an embedding program there is never a pane: in every state reachable by requests and
  commands alone the session has no pane and the router no pipeline, so every line streamed to any
  target is refused and changes nothing.
\<close>

theorem no_first_pane:
  assumes "sv_reach False compile s"
  shows "AllPaneIDs (sv_manager s) = [] \<and> rt_Targets (h_router s) = []
    \<and> (\<exists>code msg e. code \<in> {400, 404} \<and> handleStreamPost ev r s = (s, ApiError code msg (Some e)))"
proof -
  have b: "barren s" using assms by (rule no_pane.reach)
  then have "AllPaneIDs (sv_manager s) = []" "rt_Targets (h_router s) = []"
    by (simp_all add: barren_def paneless_def rt_Targets_def gm_keys_def)
  moreover have "\<exists>code msg e. code \<in> {400, 404} \<and> handleStreamPost ev r s = (s, ApiError code msg (Some e))"
  proof (cases "ParseTargetID (PathValue r ''id'')")
    case (Inr t)
    show ?thesis
    proof (cases "decode_body r (body_str ''line'')")
      case line: (Inr l)
      from barren_Route [OF b, of ev t l] obtain e where "sv_Route ev t l s = (s, Some e)" by blast
      with Inr line show ?thesis by (auto simp: handleStreamPost_def)
    qed (auto simp: handleStreamPost_def Inr)
  qed (auto simp: handleStreamPost_def)
  ultimately show ?thesis by blast
qed

theorem no_first_pane_witness: "rt_Targets (h_router start_example) = []"
  using no_first_pane [OF start_example_reach] by blast

text \<open>One line with no line feed, as the scanner of the pipeline sees it.\<close>

lemma route_one:
  assumes "rt_Get t (h_router s) = Some p" and "LF \<notin> set line" and "length line < 65536"
  shows "sv_Route ev t line s =
    (case rt_line (cf_Filter (ev_os ev)) (ev_now_text ev) (sv_exec (ev_now ev)) t (dropCR line) s of (s', err) \<Rightarrow> (s', err))"
  using scan_lines_one [of line] assms
  by (simp add: sv_Route_def rt_Route_def rt_open_def pl_Run_def MaxScanTokenSize_def split: prod.split option.split)

lemma route_item:
  assumes "srv_ok compile s" and "wired (h_router s)" and "rt_Get t (h_router s) = Some p" and "pl_filters p = []" and "item_ok i"
  shows "sv_Route ev t (item_line i) s =
    (sv_broadcast (message t (item_data i))
       (s\<lparr>h_router := rt_put_pipe t (p\<lparr>pl_scrollback := sb_Append (pl_scrollback p) (item_data i)\<rparr>) (h_router s)\<rparr>), None)"
proof -
  from assms(2,3) have wp: "pl_sinks p = [()]" "\<not> pl_TimestampEnabled p" by (auto simp: wired_def pipe_wired_def)
  from srv_parts(1) [OF assms(1)] assms(3) have p: "pl_targetID p = t" by (auto simp: rt_inv_def pipe_ok_def)
  from assms(5) have line: "LF \<notin> set (item_line i)" "length (item_line i) < 65536" "dropCR (item_line i) = item_line i"
    by (simp_all add: item_ok_def)
  show ?thesis
    using route_one [OF assms(3) line(1,2)] line(3) assms(3) processLine_item [OF assms(5,4) wp(2)]
    by (simp add: rt_line_def wp(1) p)
qed


definition post_line :: "string \<Rightarrow> string \<Rightarrow> request" where
  "post_line t line = request_of ''POST /api/v1/stream/{id}'' [(''id'', t)] [] (JObj [(''line'', JStr line)])"

lemma post_line_facts:
  "ParseTargetID (PathValue (post_line ''a'' line) ''id'') = Inr (TargetID ''a'')"
  "decode_body (post_line ''a'' line) (body_str ''line'') = Inr line"
proof -
  have "PathValue (post_line ''a'' line) ''id'' = ''a''" by (simp add: post_line_def request_of_def PathValue_def)
  moreover have "ParseTargetID ''a'' = Inr (TargetID ''a'')" by code_simp
  ultimately show "ParseTargetID (PathValue (post_line ''a'' line) ''id'') = Inr (TargetID ''a'')" by simp
  show "decode_body (post_line ''a'' line) (body_str ''line'') = Inr line"
    by (simp add: post_line_def request_of_def decode_body_def body_str_def jfield_Cons ascii_lower_def)
qed


text \<open>
  C26: A control line does nothing: in every reachable state a line that sets a title, a bookmark or a
  highlight, clears the scrollback, shows an image or is any other control sequence than text, base64 or
  key-value pairs is answered with success while no part of the server changes.
\<close>

theorem control_lines_ignored:
  assumes "sv_reach embedded compile s" and "ParseTargetID (PathValue r ''id'') = Inr t"
    and "decode_body r (body_str ''line'') = Inr line" and "LF \<notin> set line" and "length line < 65536"
    and "Parse (dropCR line) = Some q" and "sq_Kind q \<notin> {KindVerbatim, KindBase64, KindKV}"
    and "rt_Get t (h_router s) \<noteq> None"
  shows "handleStreamPost ev r s = (s, NoContent)"
proof -
  obtain p where p: "rt_Get t (h_router s) = Some p" using assms(8) by blast
  have "wired (h_router s)" using assms(1) by (rule wiring.reach)
  with p have "pl_controlHandler p = None" by (auto simp: wired_def pipe_wired_def)
  moreover have "rt_put_pipe t p (h_router s) = h_router s"
    using p by (simp add: rt_put_pipe_def rt_Get_def gm_put_def gm_get_def update_triv)
  ultimately have "sv_Route ev t line s = (s, None)"
    using route_one [OF p assms(4,5)] p assms(6,7) by (simp add: rt_line_def processLine_def IsVerbatim_def)
  with assms(2,3) show ?thesis by (simp add: handleStreamPost_def)
qed

theorem control_lines_ignored_witness:
  "handleStreamPost env_example (post_line ''a'' ''title:build log'') server_example = (server_example, NoContent)"
proof (rule control_lines_ignored [OF server_example_reach post_line_facts])
  show "Parse (dropCR ''title:build log'') = Some (mk_seq KindTitle ''build log'')" by code_simp
  show "rt_Get (TargetID ''a'') (h_router server_example) \<noteq> None" by (simp add: example_fields)
qed simp_all

section \<open>Keys and values\<close>

lemma kv_over_http:
  assumes "srv_ok compile s" and "ParseKey (PathValue r ''key'') = Inr k" and "decode_body r (body_str ''value'') = Inr v"
  shows "case handleKVSet ev r s of (s1, resp) \<Rightarrow>
    if kv_accepts (h_kv s) k v
    then resp = NoContent
      \<and> (\<forall>ev2 r2. snd (handleKVGet ev2 r2 s1) =
           (if PathValue r2 ''key'' = PathValue r ''key'' then JsonOk (jstrs [(''key'', PathValue r ''key''), (''value'', v)])
            else snd (handleKVGet ev2 r2 s)))
      \<and> (\<forall>ev2 ev3. snd (handleKVGet ev2 r (fst (handleKVDelete ev3 r s1))) = ApiError 404 ''key not found'' None)
    else s1 = s \<and> (\<exists>e. resp = ApiError 413 [] (Some e))"
proof -
  note kv = srv_parts(2) [OF assms(1)]
  have key: "ParseKey x = Inr k \<longleftrightarrow> x = PathValue r ''key''" for x
    using assms(2) ParseKey_Inr [of x k] ParseKey_Inr [of "PathValue r ''key''" k] by auto
  show ?thesis
  proof (cases "kv_accepts (h_kv s) k v")
    case True
    then obtain kv' where set: "kv_Set k v (h_kv s) = Inr kv'" using kvs.accepts_iff [OF kv, of k v] by (cases "kv_Set k v (h_kv s)") auto
    have get: "kv_Get kv' = (kv_Get (h_kv s))(k \<mapsto> v)" using kvs.add_get [OF kv set] .
    have del: "kv_Get (kv_Delete k kv') k = None" by (simp add: kv_Get_Delete)
    obtain s1 where put: "handleKVSet ev r s = (s1, NoContent)" and s1: "h_kv s1 = kv'"
      using assms(2,3) set by (cases "sv_kvDB s") (auto simp: handleKVSet_def Let_def)
    have "snd (handleKVGet ev2 r2 s1) =
        (if PathValue r2 ''key'' = PathValue r ''key'' then JsonOk (jstrs [(''key'', PathValue r ''key''), (''value'', v)])
         else snd (handleKVGet ev2 r2 s))" for ev2 :: "'a env" and r2
      using key [of "PathValue r2 ''key''"] assms(2)
      by (auto simp: handleKVGet_def Let_def s1 get split: sum.split option.split)
    moreover have "snd (handleKVGet ev2 r (fst (handleKVDelete ev3 r s1))) = ApiError 404 ''key not found'' None"
      for ev2 ev3 :: "'a env"
      using assms(2) del by (cases "sv_kvDB s1") (auto simp: handleKVGet_def handleKVDelete_def Let_def s1)
    ultimately show ?thesis using True by (simp add: put)
  next
    case False
    then obtain e where "kv_Set k v (h_kv s) = Inl e" using kvs.accepts_iff [OF kv, of k v] by (cases "kv_Set k v (h_kv s)") auto
    with False assms(2,3) show ?thesis by (simp add: handleKVSet_def)
  qed
qed

text \<open>
  C7: A value that is put is what a get returns: a PUT with a valid key answers success exactly when the
  value and the store stay within their limits; then a GET of this key returns the value, a GET of any
  other key what it returned before, and after a DELETE the key is not found. A refused PUT answers
  status 413 and changes nothing.
\<close>

theorem kv_http:
  assumes "srv_ok compile s" and "ParseKey (PathValue r ''key'') = Inr k" and "decode_body r (body_str ''value'') = Inr v"
  shows "case handleKVSet ev r s of (s1, resp) \<Rightarrow>
    if kv_accepts (h_kv s) k v
    then resp = NoContent
      \<and> (\<forall>ev2 r2. snd (handleKVGet ev2 r2 s1) =
           (if PathValue r2 ''key'' = PathValue r ''key'' then JsonOk (jstrs [(''key'', PathValue r ''key''), (''value'', v)])
            else snd (handleKVGet ev2 r2 s)))
      \<and> (\<forall>ev2 ev3. snd (handleKVGet ev2 r (fst (handleKVDelete ev3 r s1))) = ApiError 404 ''key not found'' None)
    else s1 = s \<and> (\<exists>e. resp = ApiError 413 [] (Some e))"
  by (rule kv_over_http [OF assms])

definition put_value :: "string \<Rightarrow> string \<Rightarrow> request" where
  "put_value k v = request_of ''PUT /api/v1/kv/{key}'' [(''key'', k)] [] (JObj [(''value'', JStr v)])"

theorem kv_http_witness:
  "snd (handleKVGet env_example (put_value ''k'' []) (fst (handleKVSet env_example (put_value ''k'' ''v1'') server_example)))
     = JsonOk (jstrs [(''key'', ''k''), (''value'', ''v1'')])"
proof -
  let ?r = "put_value ''k'' ''v1''"
  have path: "PathValue (put_value ''k'' v) ''key'' = ''k''" for v by (simp add: put_value_def request_of_def PathValue_def)
  have "ParseKey ''k'' = Inr (Key ''k'')" by code_simp
  then have key: "ParseKey (PathValue ?r ''key'') = Inr (Key ''k'')" by (simp add: path)
  have dec: "decode_body ?r (body_str ''value'') = Inr ''v1''"
    by (simp add: put_value_def request_of_def decode_body_def body_str_def jfield_Cons ascii_lower_def)
  have "kv_accepts (h_kv server_example) (Key ''k'') ''v1''"
    by (simp add: kv_accepts_def example_fields kv_New_def ValueMaxBytes_def StoreMaxBytes_def kv_Get_def gm_get_def)
  with kv_http [OF reach_ok [OF server_example_reach] key dec, of env_example] show ?thesis
    by (auto simp: path split: prod.splits)
qed

section \<open>Tokens\<close>

text \<open>
  C5: The life of a token: the secret in the response to its creation opens every guarded route up to
  the expiry of the response (for ever when there is none) and not after it; deleting the token by the
  identifier of the response succeeds, from then on the secret opens nothing, and no connection that was
  opened with it is left in the hub.
\<close>

theorem token_lifecycle:
  assumes "handleTokenCreate ev r s = (s1, JsonCreated v)"
  shows "\<exists>secret tok. v = token_reply secret tok
    \<and> (\<forall>ev2 r2. ev_H ev2 = ev_H ev \<and> rq_auth r2 = ''Bearer '' @ secret \<longrightarrow>
         (authorised ev2 r2 s1 \<longleftrightarrow> ac_NoAuth (cg_Auth (sv_cfg s)) \<or>
            (case tk_ExpiresAt tok of None \<Rightarrow> True | Some e \<Rightarrow> ev_now ev2 \<le> e)))
    \<and> (\<forall>ev2 r2 ev3 r3. ev_H ev2 = ev_H ev \<and> rq_auth r2 = ''Bearer '' @ secret \<and> PathValue r3 ''id'' = tk_ID tok \<longrightarrow>
         (case handleTokenRevoke ev3 r3 s1 of (s2, resp) \<Rightarrow> resp = NoContent
            \<and> (authorised ev2 r2 s2 \<longleftrightarrow> ac_NoAuth (cg_Auth (sv_cfg s)))
            \<and> (\<forall>c \<in> set (hb_conns (sv_hub s2)). tokenID_of c (sv_hub s) \<noteq> tk_ID tok)))"
proof -
  from assms obtain body opts secret tok ts where
    create: "auth_Create (ev_H ev) (ev_entropy ev) (ev_now ev) opts (sv_tokens s) = Inr (secret, tok, ts)"
    and s1: "s1 = s\<lparr>sv_tokens := ts\<rparr>" and v: "v = token_reply secret tok"
    by (auto simp: handleTokenCreate_def split: sum.splits)
  obtain raw where raw: "ev_entropy ev = Inr raw" using create by (cases "ev_entropy ev") (auto simp: auth_Create_def)
  note cvr = Create_Verify_Revoke [OF create [unfolded raw]]
  have exp: "tk_ExpiresAt tok = (if co_Expiry opts \<le> 0 then None else Some (ev_now ev + co_Expiry opts))"
    using create raw by (auto simp: auth_Create_def Let_def split: if_splits)
  have auth: "authorised ev2 r2 u \<longleftrightarrow> ac_NoAuth (cg_Auth (sv_cfg u)) \<or> auth_Verify (ev_H ev) (ev_now ev2) secret (sv_tokens u) \<noteq> None"
    if "ev_H ev2 = ev_H ev" "rq_auth r2 = ''Bearer '' @ secret" for ev2 :: "'a env" and r2 and u :: "'a server"
    using that by (auto simp: authorised_def)
  have opens: "authorised ev2 r2 s1 \<longleftrightarrow> ac_NoAuth (cg_Auth (sv_cfg s)) \<or>
      (case tk_ExpiresAt tok of None \<Rightarrow> True | Some e \<Rightarrow> ev_now ev2 \<le> e)"
    if "ev_H ev2 = ev_H ev \<and> rq_auth r2 = ''Bearer '' @ secret" for ev2 :: "'a env" and r2
    using that cvr [of "ev_now ev2"] exp by (auto simp: auth s1)
  have closes: "case handleTokenRevoke ev3 r3 s1 of (s2, resp) \<Rightarrow> resp = NoContent
      \<and> (authorised ev2 r2 s2 \<longleftrightarrow> ac_NoAuth (cg_Auth (sv_cfg s)))
      \<and> (\<forall>c \<in> set (hb_conns (sv_hub s2)). tokenID_of c (sv_hub s) \<noteq> tk_ID tok)"
    if "ev_H ev2 = ev_H ev \<and> rq_auth r2 = ''Bearer '' @ secret \<and> PathValue r3 ''id'' = tk_ID tok"
    for ev2 ev3 :: "'a env" and r2 r3
  proof -
    obtain ts2 found where rev: "auth_Revoke (tk_ID tok) ts = (ts2, found)" by fastforce
    with cvr [of "ev_now ev2"] have "found" "auth_Verify (ev_H ev) (ev_now ev2) secret ts2 = None" by auto
    note found = this
    let ?s2 = "s1\<lparr>sv_hub := hub_RevokeToken (tk_ID tok) (sv_hub s1), sv_tokens := ts2\<rparr>"
    have "handleTokenRevoke ev3 r3 s1 = (?s2, NoContent)"
      using that rev found(1) by (simp add: handleTokenRevoke_def revoke_token_def s1)
    moreover have "authorised ev2 r2 ?s2 \<longleftrightarrow> ac_NoAuth (cg_Auth (sv_cfg s))"
      using auth [of ev2 r2 ?s2] that found(2) by (simp add: s1)
    moreover have "\<forall>c \<in> set (hb_conns (sv_hub ?s2)). tokenID_of c (sv_hub s) \<noteq> tk_ID tok"
      by (simp add: Revoke_conns s1)
    ultimately show ?thesis by (simp only: prod.case)
  qed
  show ?thesis
    by (intro exI [of _ secret] exI [of _ tok] conjI allI impI) (rule v, erule opens, erule closes)
qed

definition create_token :: request where
  "create_token = request_of ''POST /api/v1/tokens'' [] [] (JObj [(''expiry_seconds'', JNum 60)])"

theorem token_lifecycle_witness:
  "\<exists>s1 secret tok. handleTokenCreate env_example create_token (start_example\<lparr>sv_cfg := cfg_Default\<rparr>)
       = (s1, JsonCreated (token_reply secret tok))
     \<and> (authorised env_example (request_of ''GET /api/v1/kv'' [] (''Bearer '' @ secret) JNull) s1
          \<longleftrightarrow> (case tk_ExpiresAt tok of None \<Rightarrow> True | Some e \<Rightarrow> 0 \<le> e))"
proof -
  let ?s = "start_example\<lparr>sv_cfg := cfg_Default\<rparr>"
  have "decode_body create_token body_token = Inr (60, [], [])"
    by (simp add: create_token_def request_of_def decode_body_def body_token_def jfield_Cons ascii_lower_def)
  then obtain s1 v where c: "handleTokenCreate env_example create_token ?s = (s1, JsonCreated v)"
    by (simp add: handleTokenCreate_def env_example_def auth_Create_def Let_def)
  have no: "\<not> ac_NoAuth (cg_Auth (sv_cfg ?s))" by (simp add: cfg_Default_def)
  from token_lifecycle [OF c] obtain secret tok where v: "v = token_reply secret tok"
    and a: "\<And>r2. rq_auth r2 = ''Bearer '' @ secret \<Longrightarrow> authorised env_example r2 s1 \<longleftrightarrow> ac_NoAuth (cg_Auth (sv_cfg ?s)) \<or>
            (case tk_ExpiresAt tok of None \<Rightarrow> True | Some e \<Rightarrow> ev_now env_example \<le> e)"
    by blast
  have r2: "rq_auth (request_of ''GET /api/v1/kv'' [] (''Bearer '' @ secret) JNull) = ''Bearer '' @ secret"
    by (simp add: request_of_def)
  have now: "ev_now env_example = 0" by (simp add: env_example_def)
  from a [OF r2] no have "authorised env_example (request_of ''GET /api/v1/kv'' [] (''Bearer '' @ secret) JNull) s1
      \<longleftrightarrow> (case tk_ExpiresAt tok of None \<Rightarrow> True | Some e \<Rightarrow> 0 \<le> e)"
    using now by (simp split: option.splits)
  with c v show ?thesis by blast
qed

end
