(* ===== verification/Layout_Properties.thy ===== *)
theory Layout_Properties
  imports Server_Properties
begin

text \<open>
  Properties of the requests that change the session and the router together: applying a saved layout,
  closing the panes of a group, swapping two panes, and the split whose undo goes wrong.
\<close>

section \<open>Layouts\<close>

lemma Deregister_get: "rt_Get t (Deregister u r) = (if t = u then None else rt_Get t r)"
  by (simp add: Deregister_def rt_Get_def gm_get_del)

lemma Deregister_fields [simp]: "rt_opts (Deregister u r) = rt_opts r" "rt_sinkFn (Deregister u r) = rt_sinkFn r"
  by (simp_all add: Deregister_def)

lemma missing_get:
  "rt_Get t (deregister_missing bs as r) = (if t \<in> set bs \<and> t \<notin> set as then None else rt_Get t r)
   \<and> rt_opts (deregister_missing bs as r) = rt_opts r \<and> rt_sinkFn (deregister_missing bs as r) = rt_sinkFn r"
  unfolding deregister_missing_def by (induction bs arbitrary: r) (auto simp: Deregister_get)

lemma newPipeline_cong: "rt_opts r = rt_opts r' \<Longrightarrow> rt_sinkFn r = rt_sinkFn r' \<Longrightarrow> newPipeline t c r = newPipeline t c r'"
  by (simp add: newPipeline_def)

lemma register_get:
  "rt_Get t (register_new c as r) =
     (if t \<in> set as \<and> rt_Get t r = None then Some (newPipeline t c r) else rt_Get t r)"
proof (unfold register_new_def, induction as arbitrary: r)
  case (Cons a as)
  show ?case
  proof (cases "rt_Get a r")
    case None
    let ?r = "r\<lparr>rt_pipes := gm_put a (newPipeline a c r) (rt_pipes r), rt_bookmarks := gm_put a NewBookmarkStore (rt_bookmarks r)\<rparr>"
    have "Register a c r = Inr ?r" using None by (simp add: Register_def rt_Get_def)
    moreover have "rt_Get t ?r = (if t = a then Some (newPipeline a c r) else rt_Get t r)" by (simp add: rt_Get_def gm_get_put)
    moreover have "newPipeline t c ?r = newPipeline t c r" by (rule newPipeline_cong) simp_all
    ultimately show ?thesis using Cons.IH [of ?r] None by auto
  next
    case (Some p)
    with Cons.IH [of r] show ?thesis by auto
  qed
qed simp

lemma apply_saved:
  assumes "mg_inv old" and "int (length (mg_windows old)) < 2 ^ 63"
    and "list_all (\<lambda>w. list_all (\<lambda>p. int64 (pn_ScrollbackCap p)) (wn_Panes w)) (mg_windows old)"
    and "gm_get (sv_layouts s) (PathValue r ''name'') = Some (mg_Snapshot old)"
  shows "\<exists>s'. handleLayoutApply ev r s = (s', NoContent)
    \<and> mg_windows (sv_manager s') = mg_windows old \<and> mg_active (sv_manager s') = mg_active old \<and> sv_layouts s' = sv_layouts s
    \<and> (\<forall>t. rt_Get t (h_router s') =
         (if t \<in> set (AllPaneIDs old)
          then (case rt_Get t (h_router s) of Some p \<Rightarrow> Some p
                | None \<Rightarrow> Some (newPipeline t (sc_ScrollbackCap (cg_Server (sv_cfg s))) (h_router s)))
          else if t \<in> set (AllPaneIDs (sv_manager s)) then None else rt_Get t (h_router s)))"
proof -
  let ?new = "(sv_manager s)\<lparr>mg_windows := mg_windows old, mg_active := mg_active old\<rparr>"
  from Snapshot_read_back [OF assms(1-3)]
  have read: "RestoreSnapshot (Inr (mg_Snapshot old)) (sv_manager s) = Inr ?new" .
  have ids: "AllPaneIDs ?new = AllPaneIDs old" by (simp add: AllPaneIDs_def)
  let ?r = "deregister_missing (AllPaneIDs (sv_manager s)) (remdups (AllPaneIDs old)) (h_router s)"
  have "newPipeline t c ?r = newPipeline t c (h_router s)" for t c by (rule newPipeline_cong) (simp_all add: missing_get)
  then show ?thesis
    by (simp add: handleLayoutApply_def Let_def assms(4) read ids register_get missing_get split: option.split)
qed

text \<open>
  C6: A saved layout comes back exactly: whatever happened to the session after the save, applying the
  layout restores every window, pane and the focus of the moment of the save; a pane that is in both
  sessions keeps its pipeline with its scrollback, a pane that has to come back gets an empty one, the
  pipelines of the panes that went are gone, and no other pipeline changes.
\<close>

theorem layout_save_apply:
  assumes "srv_ok compile s0" and "handleLayoutSave ev0 r0 s0 = (s1, Created)"
    and "decode_body r0 (body_str ''name'') = Inr (PathValue r ''name'')"
    and "gm_get (sv_layouts s) (PathValue r ''name'') = gm_get (sv_layouts s1) (PathValue r ''name'')"
    and "int (length (mg_windows (sv_manager s0))) < 2 ^ 63"
    and "list_all (\<lambda>w. list_all (\<lambda>p. int64 (pn_ScrollbackCap p)) (wn_Panes w)) (mg_windows (sv_manager s0))"
  shows "case handleLayoutApply ev r s of (s', resp) \<Rightarrow> resp = NoContent
    \<and> mg_windows (sv_manager s') = mg_windows (sv_manager s0) \<and> mg_active (sv_manager s') = mg_active (sv_manager s0)
    \<and> (\<forall>t. rt_Get t (h_router s') =
         (if t \<in> set (AllPaneIDs (sv_manager s0))
          then (case rt_Get t (h_router s) of Some p \<Rightarrow> Some p
                | None \<Rightarrow> Some (newPipeline t (sc_ScrollbackCap (cg_Server (sv_cfg s))) (h_router s)))
          else if t \<in> set (AllPaneIDs (sv_manager s)) then None else rt_Get t (h_router s)))"
proof -
  from assms(2,3) have "gm_get (sv_layouts s1) (PathValue r ''name'') = Some (mg_Snapshot (sv_manager s0))"
    by (auto simp: handleLayoutSave_def gm_get_put split: if_splits)
  with assms(4) have "gm_get (sv_layouts s) (PathValue r ''name'') = Some (mg_Snapshot (sv_manager s0))" by simp
  from apply_saved [OF srv_parts(9) [OF assms(1)] assms(5,6) this, of ev] obtain s' where
    "handleLayoutApply ev r s = (s', NoContent)" and "mg_windows (sv_manager s') = mg_windows (sv_manager s0)"
    "mg_active (sv_manager s') = mg_active (sv_manager s0)"
    "\<forall>t. rt_Get t (h_router s') =
         (if t \<in> set (AllPaneIDs (sv_manager s0))
          then (case rt_Get t (h_router s) of Some p \<Rightarrow> Some p
                | None \<Rightarrow> Some (newPipeline t (sc_ScrollbackCap (cg_Server (sv_cfg s))) (h_router s)))
          else if t \<in> set (AllPaneIDs (sv_manager s)) then None else rt_Get t (h_router s))"
    by blast
  then show ?thesis by simp
qed

definition named :: "string \<Rightarrow> string \<Rightarrow> request" where
  "named pattern n = request_of pattern [(''name'', n)] [] (JObj [(''name'', JStr n)])"

lemma named_facts: "PathValue (named p n) x = (if x = ''name'' then n else [])"
  "decode_body (named p n) (body_str ''name'') = Inr n"
  by (simp_all add: named_def request_of_def PathValue_def decode_body_def body_str_def jfield_Cons ascii_lower_def)

theorem layout_save_apply_witness:
  "\<exists>s1. handleLayoutSave env_example (named ''POST /api/v1/layouts'' ''day'') server_example = (s1, Created)
     \<and> (case handleLayoutApply env_example (named ''POST /api/v1/layouts/{name}/apply'' ''day'') (s1\<lparr>sv_manager := NewManager\<rparr>) of
          (s', resp) \<Rightarrow> resp = NoContent \<and> Windows (sv_manager s') = Windows (sv_manager server_example))"
proof -
  let ?sv = "named ''POST /api/v1/layouts'' ''day''" and ?r = "named ''POST /api/v1/layouts/{name}/apply'' ''day''"
  obtain s1 where save: "handleLayoutSave env_example ?sv server_example = (s1, Created)"
    by (simp add: handleLayoutSave_def named_facts)
  have d: "decode_body ?sv (body_str ''name'') = Inr (PathValue ?r ''name'')" by (simp add: named_facts)
  have ws: "mg_windows (sv_manager server_example) = [\<lparr>wn_Name = ''main'', wn_Panes = [pane_example ''a'', pane_example ''b'']\<rparr>]"
    using example_fields(1) by (simp add: Windows_def)
  let ?s = "s1\<lparr>sv_manager := NewManager\<rparr>"
  have kept: "gm_get (sv_layouts ?s) (PathValue ?r ''name'') = gm_get (sv_layouts s1) (PathValue ?r ''name'')" by simp
  have few: "int (length (mg_windows (sv_manager server_example))) < 2 ^ 63" by (simp add: ws)
  have caps: "list_all (\<lambda>w. list_all (\<lambda>p. int64 (pn_ScrollbackCap p)) (wn_Panes w)) (mg_windows (sv_manager server_example))"
    by (simp add: ws pane_example_def int64_def)
  obtain s' resp where app: "handleLayoutApply env_example ?r ?s = (s', resp)" by (meson surj_pair)
  from layout_save_apply [OF reach_ok [OF server_example_reach] save d kept few caps, of env_example]
  have "resp = NoContent \<and> mg_windows (sv_manager s') = mg_windows (sv_manager server_example)"
    unfolding app prod.case by blast
  then have restored: "case handleLayoutApply env_example ?r ?s of
      (s', resp) \<Rightarrow> resp = NoContent \<and> Windows (sv_manager s') = Windows (sv_manager server_example)"
    unfolding app prod.case Windows_def .
  show ?thesis by (rule exI [of _ s1]) (rule conjI [OF save restored])
qed

section \<open>Groups\<close>

definition without :: "target_id set \<Rightarrow> window_state \<Rightarrow> window_state" where
  "without ts w = w\<lparr>wn_Panes := filter (\<lambda>p. pn_TargetID p \<notin> ts) (wn_Panes w)\<rparr>"

lemma without_none: "ts \<inter> set (ids_of ws) = {} \<Longrightarrow> map (without ts) ws = ws"
proof (induction ws)
  case (Cons w ws)
  then have "filter (\<lambda>p. pn_TargetID p \<notin> ts) (wn_Panes w) = wn_Panes w" by (intro filter_True) auto
  with Cons show ?case by (auto simp: without_def)
qed simp

lemma ids_of_without: "ids_of (map (without ts) ws) = filter (\<lambda>t. t \<notin> ts) (ids_of ws)"
  by (induction ws) (simp_all add: without_def filter_map comp_def)

lemma remove_first:
  "index_where (\<lambda>p. f p = t) xs = Some i \<Longrightarrow> distinct (map f xs) \<Longrightarrow>
     take i xs @ drop (Suc i) xs = filter (\<lambda>p. f p \<noteq> t) xs"
proof (induction xs arbitrary: i)
  case (Cons x xs)
  have "filter (\<lambda>p. f p \<noteq> t) xs = xs" if "f x = t"
    using that Cons.prems(2) by (intro filter_True) (auto simp: image_iff)
  with Cons show ?case by (auto split: if_splits)
qed simp

lemma remove_pane_without:
  "distinct (ids_of ws) \<Longrightarrow> pane_pos t ws = Some (k, i) \<Longrightarrow>
     ws[k := (ws ! k)\<lparr>wn_Panes := take i (wn_Panes (ws ! k)) @ drop (Suc i) (wn_Panes (ws ! k))\<rparr>] = map (without {t}) ws"
proof (induction ws arbitrary: k i)
  case (Cons w ws)
  show ?case
  proof (cases "index_where (\<lambda>p. pn_TargetID p = t) (wn_Panes w)")
    case None
    then have "t \<notin> set (map pn_TargetID (wn_Panes w))" by (simp add: index_where_absent del: set_map)
    then have "without {t} w = w" using without_none [of "{t}" "[w]"] by simp
    with None Cons show ?thesis by auto
  next
    case (Some j)
    have "t \<in> set (map pn_TargetID (wn_Panes w))" using Some index_where_absent [of pn_TargetID t "wn_Panes w"] by auto
    then have "t \<notin> set (ids_of ws)" using Cons.prems(1) by auto
    then have "map (without {t}) ws = ws" by (intro without_none) simp
    moreover have "take j (wn_Panes w) @ drop (Suc j) (wn_Panes w) = filter (\<lambda>p. pn_TargetID p \<noteq> t) (wn_Panes w)"
      using remove_first [OF Some] Cons.prems(1) by simp
    ultimately show ?thesis using Some Cons.prems(2) by (simp add: without_def [of _ w])
  qed
qed simp

lemma kill_windows:
  assumes "distinct (AllPaneIDs (sv_manager s))"
  shows "mg_windows (sv_manager (kill_pane t s)) = map (without {t}) (mg_windows (sv_manager s))"
    and "mg_active (sv_manager (kill_pane t s)) = mg_active (sv_manager s)"
proof -
  have "map (without {t}) (mg_windows (sv_manager s)) = mg_windows (sv_manager s)"
    if "pane_pos t (mg_windows (sv_manager s)) = None"
    using that by (intro without_none) (simp add: pane_pos_None)
  with assms remove_pane_without [of "mg_windows (sv_manager s)" t]
  show "mg_windows (sv_manager (kill_pane t s)) = map (without {t}) (mg_windows (sv_manager s))"
    "mg_active (sv_manager (kill_pane t s)) = mg_active (sv_manager s)"
    by (auto simp: kill_pane_def RemovePane_def AllPaneIDs_ids Let_def split: option.split)
qed

lemma without_without: "map (without ts) (map (without us) ws) = map (without (us \<union> ts)) ws"
  by (simp add: without_def)

lemma kills_windows:
  "distinct (AllPaneIDs (sv_manager s)) \<Longrightarrow>
     mg_windows (sv_manager (fold kill_pane ts s)) = map (without (set ts)) (mg_windows (sv_manager s))
     \<and> mg_active (sv_manager (fold kill_pane ts s)) = mg_active (sv_manager s)"
proof (induction ts arbitrary: s)
  case Nil
  then show ?case using without_none [of "{}"] by simp
next
  case (Cons t ts)
  have "distinct (AllPaneIDs (sv_manager (kill_pane t s)))"
    using Cons.prems by (simp add: AllPaneIDs_ids kill_windows(1) [OF Cons.prems] ids_of_without)
  from Cons.IH [OF this] show ?case
    by (simp add: kill_windows [OF Cons.prems] without_without del: map_map)
qed

lemma kills_get: "rt_Get u (fold Deregister ts r) = (if u \<in> set ts then None else rt_Get u r)"
  by (induction ts arbitrary: r) (auto simp: Deregister_get)

lemma ids_of_concat: "ids_of ws = map pn_TargetID (concat (map wn_Panes ws))"
  by (induction ws) simp_all

lemma without_group:
  assumes "distinct (AllPaneIDs m)"
  shows "map (without (set (group_targets g m))) (mg_windows m)
    = map (\<lambda>w. w\<lparr>wn_Panes := filter (\<lambda>p. pn_Group p \<noteq> g) (wn_Panes w)\<rparr>) (mg_windows m)"
proof (rule map_cong [OF HOL.refl])
  fix w assume w: "w \<in> set (mg_windows m)"
  have inj: "inj_on pn_TargetID (set (concat (map wn_Panes (mg_windows m))))"
    using assms by (simp add: AllPaneIDs_ids ids_of_concat distinct_map)
  have "pn_TargetID p \<in> set (group_targets g m) \<longleftrightarrow> pn_Group p = g" if "p \<in> set (wn_Panes w)" for p
    using w that inj by (auto simp: group_targets_def Windows_def inj_on_def)
  then show "without (set (group_targets g m)) w = w\<lparr>wn_Panes := filter (\<lambda>p. pn_Group p \<noteq> g) (wn_Panes w)\<rparr>"
    by (simp add: without_def cong: filter_cong)
qed

text \<open>
  Killing a group removes exactly the group: when no two panes share an identifier, every window
  keeps exactly its panes of other groups, in their order, the focus stays, and the pipelines of the
  group's panes are gone while every other one is as it was; a group without panes is answered with
  status 404 and changes nothing.
\<close>

theorem group_kill:
  assumes "distinct (AllPaneIDs (sv_manager s))" and "PathValue r ''name'' \<noteq> []"
  shows "case handleGroupAction GroupKill ev r s of (s', resp) \<Rightarrow>
    if group_targets (PathValue r ''name'') (sv_manager s) = [] then s' = s \<and> (\<exists>msg. resp = ApiError 404 msg None)
    else resp = NoContent
      \<and> mg_windows (sv_manager s') =
          map (\<lambda>w. w\<lparr>wn_Panes := filter (\<lambda>p. pn_Group p \<noteq> PathValue r ''name'') (wn_Panes w)\<rparr>) (mg_windows (sv_manager s))
      \<and> mg_active (sv_manager s') = mg_active (sv_manager s)
      \<and> (\<forall>t. rt_Get t (h_router s') =
           (if t \<in> set (group_targets (PathValue r ''name'') (sv_manager s)) then None else rt_Get t (h_router s)))"
proof (cases "group_targets (PathValue r ''name'') (sv_manager s)")
  case Nil
  with assms(2) show ?thesis by (simp add: handleGroupAction_def Let_def)
next
  case (Cons t ts)
  have "handleGroupAction GroupKill ev r s = (broadcastLayoutUpdate (fold kill_pane (t # ts) s), NoContent)"
    using assms(2) Cons by (simp add: handleGroupAction_def Let_def)
  with kills_windows [OF assms(1), of "t # ts"] kills_get [of _ "t # ts" "h_router s"]
    without_group [OF assms(1), of "PathValue r ''name''"] Cons
  show ?thesis by (simp add: kills_router del: fold_simps)
qed

definition grouped_example :: "nat server" where
  "grouped_example = start_example\<lparr>sv_manager := \<lparr>mg_windows = [\<lparr>wn_Name = ''main'',
     wn_Panes = [(pane_example ''a'')\<lparr>pn_Group := ''g''\<rparr>, pane_example ''b'']\<rparr>], mg_active = 0\<rparr>\<rparr>"

theorem group_kill_witness:
  "\<exists>s' resp. handleGroupAction GroupKill env_example (named ''POST /api/v1/groups/{name}/kill'' ''g'') grouped_example = (s', resp)
     \<and> resp = NoContent \<and> mg_windows (sv_manager s') = [\<lparr>wn_Name = ''main'', wn_Panes = [pane_example ''b'']\<rparr>]"
proof -
  let ?r = "named ''POST /api/v1/groups/{name}/kill'' ''g''"
  obtain s' resp where run: "handleGroupAction GroupKill env_example ?r grouped_example = (s', resp)" by (meson surj_pair)
  have d: "distinct (AllPaneIDs (sv_manager grouped_example))"
    by (simp add: grouped_example_def AllPaneIDs_def pane_example_def)
  have n: "PathValue ?r ''name'' \<noteq> []" by (simp add: named_facts)
  have g: "group_targets ''g'' (sv_manager grouped_example) \<noteq> []"
    by (simp add: group_targets_def Windows_def grouped_example_def pane_example_def)
  have "resp = NoContent \<and> mg_windows (sv_manager s') = [\<lparr>wn_Name = ''main'', wn_Panes = [pane_example ''b'']\<rparr>]"
    using group_kill [OF d n, of env_example] g
    unfolding run prod.case by (simp add: named_facts grouped_example_def pane_example_def)
  with run show ?thesis by (intro exI conjI) auto
qed

section \<open>Swapping panes\<close>

definition pane_at :: "window_state list \<Rightarrow> nat \<times> nat \<Rightarrow> pane_state" where
  "pane_at ws q = wn_Panes (ws ! fst q) ! snd q"

definition valid_at :: "window_state list \<Rightarrow> nat \<times> nat \<Rightarrow> bool" where
  "valid_at ws q \<longleftrightarrow> fst q < length ws \<and> snd q < length (wn_Panes (ws ! fst q))"

definition unique_ids :: "window_state list \<Rightarrow> bool" where
  "unique_ids ws \<longleftrightarrow> (\<forall>q r. valid_at ws q \<and> valid_at ws r \<and> pn_TargetID (pane_at ws q) = pn_TargetID (pane_at ws r) \<longrightarrow> q = r)"

lemma ids_of_mem: "valid_at ws q \<Longrightarrow> pn_TargetID (pane_at ws q) \<in> set (ids_of ws)"
  by (auto simp: valid_at_def pane_at_def ids_of_def intro!: bexI [of _ "ws ! fst q"])

lemma pane_pos_iff:
  assumes "unique_ids ws"
  shows "pane_pos t ws = Some q \<longleftrightarrow> valid_at ws q \<and> pn_TargetID (pane_at ws q) = t"
proof
  show "valid_at ws q \<and> pn_TargetID (pane_at ws q) = t" if "pane_pos t ws = Some q"
    using that pane_pos_bound [of t ws "fst q" "snd q"] by (simp add: valid_at_def pane_at_def)
next
  assume q: "valid_at ws q \<and> pn_TargetID (pane_at ws q) = t"
  then have "pane_pos t ws \<noteq> None" using ids_of_mem [of ws q] pane_pos_None [of t ws] by auto
  then obtain r where r: "pane_pos t ws = Some r" by blast
  then have "valid_at ws r \<and> pn_TargetID (pane_at ws r) = t"
    using pane_pos_bound [of t ws "fst r" "snd r"] by (simp add: valid_at_def pane_at_def)
  with q assms r show "pane_pos t ws = Some q" unfolding unique_ids_def by metis
qed

lemma pane_pos_distinct: "distinct (ids_of ws) \<Longrightarrow> valid_at ws q \<Longrightarrow> pane_pos (pn_TargetID (pane_at ws q)) ws = Some q"
proof (induction ws arbitrary: q)
  case (Cons w ws)
  obtain k i where q: "q = (k, i)" by fastforce
  show ?case
  proof (cases k)
    case 0
    have "distinct (map pn_TargetID (wn_Panes w))" using Cons.prems(1) by simp
    then have "index_where (\<lambda>p. pn_TargetID p = pn_TargetID (wn_Panes w ! i)) (wn_Panes w) = Some i"
      using Cons.prems(2) q 0 by (auto simp: index_where_Some valid_at_def distinct_conv_nth)
    with q 0 show ?thesis by (simp add: pane_at_def)
  next
    case (Suc l)
    have v: "valid_at ws (l, i)" using Cons.prems(2) q Suc by (simp add: valid_at_def)
    have "pn_TargetID (pane_at ws (l, i)) \<notin> set (map pn_TargetID (wn_Panes w))"
      using ids_of_mem [OF v] Cons.prems(1) by auto
    then have "index_where (\<lambda>p. pn_TargetID p = pn_TargetID (pane_at ws (l, i))) (wn_Panes w) = None"
      by (simp add: index_where_absent del: set_map)
    moreover have "pane_pos (pn_TargetID (pane_at ws (l, i))) ws = Some (l, i)" using Cons v by simp
    ultimately show ?thesis using q Suc by (simp add: pane_at_def)
  qed
qed (simp add: valid_at_def)

lemma distinct_unique: "distinct (ids_of ws) \<Longrightarrow> unique_ids ws"
  unfolding unique_ids_def by (metis pane_pos_distinct option.inject)

lemma put_nth:
  "put_pane (k, i) p ws ! l =
     (if l = k \<and> k < length ws then (ws ! k)\<lparr>wn_Panes := (wn_Panes (ws ! k))[i := p]\<rparr> else ws ! l)"
  by (cases "k < length ws") (auto simp: put_pane_def not_less list_update_beyond nth_list_update_neq)

lemma put_shape: "length (put_pane q p ws) = length ws" "wn_Name (put_pane q p ws ! k) = wn_Name (ws ! k)"
  "valid_at (put_pane q p ws) r \<longleftrightarrow> valid_at ws r"
proof -
  obtain k' i where q: "q = (k', i)" by fastforce
  show len: "length (put_pane q p ws) = length ws" by (simp add: q put_pane_def)
  show "wn_Name (put_pane q p ws ! k) = wn_Name (ws ! k)" by (simp add: q put_nth)
  show "valid_at (put_pane q p ws) r \<longleftrightarrow> valid_at ws r" by (simp add: valid_at_def len) (simp add: q put_nth)
qed

lemma put_at: "valid_at ws q \<Longrightarrow> pane_at (put_pane q p ws) r = (if r = q then p else pane_at ws r)"
  by (cases q; cases r) (simp add: pane_at_def valid_at_def put_nth nth_list_update)

lemma put_put: "put_pane q x (put_pane q y ws) = put_pane q x ws"
  by (cases q; cases "fst q < length ws") (simp_all add: put_pane_def not_less list_update_beyond)

lemma put_commute:
  assumes "q \<noteq> r"
  shows "put_pane q x (put_pane r y ws) = put_pane r y (put_pane q x ws)"
proof -
  obtain k i l j where q: "q = (k, i)" and r: "r = (l, j)" by fastforce
  show ?thesis
  proof (cases "k = l")
    case True
    with assms q r have "i \<noteq> j" by simp
    then have "(wn_Panes (ws ! l))[j := y, i := x] = (wn_Panes (ws ! l))[i := x, j := y]" by (rule list_update_swap [symmetric])
    then show ?thesis using True q r
      by (cases "l < length ws") (simp_all add: put_pane_def not_less list_update_beyond)
  next
    case False
    then show ?thesis using q r by (simp add: put_pane_def list_update_swap)
  qed
qed

lemma put_id: "put_pane q (pane_at ws q) ws = ws"
  by (cases q) (simp add: put_pane_def pane_at_def)

lemma ids_of_mapped:
  assumes "length vs = length ws" and "\<And>q. valid_at vs q \<longleftrightarrow> valid_at ws q"
    and "\<And>q. valid_at ws q \<Longrightarrow> pn_TargetID (pane_at vs q) = f (pn_TargetID (pane_at ws q))"
  shows "ids_of vs = map f (ids_of ws)"
proof -
  have "map (\<lambda>w. map pn_TargetID (wn_Panes w)) vs = map (\<lambda>w. map f (map pn_TargetID (wn_Panes w))) ws"
  proof (rule nth_equalityI)
    fix k assume k: "k < length (map (\<lambda>w. map pn_TargetID (wn_Panes w)) vs)"
    have len: "length (wn_Panes (vs ! k)) = length (wn_Panes (ws ! k))"
    proof -
      have "i < length (wn_Panes (vs ! k)) \<longleftrightarrow> i < length (wn_Panes (ws ! k))" for i
        using assms(2) [of "(k, i)"] k assms(1) by (simp add: valid_at_def)
      then show ?thesis by (metis less_irrefl not_less_iff_gr_or_eq)
    qed
    moreover have "pn_TargetID (wn_Panes (vs ! k) ! i) = f (pn_TargetID (wn_Panes (ws ! k) ! i))" if "i < length (wn_Panes (ws ! k))" for i
      using assms(1) assms(3) [of "(k, i)"] k that by (simp add: valid_at_def pane_at_def)
    ultimately show "map (\<lambda>w. map pn_TargetID (wn_Panes w)) vs ! k = map (\<lambda>w. map f (map pn_TargetID (wn_Panes w))) ws ! k"
      using k assms(1) by (auto intro: nth_equalityI)
  qed (simp add: assms(1))
  then show ?thesis by (simp add: ids_of_def map_concat comp_def)
qed

lemma unique_mapped:
  assumes "unique_ids ws" and "inj f" and "\<And>q. valid_at vs q \<longleftrightarrow> valid_at ws q"
    and "\<And>q. valid_at ws q \<Longrightarrow> pn_TargetID (pane_at vs q) = f (pn_TargetID (pane_at ws q))"
  shows "unique_ids vs"
proof (unfold unique_ids_def, intro allI impI)
  fix q r
  assume h: "valid_at vs q \<and> valid_at vs r \<and> pn_TargetID (pane_at vs q) = pn_TargetID (pane_at vs r)"
  then have v: "valid_at ws q" "valid_at ws r" using assms(3) by auto
  with h assms(4) have "f (pn_TargetID (pane_at ws q)) = f (pn_TargetID (pane_at ws r))" by simp
  then have "pn_TargetID (pane_at ws q) = pn_TargetID (pane_at ws r)" by (rule injD [OF assms(2)])
  with v assms(1) show "q = r" unfolding unique_ids_def by blast
qed

lemma restore_both:
  assumes "q \<noteq> r"
  shows "put_pane r (pane_at ws r) (put_pane q (pane_at ws q) (put_pane r x (put_pane q y ws))) = ws"
proof -
  have "put_pane q (pane_at ws q) (put_pane r x (put_pane q y ws)) = put_pane r x ws"
    by (simp add: put_commute [OF assms] put_put put_id)
  then show ?thesis by (simp add: put_put put_id)
qed

text \<open>Writing two positions so that the identifiers are permuted.\<close>

lemma two_puts:
  assumes "unique_ids ws" and "valid_at ws q" and "valid_at ws r" and "q \<noteq> r" and "inj f"
    and "pn_TargetID x = f (pn_TargetID (pane_at ws q))" and "pn_TargetID y = f (pn_TargetID (pane_at ws r))"
    and "\<And>z. valid_at ws z \<Longrightarrow> z \<noteq> q \<Longrightarrow> z \<noteq> r \<Longrightarrow> f (pn_TargetID (pane_at ws z)) = pn_TargetID (pane_at ws z)"
  defines "vs \<equiv> put_pane r y (put_pane q x ws)"
  shows "unique_ids vs" and "ids_of vs = map f (ids_of ws)" and "valid_at vs q" and "valid_at vs r"
    and "pane_at vs q = x" and "pane_at vs r = y" and "wn_Name (vs ! k) = wn_Name (ws ! k)"
proof -
  have at: "pane_at vs z = (if z = r then y else if z = q then x else pane_at ws z)" for z
    unfolding vs_def using assms(2,3) by (simp add: put_at put_shape)
  have ids: "pn_TargetID (pane_at vs z) = f (pn_TargetID (pane_at ws z))" if "valid_at ws z" for z
    unfolding at using assms(4,6,7) assms(8) [OF that] by auto
  have valid: "valid_at vs z \<longleftrightarrow> valid_at ws z" for z by (simp add: vs_def put_shape)
  show "unique_ids vs" using assms(1,5) valid ids by (rule unique_mapped)
  show "ids_of vs = map f (ids_of ws)" by (rule ids_of_mapped [OF _ valid ids]) (simp_all add: vs_def put_shape)
  show "valid_at vs q" "valid_at vs r" "pane_at vs q = x" "pane_at vs r = y"
    using assms(2-4) by (simp_all add: valid at)
  show "wn_Name (vs ! k) = wn_Name (ws ! k)" by (simp add: vs_def put_shape)
qed

lemma Find_at:
  "unique_ids (mg_windows m) \<Longrightarrow> valid_at (mg_windows m) q \<Longrightarrow> pn_TargetID (pane_at (mg_windows m) q) = t \<Longrightarrow>
     FindPane t m = Some (mg_windows m ! fst q, pane_at (mg_windows m) q)"
  using pane_pos_iff [of "mg_windows m" t q] by (cases q) (simp add: FindPane_def pane_at_def)

text \<open>The swap in terms of positions.\<close>

lemma swap_at:
  assumes "unique_ids (mg_windows m)" and "valid_at (mg_windows m) q" and "valid_at (mg_windows m) r"
    and "pn_TargetID (pane_at (mg_windows m) q) = a" and "pn_TargetID (pane_at (mg_windows m) r) = b"
  shows "swap_panes a b m =
    (let ws = mg_windows m; pa = pane_at ws q; pb = pane_at ws r;
         pa' = pa\<lparr>pn_Split := pn_Split pb, pn_Size := pn_Size pb\<rparr>; pb' = pb\<lparr>pn_Split := pn_Split pa, pn_Size := pn_Size pa\<rparr>
     in m\<lparr>mg_windows := (if wn_Name (ws ! fst q) \<noteq> wn_Name (ws ! fst r) then put_pane r pa' (put_pane q pb' ws)
                            else put_pane r pb' (put_pane q pa' ws))\<rparr>)"
proof -
  have "pane_pos a (mg_windows m) = Some q" "pane_pos b (mg_windows m) = Some r"
    using assms by (simp_all add: pane_pos_iff)
  then show ?thesis by (cases q; cases r) (simp add: swap_panes_def pane_at_def Let_def)
qed

lemma swap_positions:
  assumes "distinct (AllPaneIDs m)" and "a \<noteq> b" and "FindPane a m = Some (wa, pa)" and "FindPane b m = Some (wb, pb)"
  obtains q r where "unique_ids (mg_windows m)" "valid_at (mg_windows m) q" "valid_at (mg_windows m) r" "q \<noteq> r"
    "wa = mg_windows m ! fst q" "pa = pane_at (mg_windows m) q" "wb = mg_windows m ! fst r" "pb = pane_at (mg_windows m) r"
    "pn_TargetID pa = a" "pn_TargetID pb = b"
proof -
  let ?ws = "mg_windows m"
  have uniq: "unique_ids ?ws" using assms(1) by (simp add: AllPaneIDs_ids distinct_unique)
  obtain q r where q: "pane_pos a ?ws = Some q" "wa = ?ws ! fst q" "pa = pane_at ?ws q"
    and r: "pane_pos b ?ws = Some r" "wb = ?ws ! fst r" "pb = pane_at ?ws r"
    using assms(3,4) by (auto simp: FindPane_def pane_at_def split: option.splits)
  with pane_pos_iff [OF uniq] have "valid_at ?ws q" "valid_at ?ws r" "pn_TargetID pa = a" "pn_TargetID pb = b" by auto
  with uniq q r assms(2) show ?thesis by (intro that [of q r]) auto
qed

definition exchange :: "target_id \<Rightarrow> target_id \<Rightarrow> target_id \<Rightarrow> target_id" where
  "exchange a b t = (if t = a then b else if t = b then a else t)"

lemma exchange_other:
  assumes "unique_ids ws" and "valid_at ws q" and "valid_at ws r" and "valid_at ws z" and "z \<noteq> q" and "z \<noteq> r"
  shows "exchange (pn_TargetID (pane_at ws q)) (pn_TargetID (pane_at ws r)) (pn_TargetID (pane_at ws z)) = pn_TargetID (pane_at ws z)"
proof -
  have "pn_TargetID (pane_at ws z) \<noteq> pn_TargetID (pane_at ws q)" "pn_TargetID (pane_at ws z) \<noteq> pn_TargetID (pane_at ws r)"
    using assms unfolding unique_ids_def by blast+
  then show ?thesis by (simp add: exchange_def)
qed

lemma exchange_inj: "a \<noteq> b \<Longrightarrow> inj (exchange a b)"
  by (auto simp: inj_def exchange_def)

text \<open>
  C22: Swapping two panes of different windows exchanges their places: each takes the other's position
  with its split direction and size and keeps everything else. Two panes of one window stay where they
  are and exchange the direction and the size only. Either way no other pane moves and a second swap
  undoes the first.
\<close>

theorem swap_exact:
  assumes "distinct (AllPaneIDs m)" and "a \<noteq> b"
    and "FindPane a m = Some (wa, pa)" and "FindPane b m = Some (wb, pb)"
  shows "AllPaneIDs (swap_panes a b m) =
      (if wn_Name wa = wn_Name wb then AllPaneIDs m
       else map (exchange a b) (AllPaneIDs m))
    \<and> (\<exists>w. FindPane a (swap_panes a b m) = Some (w, pa\<lparr>pn_Split := pn_Split pb, pn_Size := pn_Size pb\<rparr>) \<and> wn_Name w = wn_Name wb)
    \<and> (\<exists>w. FindPane b (swap_panes a b m) = Some (w, pb\<lparr>pn_Split := pn_Split pa, pn_Size := pn_Size pa\<rparr>) \<and> wn_Name w = wn_Name wa)
    \<and> swap_panes a b (swap_panes a b m) = m"
proof -
  let ?ws = "mg_windows m"
  obtain q r where uniq: "unique_ids ?ws" and valid: "valid_at ?ws q" "valid_at ?ws r" and ne: "q \<noteq> r"
    and wa: "wa = ?ws ! fst q" and pa: "pa = pane_at ?ws q" and wb: "wb = ?ws ! fst r" and pb: "pb = pane_at ?ws r"
    and ids: "pn_TargetID pa = a" "pn_TargetID pb = b"
    by (rule swap_positions [OF assms])
  let ?pa = "pa\<lparr>pn_Split := pn_Split pb, pn_Size := pn_Size pb\<rparr>" and ?pb = "pb\<lparr>pn_Split := pn_Split pa, pn_Size := pn_Size pa\<rparr>"
  let ?m = "swap_panes a b m"
  note at = swap_at [OF uniq valid, unfolded Let_def, folded wa wb pa pb, OF ids]
  note undo = restore_both [OF ne, of ?ws, folded pa pb]
  show ?thesis
  proof (cases "wn_Name wa = wn_Name wb")
    case True
    with at have m1: "?m = m\<lparr>mg_windows := put_pane r ?pb (put_pane q ?pa ?ws)\<rparr>" by simp
    then have ws: "mg_windows ?m = put_pane r ?pb (put_pane q ?pa ?ws)" by simp
    have pres: "pn_TargetID ?pa = id (pn_TargetID (pane_at ?ws q))" "pn_TargetID ?pb = id (pn_TargetID (pane_at ?ws r))"
      by (simp_all add: pa pb)
    note two = two_puts [OF uniq valid ne inj_on_id pres id_apply, folded ws]
    have "swap_panes a b ?m = m"
      using swap_at [OF two(1,3,4), of a b] two(5-7) ids True wa wb undo by (simp add: Let_def ws m1)
    then show ?thesis
      using Find_at [OF two(1,3), of a] Find_at [OF two(1,4), of b] two(2,5-7) ids True wa wb by (simp add: AllPaneIDs_ids)
  next
    case False
    with at have m1: "?m = m\<lparr>mg_windows := put_pane r ?pa (put_pane q ?pb ?ws)\<rparr>" by simp
    then have ws: "mg_windows ?m = put_pane r ?pa (put_pane q ?pb ?ws)" by simp
    have pres: "pn_TargetID ?pb = exchange a b (pn_TargetID (pane_at ?ws q))" "pn_TargetID ?pa = exchange a b (pn_TargetID (pane_at ?ws r))"
      using ids assms(2) by (simp_all add: exchange_def flip: pa pb)
    note two = two_puts [OF uniq valid ne exchange_inj [OF assms(2)] pres exchange_other [OF uniq valid, folded pa pb, unfolded ids], folded ws]
    have "swap_panes a b ?m = m"
      using swap_at [OF two(1,4,3), of a b] two(5-7) ids False wa wb undo put_commute [OF ne, of pa pb] by (simp add: Let_def ws m1)
    then show ?thesis
      using Find_at [OF two(1,4), of a] Find_at [OF two(1,3), of b] two(2,5-7) ids False wa wb by (simp add: AllPaneIDs_ids)
  qed
qed

theorem swap_exact_witness:
  "AllPaneIDs (swap_panes (TargetID ''a'') (TargetID ''c'') mg_example) = map TargetID [''c'', ''b'', ''a'']
   \<and> swap_panes (TargetID ''a'') (TargetID ''c'') (swap_panes (TargetID ''a'') (TargetID ''c'') mg_example) = mg_example"
proof -
  have ids: "AllPaneIDs mg_example = map TargetID [''a'', ''b'', ''c'']"
    by (simp add: AllPaneIDs_def mg_example_def pane_example_def)
  have d: "distinct (AllPaneIDs mg_example)" by (simp add: ids)
  obtain wa pa wb pb where f: "FindPane (TargetID ''a'') mg_example = Some (wa, pa)" "FindPane (TargetID ''c'') mg_example = Some (wb, pb)"
    and n: "wn_Name wa \<noteq> wn_Name wb"
    by (simp add: FindPane_def mg_example_def pane_example_def)
  from swap_exact [OF d _ f] n show ?thesis by (simp add: ids exchange_def)
qed

section \<open>A split that is undone\<close>

lemma index_where_append: "index_where P xs = Some i \<Longrightarrow> index_where P (xs @ ys) = Some i"
  by (induction xs arbitrary: i) (auto split: if_splits)



end
