(* ===== verification/Ws_Delivery.thy ===== *)
theory Ws_Delivery
  imports Hub
begin

text \<open>
  What one client receives: the operations of the hub and the turns of the write pumps in any order, with
  the frames each pump has written so far.
\<close>

datatype hub_op = Cast jval | PumpTurn nat | Revoke string | Hangup nat | Join nat string

fun hub_op_step :: "hub_op \<Rightarrow> hub \<times> (nat \<Rightarrow> pump_frame list) \<Rightarrow> hub \<times> (nat \<Rightarrow> pump_frame list)" where
  "hub_op_step (Cast d) (h, out) = (case Broadcast d h of None \<Rightarrow> (h, out) | Some h' \<Rightarrow> (h', out))"
| "hub_op_step (PumpTurn c) (h, out) =
     (case writePump c h of (h', None) \<Rightarrow> (h', out) | (h', Some f) \<Rightarrow> (h', out(c := out c @ [f])))"
| "hub_op_step (Revoke i) (h, out) = (hub_RevokeToken i h, out)"
| "hub_op_step (Hangup c) (h, out) = (readPump_end c h, out)"
| "hub_op_step (Join c i) (h, out) =
     (if hb_heap h c \<noteq> None then (h, out)
      else (case serveWS [wsProto] True i c h of WsConnected h' \<Rightarrow> (h', out) | _ \<Rightarrow> (h, out)))"

fun casts :: "hub_op list \<Rightarrow> jval list" where
  "casts [] = []"
| "casts (Cast d # ops) = d # casts ops"
| "casts (_ # ops) = casts ops"

fun texts :: "pump_frame list \<Rightarrow> jval list" where
  "texts [] = []"
| "texts (TextFrame d # fs) = d # texts fs"
| "texts (CloseFrame # fs) = texts fs"

lemma casts_append [simp]: "casts (xs @ ys) = casts xs @ casts ys"
  by (induction xs rule: casts.induct) simp_all

lemma texts_append [simp]: "texts (xs @ ys) = texts xs @ texts ys"
  by (induction xs rule: texts.induct) simp_all

text \<open>The invariant of one connection: \<open>ds\<close> is what was broadcast since it joined.\<close>

definition delivered_to :: "nat \<Rightarrow> jval list \<Rightarrow> hub \<times> (nat \<Rightarrow> pump_frame list) \<Rightarrow> bool" where
  "delivered_to c ds st \<longleftrightarrow> (case st of (h, out) \<Rightarrow> hub_inv h \<and>
     (\<exists>k m. hb_heap h c = Some k \<and> m \<le> length ds \<and> texts (out c) @ cn_send k = reconnect_frame # take m ds
        \<and> (c \<in> set (hb_conns h) \<longrightarrow> m = length ds) \<and> length (cn_send k) \<le> sendBufSize))"

lemma delivered_weaken: "m \<le> length ds \<Longrightarrow> take m (ds @ [d]) = take m ds"
  by simp

lemma delivered_cast:
  assumes "delivered_to c ds (h, out)"
  shows "delivered_to c (ds @ [d]) (hub_op_step (Cast d) (h, out))"
proof -
  from assms obtain k m where inv: "hub_inv h" and k: "hb_heap h c = Some k" and m: "m \<le> length ds"
    and fs: "texts (out c) @ cn_send k = reconnect_frame # take m ds" and full: "c \<in> set (hb_conns h) \<longrightarrow> m = length ds"
    and len: "length (cn_send k) \<le> sendBufSize"
    by (auto simp: delivered_to_def)
  from Broadcast_spec [OF inv, of d] obtain h' where h': "Broadcast d h = Some h'" "hub_inv h'" "hb_conns h' = filter (stays h) (hb_conns h)"
    and heap: "\<forall>e. hb_heap h' e = (if e \<in> set (hb_conns h) then map_option (after_send d h) (hb_heap h e) else hb_heap h e)"
    by blast
  show ?thesis
  proof (cases "c \<in> set (hb_conns h) \<and> stays h c")
    case True
    then have "\<not> isRevoked (cn_tokenID k) h \<and> length (cn_send k) < sendBufSize" using k by (simp add: stays_def)
    then have "hb_heap h' c = Some (k\<lparr>cn_send := cn_send k @ [d]\<rparr>)" "length (cn_send k @ [d]) \<le> sendBufSize"
      using heap True k by (simp_all add: after_send_def)
    moreover have "texts (out c) @ cn_send k @ [d] = reconnect_frame # take (Suc (length ds)) (ds @ [d])"
      using fs full True by (metis append.assoc append_Cons length_append_singleton order_refl take_all)
    ultimately show ?thesis using h' by (auto simp: delivered_to_def intro!: exI [of _ "Suc (length ds)"])
  next
    case False
    then have out: "c \<notin> set (hb_conns h')" using h'(3) by auto
    let ?k = "if c \<in> set (hb_conns h) then after_send d h k else k"
    have "hb_heap h' c = Some ?k" using heap k by simp
    moreover have "cn_send ?k = cn_send k" using False k by (auto simp: after_send_def stays_def)
    ultimately obtain k' where "hb_heap h' c = Some k'" "cn_send k' = cn_send k" by blast
    then show ?thesis using h'(1,2) out fs m len by (auto simp: delivered_to_def intro!: exI [of _ m])
  qed
qed

lemma delivered_turn:
  assumes "delivered_to c ds (h, out)"
  shows "delivered_to c ds (hub_op_step (PumpTurn e) (h, out))"
proof (cases "e = c")
  case True
  from assms obtain k where k: "hb_heap h c = Some k" by (auto simp: delivered_to_def)
  show ?thesis
  proof (cases "cn_send k")
    case Nil
    with assms k True show ?thesis by (auto simp: delivered_to_def writePump_def)
  next
    case (Cons f fs)
    from assms have "hub_inv h" by (simp add: delivered_to_def)
    from hub_inv_pumps(1) [OF this, of c] assms k Cons True show ?thesis by (auto simp: delivered_to_def writePump_def)
  qed
next
  case False
  from assms have "hub_inv h" by (simp add: delivered_to_def)
  from hub_inv_pumps(1) [OF this, of e] assms False show ?thesis
    by (auto simp: delivered_to_def writePump_def split: option.splits list.splits)
qed

lemma delivered_keep:
  assumes "delivered_to c ds (h, out)" and "hub_inv h'"
    and "\<And>k. hb_heap h c = Some k \<Longrightarrow> \<exists>k'. hb_heap h' c = Some k' \<and> cn_send k' = cn_send k"
    and "c \<in> set (hb_conns h') \<Longrightarrow> c \<in> set (hb_conns h)"
  shows "delivered_to c ds (h', out)"
  using assms unfolding delivered_to_def prod.case by metis

lemma delivered_step:
  assumes "delivered_to c ds (h, out)"
  shows "delivered_to c (ds @ casts [op]) (hub_op_step op (h, out))"
proof (cases op)
  case (Cast d)
  with delivered_cast [OF assms] show ?thesis by simp
next
  case (PumpTurn e)
  with delivered_turn [OF assms] show ?thesis by simp
next
  case (Revoke i)
  from assms have "hub_inv h" by (simp add: delivered_to_def)
  with Revoke show ?thesis
    by (auto intro!: delivered_keep [OF assms hub_inv_Revoke] simp: Revoke_conns Revoke_heap)
next
  case (Hangup e)
  from assms have "hub_inv h" by (simp add: delivered_to_def)
  then show ?thesis
    using Hangup delivered_keep [OF assms hub_inv_pumps(2) [OF \<open>hub_inv h\<close>, of e]] by (simp add: readPump_end_def)
next
  case (Join e i)
  show ?thesis
  proof (cases "hb_heap h e")
    case None
    from assms None have ne: "e \<noteq> c" by (auto simp: delivered_to_def)
    obtain h' where h': "serveWS [wsProto] True i e h = WsConnected h'" by (auto simp: serveWS_def Let_def)
    from assms have "hub_inv h" by (simp add: delivered_to_def)
    from delivered_keep [OF assms hub_inv_serve [OF this h']] None ne h' Join show ?thesis
      by (auto simp: serveWS_def Let_def hub_register_def split: if_splits)
  qed (use assms Join in auto)
qed

lemma delivered_run: "delivered_to c ds st \<Longrightarrow> delivered_to c (ds @ casts ops) (fold hub_op_step ops st)"
proof (induction ops arbitrary: ds st)
  case (Cons op ops)
  obtain h out where "st = (h, out)" by fastforce
  with Cons.prems delivered_step [of c ds h out op] Cons.IH [of "ds @ casts [op]" "hub_op_step op st"] show ?case
    using casts_append [of "[op]" ops] by simp
qed simp

lemma delivered_start:
  assumes "hub_inv h0" and "serveWS [wsProto] True tok c h0 = WsConnected h1"
  shows "delivered_to c [] (h1, (\<lambda>_. []))"
  using hub_inv_serve [OF assms] assms(2)
  by (auto simp: delivered_to_def serveWS_def Let_def sendBufSize_def hub_register_def split: if_splits)

lemma pump_all:
  "hb_heap h c = Some k \<Longrightarrow> texts (snd (fold hub_op_step (replicate (length (cn_send k)) (PumpTurn c)) (h, out)) c) = texts (out c) @ cn_send k"
proof (induction "cn_send k" arbitrary: h k out)
  case (Cons f fs)
  let ?h = "upd_conn c (\<lambda>k. k\<lparr>cn_send := fs\<rparr>) h"
  have "hb_heap ?h c = Some (k\<lparr>cn_send := fs\<rparr>)" using Cons.prems by simp
  from Cons.hyps(1) [OF _ this, of "out(c := out c @ [TextFrame f])"] Cons.hyps(2) [symmetric] Cons.prems
  show ?case by (simp add: writePump_def)
qed simp



end
