(* ===== verification/Ws_Session.thy ===== *)
theory Ws_Session
  imports Ws_Delivery
begin

text \<open>
  The two goroutines of one connection, \<open>readPump\<close> and \<open>writePump\<close> of \<open>ws.go\<close>, with the socket between them:
  the ticker, the read deadline, failed writes, and how each of them ends. What arrives and when, and
  whether a write succeeds, are the events; the other operations of the hub happen in between.
\<close>

definition second :: int where "second = 1000000000"
definition pongWait :: int where "pongWait = 60 * second"
definition pingPeriod :: int where "pingPeriod = pongWait * 9 div 10"
definition maxMessageSize :: int where "maxMessageSize = 512 * 1024"

datatype wire = Frame pump_frame | Ping

text \<open>
  Whether the goroutines run, whether one of them has closed the socket, the deadline of the next read,
  and what has been written.
\<close>

record ws_session =
  wc_writer :: bool
  wc_reader :: bool
  wc_closed :: bool
  wc_deadline :: int
  wc_wire :: "wire list"

definition ws_start :: "int \<Rightarrow> ws_session" where
  "ws_start now = \<lparr>wc_writer = True, wc_reader = True, wc_closed = False, wc_deadline = now + pongWait, wc_wire = []\<rparr>"

definition writer_ends :: "ws_session \<Rightarrow> ws_session" where
  "writer_ends w = w\<lparr>wc_writer := False, wc_closed := True\<rparr>"

definition put_wire :: "bool \<Rightarrow> wire \<Rightarrow> ws_session \<Rightarrow> ws_session" where
  "put_wire ok x w = (if ok \<and> \<not> wc_closed w then w\<lparr>wc_wire := wc_wire w @ [x]\<rparr> else w)"

section \<open>The goroutines\<close>

text \<open>The case of the \<open>select\<close> that takes from the channel; it is not ready while the channel is empty and open.\<close>

definition writer_frame :: "nat \<Rightarrow> bool \<Rightarrow> hub \<times> ws_session \<Rightarrow> hub \<times> ws_session" where
  "writer_frame c ok hw =
     (case hw of (h, w) \<Rightarrow>
        if \<not> wc_writer w then (h, w)
        else (case writePump c h of
                (h', None) \<Rightarrow> (h', w)
              | (h', Some CloseFrame) \<Rightarrow> (h', writer_ends (put_wire ok (Frame CloseFrame) w))
              | (h', Some (TextFrame d)) \<Rightarrow>
                  (h', if ok \<and> \<not> wc_closed w then put_wire ok (Frame (TextFrame d)) w else writer_ends w)))"

definition writer_tick :: "bool \<Rightarrow> ws_session \<Rightarrow> ws_session" where
  "writer_tick ok w =
     (if \<not> wc_writer w then w else if ok \<and> \<not> wc_closed w then put_wire ok Ping w else writer_ends w)"

text \<open>A read that returns at \<open>t\<close>; \<open>bad\<close> is an error of the connection or a message above the limit.\<close>

definition reader_turn :: "nat \<Rightarrow> int \<Rightarrow> bool \<Rightarrow> (ws_session \<Rightarrow> ws_session) \<Rightarrow> hub \<times> ws_session \<Rightarrow> hub \<times> ws_session" where
  "reader_turn c t bad f hw =
     (case hw of (h, w) \<Rightarrow>
        if \<not> wc_reader w then (h, w)
        else if bad \<or> wc_closed w \<or> wc_deadline w \<le> t then (readPump_end c h, w\<lparr>wc_reader := False, wc_closed := True\<rparr>)
        else (h, f w))"

datatype ws_event = Written bool | Ticked bool | Received int int | Ponged int | Waited int | Broken int

fun ses_step :: "nat \<Rightarrow> ws_event \<Rightarrow> hub \<times> ws_session \<Rightarrow> hub \<times> ws_session" where
  "ses_step c (Written ok) hw = writer_frame c ok hw"
| "ses_step c (Ticked ok) hw = (fst hw, writer_tick ok (snd hw))"
| "ses_step c (Received t n) hw = reader_turn c t (maxMessageSize < n) id hw"
| "ses_step c (Ponged t) hw = reader_turn c t False (\<lambda>w. w\<lparr>wc_deadline := t + pongWait\<rparr>) hw"
| "ses_step c (Waited t) hw = reader_turn c t False id hw"
| "ses_step c (Broken t) hw = reader_turn c t True id hw"

text \<open>The connection among the other operations of the hub.\<close>

datatype run_event = Own ws_event | Other hub_op

fun run_step :: "nat \<Rightarrow> run_event \<Rightarrow> hub \<times> ws_session \<Rightarrow> hub \<times> ws_session" where
  "run_step c (Own e) hw = ses_step c e hw"
| "run_step c (Other op) hw =
     (if op = PumpTurn c \<or> op = Hangup c then hw else (fst (hub_op_step op (fst hw, \<lambda>_. [])), snd hw))"

fun run_casts :: "run_event list \<Rightarrow> jval list" where
  "run_casts [] = []"
| "run_casts (Other (Cast d) # es) = d # run_casts es"
| "run_casts (_ # es) = run_casts es"

fun sent :: "wire list \<Rightarrow> pump_frame list" where
  "sent [] = []"
| "sent (Frame f # ws) = f # sent ws"
| "sent (Ping # ws) = sent ws"

lemma sent_append [simp]: "sent (xs @ ys) = sent xs @ sent ys"
  by (induction xs rule: sent.induct) simp_all

section \<open>The hub behind it\<close>

lemma hub_op_fst: "fst (hub_op_step op (h, out)) = fst (hub_op_step op (h, out'))"
  by (cases op) (simp_all split: option.split prod.split ws_result.split)

lemma hub_op_other: "op \<noteq> PumpTurn c \<Longrightarrow> snd (hub_op_step op (h, out)) c = out c"
  by (cases op) (simp_all split: option.split prod.split ws_result.split)

text \<open>What the socket has against what the pump has taken from the channel: at most the last frame is lost.\<close>

definition behind :: "nat \<Rightarrow> ws_session \<Rightarrow> (nat \<Rightarrow> pump_frame list) \<Rightarrow> bool" where
  "behind c w out \<longleftrightarrow> (if wc_writer w then out c = sent (wc_wire w)
     else (\<exists>fs. length fs \<le> 1 \<and> out c = sent (wc_wire w) @ fs))"

lemma behind_keep: "behind c w out \<Longrightarrow> wc_writer w' = wc_writer w \<Longrightarrow> wc_wire w' = wc_wire w \<Longrightarrow> behind c w' out"
  unfolding behind_def by metis

lemma own_simulated:
  assumes "behind c w out" and "ses_step c e (h, w) = (h', w')"
  shows "\<exists>ops out'. casts ops = [] \<and> fold hub_op_step ops (h, out) = (h', out') \<and> behind c w' out'"
proof -
  have skip: ?thesis if "h' = h" "behind c w' out"
    using that by (intro exI [of _ "[]"]) simp
  have reader: ?thesis
    if e: "reader_turn c t bad f (h, w) = (h', w')" and f: "wc_writer (f w) = wc_writer w" "wc_wire (f w) = wc_wire w" for t bad f
  proof (cases "\<not> wc_reader w \<or> \<not> (bad \<or> wc_closed w \<or> wc_deadline w \<le> t)")
    case True
    with e f show ?thesis by (intro skip) (auto simp: reader_turn_def intro: behind_keep [OF assms(1)] split: if_splits)
  next
    case False
    with e have "h' = readPump_end c h" "wc_writer w' = wc_writer w" "wc_wire w' = wc_wire w" by (auto simp: reader_turn_def)
    with behind_keep [OF assms(1)] show ?thesis by (intro exI [of _ "[Hangup c]"]) simp
  qed
  show ?thesis
  proof (cases e)
    case (Written ok)
    show ?thesis
    proof (cases "wc_writer w")
      case True
      obtain h1 f where p: "writePump c h = (h1, f)" by fastforce
      show ?thesis
      proof (cases f)
        case None
        with p have "h1 = h" by (auto simp: writePump_def split: option.splits list.splits)
        with None p Written True assms show ?thesis by (intro skip) (simp_all add: writer_frame_def)
      next
        case (Some x)
        with p Written True assms show ?thesis
          by (intro exI [of _ "[PumpTurn c]"])
            (auto simp: writer_frame_def behind_def put_wire_def writer_ends_def split: pump_frame.splits if_splits)
      qed
    next
      case False
      with Written assms show ?thesis by (intro skip) (simp_all add: writer_frame_def)
    qed
  next
    case (Ticked ok)
    with assms show ?thesis
      by (intro skip) (auto simp: writer_tick_def behind_def put_wire_def writer_ends_def intro: exI [of _ "[]"])
  qed (use assms(2) reader in auto)
qed

lemma run_simulated:
  assumes "fold (run_step c) es (h, w) = (h', w')" and "behind c w out"
  shows "\<exists>ops out'. casts ops = run_casts es \<and> fold hub_op_step ops (h, out) = (h', out') \<and> behind c w' out'"
  using assms
proof (induction es arbitrary: h w out)
  case Nil
  then show ?case by (intro exI [of _ "[]"]) simp
next
  case (Cons e es)
  obtain h1 w1 where s: "run_step c e (h, w) = (h1, w1)" by fastforce
  have "\<exists>ops out1. casts ops = run_casts [e] \<and> fold hub_op_step ops (h, out) = (h1, out1) \<and> behind c w1 out1"
  proof (cases e)
    case (Own x)
    with own_simulated [OF Cons.prems(2)] s show ?thesis by simp
  next
    case (Other op)
    show ?thesis
    proof (cases "op = PumpTurn c \<or> op = Hangup c")
      case True
      with Other s Cons.prems(2) show ?thesis by (intro exI [of _ "[]"]) auto
    next
      case False
      obtain h2 out1 where o: "hub_op_step op (h, out) = (h2, out1)" by fastforce
      with hub_op_fst [of op h out "\<lambda>_. []"] False Other s have "h2 = h1" "w1 = w" by auto
      moreover have "behind c w out1" using hub_op_other [of op c h out] o False Cons.prems(2) by (auto simp: behind_def)
      moreover have "casts [op] = run_casts [e]" using Other by (cases op) simp_all
      ultimately show ?thesis using o by (intro exI [of _ "[op]"]) simp
    qed
  qed
  then obtain ops out1 where one: "casts ops = run_casts [e]" "fold hub_op_step ops (h, out) = (h1, out1)" "behind c w1 out1"
    by blast
  from Cons.prems(1) s have "fold (run_step c) es (h1, w1) = (h', w')" by simp
  from Cons.IH [OF this one(3)] obtain ops' out' where
    two: "casts ops' = run_casts es" "fold hub_op_step ops' (h1, out1) = (h', out')" "behind c w' out'" by blast
  have "run_casts (e # es) = run_casts [e] @ run_casts es" by (cases e; cases "case e of Other op \<Rightarrow> op | _ \<Rightarrow> Cast JNull") auto
  with one two show ?case by (intro exI [of _ "ops @ ops'"]) auto
qed

text \<open>A fresh connection, and what holds of it and the hub afterwards.\<close>

definition ses_inv :: "nat \<Rightarrow> hub \<times> ws_session \<Rightarrow> bool" where
  "ses_inv c hw \<longleftrightarrow> (case hw of (h, w) \<Rightarrow> hub_inv h \<and> hb_heap h c \<noteq> None
     \<and> (wc_closed w \<longleftrightarrow> \<not> (wc_writer w \<and> wc_reader w)) \<and> (\<not> wc_reader w \<longrightarrow> c \<notin> set (hb_conns h)))"

lemma ses_inv_own: "ses_inv c (h, w) \<Longrightarrow> ses_inv c (ses_step c e (h, w))"
  using hub_inv_pumps [of h c]
  by (cases e)
    (auto simp: ses_inv_def writer_frame_def writer_tick_def reader_turn_def put_wire_def writer_ends_def writePump_def readPump_end_def
      split: option.splits list.splits)

lemma ses_inv_other:
  assumes "ses_inv c (h, w)"
  shows "ses_inv c (run_step c (Other op) (h, w))"
proof -
  have inv: "hub_inv h" and heap: "hb_heap h c \<noteq> None" using assms by (simp_all add: ses_inv_def)
  have "hub_inv h' \<and> hb_heap h' c \<noteq> None \<and> (c \<in> set (hb_conns h') \<longrightarrow> c \<in> set (hb_conns h))"
    if "h' = fst (hub_op_step op (h, \<lambda>_. []))" for h'
  proof (cases op)
    case (Cast d)
    obtain h1 where "Broadcast d h = Some h1" "hub_inv h1" "hb_conns h1 = filter (stays h) (hb_conns h)"
      "\<forall>e. hb_heap h1 e = (if e \<in> set (hb_conns h) then map_option (after_send d h) (hb_heap h e) else hb_heap h e)"
      using Broadcast_spec [OF inv, of d] by blast
    with that Cast heap show ?thesis by auto
  next
    case (PumpTurn e)
    with that inv heap hub_inv_pumps(1) [OF inv, of e] show ?thesis by (auto simp: writePump_def split: option.splits list.splits)
  next
    case (Revoke i)
    with that heap hub_inv_Revoke [OF inv, of i] show ?thesis by (auto simp: Revoke_conns Revoke_heap)
  next
    case (Hangup e)
    with that heap hub_inv_pumps(2) [OF inv, of e] show ?thesis by (auto simp: readPump_end_def)
  next
    case (Join e i)
    obtain h1 where s: "serveWS [wsProto] True i e h = WsConnected h1" by (auto simp: serveWS_def Let_def)
    have "hb_heap h1 c \<noteq> None \<and> (c \<in> set (hb_conns h1) \<longrightarrow> c \<in> set (hb_conns h))" if "e \<noteq> c"
      using s that heap by (auto simp: serveWS_def Let_def hub_register_def split: if_splits)
    with that s inv heap Join hub_inv_serve [OF inv s] show ?thesis by (cases "e = c") auto
  qed
  then show ?thesis using assms by (auto simp: ses_inv_def)
qed

lemma ses_inv_run: "ses_inv c hw \<Longrightarrow> ses_inv c (fold (run_step c) es hw)"
proof (induction es arbitrary: hw)
  case (Cons e es)
  obtain h w where "hw = (h, w)" by fastforce
  with Cons.prems ses_inv_own [of c h w] ses_inv_other [of c h w] have "ses_inv c (run_step c e hw)" by (cases e) simp_all
  from Cons.IH [OF this] show ?case by simp
qed simp

lemma ses_inv_start:
  assumes "hub_inv h0" and "serveWS ps True tok c h0 = WsConnected h"
  shows "ses_inv c (h, ws_start now)"
proof -
  have "hb_heap h c \<noteq> None" using assms(2) by (auto simp: serveWS_def Let_def hub_register_def split: if_splits)
  with hub_inv_serve [OF assms] show ?thesis by (simp add: ses_inv_def ws_start_def)
qed

lemma queue_bounded:
  assumes "hub_inv h0" and "serveWS [wsProto] True tok c h0 = WsConnected h1"
    and "fold (run_step c) es (h1, ws_start now) = (h, w)"
  shows "\<exists>k. hb_heap h c = Some k \<and> length (cn_send k) \<le> 256"
proof -
  have "behind c (ws_start now) (\<lambda>_. [])" by (simp add: behind_def ws_start_def)
  from run_simulated [OF assms(3) this] obtain ops out where
    sim: "fold hub_op_step ops (h1, \<lambda>_. []) = (h, out)" by blast
  from delivered_run [OF delivered_start [OF assms(1,2)], of ops] show ?thesis
    unfolding sim by (auto simp: delivered_to_def sendBufSize_def)
qed

section \<open>What a client gets\<close>

text \<open>
  A connection and its two goroutines refine the hub's view of a client, whatever the other requests do
  meanwhile: the text frames that have been written to the socket, between pings, are an initial segment of
  the reconnect marker and everything broadcast since. While both goroutines run and the connection is in
  the hub, those and the frames that wait are all of it. A goroutine that has ended has closed the socket,
  and a reader that has ended has taken the connection out of the hub.
\<close>

theorem socket_gets_prefix:
  assumes "hub_inv h0" and "serveWS [wsProto] True tok c h0 = WsConnected h1"
    and "fold (run_step c) es (h1, ws_start now) = (h, w)"
  shows "(\<exists>m. texts (sent (wc_wire w)) = take m (reconnect_frame # run_casts es))
    \<and> (wc_writer w \<and> c \<in> set (hb_conns h) \<longrightarrow>
         (\<exists>k. hb_heap h c = Some k \<and> texts (sent (wc_wire w)) @ cn_send k = reconnect_frame # run_casts es))
    \<and> (wc_closed w \<longleftrightarrow> \<not> (wc_writer w \<and> wc_reader w)) \<and> (\<not> wc_reader w \<longrightarrow> c \<notin> set (hb_conns h))"
proof -
  have "behind c (ws_start now) (\<lambda>_. [])" by (simp add: behind_def ws_start_def)
  from run_simulated [OF assms(3) this] obtain ops out where
    sim: "casts ops = run_casts es" "fold hub_op_step ops (h1, \<lambda>_. []) = (h, out)" "behind c w out" by blast
  have "delivered_to c [] (h1, \<lambda>_. [])" by (rule delivered_start [OF assms(1,2)])
  from delivered_run [OF this, of ops] obtain k m where
    del: "hb_heap h c = Some k" "texts (out c) @ cn_send k = reconnect_frame # take m (run_casts es)"
      "c \<in> set (hb_conns h) \<longrightarrow> m = length (run_casts es)"
    unfolding sim(1,2) by (auto simp: delivered_to_def)
  obtain fs where out: "out c = sent (wc_wire w) @ fs" "wc_writer w \<longrightarrow> fs = []" using sim(3) by (auto simp: behind_def split: if_splits)
  have "texts (sent (wc_wire w)) = take (length (texts (sent (wc_wire w)))) (take (Suc m) (reconnect_frame # run_casts es))"
    using del(2) by (simp add: out(1) append_eq_conv_conj)
  then have "\<exists>m. texts (sent (wc_wire w)) = take m (reconnect_frame # run_casts es)" by (metis take_take)
  moreover have "ses_inv c (h, w)" using ses_inv_run [OF ses_inv_start [OF assms(1,2)], of es] assms(3) by metis
  ultimately show ?thesis using del out by (auto simp: ses_inv_def)
qed

definition joined :: hub where
  "joined = (case serveWS [wsProto] True ''t'' 7 NewHub of WsConnected h \<Rightarrow> h | _ \<Rightarrow> NewHub)"

lemma joined_serve: "serveWS [wsProto] True ''t'' 7 NewHub = WsConnected joined"
  by (simp add: joined_def serveWS_def Let_def)

theorem socket_gets_prefix_witness:
  "\<exists>h w m. fold (run_step 7) [Other (Cast (JStr ''a'')), Own (Written True), Own (Ticked True), Own (Written False)] (joined, ws_start 0) = (h, w)
     \<and> texts (sent (wc_wire w)) = take m [reconnect_frame, JStr ''a''] \<and> wc_closed w = (\<not> (wc_writer w \<and> wc_reader w))"
proof -
  let ?es = "[Other (Cast (JStr ''a'')), Own (Written True), Own (Ticked True), Own (Written False)]"
  obtain h w where r: "fold (run_step 7) ?es (joined, ws_start 0) = (h, w)" by fastforce
  from socket_gets_prefix [OF hub_inv_New joined_serve r] r show ?thesis by auto
qed

section \<open>How a connection ends\<close>

definition ended :: "nat \<Rightarrow> hub \<times> ws_session \<Rightarrow> bool" where
  "ended c hw \<longleftrightarrow> \<not> wc_writer (snd hw) \<and> \<not> wc_reader (snd hw) \<and> c \<notin> set (hb_conns (fst hw))"

lemma closed_ends:
  assumes "ses_inv c (h, w)" and "wc_closed w"
  shows "ended c (fold (ses_step c) [Waited t, Ticked ok] (h, w))"
  using assms
  by (auto simp: ended_def ses_inv_def reader_turn_def writer_tick_def writer_ends_def put_wire_def readPump_end_def)

text \<open>A channel that is closed is drained, with a close frame at the end.\<close>

lemma drain_ends:
  assumes "ses_inv c (h, w)" and "hb_heap h c = Some k" and "cn_closed k"
  shows "\<exists>h' w'. fold (ses_step c) (replicate (Suc (length (cn_send k))) (Written ok)) (h, w) = (h', w')
    \<and> ses_inv c (h', w') \<and> \<not> wc_writer w'"
  using assms
proof (induction "cn_send k" arbitrary: h w k)
  case Nil
  obtain h1 w1 where s: "ses_step c (Written ok) (h, w) = (h1, w1)" by fastforce
  from Nil s have "\<not> wc_writer w1"
    by (cases "wc_writer w") (auto simp: writer_frame_def writePump_def writer_ends_def simp flip: Nil.hyps)
  moreover have "ses_inv c (h1, w1)" using ses_inv_own [OF Nil.prems(1), of "Written ok"] s by simp
  ultimately show ?case using s by (simp flip: Nil.hyps)
next
  case (Cons f fs)
  obtain h1 w1 where s: "ses_step c (Written ok) (h, w) = (h1, w1)" by fastforce
  have inv: "ses_inv c (h1, w1)" using ses_inv_own [OF Cons.prems(1), of "Written ok"] s by simp
  show ?case
  proof (cases "wc_writer w")
    case True
    with s Cons.hyps(2) [symmetric] Cons.prems(2) have "h1 = upd_conn c (\<lambda>k. k\<lparr>cn_send := fs\<rparr>) h"
      by (auto simp: writer_frame_def writePump_def)
    then have "hb_heap h1 c = Some (k\<lparr>cn_send := fs\<rparr>)" using Cons.prems(2) by simp
    from Cons.hyps(1) [OF _ inv this] Cons.prems(3) Cons.hyps(2) [symmetric] s show ?thesis by simp
  next
    case False
    then have "fold (ses_step c) (replicate n (Written ok)) (h, w) = (h, w)" for n
      by (induction n) (simp_all add: writer_frame_def)
    then show ?thesis using False Cons.prems(1) by blast
  qed
qed

text \<open>
  C9: No connection stays half open. As soon as one goroutine has ended, for whatever reason, one turn of the
  reader and one tick of the writer end the other and leave the connection out of the hub; and when the
  hub has closed the channel of a client, because its token was revoked or it was too slow, the writer ends
  after at most 257 turns, whether they succeed or not, and the reader with its next turn.
\<close>

theorem connection_ends:
  assumes "hub_inv h0" and "serveWS [wsProto] True tok c h0 = WsConnected h1"
    and "fold (run_step c) es (h1, ws_start now) = (h, w)"
  shows "(\<not> (wc_writer w \<and> wc_reader w) \<longrightarrow> ended c (fold (ses_step c) [Waited t, Ticked ok] (h, w)))
    \<and> (\<exists>k. hb_heap h c = Some k \<and> (cn_closed k \<longrightarrow>
           (\<exists>n \<le> 257. ended c (fold (ses_step c) (replicate n (Written ok) @ [Waited t]) (h, w)))))"
proof -
  have inv: "ses_inv c (h, w)" using ses_inv_run [OF ses_inv_start [OF assms(1,2)], of es] assms(3) by metis
  obtain k where k: "hb_heap h c = Some k" "length (cn_send k) \<le> 256" using queue_bounded [OF assms] by blast
  have "\<exists>n \<le> 257. ended c (fold (ses_step c) (replicate n (Written ok) @ [Waited t]) (h, w))" if closed: "cn_closed k"
  proof -
    obtain h' w' where d: "fold (ses_step c) (replicate (Suc (length (cn_send k))) (Written ok)) (h, w) = (h', w')"
      "ses_inv c (h', w')" "\<not> wc_writer w'"
      using drain_ends [OF inv k(1) closed] by blast
    then have "ended c (ses_step c (Waited t) (h', w'))"
      by (auto simp: ended_def ses_inv_def reader_turn_def readPump_end_def)
    with d(1) k(2) show ?thesis by (intro exI [of _ "Suc (length (cn_send k))"]) (simp del: replicate_Suc)
  qed
  moreover have "ended c (fold (ses_step c) [Waited t, Ticked ok] (h, w))" if "\<not> (wc_writer w \<and> wc_reader w)"
    by (rule closed_ends [OF inv]) (use that inv in \<open>simp add: ses_inv_def\<close>)
  ultimately show ?thesis using k(1) by blast
qed

theorem connection_ends_witness:
  "\<exists>n \<le> 257. ended 7 (fold (ses_step 7) (replicate n (Written False) @ [Waited 5]) (hub_RevokeToken ''t'' joined, ws_start 0))"
proof -
  have r: "fold (run_step 7) [Other (Revoke ''t'')] (joined, ws_start 0) = (hub_RevokeToken ''t'' joined, ws_start 0)" by simp
  have "\<exists>k. hb_heap (hub_RevokeToken ''t'' joined) 7 = Some k \<and> cn_closed k"
    by (simp add: joined_def serveWS_def Let_def hub_RevokeToken_def victims_def tokenID_of_def hub_register_def NewHub_def fold_close)
  with connection_ends [OF hub_inv_New joined_serve r, of 5 False] show ?thesis by auto
qed

section \<open>Pings and deadlines\<close>

text \<open>The ticks of the writer and the answers of a client that comes back to each after a delay.\<close>

fun beats :: "int \<Rightarrow> int list \<Rightarrow> ws_event list" where
  "beats t [] = []"
| "beats t (d # ds) = Ticked True # Ponged (t + d) # beats (t + pingPeriod) ds"

definition slack :: int where "slack = 6 * second"

lemma slack_wait: "pongWait = pingPeriod + slack"
  by (simp add: pongWait_def pingPeriod_def slack_def second_def)

lemma beats_alive:
  assumes "\<forall>d \<in> set ds. 0 \<le> d \<and> d < slack" and "wc_writer w" "wc_reader w" "\<not> wc_closed w" and "t + slack \<le> wc_deadline w"
  shows "\<exists>w'. fold (ses_step c) (beats t ds) (h, w) = (h, w') \<and> wc_writer w' \<and> wc_reader w' \<and> \<not> wc_closed w'
    \<and> wc_deadline w' = (if ds = [] then wc_deadline w else t + int (length ds - 1) * pingPeriod + last ds + pongWait)
    \<and> wc_wire w' = wc_wire w @ replicate (length ds) Ping"
  using assms
proof (induction ds arbitrary: t w)
  case (Cons d ds)
  let ?w = "w\<lparr>wc_wire := wc_wire w @ [Ping], wc_deadline := t + d + pongWait\<rparr>"
  have step: "fold (ses_step c) (beats t (d # ds)) (h, w) = fold (ses_step c) (beats (t + pingPeriod) ds) (h, ?w)"
    using Cons.prems by (simp add: writer_tick_def put_wire_def reader_turn_def)
  have "t + pingPeriod + slack \<le> wc_deadline ?w" using Cons.prems(1) slack_wait by simp
  with Cons.IH [of ?w "t + pingPeriod"] Cons.prems obtain w' where
    w': "fold (ses_step c) (beats (t + pingPeriod) ds) (h, ?w) = (h, w')" "wc_writer w'" "wc_reader w'" "\<not> wc_closed w'"
      "wc_deadline w' = (if ds = [] then wc_deadline ?w else t + pingPeriod + int (length ds - 1) * pingPeriod + last ds + pongWait)"
      "wc_wire w' = wc_wire ?w @ replicate (length ds) Ping" by auto
  have "int (length ds) * pingPeriod = pingPeriod + int (length ds - 1) * pingPeriod" if "ds \<noteq> []"
    using that by (cases ds) (simp_all add: algebra_simps)
  with w' step show ?case by (auto simp: replicate_append_same [symmetric] algebra_simps)
qed simp

text \<open>
  C10: A client that answers every ping within six seconds, however long the connection lasts, is never
  dropped: the writer's period leaves exactly that slack before the read deadline,
  which lies 60 seconds after the last answer. A client that goes silent is dropped at that deadline and
  out of the hub; and six seconds are the bound, since one answer without delay and one that takes
  six seconds lose the connection.
\<close>

theorem keepalive:
  assumes "\<forall>d \<in> set ds. 0 \<le> d \<and> d < 6 * second" and "ds \<noteq> []"
  shows "\<exists>w. fold (ses_step c) (beats (now + pingPeriod) ds) (h, ws_start now) = (h, w)
    \<and> wc_writer w \<and> wc_reader w \<and> \<not> wc_closed w \<and> wc_wire w = replicate (length ds) Ping
    \<and> wc_deadline w = now + int (length ds) * pingPeriod + last ds + pongWait
    \<and> (\<forall>t. wc_deadline w \<le> t \<longrightarrow> ended c (fold (ses_step c) [Waited t, Ticked ok] (h, w)))
    \<and> \<not> wc_reader (snd (fold (ses_step c) (beats (now + pingPeriod) [0, 6 * second]) (h, ws_start now)))"
proof -
  have "now + pingPeriod + slack \<le> wc_deadline (ws_start now)" using slack_wait by (simp add: ws_start_def)
  from beats_alive [OF _ _ _ _ this, of ds c h] assms(1) obtain w where
    w: "fold (ses_step c) (beats (now + pingPeriod) ds) (h, ws_start now) = (h, w)" "wc_writer w" "wc_reader w" "\<not> wc_closed w"
      "wc_deadline w = now + pingPeriod + int (length ds - 1) * pingPeriod + last ds + pongWait" "wc_wire w = replicate (length ds) Ping"
    using assms(2) by (auto simp: ws_start_def slack_def)
  have "int (length ds) * pingPeriod = pingPeriod + int (length ds - 1) * pingPeriod"
    using assms(2) by (cases ds) (simp_all add: algebra_simps)
  moreover have "ended c (fold (ses_step c) [Waited t, Ticked ok] (h, w))" if "wc_deadline w \<le> t" for t
    using that w by (simp add: ended_def reader_turn_def writer_tick_def writer_ends_def readPump_end_def)
  moreover have "\<not> wc_reader (snd (fold (ses_step c) (beats (now + pingPeriod) [0, 6 * second]) (h, ws_start now)))"
    by (simp add: ws_start_def writer_tick_def put_wire_def reader_turn_def pingPeriod_def pongWait_def second_def)
  ultimately show ?thesis using w by simp
qed

theorem keepalive_witness:
  "\<exists>w. fold (ses_step 7) (beats pingPeriod [second, 3 * second]) (joined, ws_start 0) = (joined, w) \<and> wc_reader w \<and> wc_wire w = [Ping, Ping]"
proof -
  have "\<forall>d \<in> set [second, 3 * second]. 0 \<le> d \<and> d < 6 * second" by (simp add: second_def)
  from keepalive [OF this, of 7 0 joined True] show ?thesis by (auto simp: numeral_2_eq_2)
qed

end
