(* ===== verification/Discovery.thy ===== *)
theory Discovery
  imports Go_Json
begin

text \<open>
  \<open>internal/discovery\<close>: the registry of running servers, one JSON file shared by all processes, and the
  choice of a port. The file is its JSON value, or \<open>None\<close> when it cannot be read or is not JSON. What the
  operating system answers is a parameter: \<open>get\<close> is the status of an HTTP request, \<open>signal\<close> whether a
  process can be signalled, \<open>mkdir\<close> and \<open>write\<close> the errors of creating the directory and of the write.
\<close>

definition ds_DefaultPort :: int where "ds_DefaultPort = 7681"

record server_info =
  si_Port :: int
  si_PID :: int
  si_StartedAt :: string
  si_SocketPath :: string

type_synonym registry_file = "jval option"

definition enc_info :: "server_info \<Rightarrow> jval" where
  "enc_info s =
     JObj [(''port'', JNum (si_Port s)), (''pid'', JNum (si_PID s)), (''started_at'', JStr (si_StartedAt s)),
           (''socket_path'', JStr (si_SocketPath s))]"

definition dec_info :: "jval \<Rightarrow> server_info result" where
  "dec_info v =
     bindr (dec_obj v) (\<lambda>fs.
     bindr (dec_int (jfield ''port'' fs)) (\<lambda>p.
     bindr (dec_int (jfield ''pid'' fs)) (\<lambda>i.
     bindr (dec_str (jfield ''started_at'' fs)) (\<lambda>a.
     bindr (dec_str (jfield ''socket_path'' fs)) (\<lambda>k.
       Inr \<lparr>si_Port = p, si_PID = i, si_StartedAt = a, si_SocketPath = k\<rparr>)))))"

definition probe :: "(string \<Rightarrow> nat result) \<Rightarrow> int \<Rightarrow> go_err option" where
  "probe get port =
     (case get (''http://127.0.0.1:'' @ show_int port @ ''/api/v1/ping'') of
        Inl e \<Rightarrow> Some e
      | Inr status \<Rightarrow> if status \<noteq> 200 then Some (Errorf ''unexpected status %d'' [AInt (int status)]) else None)"

definition ReadRegistry :: "registry_file \<Rightarrow> server_info list" where
  "ReadRegistry f =
     (case f of
        None \<Rightarrow> []
      | Some v \<Rightarrow> (case dec_list dec_info v of Inl _ \<Rightarrow> [] | Inr servers \<Rightarrow> servers))"

definition Resolve :: "(string \<Rightarrow> nat result) \<Rightarrow> registry_file \<Rightarrow> int \<Rightarrow> int result" where
  "Resolve get f port =
     (if 0 < port then
        (case probe get port of
           Some e \<Rightarrow> Inl (Wrapf ''no rdw server responding on port %d: %w'' [AInt port] e)
         | None \<Rightarrow> Inr port)
      else if probe get ds_DefaultPort = None then Inr ds_DefaultPort
      else
        let servers = ReadRegistry f in
        if servers = [] then
          Inl (Errorf ''no rdw server found on default port %d; start one with: rdw server start'' [AInt ds_DefaultPort])
        else
          Inl (Errorf ''no rdw server on default port %d; running servers: %s; use --port <port> to select one''
            (AInt ds_DefaultPort # concat (map (\<lambda>s. [AInt (si_Port s), AInt (si_PID s), AStr (si_StartedAt s)]) servers))))"

definition writeRegistry :: "go_err option \<Rightarrow> go_err option \<Rightarrow> server_info list \<Rightarrow> registry_file \<Rightarrow> registry_file \<times> go_err option" where
  "writeRegistry mkdir write servers f =
     (case mkdir of
        Some e \<Rightarrow> (f, Some (Wrapf ''creating registry directory: %w'' [] e))
      | None \<Rightarrow> (case write of Some e \<Rightarrow> (f, Some e) | None \<Rightarrow> (Some (JArr (map enc_info servers)), None)))"

definition with_entry :: "server_info \<Rightarrow> server_info list \<Rightarrow> server_info list" where
  "with_entry info servers = filter (\<lambda>s. si_Port s \<noteq> si_Port info) servers @ [info]"

definition ds_Register :: "go_err option \<Rightarrow> go_err option \<Rightarrow> server_info \<Rightarrow> registry_file \<Rightarrow> registry_file \<times> go_err option" where
  "ds_Register mkdir write info f = writeRegistry mkdir write (with_entry info (ReadRegistry f)) f"

definition ds_Deregister :: "go_err option \<Rightarrow> go_err option \<Rightarrow> int \<Rightarrow> registry_file \<Rightarrow> registry_file \<times> go_err option" where
  "ds_Deregister mkdir write port f =
     writeRegistry mkdir write (filter (\<lambda>s. si_Port s \<noteq> port) (ReadRegistry f)) f"

definition processAlive :: "(int \<Rightarrow> bool) \<Rightarrow> int \<Rightarrow> bool" where
  "processAlive signal pid = (if pid \<le> 0 then False else signal pid)"

definition PruneStale ::
    "go_err option \<Rightarrow> go_err option \<Rightarrow> (int \<Rightarrow> bool) \<Rightarrow> registry_file \<Rightarrow> registry_file \<times> go_err option" where
  "PruneStale mkdir write signal f =
     (let servers = ReadRegistry f in
      if servers = [] then (f, None)
      else writeRegistry mkdir write (filter (\<lambda>s. processAlive signal (si_PID s)) servers) f)"

section \<open>The registry as a map from ports\<close>

definition info_ok :: "server_info \<Rightarrow> bool" where
  "info_ok s \<longleftrightarrow> int64 (si_Port s) \<and> int64 (si_PID s)"

definition file_ok :: "registry_file \<Rightarrow> bool" where
  "file_ok f \<longleftrightarrow> distinct (map si_Port (ReadRegistry f)) \<and> list_all info_ok (ReadRegistry f)"

definition entries :: "registry_file \<Rightarrow> int \<Rightarrow> server_info option" where
  "entries f = map_of (map (\<lambda>s. (si_Port s, s)) (ReadRegistry f))"

lemma enc_info_dec: "info_ok s \<Longrightarrow> dec_info (enc_info s) = Inr s"
  by (cases s) (simp add: dec_info_def enc_info_def jfield_Cons ascii_lower_def info_ok_def dec_int_JNum del: dec_int.simps)

lemma Read_written: "list_all info_ok ss \<Longrightarrow> ReadRegistry (Some (JArr (map enc_info ss))) = ss"
  using mapr_map [of ss dec_info enc_info id] by (simp add: ReadRegistry_def list_all_iff enc_info_dec)

lemma entries_filter:
  "distinct (map si_Port ss) \<Longrightarrow> map_of (map (\<lambda>s. (si_Port s, s)) (filter P ss)) p
     = (case map_of (map (\<lambda>s. (si_Port s, s)) ss) p of None \<Rightarrow> None | Some s \<Rightarrow> if P s then Some s else None)"
proof (induction ss)
  case (Cons s ss)
  have "map_of (map (\<lambda>s. (si_Port s, s)) (filter P ss)) p = None" if "si_Port s = p"
    using that Cons.prems by (auto simp: map_of_eq_None_iff)
  with Cons show ?case by auto
qed simp

lemma map_filter_distinct: "distinct (map f xs) \<Longrightarrow> distinct (map f (filter P xs))"
  by (induction xs) auto

lemma entry_port: "map_of (map (\<lambda>s. (si_Port s, s)) ss) p = Some x \<Longrightarrow> si_Port x = p"
  by (auto dest: map_of_SomeD)

lemma written:
  assumes "distinct (map si_Port ss)" and "list_all info_ok ss"
  shows "ReadRegistry (fst (writeRegistry None None ss f)) = ss" and "file_ok (fst (writeRegistry None None ss f))"
    and "entries (fst (writeRegistry None None ss f)) = map_of (map (\<lambda>s. (si_Port s, s)) ss)"
  using assms Read_written [OF assms(2)] by (simp_all add: writeRegistry_def file_ok_def entries_def)

lemma with_entry_ok:
  assumes "file_ok f" and "info_ok info"
  shows "distinct (map si_Port (with_entry info (ReadRegistry f)))" and "list_all info_ok (with_entry info (ReadRegistry f))"
    and "map_of (map (\<lambda>s. (si_Port s, s)) (with_entry info (ReadRegistry f))) = (entries f)(si_Port info \<mapsto> info)"
proof -
  have d: "distinct (map si_Port (ReadRegistry f))" using assms(1) by (simp add: file_ok_def)
  show "distinct (map si_Port (with_entry info (ReadRegistry f)))"
    using map_filter_distinct [OF d] by (auto simp: with_entry_def)
  show "list_all info_ok (with_entry info (ReadRegistry f))" using assms by (simp add: with_entry_def file_ok_def list_all_iff)
  show "map_of (map (\<lambda>s. (si_Port s, s)) (with_entry info (ReadRegistry f))) = (entries f)(si_Port info \<mapsto> info)"
    by (rule ext) (auto simp: with_entry_def map_add_def entries_filter [OF d] entries_def dest: entry_port split: option.split)
qed

lemma filtered_ok:
  assumes "file_ok f"
  shows "distinct (map si_Port (filter P (ReadRegistry f)))" and "list_all info_ok (filter P (ReadRegistry f))"
    and "map_of (map (\<lambda>s. (si_Port s, s)) (filter P (ReadRegistry f))) p =
      (case entries f p of None \<Rightarrow> None | Some s \<Rightarrow> if P s then Some s else None)"
  using assms map_filter_distinct by (auto simp: file_ok_def list_all_iff entries_filter entries_def)

text \<open>
  The registry file is a map from ports to servers: registering a server sets the entry of its port
  and no other, deregistering removes the entry of the port and no other, and pruning removes exactly
  the entries of dead processes, each as read back from the file; ports stay distinct, and an operation
  whose directory or file cannot be written changes nothing and returns the error.
\<close>

theorem registry_map:
  assumes "file_ok f" and "info_ok info"
  shows "entries (fst (ds_Register None None info f)) = (entries f)(si_Port info \<mapsto> info)
    \<and> entries (fst (ds_Deregister None None port f)) = (entries f)(port := None)
    \<and> (\<forall>p. entries (fst (PruneStale None None signal f)) p =
         (case entries f p of None \<Rightarrow> None | Some s \<Rightarrow> if 0 < si_PID s \<and> signal (si_PID s) then Some s else None))
    \<and> file_ok (fst (ds_Register None None info f)) \<and> file_ok (fst (ds_Deregister None None port f))
    \<and> file_ok (fst (PruneStale None None signal f))
    \<and> fst (ds_Register mk (Some e) info f) = f \<and> snd (ds_Register mk (Some e) info f) \<noteq> None"
proof -
  note reg = with_entry_ok [OF assms] and flt = filtered_ok [OF assms(1)]
  have "entries (fst (ds_Register None None info f)) = (entries f)(si_Port info \<mapsto> info)"
    unfolding ds_Register_def written(3) [OF reg(1,2)] by (rule reg(3))
  moreover have "entries (fst (ds_Deregister None None port f)) p = ((entries f)(port := None)) p" for p
    unfolding ds_Deregister_def written(3) [OF flt(1,2)] flt(3)
    by (auto simp: entries_def dest: entry_port split: option.split)
  moreover have "entries (fst (PruneStale None None signal f)) p =
      (case entries f p of None \<Rightarrow> None | Some s \<Rightarrow> if 0 < si_PID s \<and> signal (si_PID s) then Some s else None)" for p
  proof (cases "ReadRegistry f = []")
    case True
    then show ?thesis by (simp add: PruneStale_def entries_def)
  next
    case False
    then have "entries (fst (PruneStale None None signal f)) p =
        map_of (map (\<lambda>s. (si_Port s, s)) (filter (\<lambda>s. processAlive signal (si_PID s)) (ReadRegistry f))) p"
      by (simp add: PruneStale_def Let_def written(3) [OF flt(1,2)])
    then show ?thesis by (auto simp: flt(3) processAlive_def split: option.split)
  qed
  moreover have "file_ok (fst (ds_Register None None info f))" unfolding ds_Register_def by (rule written(2) [OF reg(1,2)])
  moreover have "file_ok (fst (ds_Deregister None None port f))" unfolding ds_Deregister_def by (rule written(2) [OF flt(1,2)])
  moreover have "file_ok (fst (PruneStale None None signal f))"
    using assms(1) written(2) [OF flt(1,2)] by (simp add: PruneStale_def Let_def)
  moreover have "fst (ds_Register mk (Some e) info f) = f \<and> snd (ds_Register mk (Some e) info f) \<noteq> None"
    by (simp add: ds_Register_def writeRegistry_def split: option.split)
  ultimately show ?thesis by (simp add: fun_eq_iff)
qed

definition info_example :: "int \<Rightarrow> server_info" where
  "info_example p = \<lparr>si_Port = p, si_PID = 100 + p, si_StartedAt = ''now'', si_SocketPath = ''/run/rdw''\<rparr>"

theorem registry_map_witness:
  "entries (fst (ds_Register None None (info_example 7682) (Some (JArr [enc_info (info_example 7681)])))) 7682 = Some (info_example 7682)
   \<and> entries (fst (ds_Register None None (info_example 7682) (Some (JArr [enc_info (info_example 7681)])))) 7681 = Some (info_example 7681)"
proof -
  have i: "info_ok (info_example p)" if "p = 7681 \<or> p = 7682" for p
    using that by (auto simp: info_ok_def info_example_def int64_def)
  have r: "ReadRegistry (Some (JArr [enc_info (info_example 7681)])) = [info_example 7681]"
    using Read_written [of "[info_example 7681]"] i by simp
  then have f: "file_ok (Some (JArr [enc_info (info_example 7681)]))" using i by (simp add: file_ok_def)
  have e: "entries (Some (JArr [enc_info (info_example 7681)])) 7681 = Some (info_example 7681)"
    unfolding entries_def r by (simp add: info_example_def)
  have p: "si_Port (info_example 7682) = 7682" by (simp add: info_example_def)
  from registry_map [OF f i, of 7682] e p show ?thesis by simp
qed

text \<open>
  The port of a client command: an explicit port is taken when a server answers on it, otherwise the
  default port when one answers there; the registry is used for the message only.
\<close>

lemma Resolve_Inr:
  "Resolve get f port = Inr p \<longleftrightarrow> probe get p = None \<and> p = (if 0 < port then port else ds_DefaultPort)"
  by (auto simp: Resolve_def Let_def split: option.split)

section \<open>Two servers that start together\<close>

text \<open>Each process reads the file and later writes it; there is no lock between the two.\<close>

datatype reg_thread = ReadNow server_info | WriteNow "server_info list" | RegDone

fun reg_step :: "reg_thread \<Rightarrow> registry_file \<Rightarrow> registry_file \<times> reg_thread" where
  "reg_step (ReadNow info) f = (f, WriteNow (with_entry info (ReadRegistry f)))"
| "reg_step (WriteNow ss) f = (fst (writeRegistry None None ss f), RegDone)"
| "reg_step RegDone f = (f, RegDone)"

fun reg_run :: "nat list \<Rightarrow> registry_file \<Rightarrow> reg_thread list \<Rightarrow> registry_file" where
  "reg_run [] f ts = f"
| "reg_run (i # is) f ts =
     (if i < length ts then (case reg_step (ts ! i) f of (f', t) \<Rightarrow> reg_run is f' (ts[i := t])) else reg_run is f ts)"

text \<open>
  Two servers that register at the same time can lose an entry: when both read the file before either
  writes it, the first one's entry is gone afterwards, although it runs; one after the other, both are
  registered.
\<close>

theorem registry_race:
  assumes "file_ok f" and "info_ok a" and "info_ok b" and "si_Port a \<noteq> si_Port b" and "entries f (si_Port a) = None"
  shows "entries (reg_run [0, 1, 0, 1] f [ReadNow a, ReadNow b]) (si_Port a) = None
    \<and> entries (reg_run [0, 0, 1, 1] f [ReadNow a, ReadNow b]) (si_Port a) = Some a
    \<and> entries (reg_run [0, 0, 1, 1] f [ReadNow a, ReadNow b]) (si_Port b) = Some b"
proof -
  note ra = with_entry_ok [OF assms(1,2)] and rb = with_entry_ok [OF assms(1,3)]
  let ?f = "fst (writeRegistry None None (with_entry a (ReadRegistry f)) f)"
  note rab = with_entry_ok [OF written(2) [OF ra(1,2), of f] assms(3)]
  have "entries (reg_run [0, 1, 0, 1] f [ReadNow a, ReadNow b]) = (entries f)(si_Port b \<mapsto> b)"
    using written(3) [OF rb(1,2), of ?f] rb(3) by simp
  moreover have "entries (reg_run [0, 0, 1, 1] f [ReadNow a, ReadNow b]) = (entries f)(si_Port a \<mapsto> a, si_Port b \<mapsto> b)"
    using written(3) [OF rab(1,2), of ?f] rab(3) written(3) [OF ra(1,2), of f] ra(3) by simp
  ultimately show ?thesis using assms(4,5) by simp
qed

theorem registry_race_witness:
  "entries (reg_run [0, 1, 0, 1] None [ReadNow (info_example 7681), ReadNow (info_example 7682)]) 7681 = None"
proof -
  have "file_ok None" "entries None (si_Port (info_example 7681)) = None" by (simp_all add: file_ok_def ReadRegistry_def entries_def)
  moreover have "info_ok (info_example 7681)" "info_ok (info_example 7682)" by (simp_all add: info_ok_def info_example_def int64_def)
  moreover have "si_Port (info_example 7681) \<noteq> si_Port (info_example 7682)" by (simp add: info_example_def)
  ultimately have "entries (reg_run [0, 1, 0, 1] None [ReadNow (info_example 7681), ReadNow (info_example 7682)]) (si_Port (info_example 7681)) = None"
    using registry_race by blast
  then show ?thesis by (simp add: info_example_def)
qed

end
