(* ===== verification/Http_Client.thy ===== *)
theory Http_Client
  imports Server_Properties Discovery
begin

text \<open>
  What a client of the REST interface meets: the URL it builds, the pattern of the route table that the
  path selects, and the reply. URL parsing and the choice of the pattern follow Go's \<open>net/url\<close> and
  \<open>http.ServeMux\<close>. A world is the servers by their ports, the registry file, and the number of requests
  made so far; a client environment says what the system does at each of them.
\<close>

section \<open>URLs\<close>

definition hex_char :: "char \<Rightarrow> bool" where
  "hex_char c \<longleftrightarrow> (let n = of_char c :: nat in (48 \<le> n \<and> n \<le> 57) \<or> (65 \<le> n \<and> n \<le> 70) \<or> (97 \<le> n \<and> n \<le> 102))"

definition hex_value :: "char \<Rightarrow> nat" where
  "hex_value c = (let n = of_char c in if n \<le> 57 then n - 48 else if n \<le> 70 then n - 55 else n - 87)"

fun url_unescape :: "string \<Rightarrow> string option" where
  "url_unescape [] = Some []"
| "url_unescape (c # cs) =
     (if c = CHR ''%'' then
        (case cs of
           a # b # rest \<Rightarrow>
             if hex_char a \<and> hex_char b
             then map_option (Cons (char_of (16 * hex_value a + hex_value b))) (url_unescape rest) else None
         | _ \<Rightarrow> None)
      else map_option (Cons c) (url_unescape cs))"

definition is_alnum :: "char \<Rightarrow> bool" where
  "is_alnum c \<longleftrightarrow> (let n = of_char c :: nat in (48 \<le> n \<and> n \<le> 57) \<or> (65 \<le> n \<and> n \<le> 90) \<or> (97 \<le> n \<and> n \<le> 122))"

text \<open>The bytes that \<open>escape\<close> leaves alone in a path, and the ones that are accepted in an escaped path.\<close>

definition path_byte :: "char \<Rightarrow> bool" where
  "path_byte c \<longleftrightarrow> is_alnum c \<or> c \<in> set ''-_.~$&+,/:;=@''"

definition escaped_byte :: "char \<Rightarrow> bool" where
  "escaped_byte c \<longleftrightarrow> path_byte c \<or> c \<in> set ''!()*[]%'' \<or> c = CHR 0x27"

definition upper_hex :: "nat \<Rightarrow> char" where
  "upper_hex n = (if n < 10 then char_of (48 + n) else char_of (55 + n))"

definition url_escape :: "string \<Rightarrow> string" where
  "url_escape s = concat (map (\<lambda>c. if path_byte c then [c]
     else [CHR ''%'', upper_hex (of_char c div 16), upper_hex (of_char c mod 16)]) s)"

definition ctl_byte :: "char \<Rightarrow> bool" where
  "ctl_byte c \<longleftrightarrow> of_char c < (32::nat) \<or> of_char c = (127::nat)"

definition url_error :: go_err where "url_error = Extern ''parse: invalid URL''"

text \<open>The path of a URL as it is sent (\<open>EscapedPath\<close>) and its query.\<close>

definition parse_target :: "string \<Rightarrow> (string \<times> string) result" where
  "parse_target s =
     (let u = takeWhile (\<lambda>c. c \<noteq> CHR ''#'') s;
          fragment = drop (Suc (length u)) s;
          p = takeWhile (\<lambda>c. c \<noteq> CHR ''?'') u;
          query = drop (Suc (length p)) u
      in if list_ex ctl_byte u \<or> url_unescape fragment = None then Inl url_error
         else (case url_unescape p of
                 None \<Rightarrow> Inl url_error
               | Some plain \<Rightarrow> Inr (if list_all escaped_byte p then p else url_escape plain, query)))"

fun clean_segs :: "string list \<Rightarrow> string list \<Rightarrow> string list" where
  "clean_segs acc [] = rev acc"
| "clean_segs acc (s # ss) =
     (if s = [] \<or> s = ''.'' then clean_segs acc ss
      else if s = ''..'' then clean_segs (tl acc) ss
      else clean_segs (s # acc) ss)"

text \<open>\<open>cleanPath\<close>, on the segments after the leading slash: a trailing slash stays.\<close>

definition clean_path :: "string list \<Rightarrow> string list" where
  "clean_path segs =
     (case clean_segs [] segs of [] \<Rightarrow> [[]] | x # xs \<Rightarrow> if last segs = [] then (x # xs) @ [[]] else x # xs)"

text \<open>The query as the server reads it; pairs that cannot be decoded are dropped.\<close>

definition query_pairs :: "string \<Rightarrow> (string \<times> string) list" where
  "query_pairs q = List.map_filter (\<lambda>kv.
     let k = takeWhile (\<lambda>c. c \<noteq> CHR ''='') kv;
         plus = map (\<lambda>c. if c = CHR ''+'' then CHR '' '' else c)
     in if kv = [] \<or> CHR '';'' \<in> set kv then None
        else (case (url_unescape (plus k), url_unescape (plus (drop (Suc (length k)) kv))) of
                (Some a, Some b) \<Rightarrow> Some (a, b)
              | _ \<Rightarrow> None)) (split_on (CHR ''&'') q)"

section \<open>The choice of the pattern\<close>

text \<open>A wildcard matches a segment that is neither empty nor a slash.\<close>

fun match_segs :: "string list \<Rightarrow> string list \<Rightarrow> (string \<times> string) list option" where
  "match_segs [] [] = Some []"
| "match_segs (p # ps) (s # ss) =
     (if HasPrefix p ''{'' then
        (if s = [] \<or> s = ''/'' then None else map_option (Cons (butlast (tl p), s)) (match_segs ps ss))
      else if p = s then match_segs ps ss else None)"
| "match_segs _ _ = None"

definition parse_pattern :: "string \<Rightarrow> string \<times> string list" where
  "parse_pattern p =
     (let m = takeWhile (\<lambda>c. c \<noteq> CHR '' '') p in (m, split_on (CHR ''/'') (drop (length m + 2) p)))"

definition patterns :: "string list" where
  "patterns = map fst (unauth_routes :: (string \<times> unit handler) list) @ map fst (authed_routes :: (string \<times> unit handler) list)
     @ map fst (admin_routes :: (string \<times> unit handler) list) @ [''GET /api/v1/ws'', ''GET /admin'']"

text \<open>The patterns exclude one another, so the first match is the match; what nothing matches goes to \<open>/\<close>.\<close>

fun find_pattern :: "string \<Rightarrow> string list \<Rightarrow> string list \<Rightarrow> string \<times> (string \<times> string) list" where
  "find_pattern m segs [] = (''/'', [])"
| "find_pattern m segs (p # ps) =
     (case parse_pattern p of (pm, psegs) \<Rightarrow>
        (case (if pm = m then match_segs psegs segs else None) of
           Some binds \<Rightarrow> (p, binds)
         | None \<Rightarrow> find_pattern m segs ps))"

definition mux :: "string \<Rightarrow> string list \<Rightarrow> string \<times> (string \<times> string) list" where
  "mux m segs = find_pattern m segs patterns"

text \<open>Two patterns with different literals at one position never match the same path.\<close>

fun clash :: "string list \<Rightarrow> string list \<Rightarrow> bool" where
  "clash [] [] = False"
| "clash (p # ps) (q # qs) = ((\<not> HasPrefix p ''{'' \<and> \<not> HasPrefix q ''{'' \<and> p \<noteq> q) \<or> clash ps qs)"
| "clash _ _ = True"

lemma clash_sound: "clash ps qs \<Longrightarrow> match_segs ps ss \<noteq> None \<Longrightarrow> match_segs qs ss = None"
proof (induction ps qs arbitrary: ss rule: clash.induct)
  case (2 p ps q qs)
  then show ?case by (cases ss) (auto split: if_splits)
qed (auto elim: match_segs.elims split: if_splits)

fun exclusive :: "(string \<times> string list) list \<Rightarrow> bool" where
  "exclusive [] \<longleftrightarrow> True"
| "exclusive ((m, ps) # rest) \<longleftrightarrow> list_all (\<lambda>(n, qs). m \<noteq> n \<or> clash ps qs) rest \<and> exclusive rest"

lemma patterns_exclusive: "exclusive (map parse_pattern patterns)"
  by (simp add: patterns_def unauth_routes_def authed_routes_def admin_routes_def parse_pattern_def Let_def)

lemma find_exclusive:
  "exclusive (map parse_pattern pats) \<Longrightarrow> p \<in> set pats \<Longrightarrow> parse_pattern p = (m, ps) \<Longrightarrow> match_segs ps segs = Some b \<Longrightarrow>
    find_pattern m segs pats = (p, b)"
proof (induction pats)
  case (Cons q pats)
  obtain n qs where q: "parse_pattern q = (n, qs)" by fastforce
  show ?case
  proof (cases "q = p")
    case True
    then show ?thesis using Cons.prems by simp
  next
    case False
    then have "p \<in> set pats" using Cons.prems by simp
    moreover from this have "n \<noteq> m \<or> clash qs ps" using Cons.prems(1,3) q by (auto simp: list_all_iff) 
    ultimately show ?thesis using Cons q clash_sound [of qs ps segs] by (cases "match_segs qs segs") auto
  qed
qed simp

lemma mux_eq:
  "p \<in> set patterns \<Longrightarrow> parse_pattern p = (m, ps) \<Longrightarrow> match_segs ps segs = Some b \<Longrightarrow> mux m segs = (p, b)"
  unfolding mux_def by (rule find_exclusive [OF patterns_exclusive])

section \<open>Replies\<close>

datatype body = NoBody | JsonBody jval | TextBody string

text \<open>
  The status and the body of a response; \<open>text_of\<close> is the text of an error. A handler that panics or
  does not return sends none.
\<close>

definition error_body :: "(go_err \<Rightarrow> string) \<Rightarrow> string \<Rightarrow> go_err option \<Rightarrow> body" where
  "error_body text_of m e = JsonBody (JObj [(''error'', JStr (m @ (case e of None \<Rightarrow> [] | Some x \<Rightarrow> text_of x)))])"

fun reply_of :: "(go_err \<Rightarrow> string) \<Rightarrow> response \<Rightarrow> (nat \<times> body) result" where
  "reply_of text_of NoContent = Inr (204, NoBody)"
| "reply_of text_of Created = Inr (201, NoBody)"
| "reply_of text_of (ApiError n m e) = Inr (n, error_body text_of m e)"
| "reply_of text_of (JsonOk v) = Inr (200, JsonBody v)"
| "reply_of text_of (JsonCreated v) = Inr (201, JsonBody v)"
| "reply_of text_of (HttpError n m) = Inr (n, TextBody m)"
| "reply_of text_of (Page p) = Inr (200, TextBody p)"
| "reply_of text_of NotFound = Inr (404, TextBody ''404 page not found'')"
| "reply_of text_of (Upgraded c) = Inr (101, NoBody)"
| "reply_of text_of UpgradeFailed = Inr (400, TextBody ''Bad Request'')"
| "reply_of text_of Aborted = Inl (Extern ''EOF'')"
| "reply_of text_of NoReply = Inl (Extern ''Client.Timeout exceeded'')"

section \<open>A request\<close>

record 'p client_env =
  ce_env :: "nat \<Rightarrow> 'p env"
  ce_conn :: "nat \<Rightarrow> go_err option"
  ce_text :: "go_err \<Rightarrow> string"
  ce_remote :: string
  ce_wire :: "string \<Rightarrow> string"
  ce_ReadFile :: "string \<Rightarrow> string result"
  ce_unmarshal :: "string \<Rightarrow> layout result"
  ce_ulower :: "string \<Rightarrow> string"
  ce_socket :: "string \<Rightarrow> int option"
  ce_runtime_dir :: string
  ce_temp_dir :: string

record 'p world =
  w_servers :: "int \<Rightarrow> 'p server option"
  w_registry :: registry_file
  w_calls :: nat

definition serve_segs ::
    "'p client_env \<Rightarrow> 'p env \<Rightarrow> string \<Rightarrow> string list \<Rightarrow> string \<Rightarrow> string \<Rightarrow> jval option \<Rightarrow> 'p server \<Rightarrow> 'p server \<times> (nat \<times> body) result" where
  "serve_segs ce ev meth segs query token v s =
     (case mux meth segs of (pattern, binds) \<Rightarrow>
        (case sv_serve ev
                \<lparr>rq_pattern = pattern, rq_path = binds, rq_url_path = ''/'' @ join_with ''/'' segs, rq_query = query_pairs query,
                 rq_auth = (if token = [] then [] else ''Bearer '' @ token), rq_remote = ce_remote ce,
                 rq_body = (case v of None \<Rightarrow> Inl (Extern ''EOF'') | Some b \<Rightarrow> Inr b), rq_protos = [], rq_upgrade = False\<rparr> s of
           (s', resp) \<Rightarrow> (s', reply_of (ce_text ce) resp)))"

definition unescaped :: "string \<Rightarrow> string" where
  "unescaped s = (case url_unescape s of None \<Rightarrow> s | Some t \<Rightarrow> t)"

text \<open>
  A path that is not clean is answered by a redirect, which the client follows with a GET without a
  body. A query with a space makes the request line malformed.
\<close>

definition http_serve ::
    "'p client_env \<Rightarrow> 'p env \<Rightarrow> string \<Rightarrow> string \<times> string \<Rightarrow> string \<Rightarrow> jval option \<Rightarrow> 'p server \<Rightarrow> 'p server \<times> (nat \<times> body) result" where
  "http_serve ce ev meth target token v s =
     (case target of (path, query) \<Rightarrow>
        let segs = split_on (CHR ''/'') (tl path) in
        if CHR '' '' \<in> set query then (s, Inr (400, TextBody ''400 Bad Request''))
        else if clean_path segs \<noteq> segs then serve_segs ce ev ''GET'' (clean_path segs) query token None s
        else serve_segs ce ev meth (map unescaped segs) query token v s)"

definition http_call ::
    "'p client_env \<Rightarrow> int \<Rightarrow> string \<Rightarrow> string \<Rightarrow> string \<Rightarrow> jval option \<Rightarrow> 'p world \<Rightarrow> 'p world \<times> (nat \<times> body) result" where
  "http_call ce port meth path token v w =
     (case parse_target path of
        Inl e \<Rightarrow> (w, Inl e)
      | Inr target \<Rightarrow>
          let n = w_calls w; w1 = w\<lparr>w_calls := n + 1\<rparr> in
          (case ce_conn ce n of
             Some e \<Rightarrow> (w1, Inl e)
           | None \<Rightarrow>
               (case w_servers w port of
                  None \<Rightarrow> (w1, Inl (Extern ''connection refused''))
                | Some s \<Rightarrow>
                    (case http_serve ce (ce_env ce n) meth target token v s of
                       (s', r) \<Rightarrow> (w1\<lparr>w_servers := (w_servers w)(port := Some s')\<rparr>, r)))))"

section \<open>Finding the server\<close>

definition probe_port :: "int \<Rightarrow> int" where
  "probe_port port = (if 0 < port then port else ds_DefaultPort)"

text \<open>\<open>Resolve\<close> probes one port, once; what the probe answers is the status of the ping there.\<close>

definition resolve_port :: "'p client_env \<Rightarrow> int \<Rightarrow> 'p world \<Rightarrow> 'p world \<times> int result" where
  "resolve_port ce port w =
     (case http_call ce (probe_port port) ''GET'' ''/api/v1/ping'' [] None w of
        (w', r) \<Rightarrow> (w', Resolve (\<lambda>_. map_sum id fst r) (w_registry w) port))"

section \<open>Plain names\<close>

definition plain_byte :: "char \<Rightarrow> bool" where
  "plain_byte c \<longleftrightarrow> is_alnum c \<or> c \<in> set ''-_.~:,@''"

text \<open>A name that can stand in a path as it is.\<close>

definition plain_name :: "string \<Rightarrow> bool" where
  "plain_name s \<longleftrightarrow> s \<noteq> [] \<and> s \<noteq> ''.'' \<and> s \<noteq> ''..'' \<and> list_all plain_byte s"

lemma plain_byte_facts:
  "plain_byte c \<Longrightarrow> escaped_byte c \<and> \<not> ctl_byte c \<and> c \<noteq> CHR ''%'' \<and> c \<noteq> CHR ''#'' \<and> c \<noteq> CHR ''?'' \<and> c \<noteq> CHR ''/'' \<and> c \<noteq> CHR ''{''"
  by (auto simp: plain_byte_def escaped_byte_def path_byte_def is_alnum_def ctl_byte_def Let_def)

lemma unescape_free: "CHR ''%'' \<notin> set s \<Longrightarrow> url_unescape s = Some s"
  by (induction s) auto

lemma slash_facts: "escaped_byte (CHR ''/'') \<and> \<not> ctl_byte (CHR ''/'') \<and> CHR ''/'' \<noteq> CHR ''%'' \<and> CHR ''/'' \<noteq> CHR ''#'' \<and> CHR ''/'' \<noteq> CHR ''?''"
  by code_simp

definition plain_path :: "string list \<Rightarrow> bool" where
  "plain_path ss \<longleftrightarrow> ss \<noteq> [] \<and> list_all plain_name ss"

lemma set_join: "set (join_with [c] ss) \<subseteq> insert c (\<Union> (set ` set ss))"
  by (induction ss rule: induct_list012) auto

lemma path_bytes: "plain_path ss \<Longrightarrow> c \<in> set (''/'' @ join_with ''/'' ss) \<Longrightarrow> c = CHR ''/'' \<or> plain_byte c"
  using set_join [of "CHR ''/''" ss] by (auto simp: plain_path_def list_all_iff plain_name_def)

lemma takeWhile_all: "(\<And>x. x \<in> set xs \<Longrightarrow> P x) \<Longrightarrow> takeWhile P xs = xs"
  by (simp add: takeWhile_eq_all_conv)

lemma parse_safe:
  assumes "\<forall>c \<in> set p. escaped_byte c \<and> \<not> ctl_byte c \<and> c \<noteq> CHR ''%'' \<and> c \<noteq> CHR ''#'' \<and> c \<noteq> CHR ''?''"
  shows "parse_target p = Inr (p, [])"
proof -
  have tw: "takeWhile (\<lambda>c. c \<noteq> CHR ''#'') p = p" "takeWhile (\<lambda>c. c \<noteq> CHR ''?'') p = p"
    by (rule takeWhile_all, use assms in blast)+
  have "url_unescape p = Some p" using assms by (intro unescape_free) blast
  moreover have "\<not> list_ex ctl_byte p" "list_all escaped_byte p" using assms by (auto simp: list_ex_iff list_all_iff)
  ultimately show ?thesis unfolding parse_target_def Let_def tw by simp
qed

lemma parse_plain: "plain_path ss \<Longrightarrow> parse_target (''/'' @ join_with ''/'' ss) = Inr (''/'' @ join_with ''/'' ss, [])"
  using path_bytes [of ss] plain_byte_facts slash_facts by (intro parse_safe) blast

lemma clean_plain: "list_all plain_name ss \<Longrightarrow> clean_segs acc ss = rev acc @ ss"
  by (induction ss arbitrary: acc) (auto simp: plain_name_def)

lemma clean_path_plain: "plain_path ss \<Longrightarrow> clean_path ss = ss"
  using last_in_set [of ss]
  by (cases ss) (auto simp: clean_path_def clean_plain plain_path_def list_all_iff plain_name_def)

lemma split_plain: "plain_path ss \<Longrightarrow> split_on (CHR ''/'') (join_with ''/'' ss) = ss"
proof (rule split_on_join)
  show "plain_path ss \<Longrightarrow> x \<in> set ss \<Longrightarrow> CHR ''/'' \<notin> set x" for x
    using plain_byte_facts [of "CHR ''/''"] by (auto simp: plain_path_def list_all_iff plain_name_def)
qed (simp add: plain_path_def)

lemma unescaped_plain: "plain_name s \<Longrightarrow> unescaped s = s"
proof -
  assume "plain_name s"
  then have "CHR ''%'' \<notin> set s" using plain_byte_facts [of "CHR ''%''"] by (auto simp: plain_name_def list_all_iff)
  then show ?thesis by (simp add: unescaped_def unescape_free)
qed

lemma serve_plain:
  assumes "plain_path ss"
  shows "http_serve ce ev meth (''/'' @ join_with ''/'' ss, []) token v s = serve_segs ce ev meth ss [] token v s"
proof -
  have "map unescaped ss = ss"
    using assms by (intro map_idI) (simp add: unescaped_plain plain_path_def list_all_iff)
  then show ?thesis
    using clean_path_plain [OF assms] split_plain [OF assms] by (simp add: http_serve_def Let_def)
qed

text \<open>A request to a plain path: it reaches the route of its pattern, and only that server.\<close>

definition plain_request :: "'p client_env \<Rightarrow> string \<Rightarrow> (string \<times> string) list \<Rightarrow> string list \<Rightarrow> string \<Rightarrow> jval option \<Rightarrow> request" where
  "plain_request ce pattern binds segs token v =
     \<lparr>rq_pattern = pattern, rq_path = binds, rq_url_path = ''/'' @ join_with ''/'' segs, rq_query = query_pairs [],
      rq_auth = (if token = [] then [] else ''Bearer '' @ token), rq_remote = ce_remote ce,
      rq_body = (case v of None \<Rightarrow> Inl (Extern ''EOF'') | Some b \<Rightarrow> Inr b), rq_protos = [], rq_upgrade = False\<rparr>"

lemma call_plain:
  assumes "plain_path ss" and "p \<in> set patterns" and "parse_pattern p = (meth, ps)" and "match_segs ps ss = Some binds"
    and "ce_conn ce (w_calls w) = None" and "w_servers w port = Some s"
    and "sv_serve (ce_env ce (w_calls w)) (plain_request ce p binds ss token v) s = (s', resp)"
  shows "http_call ce port meth (''/'' @ join_with ''/'' ss) token v w =
    (w\<lparr>w_servers := (w_servers w)(port := Some s'), w_calls := w_calls w + 1\<rparr>, reply_of (ce_text ce) resp)"
proof -
  have "http_call ce port meth (''/'' @ join_with ''/'' ss) token v w =
      (case serve_segs ce (ce_env ce (w_calls w)) meth ss [] token v s of
         (s', r) \<Rightarrow> (w\<lparr>w_calls := w_calls w + 1, w_servers := (w_servers w)(port := Some s')\<rparr>, r))"
    unfolding http_call_def parse_plain [OF assms(1)] Let_def using assms(5,6) by (simp add: serve_plain [OF assms(1)] del: append_Cons append.simps)
  moreover have "serve_segs ce (ce_env ce (w_calls w)) meth ss [] token v s = (s', reply_of (ce_text ce) resp)"
    using assms(7) mux_eq [OF assms(2-4)] by (simp add: serve_segs_def plain_request_def)
  ultimately show ?thesis by simp
qed

end
