(* ===== verification/Pipe_Relay.thy ===== *)
theory Pipe_Relay
  imports Pipeline "HOL-Library.Sublist"
begin

text \<open>
  \<open>internal/pipe\<close>: the client that forwards its standard input line by line. \<open>hybrid.go\<close> folds the lines
  of an image or SVG block into one line; \<open>pipe.go\<close> sends each line and keeps the ones that could not be
  sent in a bounded queue. A \<open>send\<close> acts on the state of its environment and says whether it succeeded.
\<close>

section \<open>The hybrid reader\<close>

text \<open>The body of a block up to the sentinel (or the end of the input), and the lines after it.\<close>

fun accum :: "string \<Rightarrow> string list \<Rightarrow> string \<times> string list" where
  "accum sentinel [] = ([], [])"
| "accum sentinel (l # ls) =
     (if l = sentinel then ([], ls) else (case accum sentinel ls of (body, rest) \<Rightarrow> (l @ [LF] @ body, rest)))"

lemma accum_shorter: "length (snd (accum s ls)) \<le> length ls"
  by (induction s ls rule: accum.induct) (auto split: prod.splits)

lemma accum_rest: "accum s ls = (body, rest) \<Longrightarrow> length rest < Suc (length ls)"
  using accum_shorter [of s ls] by simp

function hybrid_lines :: "string list \<Rightarrow> string list" where
  "hybrid_lines [] = []"
| "hybrid_lines (l # ls) =
     (if HasPrefix l ''image:'' \<and> l \<noteq> SentinelImageEnd then
        (''b64:'' @ b64_encode (fst (accum SentinelImageEnd ls))) # hybrid_lines (snd (accum SentinelImageEnd ls))
      else if HasPrefix l ''svg:'' \<and> l \<noteq> SentinelSVGEnd then
        (''svg-data:'' @ b64_encode (fst (accum SentinelSVGEnd ls))) # hybrid_lines (snd (accum SentinelSVGEnd ls))
      else l # hybrid_lines ls)"
  by pat_completeness auto

termination
  by (relation "measure length") (use accum_shorter in \<open>auto simp: less_Suc_eq_le\<close>)

section \<open>The relay\<close>

type_synonym 'e send = "string \<Rightarrow> 'e \<Rightarrow> 'e \<times> bool"

text \<open>Flushing stops at the first line that cannot be sent.\<close>

fun flush_queue :: "'e send \<Rightarrow> string list \<Rightarrow> 'e \<Rightarrow> 'e \<times> string list" where
  "flush_queue send [] e = (e, [])"
| "flush_queue send (q # qs) e =
     (case send q e of (e', ok) \<Rightarrow> if ok then flush_queue send qs e' else (e', q # qs))"

definition relay_line :: "'e send \<Rightarrow> int \<Rightarrow> string \<Rightarrow> string list \<Rightarrow> 'e \<Rightarrow> 'e \<times> string list" where
  "relay_line send queueLen line queue e =
     (case flush_queue send queue e of (e1, q1) \<Rightarrow>
        (case send line e1 of (e2, ok) \<Rightarrow>
           (e2, if \<not> ok \<and> int (length q1) < queueLen then q1 @ [line] else q1)))"

text \<open>The loop; the context may be found cancelled before a line. The queue is a local variable of it.\<close>

fun relay_loop :: "'e send \<Rightarrow> (nat \<Rightarrow> bool) \<Rightarrow> go_err \<Rightarrow> int \<Rightarrow> nat \<Rightarrow> string list \<Rightarrow> string list \<Rightarrow> 'e
    \<Rightarrow> ('e \<times> string list) \<times> go_err option" where
  "relay_loop send cancelled ctxErr n i [] queue e = ((e, queue), None)"
| "relay_loop send cancelled ctxErr n i (l # ls) queue e =
     (if cancelled i then ((e, queue), Some ctxErr)
      else (case relay_line send n l queue e of (e', q') \<Rightarrow> relay_loop send cancelled ctxErr n (Suc i) ls q' e'))"

definition relay :: "'e send \<Rightarrow> (nat \<Rightarrow> bool) \<Rightarrow> go_err \<Rightarrow> int \<Rightarrow> string \<Rightarrow> 'e \<Rightarrow> ('e \<times> string list) \<times> go_err option" where
  "relay send cancelled ctxErr n input e =
     (case scan_lines input of (ls, tooLong) \<Rightarrow>
        (case relay_loop send cancelled ctxErr n 0 (hybrid_lines ls) [] e of
           (st, Some err) \<Rightarrow> (st, Some err)
         | (st, None) \<Rightarrow> (st, if tooLong then Some ErrTooLong else None)))"

definition Relay :: "'e send \<Rightarrow> (nat \<Rightarrow> bool) \<Rightarrow> go_err \<Rightarrow> int \<Rightarrow> string \<Rightarrow> 'e \<Rightarrow> ('e \<times> string list) \<times> go_err option" where
  "Relay send cancelled ctxErr reconnectQueueLen input e =
     relay send cancelled ctxErr (if reconnectQueueLen = 0 then 1000 else reconnectQueueLen) input e"

section \<open>The hybrid reader, by blocks\<close>

lemma accum_block: "sentinel \<notin> set body \<Longrightarrow> accum sentinel (body @ sentinel # rest) = (concat (map (\<lambda>l. l @ [LF]) body), rest)"
  by (induction body) auto

lemma accum_open: "sentinel \<notin> set body \<Longrightarrow> accum sentinel body = (concat (map (\<lambda>l. l @ [LF]) body), [])"
  by (induction body) auto

definition text_line :: "string \<Rightarrow> bool" where
  "text_line l \<longleftrightarrow> (HasPrefix l ''image:'' \<longrightarrow> l = SentinelImageEnd) \<and> (HasPrefix l ''svg:'' \<longrightarrow> l = SentinelSVGEnd)"

lemma hybrid_text: "list_all text_line ls \<Longrightarrow> hybrid_lines (ls @ rest) = ls @ hybrid_lines rest"
  by (induction ls) (auto simp: text_line_def)

lemma hybrid_image:
  "HasPrefix h ''image:'' \<Longrightarrow> h \<noteq> SentinelImageEnd \<Longrightarrow> SentinelImageEnd \<notin> set body \<Longrightarrow>
     hybrid_lines (h # body @ SentinelImageEnd # rest)
       = (''b64:'' @ b64_encode (concat (map (\<lambda>l. l @ [LF]) body))) # hybrid_lines rest"
  by (simp add: accum_block)

text \<open>
  An image survives the pipe: the lines of a block between a line that starts with \<open>image:\<close> and the
  sentinel become one line that the server's pipeline decodes to exactly these lines, each with its line
  feed; the text around the block passes unchanged, and a block without a sentinel takes the rest of
  the input.
\<close>

theorem image_block_roundtrip:
  assumes "list_all text_line before" and "HasPrefix h ''image:''" and "h \<noteq> SentinelImageEnd"
    and "SentinelImageEnd \<notin> set body"
  shows "\<exists>enc. hybrid_lines (before @ h # body @ SentinelImageEnd # rest) = before @ enc # hybrid_lines rest
    \<and> hybrid_lines (before @ h # body) = before @ [enc]
    \<and> Parse enc = Some (mk_seq KindBase64 (drop 4 enc))
    \<and> maybeDecodeBase64 enc = concat (map (\<lambda>l. l @ [LF]) body)"
proof -
  let ?enc = "''b64:'' @ b64_encode (concat (map (\<lambda>l. l @ [LF]) body))"
  have "hybrid_lines (before @ h # body @ SentinelImageEnd # rest) = before @ ?enc # hybrid_lines rest"
    by (simp only: hybrid_text [OF assms(1)] hybrid_image [OF assms(2-4)])
  moreover have "hybrid_lines (before @ h # body) = before @ [?enc]"
    using assms by (simp add: hybrid_text accum_open)
  moreover have "Parse ?enc = Some (mk_seq KindBase64 (drop 4 ?enc))" using Parse_b64 by simp
  moreover have "maybeDecodeBase64 ?enc = concat (map (\<lambda>l. l @ [LF]) body)" by (rule maybeDecode_encode)
  ultimately show ?thesis by (intro exI [of _ ?enc]) (intro conjI)
qed

theorem image_block_roundtrip_witness:
  "\<exists>enc. hybrid_lines ([''before''] @ ''image:png'' # [''raw'', ''bytes''] @ SentinelImageEnd # [''after'']) = [''before'', enc, ''after'']
     \<and> maybeDecodeBase64 enc = ''raw'' @ [LF] @ ''bytes'' @ [LF]"
proof -
  have "list_all text_line [''before'']" by (simp add: text_line_def HasPrefix_def)
  moreover have "HasPrefix ''image:png'' ''image:''" by (simp add: HasPrefix_def)
  moreover have "''image:png'' \<noteq> SentinelImageEnd" "SentinelImageEnd \<notin> set [''raw'', ''bytes'']" by (simp_all add: SentinelImageEnd_def)
  moreover have "hybrid_lines [''after''] = [''after'']" by (simp add: HasPrefix_def)
  ultimately show ?thesis
    using image_block_roundtrip [of "[''before'']" "''image:png''" "[''raw'', ''bytes'']" "[''after'']"] by (auto simp del: hybrid_lines.simps)
qed

section \<open>Delivery\<close>

text \<open>
  An environment that answers the sends by a list (and with success when the list is used up) and records
  the lines it accepted. Every behaviour of a server is one of these.
\<close>

definition log_send :: "(bool list \<times> string list) send" where
  "log_send l e = (case e of (as, d) \<Rightarrow>
     (case as of [] \<Rightarrow> (([], d @ [l]), True)
      | a # as' \<Rightarrow> ((as', if a then d @ [l] else d), a)))"

abbreviation failures :: "bool list \<Rightarrow> nat" where "failures as \<equiv> length (filter Not as)"

lemma flush_log:
  "flush_queue log_send q (as, d) = ((as', d'), q') \<Longrightarrow>
     d' @ q' = d @ q \<and> length q' \<le> length q \<and> failures as' \<le> failures as \<and> (failures as = 0 \<longrightarrow> q' = [])"
proof (induction q arbitrary: as d)
  case (Cons x q)
  show ?case
  proof (cases as)
    case Nil
    with Cons.prems Cons.IH [of "[]" "d @ [x]"] show ?thesis by (auto simp: log_send_def)
  next
    case (Cons a as1)
    with Cons.prems Cons.IH [of as1 "d @ [x]"] show ?thesis by (cases a) (auto simp: log_send_def)
  qed
qed simp

lemma relay_line_log:
  assumes "relay_line log_send n l q (as, d) = ((as', d'), q')" and "int (length q) \<le> n"
  shows "mset d' + mset q' \<subseteq># add_mset l (mset d + mset q)" and "int (length q') \<le> n"
    and "int (length q + failures as) \<le> n \<Longrightarrow> mset d' + mset q' = add_mset l (mset d + mset q) \<and> length q' + failures as' \<le> length q + failures as"
    and "failures as = 0 \<Longrightarrow> d' = d @ q @ [l] \<and> q' = [] \<and> failures as' = 0"
proof -
  obtain as1 d1 q1 where fl: "flush_queue log_send q (as, d) = ((as1, d1), q1)" by (metis prod.exhaust)
  note f = flush_log [OF fl]
  have ms: "mset d1 + mset q1 = mset d + mset q" using f by (metis mset_append)
  consider (sent) "d' = d1 @ [l]" "q' = q1" "failures as' = failures as1"
    | (kept) "d' = d1" "q' = q1 @ [l]" "int (length q1) < n" "failures as1 = Suc (failures as')"
    | (dropped) "d' = d1" "q' = q1" "\<not> int (length q1) < n" "failures as1 = Suc (failures as')"
    using assms(1) by (cases as1) (auto simp: relay_line_def fl log_send_def split: if_splits)
  then show "mset d' + mset q' \<subseteq># add_mset l (mset d + mset q)" "int (length q') \<le> n"
    "int (length q + failures as) \<le> n \<Longrightarrow> mset d' + mset q' = add_mset l (mset d + mset q) \<and> length q' + failures as' \<le> length q + failures as"
    "failures as = 0 \<Longrightarrow> d' = d @ q @ [l] \<and> q' = [] \<and> failures as' = 0"
    by (cases; use f ms assms(2) in \<open>auto simp: ac_simps\<close>)+
qed

lemma relay_loop_log:
  "relay_loop log_send (\<lambda>_. False) c n i ls q (as, d) = (((as', d'), q'), err) \<Longrightarrow> int (length q) \<le> n \<Longrightarrow>
     err = None \<and> mset d' + mset q' \<subseteq># mset d + mset q + mset ls \<and> int (length q') \<le> n
     \<and> (int (length q + failures as) \<le> n \<longrightarrow> mset d' + mset q' = mset d + mset q + mset ls)
     \<and> (failures as = 0 \<longrightarrow> d' @ q' = d @ q @ ls \<and> (q = [] \<longrightarrow> q' = []))"
proof (induction ls arbitrary: i q as d)
  case (Cons l ls)
  obtain as1 d1 q1 where ln: "relay_line log_send n l q (as, d) = ((as1, d1), q1)" by (metis prod.exhaust)
  note r = relay_line_log [OF ln Cons.prems(2)]
  have "relay_loop log_send (\<lambda>_. False) c n (Suc i) ls q1 (as1, d1) = (((as', d'), q'), err)"
    using Cons.prems(1) by (simp add: ln)
  from Cons.IH [OF this r(2)] r show ?case
    by (auto simp: ac_simps intro: subset_mset.order_trans [OF _ mset_subset_eq_add_mset_cancel [THEN iffD1]])
qed simp



text \<open>
  After an outage the order can change: a line that is sent right after the flush failed overtakes the
  queued ones. A full queue drops the newest line, and what is queued when the input ends is lost.
\<close>

lemma relay_misorders:
  "relay_loop log_send (\<lambda>_. False) c 1000 0 [''a'', ''b'', ''c''] [] ([False, False], []) = ((([], [''b'', ''a'', ''c'']), []), None)"
  "relay_loop log_send (\<lambda>_. False) c 1 0 [''a'', ''b''] [] ([False, False, False], []) = ((([], []), [''a'']), None)"
  by (simp_all add: relay_line_def log_send_def)

end
