(* ===== verification/Pipe_Server.thy ===== *)
theory Pipe_Server
  imports Http_Client Pipe_Relay
begin

text \<open>
  The two ways \<open>pipe.go\<close> sends a line to the server, and the relay together with the server: what is piped
  into the client arrives in the pane. \<open>wire\<close> is what a string becomes by the JSON encoder and decoder of
  the library (the same string when it is valid UTF-8), \<open>dial\<close> the error of the connection, if any.
\<close>

definition sendViaUnix ::
    "(string \<Rightarrow> string) \<Rightarrow> go_err option \<Rightarrow> string \<Rightarrow> 'p env \<Rightarrow> target_id \<Rightarrow> string \<Rightarrow> 'p server \<Rightarrow> 'p server \<times> go_err option" where
  "sendViaUnix wire dial socketPath ev t line s =
     (case dial of
        Some e \<Rightarrow> (s, Some (Wrapf ''unix socket %q: %w'' [AStr socketPath] e))
      | None \<Rightarrow>
          (case serveUnix ev (Inr (''stream'', Inr (JObj [(''target_id'', JStr (wire (tid_String t))), (''line'', JStr (wire line))]))) s of
             (s', resp) \<Rightarrow>
               if \<not> ur_OK resp then
                 (s', Some (case ur_Error resp of None \<Rightarrow> Errorf ''server: '' [] | Some e \<Rightarrow> Wrapf ''server: %s'' [] e))
               else (s', None)))"

definition sendViaHTTP ::
    "(string \<Rightarrow> string) \<Rightarrow> go_err option \<Rightarrow> string \<Rightarrow> 'p env \<Rightarrow> string \<Rightarrow> target_id \<Rightarrow> string \<Rightarrow> 'p server \<Rightarrow> 'p server \<times> go_err option" where
  "sendViaHTTP wire dial remote ev token t line s =
     (case dial of
        Some e \<Rightarrow> (s, Some (Wrapf ''http post: %w'' [] e))
      | None \<Rightarrow>
          (case sv_serve ev
                  \<lparr>rq_pattern = ''POST /api/v1/stream/{id}'', rq_path = [(''id'', tid_String t)],
                   rq_url_path = ''/api/v1/stream/'' @ tid_String t, rq_query = [],
                   rq_auth = (if token = [] then [] else ''Bearer '' @ token), rq_remote = remote,
                   rq_body = Inr (JObj [(''line'', JStr (wire line))]), rq_protos = [], rq_upgrade = False\<rparr> s of
             (s', resp) \<Rightarrow>
               (case reply_of (\<lambda>_. []) resp of
                  Inl e \<Rightarrow> (s', Some (Wrapf ''http post: %w'' [] e))
                | Inr (status, _) \<Rightarrow>
                    if status \<noteq> 204 then (s', Some (Errorf ''server returned HTTP %d'' [AInt (int status)])) else (s', None))))"

definition unix_send :: "(string \<Rightarrow> string) \<Rightarrow> go_err option \<Rightarrow> string \<Rightarrow> 'p env \<Rightarrow> target_id \<Rightarrow> 'p server send" where
  "unix_send wire dial path ev t line s = (case sendViaUnix wire dial path ev t line s of (s', err) \<Rightarrow> (s', err = None))"

text \<open>A line over the socket is the same as a line routed by the server, with the error in the response.\<close>

lemma send_unix_route:
  assumes "ParseTargetID (tid_String t) = Inr t" and "wire (tid_String t) = tid_String t" and "wire line = line"
    and "sv_Route ev t line s = (s', None)"
  shows "sendViaUnix wire None path ev t line s = (s', None)"
  using assms
  by (simp add: sendViaUnix_def serveUnix_def handleUnixCommand_def unix_stream_def body_str2_def jfield_Cons ascii_lower_def
      unix_ok_def)

definition piped_line :: "string \<Rightarrow> bool" where
  "piped_line l \<longleftrightarrow> text_line l \<and> item_ok (Plain l)"

lemma relay_loop_text:
  assumes "ParseTargetID (tid_String t) = Inr t" and "wire (tid_String t) = tid_String t"
  shows "list_all (\<lambda>l. piped_line l \<and> wire l = l) ls \<Longrightarrow> srv_ok compile s \<Longrightarrow> wired (h_router s) \<Longrightarrow>
    rt_Get t (h_router s) = Some p \<Longrightarrow> pl_filters p = [] \<Longrightarrow>
    \<exists>s'. relay_loop (unix_send wire None path ev t) (\<lambda>_. False) c n i ls [] s = ((s', []), None)
      \<and> (\<forall>u. rt_Get u (h_router s') =
           (if u = t then Some (p\<lparr>pl_scrollback := foldl sb_Append (pl_scrollback p) ls\<rparr>) else rt_Get u (h_router s)))
      \<and> srv_ok compile s' \<and> wired (h_router s')"
proof (induction ls arbitrary: i s p)
  case Nil
  then show ?case by simp
next
  case (Cons l ls)
  let ?p = "p\<lparr>pl_scrollback := sb_Append (pl_scrollback p) l\<rparr>"
  let ?s = "sv_broadcast (message t l) (s\<lparr>h_router := rt_put_pipe t ?p (h_router s)\<rparr>)"
  from Cons.prems(1) have l: "item_ok (Plain l)" "wire l = l" by (simp_all add: piped_line_def)
  have route: "sv_Route ev t l s = (?s, None)"
    using route_item [OF Cons.prems(2,3,4,5) l(1), of ev] by simp
  have after: "rt_Get u (h_router ?s) = (if u = t then Some ?p else rt_Get u (h_router s))" for u
    by (simp add: rt_put_pipe_def rt_Get_def gm_get_put)
  have ok: "srv_ok compile ?s" using srv_Route [OF Cons.prems(2), of ev t l] route by simp
  have w: "wired (h_router ?s)" using route_wired [OF Cons.prems(3), of ev t l] route by simp
  have "relay_loop (unix_send wire None path ev t) (\<lambda>_. False) c n i (l # ls) [] s
      = relay_loop (unix_send wire None path ev t) (\<lambda>_. False) c n (Suc i) ls [] ?s"
    using send_unix_route [OF assms l(2) route, of path] by (simp add: relay_line_def unix_send_def)
  moreover obtain s' where "relay_loop (unix_send wire None path ev t) (\<lambda>_. False) c n (Suc i) ls [] ?s = ((s', []), None)"
    and "\<forall>u. rt_Get u (h_router s') =
      (if u = t then Some (?p\<lparr>pl_scrollback := foldl sb_Append (pl_scrollback ?p) ls\<rparr>) else rt_Get u (h_router ?s))"
    and "srv_ok compile s'" "wired (h_router s')"
    using Cons.IH [of ?s ?p "Suc i"] Cons.prems(1,5) ok w after by auto
  ultimately show ?case using after by auto
qed

text \<open>
  C18: What is piped arrives: a text piped by the client over the socket to a pane whose pipeline has no
  filter is the newest part of the pane's scrollback afterwards, line for line and in order, up to the
  scrollback's capacity; the client ends without an error and with nothing queued, and no other pane
  changes. (A line of the text is one the pipeline takes as content: no control prefix, no carriage
  return at its end, shorter than 64 KiB.)
\<close>

theorem piped_text_arrives:
  assumes "sv_reach embedded compile s" and "rt_Get t (h_router s) = Some p" and "pl_filters p = []"
    and "ParseTargetID (tid_String t) = Inr t" and "list_all piped_line ls"
    and "wire (tid_String t) = tid_String t" and "list_all (\<lambda>l. wire l = l) ls"
  shows "case Relay (unix_send wire None path ev t) (\<lambda>_. False) ctxErr 0 (concat (map (\<lambda>l. l @ [LF]) ls)) s of
    ((s', queue), err) \<Rightarrow> err = None \<and> queue = []
      \<and> (\<exists>p'. rt_Get t (h_router s') = Some p'
            \<and> sb_Lines (pl_scrollback p') = keep_last (sb_Cap (pl_scrollback p)) (sb_Lines (pl_scrollback p) @ ls))
      \<and> (\<forall>u. u \<noteq> t \<longrightarrow> rt_Get u (h_router s') = rt_Get u (h_router s))"
proof -
  have ok: "srv_ok compile s" and w: "wired (h_router s)" using assms(1) by (rule reach_ok, rule wiring.reach)
  have lines: "list_all (\<lambda>l. piped_line l \<and> wire l = l) ls" using assms(5,7) by (simp add: list_all_iff)
  have shape: "\<And>l. l \<in> set ls \<Longrightarrow> LF \<notin> set l \<and> length l < MaxScanTokenSize"
    using assms(5) by (auto simp: list_all_iff piped_line_def item_ok_def MaxScanTokenSize_def)
  have "map dropCR ls = ls"
    using assms(5) by (auto simp: list_all_iff piped_line_def item_ok_def intro: map_idI)
  with scan_lines_lines [OF shape] have scan: "scan_lines (concat (map (\<lambda>l. l @ [LF]) ls)) = (ls, False)" by simp
  have "list_all text_line ls" using assms(5) by (simp add: list_all_iff piped_line_def)
  then have hybrid: "hybrid_lines ls = ls" using hybrid_text [of ls "[]"] by simp
  obtain s' where run: "relay_loop (unix_send wire None path ev t) (\<lambda>_. False) ctxErr 1000 0 ls [] s = ((s', []), None)"
    and get: "\<forall>u. rt_Get u (h_router s') =
      (if u = t then Some (p\<lparr>pl_scrollback := foldl sb_Append (pl_scrollback p) ls\<rparr>) else rt_Get u (h_router s))"
    using relay_loop_text [OF assms(4,6) lines ok w assms(2,3)] by blast
  have "sb_inv (pl_scrollback p)" using srv_parts(1) [OF ok] assms(2) by (auto simp: rt_inv_def pipe_ok_def)
  from sb.append_all [OF this, of ls] get run show ?thesis
    by (simp add: Relay_def relay_def scan hybrid)
qed

theorem piped_text_arrives_witness:
  "case Relay (unix_send (\<lambda>l. l) None ''rdw.sock'' env_example (TargetID ''a'')) (\<lambda>_. False) (Extern ''ctx'') 0
      (concat (map (\<lambda>l. l @ [LF]) [''one'', ''two'', ''three'', ''four''])) server_example of
     ((s', queue), err) \<Rightarrow> err = None \<and> queue = []
       \<and> (\<exists>p'. rt_Get (TargetID ''a'') (h_router s') = Some p' \<and> sb_Lines (pl_scrollback p') = [''two'', ''three'', ''four''])"
proof -
  let ?p = "newPipeline (TargetID ''a'') 3 (h_router start_example)"
  let ?run = "Relay (unix_send (\<lambda>l. l) None ''rdw.sock'' env_example (TargetID ''a'')) (\<lambda>_. False) (Extern ''ctx'') 0
      (concat (map (\<lambda>l. l @ [LF]) [''one'', ''two'', ''three'', ''four''])) server_example"
  have f: "pl_filters ?p = []" by (simp add: newPipeline_fresh)
  have t: "ParseTargetID (tid_String (TargetID ''a'')) = Inr (TargetID ''a'')" using post_line_facts(1) by (simp add: post_line_def request_of_def PathValue_def)
  have l: "list_all piped_line [''one'', ''two'', ''three'', ''four'']"
    by (simp add: piped_line_def text_line_def item_ok_def HasPrefix_def dropCR_def Parse_no_colon)
  have c: "sb_Cap (pl_scrollback ?p) = 3" "sb_Lines (pl_scrollback ?p) = []"
    by (simp_all add: newPipeline_fresh) (simp add: newPipeline_def Let_def pl_New_def AddSink_def NewScrollbackBuffer_def sb_Cap_def
        MaxScrollbackCap_def split: option.split)
  obtain s' queue err where run: "?run = ((s', queue), err)" by (metis prod.exhaust)
  from piped_text_arrives [OF server_example_reach example_fields(2) f t l, of "\<lambda>l. l" "''rdw.sock''" env_example "Extern ''ctx''"]
  show ?thesis unfolding run prod.case c by (auto simp: keep_last_def)
qed

end
