(* ===== verification/Server_Life.thy ===== *)
theory Server_Life
  imports Server_Properties Discovery Go_Path
begin

text \<open>
  The life of server processes on one machine: \<open>Run\<close>, its shutdown and the stop command of
  \<open>internal/server/server.go\<close>, and the socket of \<open>unix.go\<close>. A machine is what the processes share: the
  sockets of the file system with the process that listens on each, the TCP ports in use, and the
  registry file. \<open>Run\<close> up to its \<open>select\<close> is one step, the goroutine that serves HTTP, what the \<open>select\<close>
  waits for and the goroutine of the stop command are steps of their own. Requests are not part of it.
\<close>

section \<open>The machine and its processes\<close>

record machine =
  mc_sockets :: "string \<Rightarrow> nat option"
  mc_ports :: "int \<Rightarrow> nat option"
  mc_registry :: registry_file

datatype http_state = HttpNew | HttpServing | HttpFailed | HttpClosed

datatype phase = InRun | Returned "go_err option"

record 'p proc =
  pr_server :: "'p server"
  pr_unixLn :: "string option"
  pr_unix_open :: bool
  pr_socketPath :: string
  pr_http :: http_state
  pr_errCh :: "go_err option"
  pr_kv_open :: bool
  pr_phase :: phase

text \<open>What the operating system answers to a process that starts.\<close>

record 'p life_os =
  lo_env :: "'p env"
  lo_runtime_dir :: string
  lo_temp_dir :: string
  lo_mkdir :: "go_err option"
  lo_listen :: "go_err option"
  lo_chmod :: "go_err option"
  lo_registry_dir :: "go_err option"
  lo_registry_write :: "go_err option"
  lo_open :: "string \<Rightarrow> kv_table result"
  lo_rows :: "(string \<times> string) option list result"
  lo_started :: string

section \<open>The Unix socket\<close>

definition unixSocketDir :: "'p life_os \<Rightarrow> string" where
  "unixSocketDir lo = path_Join [if lo_runtime_dir lo = [] then lo_temp_dir lo else lo_runtime_dir lo, ''rdw'']"

definition socket_path :: "'p life_os \<Rightarrow> string \<Rightarrow> string" where
  "socket_path lo sessionID = path_Join [unixSocketDir lo, sessionID @ ''.sock'']"

definition remove_socket :: "string \<Rightarrow> machine \<Rightarrow> machine" where
  "remove_socket path m = m\<lparr>mc_sockets := (mc_sockets m)(path := None)\<rparr>"

text \<open>A socket that is there is removed first, whoever listens on it. Closing a listener removes its file.\<close>

definition startUnixListener :: "'p life_os \<Rightarrow> nat \<Rightarrow> string \<Rightarrow> machine \<Rightarrow> machine \<times> string result" where
  "startUnixListener lo self sessionID m =
     (case lo_mkdir lo of
        Some e \<Rightarrow> (m, Inl (Wrapf ''creating socket dir %q: %w'' [AStr (unixSocketDir lo)] e))
      | None \<Rightarrow>
          let path = socket_path lo sessionID; m1 = remove_socket path m in
          (case lo_listen lo of
             Some e \<Rightarrow> (m1, Inl (Wrapf ''listening on %q: %w'' [AStr path] e))
           | None \<Rightarrow>
               let m2 = m1\<lparr>mc_sockets := (mc_sockets m1)(path \<mapsto> self)\<rparr> in
               (case lo_chmod lo of
                  Some e \<Rightarrow> (remove_socket path m2, Inl (Wrapf ''chmod %q: %w'' [AStr path] e))
                | None \<Rightarrow> (m2, Inr path))))"

section \<open>Run\<close>

definition server_entry :: "'p life_os \<Rightarrow> string \<Rightarrow> 'p server \<Rightarrow> server_info" where
  "server_entry lo path s =
     \<lparr>si_Port = sv_port s, si_PID = ev_pid (lo_env lo), si_StartedAt = lo_started lo, si_SocketPath = path\<rparr>"

text \<open>\<open>Run\<close> up to its \<open>select\<close>; without its socket the server goes on.\<close>

definition run_begin :: "'p life_os \<Rightarrow> nat \<Rightarrow> 'p server \<Rightarrow> machine \<Rightarrow> machine \<times> 'p proc" where
  "run_begin lo self s m =
     (case sv_Run_start (lo_env lo) (lo_open lo) (lo_rows lo) s of
        Inl e \<Rightarrow>
          (m, \<lparr>pr_server = s, pr_unixLn = None, pr_unix_open = False, pr_socketPath = [], pr_http = HttpNew, pr_errCh = None,
               pr_kv_open = False, pr_phase = Returned (Some e)\<rparr>)
      | Inr s1 \<Rightarrow>
          (case startUnixListener lo self (op_SessionID (sv_opts s1)) m of
             (m1, r) \<Rightarrow>
               let path = (case r of Inl _ \<Rightarrow> [] | Inr p \<Rightarrow> p);
                   reg = fst (ds_Register (lo_registry_dir lo) (lo_registry_write lo) (server_entry lo path s1) (mc_registry m1))
               in (m1\<lparr>mc_registry := reg\<rparr>,
                   \<lparr>pr_server = s1, pr_unixLn = (case r of Inl _ \<Rightarrow> None | Inr p \<Rightarrow> Some p), pr_unix_open = (case r of Inl _ \<Rightarrow> False | Inr _ \<Rightarrow> True),
                    pr_socketPath = path, pr_http = HttpNew, pr_errCh = None, pr_kv_open = (sv_kvDB s1 \<noteq> None),
                    pr_phase = InRun\<rparr>)))"

text \<open>
  The goroutine of \<open>ListenAndServe\<close>: a port (not 0, which a configuration refuses) has one listener, and
  \<open>bind\<close> is any other reason of the system to refuse it.
\<close>

definition addr_in_use :: go_err where "addr_in_use = Extern ''address already in use''"

definition listen_and_serve :: "nat \<Rightarrow> go_err option \<Rightarrow> machine \<times> 'p proc \<Rightarrow> machine \<times> 'p proc" where
  "listen_and_serve self bind mp =
     (case mp of (m, p) \<Rightarrow>
        if pr_http p \<noteq> HttpNew then (m, p)
        else (case (if mc_ports m (sv_port (pr_server p)) = None then bind else Some addr_in_use) of
                None \<Rightarrow> (m\<lparr>mc_ports := (mc_ports m)(sv_port (pr_server p) \<mapsto> self)\<rparr>, p\<lparr>pr_http := HttpServing\<rparr>)
              | Some e \<Rightarrow> (m, p\<lparr>pr_http := HttpFailed, pr_errCh := Some e\<rparr>)))"

definition http_Shutdown :: "machine \<times> 'p proc \<Rightarrow> machine \<times> 'p proc" where
  "http_Shutdown mp =
     (case mp of (m, p) \<Rightarrow>
        (if pr_http p = HttpServing then m\<lparr>mc_ports := (mc_ports m)(sv_port (pr_server p) := None)\<rparr> else m,
         p\<lparr>pr_http := HttpClosed\<rparr>))"

definition cleanup :: "go_err option \<Rightarrow> go_err option \<Rightarrow> machine \<times> 'p proc \<Rightarrow> machine \<times> 'p proc" where
  "cleanup mkdir write mp =
     (case mp of (m, p) \<Rightarrow>
        let m1 = (case pr_unixLn p of Some path \<Rightarrow> if pr_unix_open p then remove_socket path m else m | None \<Rightarrow> m);
            m2 = (if pr_socketPath p \<noteq> [] then remove_socket (pr_socketPath p) m1 else m1)
        in (m2\<lparr>mc_registry := fst (ds_Deregister mkdir write (sv_port (pr_server p)) (mc_registry m2))\<rparr>,
            p\<lparr>pr_unix_open := False, pr_kv_open := False\<rparr>))"

text \<open>The three ways out of the \<open>select\<close>; \<open>err\<close> is the error of a shutdown that takes too long.\<close>

definition serve_failed :: "go_err option \<Rightarrow> go_err option \<Rightarrow> machine \<times> 'p proc \<Rightarrow> machine \<times> 'p proc" where
  "serve_failed mkdir write mp =
     (case pr_errCh (snd mp) of
        None \<Rightarrow> mp
      | Some e \<Rightarrow> (case cleanup mkdir write mp of (m, p) \<Rightarrow> (m, p\<lparr>pr_phase := Returned (Some (Wrapf ''server error: %w'' [] e))\<rparr>)))"

definition sv_shutdown :: "go_err option \<Rightarrow> go_err option \<Rightarrow> go_err option \<Rightarrow> machine \<times> 'p proc \<Rightarrow> machine \<times> 'p proc" where
  "sv_shutdown mkdir write err mp =
     (case cleanup mkdir write (http_Shutdown mp) of (m, p) \<Rightarrow> (m, p\<lparr>pr_phase := Returned err\<rparr>))"

text \<open>The goroutine of the stop command. Nothing tells \<open>Run\<close> of it.\<close>

definition stop_command :: "go_err option \<Rightarrow> go_err option \<Rightarrow> machine \<times> 'p proc \<Rightarrow> machine \<times> 'p proc" where
  "stop_command mkdir write mp = cleanup mkdir write (http_Shutdown mp)"

text \<open>The socket alone, for a server that an embedding program runs.\<close>

definition StartUnixSocket :: "'p life_os \<Rightarrow> nat \<Rightarrow> machine \<times> 'p proc \<Rightarrow> (machine \<times> 'p proc) \<times> string result" where
  "StartUnixSocket lo self mp =
     (case mp of (m, p) \<Rightarrow>
        case startUnixListener lo self (op_SessionID (sv_opts (pr_server p))) m of
          (m1, Inl e) \<Rightarrow> ((m1, p), Inl e)
        | (m1, Inr path) \<Rightarrow> ((m1, p\<lparr>pr_unixLn := Some path, pr_unix_open := True, pr_socketPath := path\<rparr>), Inr path))"

definition StopUnixSocket :: "machine \<times> 'p proc \<Rightarrow> machine \<times> 'p proc" where
  "StopUnixSocket mp =
     (case mp of (m, p) \<Rightarrow>
        let m1 = (case pr_unixLn p of Some path \<Rightarrow> if pr_unix_open p then remove_socket path m else m | None \<Rightarrow> m)
        in (if pr_socketPath p \<noteq> [] then remove_socket (pr_socketPath p) m1 else m1, p\<lparr>pr_unix_open := False\<rparr>))"

lemma socket_start_stop:
  assumes "StartUnixSocket lo i (m, p) = (mp, Inr path)"
  shows "mc_sockets (fst mp) = (mc_sockets m)(path \<mapsto> i)"
    and "mc_sockets (fst (StopUnixSocket mp)) = (mc_sockets m)(path := None)"
  using assms
  by (auto simp: StartUnixSocket_def StopUnixSocket_def startUnixListener_def remove_socket_def Let_def
      split: option.splits sum.splits prod.splits)

section \<open>Steps\<close>

record 'p site =
  sp_machine :: machine
  sp_procs :: "nat \<Rightarrow> 'p proc option"

datatype 'p life_event =
    Launch nat "'p life_os" "'p server"
  | ServeTurn nat "go_err option"
  | ErrTurn nat "go_err option" "go_err option"
  | Terminate nat "go_err option" "go_err option" "go_err option"
  | StopAt string "go_err option" "go_err option"

definition on_proc :: "nat \<Rightarrow> (machine \<times> 'p proc \<Rightarrow> machine \<times> 'p proc) \<Rightarrow> 'p site \<Rightarrow> 'p site" where
  "on_proc i f w =
     (case sp_procs w i of
        None \<Rightarrow> w
      | Some p \<Rightarrow>
          if pr_phase p \<noteq> InRun then w
          else (case f (sp_machine w, p) of (m, p') \<Rightarrow> w\<lparr>sp_machine := m, sp_procs := (sp_procs w)(i \<mapsto> p')\<rparr>))"

fun life_step :: "'p life_event \<Rightarrow> 'p site \<Rightarrow> 'p site" where
  "life_step (Launch i lo s) w =
     (if sp_procs w i \<noteq> None then w
      else (case run_begin lo i s (sp_machine w) of (m, p) \<Rightarrow> w\<lparr>sp_machine := m, sp_procs := (sp_procs w)(i \<mapsto> p)\<rparr>))"
| "life_step (ServeTurn i bind) w = on_proc i (listen_and_serve i bind) w"
| "life_step (ErrTurn i mkdir write) w = on_proc i (serve_failed mkdir write) w"
| "life_step (Terminate i mkdir write err) w = on_proc i (sv_shutdown mkdir write err) w"
| "life_step (StopAt path mkdir write) w =
     (case mc_sockets (sp_machine w) path of None \<Rightarrow> w | Some i \<Rightarrow> on_proc i (stop_command mkdir write) w)"

definition site_start :: "'p site" where
  "site_start = \<lparr>sp_machine = \<lparr>mc_sockets = (\<lambda>_. None), mc_ports = (\<lambda>_. None), mc_registry = None\<rparr>, sp_procs = (\<lambda>_. None)\<rparr>"

inductive life_reach :: "'p site \<Rightarrow> bool" where
  start: "life_reach site_start"
| step: "life_reach w \<Longrightarrow> life_reach (life_step e w)"

section \<open>The invariant\<close>

text \<open>
  What is bound belongs to a process that holds it, a process that has returned holds nothing, and a
  process whose listening failed does not serve.
\<close>

definition serves_at :: "'p proc option \<Rightarrow> int \<Rightarrow> bool" where
  "serves_at po port \<longleftrightarrow> (\<exists>p. po = Some p \<and> pr_http p = HttpServing \<and> sv_port (pr_server p) = port)"

definition listens_at :: "'p proc option \<Rightarrow> string \<Rightarrow> bool" where
  "listens_at po path \<longleftrightarrow> (\<exists>p. po = Some p \<and> pr_unixLn p = Some path \<and> pr_unix_open p \<and> pr_socketPath p = path)"

definition proc_ok :: "'p proc \<Rightarrow> bool" where
  "proc_ok p \<longleftrightarrow>
     (pr_phase p \<noteq> InRun \<longrightarrow> \<not> pr_unix_open p \<and> \<not> pr_kv_open p \<and> pr_http p \<noteq> HttpServing)
     \<and> (pr_errCh p \<noteq> None \<longrightarrow> pr_http p \<in> {HttpFailed, HttpClosed})"

definition holds :: "machine \<Rightarrow> nat \<Rightarrow> 'p proc option \<Rightarrow> bool" where
  "holds m i po \<longleftrightarrow>
     (\<forall>port. mc_ports m port = Some i \<longleftrightarrow> serves_at po port) \<and> (\<forall>path. mc_sockets m path = Some i \<longrightarrow> listens_at po path)
     \<and> pred_option proc_ok po"

definition life_ok :: "'p site \<Rightarrow> bool" where
  "life_ok w \<longleftrightarrow> (\<forall>i. holds (sp_machine w) i (sp_procs w i))"

lemma holds_registry [simp]: "holds (m\<lparr>mc_registry := r\<rparr>) i po = holds m i po"
  by (simp add: holds_def)

lemma holds_remove: "holds m i po \<Longrightarrow> holds (remove_socket path m) i po"
  by (auto simp: holds_def remove_socket_def)

lemma life_ok_start: "life_ok site_start"
  by (simp add: life_ok_def site_start_def holds_def serves_at_def)

text \<open>A step of one process keeps what the others hold.\<close>

definition sole_step :: "nat \<Rightarrow> (machine \<times> 'p proc \<Rightarrow> machine \<times> 'p proc) \<Rightarrow> bool" where
  "sole_step i f \<longleftrightarrow>
     (\<forall>m p m' p'. f (m, p) = (m', p') \<and> holds m i (Some p) \<and> pr_phase p = InRun \<longrightarrow>
        holds m' i (Some p') \<and> (\<forall>j (po :: 'p proc option). j \<noteq> i \<and> holds m j po \<longrightarrow> holds m' j po))"

lemma life_ok_on_proc:
  fixes f :: "machine \<times> 'a proc \<Rightarrow> machine \<times> 'a proc"
  shows "sole_step i f \<Longrightarrow> life_ok w \<Longrightarrow> life_ok (on_proc i f w)"
proof -
  assume f: "sole_step i f" and w: "life_ok w"
  show ?thesis
  proof (cases "sp_procs w i")
    case (Some p)
    show ?thesis
    proof (cases "pr_phase p = InRun")
      case True
      obtain m' p' where e: "f (sp_machine w, p) = (m', p')" by fastforce
      have "holds (sp_machine w) i (Some p)" using w Some by (metis life_ok_def)
      with f e True have "holds m' i (Some p')" "\<And>j (po :: 'a proc option). j \<noteq> i \<Longrightarrow> holds (sp_machine w) j po \<Longrightarrow> holds m' j po"
        unfolding sole_step_def by blast+
      then show ?thesis using w Some True e by (simp add: on_proc_def life_ok_def)
    qed (use w Some in \<open>simp add: on_proc_def\<close>)
  qed (use w in \<open>simp add: on_proc_def\<close>)
qed

lemma bind_port:
  assumes "mc_ports m port = None" and "j \<noteq> i" and "holds m j po"
  shows "holds (m\<lparr>mc_ports := (mc_ports m)(port \<mapsto> i)\<rparr>) j po"
proof -
  have "\<not> serves_at po port" using assms(1,3) by (metis holds_def option.distinct(1))
  then show ?thesis using assms(2,3) by (auto simp: holds_def)
qed

lemma own_port: "holds m i (Some p) \<Longrightarrow> pr_http p \<noteq> HttpServing \<Longrightarrow> mc_ports m port \<noteq> Some i"
  by (auto simp: holds_def serves_at_def)

lemma listens_same: "pr_unixLn p' = pr_unixLn p \<Longrightarrow> pr_unix_open p' = pr_unix_open p \<Longrightarrow> pr_socketPath p' = pr_socketPath p \<Longrightarrow>
    listens_at (Some p') = listens_at (Some p)"
  by (simp add: listens_at_def fun_eq_iff)

lemma sole_serve: "sole_step i (listen_and_serve i bind)"
proof -
  have "holds m' i (Some p') \<and> (\<forall>j (po :: 'a proc option). j \<noteq> i \<and> holds m j po \<longrightarrow> holds m' j po)"
    if e: "listen_and_serve i bind (m, p) = (m', p')" and h: "holds m i (Some p)" and r: "pr_phase p = InRun" for m and p :: "'a proc" and m' p'
  proof (cases "pr_http p = HttpNew")
    case True
    then have none: "mc_ports m port \<noteq> Some i" for port using own_port [OF h] by simp
    show ?thesis
    proof (cases "if mc_ports m (sv_port (pr_server p)) = None then bind else Some addr_in_use")
      case None
      then have free: "mc_ports m (sv_port (pr_server p)) = None" by (simp split: if_splits)
      have m': "m' = m\<lparr>mc_ports := (mc_ports m)(sv_port (pr_server p) \<mapsto> i)\<rparr>" "p' = p\<lparr>pr_http := HttpServing\<rparr>"
        using e True None free by (simp_all add: listen_and_serve_def)
      have "holds m' i (Some p')"
        using h none True r by (auto simp: m' holds_def serves_at_def listens_at_def proc_ok_def)
      then show ?thesis by (auto simp: m' intro: bind_port [OF free])
    next
      case (Some k)
      then have m': "m' = m" "p' = p\<lparr>pr_http := HttpFailed, pr_errCh := Some k\<rparr>"
        using e True by (simp_all add: listen_and_serve_def)
      show ?thesis using h none r by (auto simp: m' holds_def serves_at_def listens_at_def proc_ok_def)
    qed
  qed (use e h in \<open>simp add: listen_and_serve_def\<close>)
  then show ?thesis unfolding sole_step_def by blast
qed

lemma holds_Shutdown:
  assumes "holds m i (Some p)" and "http_Shutdown (m, p) = (m', p')"
  shows "holds m' i (Some p')" and "j \<noteq> i \<Longrightarrow> holds m j po \<Longrightarrow> holds m' j po"
proof -
  have p': "p' = p\<lparr>pr_http := HttpClosed\<rparr>"
    and m': "m' = (if pr_http p = HttpServing then m\<lparr>mc_ports := (mc_ports m)(sv_port (pr_server p) := None)\<rparr> else m)"
    using assms(2) by (simp_all add: http_Shutdown_def)
  have serves: "pr_http p = HttpServing \<Longrightarrow> mc_ports m (sv_port (pr_server p)) = Some i"
    using assms(1) by (simp add: holds_def serves_at_def)
  have gone: "mc_ports m' port \<noteq> Some i" for port
    using assms(1) by (auto simp: m' holds_def serves_at_def)
  show "holds m' i (Some p')"
    using assms(1) gone by (auto simp: m' p' holds_def serves_at_def listens_at_def proc_ok_def)
  show "holds m' j po" if "j \<noteq> i" "holds m j po"
  proof -
    have "pr_http p = HttpServing \<Longrightarrow> \<not> serves_at po (sv_port (pr_server p))"
      using serves that by (metis holds_def option.inject)
    then show ?thesis using that by (auto simp: m' holds_def)
  qed
qed

lemma cleanup_machine:
  "fst (cleanup mkdir write (m, p)) =
     (let m2 = (case pr_unixLn p of Some path \<Rightarrow> if pr_unix_open p then remove_socket path m else m | None \<Rightarrow> m);
          m3 = (if pr_socketPath p \<noteq> [] then remove_socket (pr_socketPath p) m2 else m2)
      in m3\<lparr>mc_registry := fst (ds_Deregister mkdir write (sv_port (pr_server p)) (mc_registry m3))\<rparr>)"
  "snd (cleanup mkdir write (m, p)) = p\<lparr>pr_unix_open := False, pr_kv_open := False\<rparr>"
  by (simp_all add: cleanup_def Let_def)

lemma cleanup_gone:
  assumes "holds m i (Some p)"
  shows "mc_sockets (fst (cleanup mkdir write (m, p))) path \<noteq> Some i"
proof (cases "mc_sockets m path = Some i")
  case True
  then have "pr_unixLn p = Some path" "pr_unix_open p" using assms by (auto simp: holds_def listens_at_def)
  then show ?thesis by (simp add: cleanup_machine Let_def remove_socket_def)
next
  case False
  then show ?thesis by (auto simp: cleanup_machine Let_def remove_socket_def split: option.split)
qed

lemma holds_cleanup:
  assumes "holds m i (Some p)" and "cleanup mkdir write (m, p) = (m', p')"
  shows "holds m' i (Some p')" and "j \<noteq> i \<Longrightarrow> holds m j po \<Longrightarrow> holds m' j po"
proof -
  have m': "m' = fst (cleanup mkdir write (m, p))" and p': "p' = p\<lparr>pr_unix_open := False, pr_kv_open := False\<rparr>"
    using assms(2) cleanup_machine(2) [of mkdir "write" m p] by simp_all
  have ports: "mc_ports m' = mc_ports m"
    by (simp add: m' cleanup_machine Let_def remove_socket_def split: option.split)
  have gone: "mc_sockets m' path \<noteq> Some i" for path
    using cleanup_gone [OF assms(1)] by (simp add: m')
  show "holds m' i (Some p')"
    using assms(1) gone by (simp add: holds_def ports p' serves_at_def proc_ok_def)
  show "j \<noteq> i \<Longrightarrow> holds m j po \<Longrightarrow> holds m' j po"
    by (simp add: m' cleanup_machine Let_def holds_remove split: option.split)
qed

lemma holds_return:
  "holds m i (Some p) \<Longrightarrow> \<not> pr_unix_open p \<Longrightarrow> \<not> pr_kv_open p \<Longrightarrow> pr_http p \<noteq> HttpServing \<Longrightarrow>
    holds m i (Some (p\<lparr>pr_phase := x\<rparr>))"
  by (auto simp: holds_def serves_at_def listens_at_def proc_ok_def)

lemma sole_stop: "sole_step i (stop_command mkdir write)"
proof -
  have "holds m' i (Some p') \<and> (\<forall>j (po :: 'a proc option). j \<noteq> i \<and> holds m j po \<longrightarrow> holds m' j po)"
    if e: "stop_command mkdir write (m, p) = (m', p')" and h: "holds m i (Some p)" for m and p :: "'a proc" and m' p'
  proof -
    obtain m1 p1 where s: "http_Shutdown (m, p) = (m1, p1)" by fastforce
    then have c: "cleanup mkdir write (m1, p1) = (m', p')" using e by (simp add: stop_command_def)
    have h1: "holds m1 i (Some p1)" by (rule holds_Shutdown(1) [OF h s])
    show ?thesis using holds_cleanup(1) [OF h1 c] by (auto intro: holds_cleanup(2) [OF h1 c] holds_Shutdown(2) [OF h s])
  qed
  then show ?thesis unfolding sole_step_def by blast
qed

lemma closed_after:
  "pr_http (snd (http_Shutdown mp)) = HttpClosed" "\<not> pr_unix_open (snd (cleanup mkdir write mp))"
  "\<not> pr_kv_open (snd (cleanup mkdir write mp))" "pr_http (snd (cleanup mkdir write mp)) = pr_http (snd mp)"
  "pr_phase (snd (cleanup mkdir write mp)) = pr_phase (snd mp)" "pr_phase (snd (http_Shutdown mp)) = pr_phase (snd mp)"
  "pr_errCh (snd (cleanup mkdir write mp)) = pr_errCh (snd mp)" "pr_errCh (snd (http_Shutdown mp)) = pr_errCh (snd mp)"
  by (simp_all add: http_Shutdown_def cleanup_def Let_def split: prod.split)

lemma sole_shutdown: "sole_step i (sv_shutdown mkdir write err)"
proof -
  have "holds m' i (Some p') \<and> (\<forall>j (po :: 'a proc option). j \<noteq> i \<and> holds m j po \<longrightarrow> holds m' j po)"
    if e: "sv_shutdown mkdir write err (m, p) = (m', p')" and h: "holds m i (Some p)" and r: "pr_phase p = InRun" for m and p :: "'a proc" and m' p'
  proof -
    obtain p1 where s: "stop_command mkdir write (m, p) = (m', p1)" and p': "p' = p1\<lparr>pr_phase := Returned err\<rparr>"
      using e by (auto simp: sv_shutdown_def stop_command_def split: prod.splits)
    have h1: "holds m' i (Some p1) \<and> (\<forall>j (po :: 'a proc option). j \<noteq> i \<and> holds m j po \<longrightarrow> holds m' j po)"
      using sole_stop [of i mkdir "write", unfolded sole_step_def] s h r by blast
    have "p1 = snd (cleanup mkdir write (http_Shutdown (m, p)))" using s by (metis snd_conv stop_command_def)
    then have "\<not> pr_unix_open p1" "\<not> pr_kv_open p1" "pr_http p1 \<noteq> HttpServing" by (simp_all add: closed_after)
    then show ?thesis using h1 by (simp add: p' holds_return)
  qed
  then show ?thesis unfolding sole_step_def by blast
qed

lemma sole_failed: "sole_step i (serve_failed mkdir write)"
proof -
  have "holds m' i (Some p') \<and> (\<forall>j (po :: 'a proc option). j \<noteq> i \<and> holds m j po \<longrightarrow> holds m' j po)"
    if e: "serve_failed mkdir write (m, p) = (m', p')" and h: "holds m i (Some p)" for m and p :: "'a proc" and m' p'
  proof (cases "pr_errCh p")
    case (Some x)
    obtain p1 where c: "cleanup mkdir write (m, p) = (m', p1)" and p': "\<exists>y. p' = p1\<lparr>pr_phase := y\<rparr>"
      using e Some by (auto simp: serve_failed_def split: prod.splits)
    have "pr_http p \<noteq> HttpServing" using h Some by (auto simp: holds_def proc_ok_def)
    moreover have "p1 = snd (cleanup mkdir write (m, p))" by (simp add: c)
    ultimately have "\<not> pr_unix_open p1" "\<not> pr_kv_open p1" "pr_http p1 \<noteq> HttpServing" by (simp_all add: closed_after)
    then show ?thesis using holds_cleanup(1) [OF h c] p' by (auto intro: holds_return holds_cleanup(2) [OF h c])
  qed (use e h in \<open>simp add: serve_failed_def\<close>)
  then show ?thesis unfolding sole_step_def by blast
qed

lemma listener_spec:
  assumes "startUnixListener lo i sid m = (m1, r)"
  shows "mc_ports m1 = mc_ports m \<and> mc_registry m1 = mc_registry m
    \<and> (case r of Inl e \<Rightarrow> (\<forall>path. mc_sockets m1 path = mc_sockets m path \<or> mc_sockets m1 path = None)
       | Inr path \<Rightarrow> path = socket_path lo sid \<and> mc_sockets m1 = (mc_sockets m)(path \<mapsto> i))"
  using assms by (auto simp: startUnixListener_def Let_def remove_socket_def split: option.splits)

lemma holds_begin:
  assumes "run_begin lo i s m = (m', p)" and "holds m i (None :: 'a proc option)"
  shows "holds m' i (Some (p :: 'a proc))" and "j \<noteq> i \<Longrightarrow> holds m j po \<Longrightarrow> holds m' j po"
proof -
  have none: "mc_ports m port \<noteq> Some i" "mc_sockets m path \<noteq> Some i" for port path
    using assms(2) by (auto simp: holds_def serves_at_def listens_at_def)
  have "holds m' i (Some p) \<and> (\<forall>j po. j \<noteq> i \<and> holds m j (po :: 'b proc option) \<longrightarrow> holds m' j po)"
  proof (cases "sv_Run_start (lo_env lo) (lo_open lo) (lo_rows lo) s")
    case (Inl e)
    then show ?thesis
      using assms none by (auto simp: run_begin_def holds_def serves_at_def proc_ok_def)
  next
    case (Inr s1)
    obtain m1 r where l: "startUnixListener lo i (op_SessionID (sv_opts s1)) m = (m1, r)" by fastforce
    note spec = listener_spec [OF l]
    let ?reg = "mc_registry m'"
    have m': "m' = m1\<lparr>mc_registry := ?reg\<rparr>" and p: "pr_http p = HttpNew" "pr_errCh p = None" "pr_phase p = InRun"
        "pr_unixLn p = (case r of Inl _ \<Rightarrow> None | Inr x \<Rightarrow> Some x)" "pr_unix_open p = (case r of Inl _ \<Rightarrow> False | Inr _ \<Rightarrow> True)"
        "pr_socketPath p = (case r of Inl _ \<Rightarrow> [] | Inr x \<Rightarrow> x)"
      using assms(1) Inr l by (auto simp: run_begin_def Let_def)
    have sockets: "(mc_sockets m1 path = Some k \<and> k \<noteq> i \<longrightarrow> mc_sockets m path = Some k)
      \<and> (mc_sockets m1 path = Some i \<longrightarrow> listens_at (Some p) path)" for path k
    proof (cases r)
      case (Inl e)
      then have "mc_sockets m1 path = mc_sockets m path \<or> mc_sockets m1 path = None" using spec by simp
      then show ?thesis using none(2) [of path] by auto
    next
      case (Inr x)
      then have "mc_sockets m1 = (mc_sockets m)(x \<mapsto> i)" using spec by simp
      then show ?thesis using none(2) [of path] p Inr by (auto simp: listens_at_def)
    qed
    have ports: "mc_ports m1 = mc_ports m" using spec by simp
    have own: "holds m1 i (Some p)"
      using sockets none(1) p(1-3) by (simp add: holds_def ports serves_at_def proc_ok_def)
    have other: "holds m1 j po" if "j \<noteq> i" "holds m j po" for j and po :: "'b proc option"
      using that sockets by (simp add: holds_def ports)
    from own other show ?thesis by (subst (1 2) m') simp
  qed
  then show "holds m' i (Some p)" and "j \<noteq> i \<Longrightarrow> holds m j po \<Longrightarrow> holds m' j po" by blast+
qed

lemma life_ok_step: "life_ok w \<Longrightarrow> life_ok (life_step e w)"
proof (cases e)
  case (Launch i lo s)
  assume w: "life_ok w"
  obtain m p where b: "run_begin lo i s (sp_machine w) = (m, p)" by fastforce
  show ?thesis
  proof (cases "sp_procs w i")
    case None
    then have "holds (sp_machine w) i (None :: 'a proc option)" using w by (metis life_ok_def)
    then show ?thesis using w None b by (auto simp: Launch life_ok_def intro: holds_begin [OF b])
  qed (use w in \<open>simp add: Launch\<close>)
next
  case (StopAt path mkdir wr)
  then show "life_ok w \<Longrightarrow> ?thesis" by (simp add: life_ok_on_proc [OF sole_stop] split: option.split)
qed (simp_all add: life_ok_on_proc sole_serve sole_failed sole_shutdown)

lemma life_reach_ok: "life_reach w \<Longrightarrow> life_ok w"
  by (induction rule: life_reach.induct) (simp_all add: life_ok_start life_ok_step)

text \<open>
  C33: A server process that has returned from \<open>Run\<close>, however it got there and whatever other processes
  did, holds nothing any more: no TCP port and no socket leads to it, its listener and its database are
  closed; and a port never leads to a process that is not serving it.
\<close>

theorem returned_holds_nothing:
  assumes "life_reach w" and "sp_procs w i = Some p" and "pr_phase p \<noteq> InRun"
  shows "(\<forall>port. mc_ports (sp_machine w) port \<noteq> Some i) \<and> (\<forall>path. mc_sockets (sp_machine w) path \<noteq> Some i)
    \<and> \<not> pr_unix_open p \<and> \<not> pr_kv_open p
    \<and> (\<forall>port j q. mc_ports (sp_machine w) port = Some j \<and> sp_procs w j = Some q \<longrightarrow> pr_http q = HttpServing \<and> sv_port (pr_server q) = port)"
proof -
  have h: "holds (sp_machine w) j (sp_procs w j)" for j using life_reach_ok [OF assms(1)] by (simp add: life_ok_def)
  have ok: "\<not> pr_unix_open p" "\<not> pr_kv_open p" "pr_http p \<noteq> HttpServing"
    using h [of i] assms(2,3) by (auto simp: holds_def proc_ok_def)
  have "mc_ports (sp_machine w) port \<noteq> Some i" "mc_sockets (sp_machine w) path \<noteq> Some i" for port path
    using h [of i] assms(2) ok by (auto simp: holds_def serves_at_def listens_at_def)
  moreover have "pr_http q = HttpServing \<and> sv_port (pr_server q) = port"
    if "mc_ports (sp_machine w) port = Some j" "sp_procs w j = Some q" for port j q
    using h [of j] that by (auto simp: holds_def serves_at_def)
  ultimately show ?thesis using ok by blast
qed

section \<open>The stop command\<close>

definition stopped :: "nat \<Rightarrow> 'p site \<Rightarrow> bool" where
  "stopped i w \<longleftrightarrow> (\<exists>p. sp_procs w i = Some p \<and> pr_phase p = InRun \<and> pr_http p = HttpClosed \<and> pr_errCh p = None)"

lemma stopped_step:
  assumes "stopped i w" and "\<forall>mkdir wr err. e \<noteq> Terminate i mkdir wr err"
  shows "stopped i (life_step e w)"
proof -
  have other: "j \<noteq> i \<Longrightarrow> stopped i (on_proc j f w)" for j f
    using assms(1) by (auto simp: stopped_def on_proc_def split: option.split prod.split)
  have serve: "stopped i (on_proc i (listen_and_serve i bind) w)" for bind
    using assms(1) by (auto simp: stopped_def on_proc_def listen_and_serve_def)
  have failed: "stopped i (on_proc i (serve_failed mkdir wr) w)" for mkdir wr
    using assms(1) by (auto simp: stopped_def on_proc_def serve_failed_def)
  have stop: "stopped i (on_proc i (stop_command mkdir wr) w)" for mkdir wr
    using assms(1) by (auto simp: stopped_def on_proc_def stop_command_def http_Shutdown_def cleanup_def Let_def)
  show ?thesis
  proof (cases e)
    case (Launch j lo s)
    then show ?thesis using assms(1) by (auto simp: stopped_def split: prod.split)
  next
    case (ServeTurn j bind)
    then show ?thesis using other serve by (cases "j = i") simp_all
  next
    case (ErrTurn j mkdir wr)
    then show ?thesis using other failed by (cases "j = i") simp_all
  next
    case (Terminate j mkdir wr err)
    then show ?thesis using other assms(2) by (cases "j = i") simp_all
  next
    case (StopAt path mkdir wr)
    then show ?thesis using other stop assms(1) by (auto split: option.split) (metis other stop)
  qed
qed

text \<open>
  C32: \<open>rdw server stop\<close> leaves the process behind: the stop command closes the port and the sockets of the
  server and takes it out of the registry, but nothing tells \<open>Run\<close>, so that unless the process gets a
  signal it never returns, whatever happens on the machine.
\<close>

theorem stop_leaves_process:
  assumes "life_reach w" and "sp_procs w i = Some p" and "pr_http p = HttpServing" and "mc_sockets (sp_machine w) path = Some i"
    and "\<forall>e \<in> set es. \<forall>mkdir wr err. e \<noteq> Terminate i mkdir wr err"
  shows "let w1 = life_step (StopAt path mkdir wr) w in
    mc_ports (sp_machine w1) (sv_port (pr_server p)) = None \<and> mc_sockets (sp_machine w1) path = None
    \<and> (\<exists>q. sp_procs (fold life_step es w1) i = Some q \<and> pr_phase q = InRun \<and> pr_http q = HttpClosed)"
proof -
  have h: "holds (sp_machine w) i (Some p)" using life_reach_ok [OF assms(1)] assms(2) by (metis life_ok_def)
  have run: "pr_phase p = InRun" and err: "pr_errCh p = None"
    using h assms(3) by (auto simp: holds_def proc_ok_def)
  have sock: "pr_unixLn p = Some path" "pr_unix_open p" "pr_socketPath p = path"
    using h assms(4) by (auto simp: holds_def listens_at_def)
  let ?w1 = "life_step (StopAt path mkdir wr) w"
  have w1: "?w1 = on_proc i (stop_command mkdir wr) w" using assms(4) by simp
  have freed: "mc_ports (sp_machine ?w1) (sv_port (pr_server p)) = None" "mc_sockets (sp_machine ?w1) path = None"
    unfolding w1 using assms(2,3) run sock
    by (simp_all add: on_proc_def stop_command_def http_Shutdown_def cleanup_def Let_def remove_socket_def)
  have "stopped i ?w1"
    unfolding w1 using assms(2) run err
    by (auto simp: stopped_def on_proc_def stop_command_def http_Shutdown_def cleanup_def Let_def)
  then have "stopped i (fold life_step es ?w1)"
    using assms(5) by (induction es rule: rev_induct) (auto simp: stopped_step)
  then show ?thesis using freed by (auto simp: Let_def stopped_def)
qed

section \<open>A second server\<close>

lemma registered_ok: "file_ok f \<Longrightarrow> info_ok info \<Longrightarrow> file_ok (fst (ds_Register mkdir wr info f))"
  by (cases mkdir; cases wr) (simp_all add: ds_Register_def written(2) [OF with_entry_ok(1,2)], simp_all add: writeRegistry_def)

lemma deregistered: "file_ok f \<Longrightarrow> entries (fst (ds_Deregister None None port f)) port = None"
  unfolding ds_Deregister_def written(3) [OF filtered_ok(1,2)] filtered_ok(3)
  by (auto simp: entries_def dest: entry_port split: option.split)

text \<open>What the process leaves that cannot listen: \<open>r\<close> is what became of its socket.\<close>

lemma unhooked:
  assumes "file_ok (mc_registry m)" and "mc_sockets m path = (case r of Inl _ \<Rightarrow> None | Inr _ \<Rightarrow> Some j) \<and> (\<forall>x. r = Inr x \<longrightarrow> x = path)"
    and "pr_unixLn q = (case r of Inl _ \<Rightarrow> None | Inr x \<Rightarrow> Some x)" and "pr_unix_open q = (case r of Inl _ \<Rightarrow> False | Inr _ \<Rightarrow> True)"
    and "pr_socketPath q = (case r of Inl _ \<Rightarrow> [] | Inr x \<Rightarrow> x)"
  shows "mc_sockets (fst (cleanup None None (m, q))) path = None" and "mc_ports (fst (cleanup None None (m, q))) = mc_ports m"
    and "entries (mc_registry (fst (cleanup None None (m, q)))) (sv_port (pr_server q)) = None"
proof -
  show "mc_sockets (fst (cleanup None None (m, q))) path = None"
    using assms(2-5) by (cases r) (simp_all add: cleanup_machine Let_def remove_socket_def)
  show "mc_ports (fst (cleanup None None (m, q))) = mc_ports m"
    by (simp add: cleanup_machine Let_def remove_socket_def split: option.split)
  show "entries (mc_registry (fst (cleanup None None (m, q)))) (sv_port (pr_server q)) = None"
    by (simp add: cleanup_machine Let_def remove_socket_def deregistered [OF assms(1)] split: option.split)
qed

text \<open>A process that has come as far as its listener, whatever became of its socket.\<close>

lemma begun:
  fixes lo :: "'a life_os" and opts :: options
  assumes "lo_mkdir lo = None" and "file_ok (mc_registry m)" and "int64 (sc_Port (cg_Server cfg))" and "int64 (ev_pid (lo_env lo))"
  defines "path \<equiv> socket_path lo (op_SessionID (sv_opts (sv_New cfg opts :: 'a server)))"
  shows "\<exists>m' q (r :: string result). run_begin lo j (sv_New cfg opts) m = (m', q) \<and> mc_ports m' = mc_ports m \<and> file_ok (mc_registry m')
    \<and> mc_sockets m' path = (case r of Inl _ \<Rightarrow> None | Inr _ \<Rightarrow> Some j) \<and> (\<forall>x. r = Inr x \<longrightarrow> x = path)
    \<and> pr_unixLn q = (case r of Inl _ \<Rightarrow> None | Inr x \<Rightarrow> Some x) \<and> pr_unix_open q = (case r of Inl _ \<Rightarrow> False | Inr _ \<Rightarrow> True)
    \<and> pr_socketPath q = (case r of Inl _ \<Rightarrow> [] | Inr x \<Rightarrow> x)
    \<and> pr_phase q = InRun \<and> pr_http q = HttpNew \<and> sv_port (pr_server q) = sc_Port (cg_Server cfg)"
proof -
  define s where "s = (sv_New cfg opts :: 'a server)"
  obtain s1 where s1: "sv_Run_start (lo_env lo) (lo_open lo) (lo_rows lo) s = Inr s1"
    and core: "sv_port s1 = sc_Port (cg_Server cfg)" "sv_opts s1 = sv_opts s" "sv_kvDB s1 = None"
    using start_state [of "lo_env lo" "lo_open lo" "lo_rows lo" cfg opts, folded s_def]
    by (simp add: s_def sv_New_def Let_def)
  obtain m1 r where l: "startUnixListener lo j (op_SessionID (sv_opts s)) m = (m1, r)" by fastforce
  have kept: "mc_registry m1 = mc_registry m" "mc_ports m1 = mc_ports m" using listener_spec [OF l] by simp_all
  have sock: "mc_sockets m1 path = (case r of Inl _ \<Rightarrow> None | Inr _ \<Rightarrow> Some j) \<and> (\<forall>x. r = Inr x \<longrightarrow> x = path)"
    using l assms(1) by (auto simp: startUnixListener_def remove_socket_def Let_def path_def s_def split: option.splits)
  define f where "f = fst (ds_Register (lo_registry_dir lo) (lo_registry_write lo)
      (server_entry lo (case r of Inl _ \<Rightarrow> [] | Inr x \<Rightarrow> x) s1) (mc_registry m1))"
  have ok: "file_ok f"
    unfolding f_def kept using assms(2-4) by (intro registered_ok) (simp_all add: info_ok_def server_entry_def core)
  define q where "q = \<lparr>pr_server = s1, pr_unixLn = (case r of Inl _ \<Rightarrow> None | Inr x \<Rightarrow> Some x), pr_unix_open = (case r of Inl _ \<Rightarrow> False | Inr _ \<Rightarrow> True),
    pr_socketPath = (case r of Inl _ \<Rightarrow> [] | Inr x \<Rightarrow> x), pr_http = HttpNew, pr_errCh = None, pr_kv_open = False, pr_phase = InRun\<rparr>"
  have "run_begin lo j s m = (m1\<lparr>mc_registry := f\<rparr>, q)"
    by (simp add: run_begin_def s1 core l f_def q_def Let_def)
  with ok sock show ?thesis unfolding s_def [symmetric]
    by (intro exI [of _ "m1\<lparr>mc_registry := f\<rparr>"] exI [of _ q] exI [of _ r]) (simp add: q_def kept core)
qed

text \<open>
  C31: Starting a second server on a port that is taken harms the first. The second one removes the
  socket of the first and replaces its entry in the registry before it finds that it cannot listen, and
  cleans both up when it returns with the error: the first still serves the port, but it has no socket,
  so that no command and no pipe reaches it any more, and it is not in the registry.
\<close>

theorem second_start_unhooks_first:
  assumes "life_reach w" and "sp_procs w i = Some p" and "pr_http p = HttpServing" and "sp_procs w j = None"
    and "sv_port (pr_server p) = sc_Port (cg_Server cfg)" and "lo_mkdir lo = None"
    and "file_ok (mc_registry (sp_machine w))" and "int64 (sc_Port (cg_Server cfg))" and "int64 (ev_pid (lo_env lo))"
  shows "let s = sv_New cfg opts; w1 = fold life_step [Launch j lo s, ServeTurn j bind, ErrTurn j None None] w in
    map_option pr_phase (sp_procs w1 j) = Some (Returned (Some (Wrapf ''server error: %w'' [] addr_in_use)))
    \<and> sp_procs w1 i = Some p \<and> mc_ports (sp_machine w1) (sc_Port (cg_Server cfg)) = Some i
    \<and> mc_sockets (sp_machine w1) (socket_path lo (op_SessionID (sv_opts s))) = None
    \<and> entries (mc_registry (sp_machine w1)) (sc_Port (cg_Server cfg)) = None"
proof -
  let ?port = "sc_Port (cg_Server cfg)" and ?path = "socket_path lo (op_SessionID (sv_opts (sv_New cfg opts :: 'a server)))"
  obtain m q and r :: "string result" where b: "run_begin lo j (sv_New cfg opts) (sp_machine w) = (m, q)" "mc_ports m = mc_ports (sp_machine w)" "file_ok (mc_registry m)"
    and sock: "mc_sockets m ?path = (case r of Inl _ \<Rightarrow> None | Inr _ \<Rightarrow> Some j) \<and> (\<forall>x. r = Inr x \<longrightarrow> x = ?path)"
      "pr_unixLn q = (case r of Inl _ \<Rightarrow> None | Inr x \<Rightarrow> Some x)" "pr_unix_open q = (case r of Inl _ \<Rightarrow> False | Inr _ \<Rightarrow> True)"
      "pr_socketPath q = (case r of Inl _ \<Rightarrow> [] | Inr x \<Rightarrow> x)"
    and q: "pr_phase q = InRun" "pr_http q = HttpNew" "sv_port (pr_server q) = ?port"
    using begun [OF assms(6-9), where opts = opts and j = j] by blast
  have ports: "mc_ports (sp_machine w) ?port = Some i"
    using life_reach_ok [OF assms(1)] assms(2,3,5) by (auto simp: life_ok_def holds_def serves_at_def)
  have launched: "life_step (Launch j lo (sv_New cfg opts)) w = w\<lparr>sp_machine := m, sp_procs := (sp_procs w)(j \<mapsto> q)\<rparr>"
    using assms(4) b(1) by simp
  let ?q1 = "q\<lparr>pr_http := HttpFailed, pr_errCh := Some addr_in_use\<rparr>"
  have served: "life_step (ServeTurn j bind) (life_step (Launch j lo (sv_New cfg opts)) w)
      = w\<lparr>sp_machine := m, sp_procs := (sp_procs w)(j \<mapsto> ?q1)\<rparr>"
    unfolding launched using ports by (simp add: on_proc_def q listen_and_serve_def b(2))
  have "i \<noteq> j" using assms(2,4) by auto
  with unhooked [OF b(3) sock(1), of ?q1] sock(2-4) show ?thesis
    using assms(2) ports unfolding Let_def fold.simps comp_def id_def served
    by (auto simp: on_proc_def q b(2) serve_failed_def split: prod.split)
qed

section \<open>An example\<close>

definition life_os_example :: "nat life_os" where
  "life_os_example =
     \<lparr>lo_env = env_example, lo_runtime_dir = ''/run/user/1000'', lo_temp_dir = ''/tmp'', lo_mkdir = None, lo_listen = None,
      lo_chmod = None, lo_registry_dir = None, lo_registry_write = None, lo_open = (\<lambda>_. Inl (Extern ''no database'')),
      lo_rows = Inr [], lo_started = ''2024-01-01T00:00:00Z''\<rparr>"

definition opts_example :: options where
  "opts_example = \<lparr>op_SessionID = [], op_PersistPath = [], op_Restore = False\<rparr>"

definition socket_example :: string where "socket_example = socket_path life_os_example (show_int 7681)"

definition site_example :: "nat site" where
  "site_example = fold life_step [Launch 1 life_os_example (sv_New cfg_example opts_example), ServeTurn 1 None] site_start"

lemma fold_life: "life_reach w \<Longrightarrow> life_reach (fold life_step es w)"
  by (induction es arbitrary: w) (simp_all add: life_reach.step)

lemma site_example_reach: "life_reach site_example"
  unfolding site_example_def by (rule fold_life [OF life_reach.start])

lemma config_port: "sc_Port (cg_Server cfg_example) = 7681"
  by (simp add: cfg_example_def cfg_Default_def DefaultPort_def)

lemma site_example_state:
  "\<exists>p. sp_procs site_example 1 = Some p \<and> pr_phase p = InRun \<and> pr_http p = HttpServing \<and> sv_port (pr_server p) = 7681
    \<and> pr_errCh p = None"
  "sp_procs site_example 2 = None" "mc_sockets (sp_machine site_example) socket_example = Some 1"
  "file_ok (mc_registry (sp_machine site_example))"
proof -
  define s1 where "s1 = (sv_New cfg_example opts_example :: nat server)\<lparr>sv_registry := register_user_formatters fmt_lib_example (cg_UserFormatters cfg_example) fmt_registry\<rparr>"
  have s1: "sv_Run_start env_example (lo_open life_os_example) (lo_rows life_os_example) (sv_New cfg_example opts_example) = Inr s1"
    by (simp add: start_state s1_def env_example_def)
  have core: "sv_port s1 = 7681" "op_SessionID (sv_opts s1) = show_int 7681" "sv_kvDB s1 = None"
    by (simp_all add: s1_def sv_New_def Let_def opts_example_def config_port)
  define m where "m = \<lparr>mc_sockets = [socket_example \<mapsto> (1::nat)], mc_ports = (\<lambda>_. None), mc_registry = None\<rparr>"
  have l: "startUnixListener life_os_example 1 (show_int 7681) (sp_machine (site_start :: nat site)) = (m, Inr socket_example)"
    by (simp add: startUnixListener_def remove_socket_def Let_def life_os_example_def site_start_def m_def socket_example_def)
  define f where "f = fst (ds_Register None None (server_entry life_os_example socket_example s1) None)"
  have ok: "file_ok f"
    unfolding f_def by (rule registered_ok)
      (simp_all add: file_ok_def ReadRegistry_def info_ok_def server_entry_def core life_os_example_def env_example_def int64_def)
  have os: "lo_env life_os_example = env_example" "lo_registry_dir life_os_example = None" "lo_registry_write life_os_example = None"
    by (simp_all add: life_os_example_def)
  define p where "p = \<lparr>pr_server = s1, pr_unixLn = Some socket_example, pr_unix_open = True, pr_socketPath = socket_example,
    pr_http = HttpNew, pr_errCh = None, pr_kv_open = False, pr_phase = InRun\<rparr>"
  have b: "run_begin life_os_example 1 (sv_New cfg_example opts_example) (sp_machine (site_start :: nat site)) = (m\<lparr>mc_registry := f\<rparr>, p)"
    using s1 l by (simp add: run_begin_def os core p_def f_def m_def Let_def del: One_nat_def)
  have e: "site_example = \<lparr>sp_machine = m\<lparr>mc_registry := f, mc_ports := [7681 \<mapsto> 1]\<rparr>, sp_procs = [1 \<mapsto> p\<lparr>pr_http := HttpServing\<rparr>]\<rparr>"
    using b by (simp add: site_example_def site_start_def on_proc_def listen_and_serve_def p_def core m_def)
  show "\<exists>p. sp_procs site_example 1 = Some p \<and> pr_phase p = InRun \<and> pr_http p = HttpServing \<and> sv_port (pr_server p) = 7681
      \<and> pr_errCh p = None"
    "sp_procs site_example 2 = None" "mc_sockets (sp_machine site_example) socket_example = Some 1"
    "file_ok (mc_registry (sp_machine site_example))"
    using ok by (simp_all add: e p_def core m_def)
qed

theorem returned_holds_nothing_witness:
  "\<exists>p. sp_procs (life_step (Terminate 1 None None None) site_example) 1 = Some p
    \<and> mc_ports (sp_machine (life_step (Terminate 1 None None None) site_example)) 7681 \<noteq> Some 1 \<and> \<not> pr_unix_open p"
proof -
  obtain p where p: "sp_procs site_example 1 = Some p" "pr_phase p = InRun" using site_example_state(1) by blast
  obtain m q where s: "sv_shutdown None None None (sp_machine site_example, p) = (m, q)" by fastforce
  then have "pr_phase q \<noteq> InRun" by (auto simp: sv_shutdown_def split: prod.splits)
  moreover have "sp_procs (life_step (Terminate 1 None None None) site_example) 1 = Some q" using p s by (simp add: on_proc_def)
  ultimately have q: "sp_procs (life_step (Terminate 1 None None None) site_example) 1 = Some q" "pr_phase q \<noteq> InRun" by simp_all
  from returned_holds_nothing [OF life_reach.step [OF site_example_reach] q] q(1) show ?thesis by blast
qed

theorem stop_leaves_process_witness:
  "mc_ports (sp_machine (life_step (StopAt socket_example None None) site_example)) 7681 = None
   \<and> (\<exists>q. sp_procs (fold life_step [Terminate 2 None None None, ErrTurn 1 None None] (life_step (StopAt socket_example None None) site_example)) 1 = Some q
        \<and> pr_phase q = InRun)"
proof -
  obtain p where p: "sp_procs site_example 1 = Some p" "pr_http p = HttpServing" "sv_port (pr_server p) = 7681"
    using site_example_state(1) by blast
  from stop_leaves_process [OF site_example_reach p(1,2) site_example_state(3), of "[Terminate 2 None None None, ErrTurn 1 None None]" None None] p(3)
  show ?thesis unfolding Let_def by auto
qed

theorem second_start_unhooks_first_witness:
  "let w1 = fold life_step [Launch 2 life_os_example (sv_New cfg_example opts_example), ServeTurn 2 None, ErrTurn 2 None None] site_example in
    mc_ports (sp_machine w1) 7681 = Some 1 \<and> entries (mc_registry (sp_machine w1)) 7681 = None"
proof -
  obtain p where p: "sp_procs site_example 1 = Some p" "pr_http p = HttpServing" "sv_port (pr_server p) = sc_Port (cg_Server cfg_example)"
    using site_example_state(1) by (auto simp: config_port)
  have "lo_mkdir life_os_example = None" "int64 (ev_pid (lo_env life_os_example))" "int64 (sc_Port (cg_Server cfg_example))"
    by (simp_all add: life_os_example_def env_example_def int64_def config_port)
  from second_start_unhooks_first [OF site_example_reach p(1,2) site_example_state(2) p(3) this(1) site_example_state(4) this(3,2), of opts_example None]
  show ?thesis unfolding Let_def config_port by simp
qed

end
