(* ===== verification/Web_Ansi.thy ===== *)
theory Web_Ansi
  imports Formatters
begin

text \<open>
  The page of \<open>internal/server/frontend.go\<close>: how it turns a line into HTML. Colour sequences (\<open>SGR\<close>) become
  \<open>span\<close> elements, everything else is escaped. A JavaScript string is the list of its bytes in UTF-8;
  the regular expressions used match ASCII characters only, so the code units in between do not matter.
  Numbers are exact here; in JavaScript they are up to \<open>2 ^ 53\<close>.
\<close>

section \<open>Escaping\<close>

definition escHtml :: "string \<Rightarrow> string" where
  "escHtml s = ReplaceByte (CHR ''>'') ''&gt;'' (ReplaceByte (CHR ''<'') ''&lt;'' (ReplaceByte (CHR ''&'') ''&amp;'' s))"

definition esc_char :: "char \<Rightarrow> string" where
  "esc_char c = (if c = CHR ''&'' then ''&amp;'' else if c = CHR ''<'' then ''&lt;'' else if c = CHR ''>'' then ''&gt;'' else [c])"

lemma escHtml_chars: "escHtml s = concat (map esc_char s)"
  by (induction s) (simp_all add: escHtml_def esc_char_def)

lemma escHtml_simps [simp]: "escHtml [] = []" "escHtml (c # s) = esc_char c @ escHtml s"
  by (simp_all add: escHtml_chars)

lemma escHtml_append: "escHtml (s @ t) = escHtml s @ escHtml t"
  by (simp add: escHtml_chars)

lemma escHtml_safe: "CHR ''<'' \<notin> set (escHtml s)" "CHR ''>'' \<notin> set (escHtml s)"
  by (induction s) (simp_all add: esc_char_def)

section \<open>Colour codes\<close>

definition ANSI16_FG :: "string list" where
  "ANSI16_FG =
     [''#000000'', ''#cc0000'', ''#00cc00'', ''#cccc00'', ''#0000cc'', ''#cc00cc'', ''#00cccc'', ''#cccccc'',
      ''#888888'', ''#ff4444'', ''#44ff44'', ''#ffff44'', ''#4444ff'', ''#ff44ff'', ''#44ffff'', ''#ffffff'']"

definition rgb :: "string \<Rightarrow> string \<Rightarrow> string \<Rightarrow> string" where
  "rgb r g b = ''rgb('' @ r @ '','' @ g @ '','' @ b @ '')''"

definition cube_level :: "nat \<Rightarrow> nat" where
  "cube_level x = (if x \<noteq> 0 then 55 + x * 40 else 0)"

text \<open>\<open>parseInt\<close> of a string of digits; \<open>None\<close> is \<open>NaN\<close>, which the arithmetic of the cube turns into 0.\<close>

definition parse_digits :: "string \<Rightarrow> nat option" where
  "parse_digits s = (if s = [] then None else Some (foldl (\<lambda>n c. 10 * n + (of_char c - 48)) 0 s))"

definition ansi256 :: "nat option \<Rightarrow> string" where
  "ansi256 i =
     (case i of
        None \<Rightarrow> rgb ''0'' ''0'' ''0''
      | Some n \<Rightarrow>
          if n < 16 then ANSI16_FG ! n
          else if 232 \<le> n then (let v = show_nat (8 + (n - 232) * 10) in rgb v v v)
          else (let m = n - 16 in
                rgb (show_nat (cube_level (m div 36))) (show_nat (cube_level (m div 6 mod 6))) (show_nat (cube_level (m mod 6)))))"

definition sgr_styles :: "nat \<Rightarrow> string list" where
  "sgr_styles n =
     (if n = 1 then [''font-weight:bold''] else [])
     @ (if n = 3 then [''font-style:italic''] else [])
     @ (if n = 4 then [''text-decoration:underline''] else [])
     @ (if n = 7 then [''filter:invert(1)''] else [])
     @ (if 30 \<le> n \<and> n \<le> 37 then [''color:'' @ ANSI16_FG ! (n - 30)] else [])
     @ (if n = 39 then [''color:inherit''] else [])
     @ (if 90 \<le> n \<and> n \<le> 97 then [''color:'' @ ANSI16_FG ! (n - 82)] else [])
     @ (if 40 \<le> n \<and> n \<le> 47 then [''background:'' @ ANSI16_FG ! (n - 40)] else [])
     @ (if n = 49 then [''background:inherit''] else [])
     @ (if 100 \<le> n \<and> n \<le> 107 then [''background:'' @ ANSI16_FG ! (n - 92)] else [])"

definition sgr_prop :: "nat \<Rightarrow> string" where
  "sgr_prop n = (if n = 38 then ''color:'' else ''background:'')"

text \<open>
  The two extended forms, \<open>38;5;n\<close> and \<open>38;2;r;g;b\<close>: the styles and the codes that remain. The second
  test is made after the first has advanced, so \<open>38;5;n;2;r;g;b\<close> is read as both.
\<close>

definition sgr_indexed :: "nat \<Rightarrow> string list \<Rightarrow> string list \<times> string list" where
  "sgr_indexed n cs =
     (case cs of
        a # i # rest \<Rightarrow> if (n = 38 \<or> n = 48) \<and> a = ''5'' then ([sgr_prop n @ ansi256 (parse_digits i)], rest) else ([], cs)
      | _ \<Rightarrow> ([], cs))"

definition sgr_direct :: "nat \<Rightarrow> string list \<Rightarrow> string list \<times> string list" where
  "sgr_direct n cs =
     (case cs of
        a # r # g # b # rest \<Rightarrow> if (n = 38 \<or> n = 48) \<and> a = ''2'' then ([sgr_prop n @ rgb r g b], rest) else ([], cs)
      | _ \<Rightarrow> ([], cs))"

lemma sgr_indexed_rest: "length (snd (sgr_indexed n cs)) \<le> length cs"
  by (auto simp: sgr_indexed_def split: list.split)

lemma sgr_direct_rest: "length (snd (sgr_direct n cs)) \<le> length cs"
  by (auto simp: sgr_direct_def split: list.split)

text \<open>\<open>null\<close>, a reset, as soon as a code is 0.\<close>

function parseAnsiCodes :: "string list \<Rightarrow> string list option" where
  "parseAnsiCodes [] = Some []"
| "parseAnsiCodes (c # cs) =
     (let n = (case parse_digits c of None \<Rightarrow> 0 | Some k \<Rightarrow> k);
          p1 = sgr_indexed n cs;
          p2 = sgr_direct n (snd p1)
      in if n = 0 then None
         else map_option (\<lambda>st. sgr_styles n @ fst p1 @ fst p2 @ st) (parseAnsiCodes (snd p2)))"
  by pat_completeness auto
termination
  by (relation "measure length")
    (auto intro: le_less_trans [OF order_trans [OF sgr_direct_rest sgr_indexed_rest]])

section \<open>Lines\<close>

definition sgr_param :: "char \<Rightarrow> bool" where
  "sgr_param c \<longleftrightarrow> is_digit c \<or> c = CHR '';''"

text \<open>A match of the expression \<open>\\x1b\\[([0-9;]*)m\<close> here: the group, and what follows.\<close>

definition sgr_at :: "string \<Rightarrow> (string \<times> string) option" where
  "sgr_at s =
     (case s of
        e # b # r \<Rightarrow>
          if e = CHR 0x1B \<and> b = CHR ''['' then
            (case dropWhile sgr_param r of
               c # rest \<Rightarrow> if c = CHR ''m'' then Some (takeWhile sgr_param r, rest) else None
             | [] \<Rightarrow> None)
          else None
      | _ \<Rightarrow> None)"

lemma sgr_at_iff: "sgr_at s = Some (ps, rest) \<longleftrightarrow> s = CHR 0x1B # CHR ''['' # ps @ CHR ''m'' # rest \<and> list_all sgr_param ps"
proof
  assume "sgr_at s = Some (ps, rest)"
  then obtain r where s: "s = CHR 0x1B # CHR ''['' # r" and d: "dropWhile sgr_param r = CHR ''m'' # rest" and p: "ps = takeWhile sgr_param r"
    by (auto simp: sgr_at_def split: list.splits if_splits)
  have "r = ps @ CHR ''m'' # rest" using takeWhile_dropWhile_id [of sgr_param r] d p by simp
  then show "s = CHR 0x1B # CHR ''['' # ps @ CHR ''m'' # rest \<and> list_all sgr_param ps"
    using s p by (auto simp: list_all_iff dest: set_takeWhileD)
next
  assume s: "s = CHR 0x1B # CHR ''['' # ps @ CHR ''m'' # rest \<and> list_all sgr_param ps"
  have m: "\<not> sgr_param (CHR ''m'')" by (simp add: sgr_param_def is_digit_def)
  have "takeWhile sgr_param (ps @ CHR ''m'' # rest) = ps" "dropWhile sgr_param (ps @ CHR ''m'' # rest) = CHR ''m'' # rest"
    using s m by (simp_all add: list_all_iff takeWhile_append dropWhile_append)
  then show "sgr_at s = Some (ps, rest)" using s by (simp add: sgr_at_def)
qed

lemma sgr_at_shorter: "sgr_at s = Some (ps, rest) \<Longrightarrow> length rest < length s"
  by (simp add: sgr_at_iff)

definition sgr_codes :: "string \<Rightarrow> string list" where
  "sgr_codes ps = (if ps = [] then [''0''] else split_on (CHR '';'') ps)"

definition close_spans :: "nat \<Rightarrow> string" where
  "close_spans n = concat (replicate n (end_tag ''span''))"

definition open_span :: "string list \<Rightarrow> string" where
  "open_span styles = tag ''span'' [(''style'', join_with '';'' styles)]"

text \<open>The loop over the matches, at a position of the text; \<open>n\<close> is \<open>openSpans\<close>.\<close>

function ansi_loop :: "nat \<Rightarrow> string \<Rightarrow> string" where
  "ansi_loop n [] = close_spans n"
| "ansi_loop n (c # s) =
     (case sgr_at (c # s) of
        None \<Rightarrow> c # ansi_loop n s
      | Some (ps, rest) \<Rightarrow>
          (case parseAnsiCodes (sgr_codes ps) of
             None \<Rightarrow> close_spans n @ ansi_loop 0 rest
           | Some styles \<Rightarrow>
               if styles = [] then ansi_loop n rest else open_span styles @ ansi_loop (n + 1) rest))"
  by pat_completeness auto
termination
  by (relation "measure (length \<circ> snd)") (auto dest: sgr_at_shorter)

definition ansiToHtml :: "string \<Rightarrow> string" where
  "ansiToHtml text = ansi_loop 0 (escHtml text)"

section \<open>The HTML of a line\<close>

text \<open>What the loop writes, as pieces: text, a start tag with its styles, an end tag.\<close>

datatype piece = Txt string | Opn "string list" | Cls

fun piece_html :: "piece \<Rightarrow> string" where
  "piece_html (Txt t) = t"
| "piece_html (Opn st) = open_span st"
| "piece_html Cls = end_tag ''span''"

fun piece_text :: "piece \<Rightarrow> string" where
  "piece_text (Txt t) = t"
| "piece_text _ = []"

text \<open>Every end tag has its start tag before it, and every start tag its end tag after it; \<open>n\<close> are open.\<close>

fun balanced :: "nat \<Rightarrow> piece list \<Rightarrow> bool" where
  "balanced n [] \<longleftrightarrow> n = 0"
| "balanced n (Txt t # ps) \<longleftrightarrow> balanced n ps"
| "balanced n (Opn st # ps) \<longleftrightarrow> balanced (Suc n) ps"
| "balanced n (Cls # ps) \<longleftrightarrow> 0 < n \<and> balanced (n - 1) ps"

text \<open>The characters that could end an attribute or start an element.\<close>

definition inert :: "char \<Rightarrow> bool" where
  "inert c \<longleftrightarrow> c \<notin> {CHR ''<'', CHR ''>'', DQUOTE}"

fun piece_safe :: "piece \<Rightarrow> bool" where
  "piece_safe (Txt t) \<longleftrightarrow> CHR ''<'' \<notin> set t \<and> CHR ''>'' \<notin> set t"
| "piece_safe (Opn st) \<longleftrightarrow> st \<noteq> [] \<and> list_all (list_all inert) st"
| "piece_safe Cls \<longleftrightarrow> True"

text \<open>The text without its colour sequences.\<close>

function strip_sgr :: "string \<Rightarrow> string" where
  "strip_sgr [] = []"
| "strip_sgr (c # s) = (case sgr_at (c # s) of None \<Rightarrow> c # strip_sgr s | Some (ps, rest) \<Rightarrow> strip_sgr rest)"
  by pat_completeness auto
termination
  by (relation "measure length") (auto dest: sgr_at_shorter)

lemma digit_inert: "is_digit c \<Longrightarrow> inert c"
  by (auto simp: is_digit_def inert_def)

lemma show_nat_inert: "list_all inert (show_nat n)"
  using show_nat_digits [of n] by (auto simp: list_all_iff digit_inert)

lemma rgb_inert: "list_all inert r \<Longrightarrow> list_all inert g \<Longrightarrow> list_all inert b \<Longrightarrow> list_all inert (rgb r g b)"
  by (simp add: rgb_def) (simp add: inert_def)

lemma fg_inert: "n < 16 \<Longrightarrow> list_all inert (ANSI16_FG ! n)"
proof -
  have "list_all (list_all inert) ANSI16_FG" by (simp add: ANSI16_FG_def inert_def)
  then show "n < 16 \<Longrightarrow> list_all inert (ANSI16_FG ! n)" by (simp add: list_all_length ANSI16_FG_def)
qed

lemma ansi256_inert: "list_all inert (ansi256 i)"
proof (cases i)
  case None
  then show ?thesis by (simp add: ansi256_def rgb_inert) (simp add: inert_def rgb_def)
next
  case (Some n)
  then show ?thesis by (auto simp: ansi256_def Let_def intro!: rgb_inert show_nat_inert fg_inert)
qed

lemma list_all_when: "list_all P (if b then [x] else []) \<longleftrightarrow> (b \<longrightarrow> P x)"
  by simp

lemma colour_inert:
  assumes "list_all inert v"
  shows "list_all inert (''color:'' @ v)" and "list_all inert (''background:'' @ v)"
  using assms by (simp_all) (simp_all add: inert_def)

lemma sgr_styles_inert: "list_all (list_all inert) (sgr_styles n)"
proof -
  have const: "list_all inert ''font-weight:bold''" "list_all inert ''font-style:italic''" "list_all inert ''text-decoration:underline''"
      "list_all inert ''filter:invert(1)''" "list_all inert ''color:inherit''" "list_all inert ''background:inherit''"
    by (simp_all add: inert_def)
  show ?thesis
    unfolding sgr_styles_def list_all_append list_all_when
    by (intro conjI impI const fg_inert; (simp add: inert_def | linarith))
qed

lemma prop_inert: "list_all inert v \<Longrightarrow> list_all inert (sgr_prop n @ v)"
  using colour_inert [of v] by (cases "n = 38") (simp_all only: sgr_prop_def if_True if_False simp_thms)

lemma parse_inert:
  assumes "list_all (list_all is_digit) codes" and "parseAnsiCodes codes = Some st"
  shows "list_all (list_all inert) st"
  using assms
proof (induction codes arbitrary: st rule: parseAnsiCodes.induct)
  case 1
  then show ?case by simp
next
  case (2 c cs)
  let ?n = "case parse_digits c of None \<Rightarrow> 0 | Some k \<Rightarrow> k"
  let ?p1 = "sgr_indexed ?n cs"
  let ?p2 = "sgr_direct ?n (snd ?p1)"
  have cs: "list_all (list_all is_digit) cs" using "2.prems"(1) by simp
  have inert: "list_all is_digit x \<Longrightarrow> list_all inert x" for x by (auto simp: list_all_iff digit_inert)
  have i1: "list_all (list_all inert) (fst ?p1)" "list_all (list_all is_digit) (snd ?p1)"
    using cs by (auto simp: sgr_indexed_def prop_inert [OF ansi256_inert] simp del: list_all_append split: list.split)
  have i2: "list_all (list_all inert) (fst ?p2)" "list_all (list_all is_digit) (snd ?p2)"
    using i1(2) by (auto simp: sgr_direct_def inert rgb_inert prop_inert simp del: list_all_append split: list.split)
  from "2.prems"(2) obtain st' where n: "?n \<noteq> 0" and rec: "parseAnsiCodes (snd ?p2) = Some st'" and st: "st = sgr_styles ?n @ fst ?p1 @ fst ?p2 @ st'"
    by (auto simp: Let_def split: if_splits)
  have "list_all (list_all inert) st'" by (rule "2.IH" [OF refl refl refl n i2(2) rec])
  then show ?case using st i1(1) i2(1) sgr_styles_inert by simp
qed

lemma split_on_chars: "x \<in> set (split_on k s) \<Longrightarrow> set x \<subseteq> set s"
proof (induction s arbitrary: x)
  case (Cons c s)
  then show ?case by (cases "split_on k s") (fastforce split: if_splits)+
qed simp

lemma codes_digits:
  assumes "list_all sgr_param ps"
  shows "list_all (list_all is_digit) (sgr_codes ps)"
proof (cases "ps = []")
  case False
  have "c \<in> set ps" if "x \<in> set (split_on (CHR '';'') ps)" "c \<in> set x" for x c
    using that join_split_on [of "CHR '';''" ps] split_on_chars by blast
  then show ?thesis
    using False assms split_on_free [of _ "CHR '';''" ps] by (auto simp: sgr_codes_def list_all_iff sgr_param_def)
qed (simp add: sgr_codes_def is_digit_def)

section \<open>What the browser is given\<close>

function ansi_pieces :: "nat \<Rightarrow> string \<Rightarrow> piece list" where
  "ansi_pieces n [] = replicate n Cls"
| "ansi_pieces n (c # s) =
     (case sgr_at (c # s) of
        None \<Rightarrow> Txt [c] # ansi_pieces n s
      | Some (ps, rest) \<Rightarrow>
          (case parseAnsiCodes (sgr_codes ps) of
             None \<Rightarrow> replicate n Cls @ ansi_pieces 0 rest
           | Some styles \<Rightarrow> if styles = [] then ansi_pieces n rest else Opn styles # ansi_pieces (n + 1) rest))"
  by pat_completeness auto
termination
  by (relation "measure (length \<circ> snd)") (auto dest: sgr_at_shorter)

lemma ansi_cases [case_names Nil char reset plain style]:
  assumes "s = [] \<Longrightarrow> P"
    and "\<And>c t. s = c # t \<Longrightarrow> sgr_at s = None \<Longrightarrow> P"
    and "\<And>c t ps rest. s = c # t \<Longrightarrow> sgr_at s = Some (ps, rest) \<Longrightarrow> parseAnsiCodes (sgr_codes ps) = None \<Longrightarrow> P"
    and "\<And>c t ps rest. s = c # t \<Longrightarrow> sgr_at s = Some (ps, rest) \<Longrightarrow> parseAnsiCodes (sgr_codes ps) = Some [] \<Longrightarrow> P"
    and "\<And>c t ps rest st. s = c # t \<Longrightarrow> sgr_at s = Some (ps, rest) \<Longrightarrow> parseAnsiCodes (sgr_codes ps) = Some st \<Longrightarrow> st \<noteq> [] \<Longrightarrow> P"
  shows P
  using assms by (cases s; cases "sgr_at s") fastforce+

lemma pieces_html: "ansi_loop n s = concat (map piece_html (ansi_pieces n s))"
proof (induction n s rule: ansi_pieces.induct)
  case (2 n c s)
  then show ?case by (cases "c # s" rule: ansi_cases) (simp_all add: close_spans_def)
qed (simp add: close_spans_def)

lemma balanced_close: "balanced (m + n) (replicate n Cls @ ps) \<longleftrightarrow> balanced m ps"
  by (induction n) simp_all

lemma pieces_balanced: "balanced n (ansi_pieces n s)"
proof (induction n s rule: ansi_pieces.induct)
  case (1 n)
  then show ?case using balanced_close [of 0 n "[]"] by simp
next
  case (2 n c s)
  then show ?case using balanced_close [of 0 n] by (cases "c # s" rule: ansi_cases) simp_all
qed

lemma text_close: "concat (map piece_text (replicate n Cls)) = []"
  by (induction n) simp_all

lemma pieces_text: "concat (map piece_text (ansi_pieces n s)) = strip_sgr s"
proof (induction n s rule: ansi_pieces.induct)
  case (2 n c s)
  then show ?case by (cases "c # s" rule: ansi_cases) (simp_all add: text_close)
qed (simp add: text_close)

lemma pieces_safe: "CHR ''<'' \<notin> set s \<Longrightarrow> CHR ''>'' \<notin> set s \<Longrightarrow> list_all piece_safe (ansi_pieces n s)"
proof (induction n s rule: ansi_pieces.induct)
  case (1 n)
  then show ?case by (simp add: list_all_iff)
next
  case (2 n c s)
  have closed: "list_all piece_safe (replicate n Cls)" by (simp add: list_all_iff)
  have inert: "list_all (list_all inert) st" if "sgr_at (c # s) = Some (ps, rest)" "parseAnsiCodes (sgr_codes ps) = Some st" for ps rest st
    using that parse_inert [OF codes_digits] by (auto simp: sgr_at_iff)
  have sub: "set rest \<subseteq> set (c # s)" if "sgr_at (c # s) = Some (ps, rest)" for ps rest
    using that by (auto simp: sgr_at_iff)
  show ?case
  proof (cases "c # s" rule: ansi_cases)
    case (char c t)
    then show ?thesis using 2 by simp
  next
    case (reset c' t ps rest)
    then show ?thesis using 2 sub [of ps rest] closed by fastforce
  next
    case (plain c' t ps rest)
    then show ?thesis using 2 sub [of ps rest] by fastforce
  next
    case (style c' t ps rest st)
    then show ?thesis using 2 sub [of ps rest] inert [of ps rest st] by fastforce
  qed simp
qed

text \<open>Escaping leaves the colour sequences alone.\<close>

lemma esc_param: "list_all sgr_param ps \<Longrightarrow> escHtml ps = ps"
  by (induction ps) (auto simp: esc_char_def sgr_param_def is_digit_def)

lemma sgr_at_esc: "sgr_at (escHtml s) = map_option (map_prod id escHtml) (sgr_at s)"
proof (cases "sgr_at s")
  case (Some p)
  obtain ps rest where p: "p = (ps, rest)" by (cases p)
  with Some have "s = CHR 0x1B # CHR ''['' # ps @ CHR ''m'' # rest" and l: "list_all sgr_param ps" by (simp_all add: sgr_at_iff)
  then have "escHtml s = CHR 0x1B # CHR ''['' # ps @ CHR ''m'' # escHtml rest"
    by (simp add: escHtml_append esc_param esc_char_def)
  then have "sgr_at (escHtml s) = Some (ps, escHtml rest)" using l by (subst sgr_at_iff) simp
  then show ?thesis using Some p by simp
next
  case None
  have "sgr_at (escHtml s) \<noteq> Some (ps, r)" for ps r
  proof
    assume "sgr_at (escHtml s) = Some (ps, r)"
    then have e: "escHtml s = CHR 0x1B # CHR ''['' # ps @ CHR ''m'' # r" and l: "list_all sgr_param ps" by (simp_all add: sgr_at_iff)
    have unesc: "escHtml t = ps @ CHR ''m'' # r \<Longrightarrow> \<exists>rest. t = ps @ CHR ''m'' # rest" for t
      using l
    proof (induction ps arbitrary: t)
      case Nil
      then show ?case by (cases t) (auto simp: esc_char_def split: if_splits)
    next
      case (Cons c ps)
      then obtain d t' where t: "t = d # t'" by (cases t) auto
      moreover from Cons.prems t have "d = c" "escHtml t' = ps @ CHR ''m'' # r"
        by (auto simp: esc_char_def sgr_param_def is_digit_def split: if_splits)
      ultimately show ?case using Cons by auto
    qed
    from e obtain t where s: "s = CHR 0x1B # CHR ''['' # t" and t: "escHtml t = ps @ CHR ''m'' # r"
      by (cases s; cases "tl s") (auto simp: esc_char_def split: if_splits)
    from unesc [OF t] s l have "sgr_at s \<noteq> None" by (metis option.simps(3) sgr_at_iff)
    with None show False by simp
  qed
  with None show ?thesis by (cases "sgr_at (escHtml s)") auto
qed

lemma sgr_at_other: "CHR 0x1B \<noteq> c \<Longrightarrow> sgr_at (c # s) = None"
  by (simp add: sgr_at_def split: list.split)

lemma strip_char: "sgr_at (c # s) = None \<Longrightarrow> strip_sgr (esc_char c @ escHtml s) = esc_char c @ strip_sgr (escHtml s)"
  using sgr_at_esc [of "c # s"] by (simp add: esc_char_def sgr_at_other split: if_splits)

lemma strip_esc: "strip_sgr (escHtml s) = escHtml (strip_sgr s)"
proof (induction s rule: strip_sgr.induct)
  case (2 c s)
  show ?case
  proof (cases "sgr_at (c # s)")
    case None
    then show ?thesis using 2 strip_char by simp
  next
    case (Some p)
    obtain ps rest where p: "p = (ps, rest)" by (cases p)
    have e: "sgr_at (escHtml (c # s)) = Some (ps, escHtml rest)" using sgr_at_esc [of "c # s"] Some p by simp
    then obtain d t where "escHtml (c # s) = d # t" by (cases "escHtml (c # s)") (auto simp: sgr_at_def)
    then have "strip_sgr (escHtml (c # s)) = strip_sgr (escHtml rest)" using e by simp
    then show ?thesis using 2 Some p by simp
  qed
qed simp


lemma loop_plain: "CHR 0x1B \<notin> set s \<Longrightarrow> ansi_loop 0 s = s"
  by (induction s) (auto simp: close_spans_def sgr_at_other)

lemma escHtml_ESC: "CHR 0x1B \<notin> set s \<Longrightarrow> CHR 0x1B \<notin> set (escHtml s)"
  by (induction s) (auto simp: esc_char_def)

text \<open>
  The most common way to set a colour has no effect: in a sequence whose first parameter is 0 (a reset,
  as in \<open>ESC[0;31m\<close>) the parameters after it are dropped, and the text is shown without any style.
\<close>

theorem reset_drops_colour:
  assumes "list_all sgr_param ps" and "CHR 0x1B \<notin> set t"
  shows "ansiToHtml ([CHR 0x1B] @ ''[0;'' @ ps @ ''m'' @ t) = escHtml t"
proof -
  let ?s = "escHtml ([CHR 0x1B] @ ''[0;'' @ ps @ ''m'' @ t)"
  have s: "?s = CHR 0x1B # CHR ''['' # (''0;'' @ ps) @ CHR ''m'' # escHtml t"
    using assms(1) by (simp add: escHtml_append esc_param esc_char_def)
  have at: "sgr_at ?s = Some (''0;'' @ ps, escHtml t)"
    unfolding s using assms(1) by (subst sgr_at_iff) (simp add: sgr_param_def is_digit_def)
  have "parseAnsiCodes (sgr_codes (''0;'' @ ps)) = None"
    using split_on_append [of "CHR '';''" "''0''" ps] by (simp add: sgr_codes_def parse_digits_def)
  then have "ansi_loop 0 ?s = ansi_loop 0 (escHtml t)"
    using at unfolding s by (simp add: close_spans_def)
  then show ?thesis
    using assms(2) by (simp add: ansiToHtml_def loop_plain escHtml_ESC)
qed

theorem reset_drops_colour_witness:
  "ansiToHtml ([CHR 0x1B] @ ''[0;'' @ ''31'' @ ''m'' @ ''red'') = ''red''"
  using reset_drops_colour [of "''31''" "''red''"] by (simp add: sgr_param_def is_digit_def esc_char_def)

end
