(* ===== verification/Web_Keys.thy ===== *)
theory Web_Keys
  imports Key_Bindings
begin

text \<open>
  The page of \<open>internal/server/frontend.go\<close>: the keyboard. The bindings that the server sends become a table
  of keys, in which the first key of a sequence leads to a table of second keys; the handler of key events
  is a machine with at most one pending key. A JavaScript object is a map with the keys that were set on
  it: no key event and no action has the name of an inherited property.
\<close>

section \<open>The table\<close>

datatype key_entry = KeyAction action | KeyTable "(string, action) gomap"

type_synonym key_table = "(string, key_entry) gomap"

text \<open>A key string: one key, or a first key and the rest after the first blank.\<close>

definition key_parts :: "string \<Rightarrow> string list" where
  "key_parts keyStr = split_on (CHR '' '') (TrimSpace keyStr)"

definition sub_table :: "key_entry option \<Rightarrow> (string, action) gomap option" where
  "sub_table e =
     (case e of
        None \<Rightarrow> Some []
      | Some (KeyAction b) \<Rightarrow> if b = [] then Some [] else None
      | Some (KeyTable sub) \<Rightarrow> Some sub)"

definition add_parts :: "action \<Rightarrow> string list \<Rightarrow> key_table \<Rightarrow> key_table" where
  "add_parts a parts table =
     (case parts of
        [] \<Rightarrow> table
      | k # rest \<Rightarrow>
          if rest = [] then gm_put k (KeyAction a) table
          else (case sub_table (gm_get table k) of
                  None \<Rightarrow> table
                | Some sub \<Rightarrow> gm_put k (KeyTable (gm_put (join_with '' '' rest) a sub)) table))"

definition add_key :: "action \<Rightarrow> string \<Rightarrow> key_table \<Rightarrow> key_table" where
  "add_key a keyStr table = add_parts a (key_parts keyStr) table"

definition buildKeyTable :: "(action, string list) gomap \<Rightarrow> key_table" where
  "buildKeyTable bindingsMap = fold (\<lambda>(a, keys). fold (add_key a) keys) bindingsMap []"

section \<open>Key events\<close>

record key_event =
  ke_key :: string
  ke_ctrl :: bool
  ke_shift :: bool

definition evtKey :: "key_event \<Rightarrow> string" where
  "evtKey e =
     (let k = ke_key e;
          k1 = (if ke_ctrl e \<and> length k = 1 then ''Control+'' @ k else k);
          k2 = (if ke_ctrl e \<and> k1 = ''c'' then ''Control+c'' else k1)
      in if ke_shift e \<and> k2 = ''Tab'' then ''Shift+Tab'' else k2)"

text \<open>The normal-mode part of the handler: the pending keys, and the action that is dispatched.\<close>

definition key_fresh :: "key_table \<Rightarrow> string \<Rightarrow> string list \<times> action option" where
  "key_fresh table k =
     (case gm_get table k of
        None \<Rightarrow> ([], None)
      | Some (KeyAction a) \<Rightarrow> if a = [] then ([], None) else ([], Some a)
      | Some (KeyTable sub) \<Rightarrow> ([k], None))"

definition key_step :: "key_table \<Rightarrow> key_event \<Rightarrow> string list \<Rightarrow> string list \<times> action option" where
  "key_step table e keySeq =
     (let k = evtKey e in
      if keySeq \<noteq> [] then
        (case gm_get table (join_with '' '' keySeq) of
           Some (KeyTable sub) \<Rightarrow>
             (case gm_get sub k of
                Some a \<Rightarrow> if a = [] then key_fresh table k else ([], Some a)
              | None \<Rightarrow> key_fresh table k)
         | _ \<Rightarrow> key_fresh table k)
      else key_fresh table k)"

fun key_run :: "key_table \<Rightarrow> key_event list \<Rightarrow> string list \<Rightarrow> string list \<times> action list" where
  "key_run table [] q = (q, [])"
| "key_run table (e # es) q =
     (case key_step table e q of (q1, a) \<Rightarrow>
        (case key_run table es q1 of (q2, as) \<Rightarrow> (q2, (case a of None \<Rightarrow> as | Some x \<Rightarrow> x # as))))"

section \<open>What the table holds\<close>

text \<open>
  The entry of a first key \<open>k\<close>, for key strings \<open>xs\<close> without a conflict: the action of the key alone if there
  is one, and otherwise the actions of the sequences that start with it.
\<close>

definition entry_spec :: "(string \<times> action) list \<Rightarrow> string \<Rightarrow> key_entry option \<Rightarrow> bool" where
  "entry_spec xs k e \<longleftrightarrow>
     (case (if CHR '' '' \<in> set k then None else map_of xs k) of
        Some a \<Rightarrow> e = Some (KeyAction a)
      | None \<Rightarrow>
          (case e of
             None \<Rightarrow> CHR '' '' \<in> set k \<or> (\<forall>r. map_of xs (k @ CHR '' '' # r) = None)
           | Some (KeyAction a) \<Rightarrow> False
           | Some (KeyTable sub) \<Rightarrow> CHR '' '' \<notin> set k \<and> (\<exists>r. map_of xs (k @ CHR '' '' # r) \<noteq> None)
               \<and> (\<forall>r. gm_get sub r = map_of xs (k @ CHR '' '' # r))))"

definition add_pair :: "string \<times> action \<Rightarrow> key_table \<Rightarrow> key_table" where
  "add_pair p = add_parts (snd p) (split_on (CHR '' '') (fst p))"

lemma first_blank:
  assumes "CHR '' '' \<notin> set k" and "CHR '' '' \<notin> set k'"
  shows "k @ CHR '' '' # r = k' @ CHR '' '' # r' \<longleftrightarrow> k = k' \<and> r = r'"
proof
  assume eq: "k @ CHR '' '' # r = k' @ CHR '' '' # r'"
  have "takeWhile (\<lambda>c. c \<noteq> CHR '' '') (k @ CHR '' '' # r) = k" "takeWhile (\<lambda>c. c \<noteq> CHR '' '') (k' @ CHR '' '' # r') = k'"
    using assms by (auto simp: takeWhile_append intro!: takeWhile_eq_all_conv [THEN iffD2])
  with eq show "k = k' \<and> r = r'" by auto
qed simp

lemma split_one:
  assumes "split_on (CHR '' '') s = [k]"
  shows "s = k \<and> CHR '' '' \<notin> set k"
  using assms join_split_on [of "CHR '' ''" s] split_on_free [of k "CHR '' ''" s] by simp

lemma split_more:
  assumes "split_on (CHR '' '') s = k # rest" and "rest \<noteq> []"
  shows "s = k @ CHR '' '' # join_with '' '' rest \<and> CHR '' '' \<notin> set k"
  using assms join_split_on [of "CHR '' ''" s] split_on_free [of k "CHR '' ''" s] by (cases rest) auto

lemma map_of_snoc: "s \<notin> fst ` set xs \<Longrightarrow> map_of (xs @ [(s, a)]) = (map_of xs)(s \<mapsto> a)"
  by (induction xs) (auto simp: fun_eq_iff)

declare map_of_append [simp del]

lemma entry_spec_single:
  assumes spec: "entry_spec xs k (gm_get table k)" and new: "s \<notin> fst ` set xs" and parts: "split_on (CHR '' '') s = [k0]"
  shows "entry_spec (xs @ [(s, a)]) k (gm_get (add_pair (s, a) table) k)"
proof -
  have s: "s = k0" "CHR '' '' \<notin> set k0" using split_one parts by auto
  then have other: "k @ CHR '' '' # r \<noteq> k0" for k r by auto
  have snoc: "map_of (xs @ [(s, a)]) = (map_of xs)(k0 \<mapsto> a)" using map_of_snoc [OF new] s(1) by simp
  have get: "gm_get (add_pair (s, a) table) k = (if k = k0 then Some (KeyAction a) else gm_get table k)"
    using parts by (simp add: add_pair_def add_parts_def gm_get_put)
  show ?thesis
    using spec s(2) other unfolding entry_spec_def snoc get
    by (auto split: option.splits key_entry.splits if_splits)
qed

text \<open>A sequence enters the table of its first key, unless that key has an action of its own.\<close>

lemma entry_spec_sequence:
  assumes spec: "entry_spec xs k0 (gm_get table k0)" and named: "list_all (\<lambda>p. snd p \<noteq> []) xs" and k0: "CHR '' '' \<notin> set k0"
    and parts: "split_on (CHR '' '') s = k0 # rest" and "rest \<noteq> []"
    and snoc: "map_of (xs @ [(s, a)]) = (map_of xs)(s \<mapsto> a)" and plain: "k0 \<noteq> s"
    and app: "\<And>r. k0 @ CHR '' '' # r = s \<longleftrightarrow> r = join_with '' '' rest"
  shows "entry_spec (xs @ [(s, a)]) k0 (gm_get (add_pair (s, a) table) k0)"
proof (cases "map_of xs k0")
  case (Some b)
  then have e: "gm_get table k0 = Some (KeyAction b)" using spec k0 by (simp add: entry_spec_def)
  have "b \<noteq> []" using named map_of_SomeD [OF Some] by (auto simp: list_all_iff)
  then have "gm_get (add_pair (s, a) table) k0 = gm_get table k0"
    using parts \<open>rest \<noteq> []\<close> e by (simp add: add_pair_def add_parts_def sub_table_def)
  then show ?thesis using Some e plain k0 by (simp add: entry_spec_def snoc)
next
  case None
  obtain sub where sub: "sub_table (gm_get table k0) = Some sub" and get: "\<And>r. gm_get sub r = map_of xs (k0 @ CHR '' '' # r)"
    using spec None k0
    by (cases "gm_get table k0") (auto simp: entry_spec_def sub_table_def split: key_entry.splits)
  have "gm_get (add_pair (s, a) table) k0 = Some (KeyTable (gm_put (join_with '' '' rest) a sub))"
    using parts \<open>rest \<noteq> []\<close> sub by (simp add: add_pair_def add_parts_def gm_get_put)
  then show ?thesis
    using None plain app k0 get by (auto simp: entry_spec_def snoc gm_get_put)
qed

lemma entry_spec_step:
  assumes spec: "\<And>k. entry_spec xs k (gm_get table k)" and new: "s \<notin> fst ` set xs" and named: "list_all (\<lambda>p. snd p \<noteq> []) xs"
  shows "entry_spec (xs @ [(s, a)]) k (gm_get (add_pair (s, a) table) k)"
proof -
  obtain k0 rest where parts: "split_on (CHR '' '') s = k0 # rest" by (cases "split_on (CHR '' '') s") auto
  show ?thesis
  proof (cases "rest = []")
    case True
    then show ?thesis using entry_spec_single [OF spec new] parts by simp
  next
    case False
    let ?r = "join_with '' '' rest"
    have s: "s = k0 @ CHR '' '' # ?r" and k0: "CHR '' '' \<notin> set k0" using split_more [OF parts False] by auto
    have plain: "CHR '' '' \<notin> set k \<Longrightarrow> k \<noteq> s" for k using s by auto
    have app: "CHR '' '' \<notin> set k \<Longrightarrow> k @ CHR '' '' # r = s \<longleftrightarrow> k = k0 \<and> r = ?r" for k r
      using first_blank [OF _ k0] s by simp
    show ?thesis
    proof (cases "k = k0")
      case True
      have "k0 @ CHR '' '' # r = s \<longleftrightarrow> r = ?r" for r using app [OF k0] by simp
      from entry_spec_sequence [OF spec named k0 parts False map_of_snoc [OF new] plain [OF k0] this] True show ?thesis by simp
    next
      case other: False
      then have "gm_get (add_pair (s, a) table) k = gm_get table k"
        using parts \<open>rest \<noteq> []\<close> by (auto simp: add_pair_def add_parts_def gm_get_put split: option.split)
      moreover have "entry_spec (xs @ [(s, a)]) k e \<longleftrightarrow> entry_spec xs k e" for e
        using plain [of k] app [of k] other by (auto simp: entry_spec_def map_of_snoc [OF new] split: option.splits key_entry.splits)
      ultimately show ?thesis using spec [of k] by simp
    qed
  qed
qed

lemma entries_spec:
  assumes "distinct (map fst xs)" and "list_all (\<lambda>p. snd p \<noteq> []) xs"
  shows "entry_spec xs k (gm_get (fold add_pair xs []) k)"
  using assms
proof (induction xs arbitrary: k rule: rev_induct)
  case Nil
  then show ?case by (simp add: entry_spec_def)
next
  case (snoc p xs)
  obtain s a where p: "p = (s, a)" by (cases p)
  have "entry_spec (xs @ [(s, a)]) k (gm_get (add_pair (s, a) (fold add_pair xs [])) k)"
    by (rule entry_spec_step) (use snoc p in auto)
  then show ?case by (simp add: p)
qed

section \<open>The keyboard does what the server says\<close>

definition key_pairs :: "(action, string list) gomap \<Rightarrow> (string \<times> action) list" where
  "key_pairs m = concat (map (\<lambda>(a, ks). map (\<lambda>k. (normaliseKey k, a)) ks) m)"

lemma build_pairs: "buildKeyTable m = fold add_pair (key_pairs m) []"
proof -
  have one: "fold (add_key a) ks t = fold add_pair (map (\<lambda>k. (normaliseKey k, a)) ks) t" for a ks t
    by (induction ks arbitrary: t) (simp_all add: add_pair_def add_key_def key_parts_def normaliseKey_def)
  have "fold (\<lambda>(a, keys). fold (add_key a) keys) m t = fold add_pair (key_pairs m) t" for t
    by (induction m arbitrary: t) (auto simp: key_pairs_def one)
  then show ?thesis by (simp add: buildKeyTable_def)
qed

lemma gm_put_new: "k \<notin> fst ` set m \<Longrightarrow> gm_put k v m = m @ [(k, v)]"
  by (induction m) (auto simp: gm_put_def)

lemma JSON_map:
  assumes "gm_ok b"
  shows "bd_JSON b = map (\<lambda>(a, x). (a, bd_Keys x)) b"
proof -
  have "fold (\<lambda>(a, x) out. gm_put a (bd_Keys x) out) b acc = acc @ map (\<lambda>(a, x). (a, bd_Keys x)) b"
    if "fst ` set acc \<inter> fst ` set b = {}" for acc
    using that assms
  proof (induction b arbitrary: acc)
    case (Cons p b)
    obtain a x where p: "p = (a, x)" by (cases p)
    have "fst ` set (acc @ [(a, bd_Keys x)]) \<inter> fst ` set b = {}" using Cons.prems p by (auto simp: gm_ok_def)
    then have "fold (\<lambda>(a, x) out. gm_put a (bd_Keys x) out) b (acc @ [(a, bd_Keys x)]) = (acc @ [(a, bd_Keys x)]) @ map (\<lambda>(a, x). (a, bd_Keys x)) b"
      using Cons.prems by (intro Cons.IH) (simp_all add: gm_ok_def)
    then show ?case using Cons.prems p by (simp add: gm_put_new)
  qed simp
  then show ?thesis by (simp add: bd_JSON_def)
qed

lemma key_pairs_JSON: "gm_ok b \<Longrightarrow> key_pairs (bd_JSON b) = bd_pairs b"
  by (simp add: JSON_map key_pairs_def bd_pairs_def case_prod_unfold comp_def)

lemma table_entry:
  assumes "gm_ok b" and "bd_Validate b = []" and "\<forall>x \<in> set b. fst x \<noteq> []" and "mset m = mset (bd_JSON b)"
  shows "entry_spec (bd_pairs b) k (gm_get (buildKeyTable m) k)"
proof -
  have perm: "mset (key_pairs m) = mset (bd_pairs b)"
    unfolding key_pairs_JSON [OF assms(1), symmetric] key_pairs_def using assms(4)
    by (simp add: mset_concat flip: sum_mset_sum_list)
  have d: "distinct (map fst (bd_pairs b))" using assms(2) by (simp add: Validate_pairs pair_steps_clean)
  then have dm: "distinct (map fst (key_pairs m))" using perm by (metis mset_eq_imp_distinct_iff mset_map)
  have same: "map_of (key_pairs m) = map_of (bd_pairs b)"
    using map_of_inject_set [OF dm d] mset_eq_setD [OF perm] by simp
  have "list_all (\<lambda>p. snd p \<noteq> []) (key_pairs m)"
    unfolding list_all_iff mset_eq_setD [OF perm] using assms(3) by (auto simp: bd_pairs_def)
  from entries_spec [OF dm this, of k] show ?thesis
    unfolding build_pairs entry_spec_def same .
qed

text \<open>A key event whose name is a key string on its own.\<close>

definition plain_key :: "string \<Rightarrow> bool" where
  "plain_key k \<longleftrightarrow> normaliseKey k = k \<and> CHR '' '' \<notin> set k"

text \<open>
  C23: The keyboard does what the bindings say: for bindings without a conflict, in whatever order the page
  receives them, a key that is pressed in normal mode dispatches exactly the action that \<open>Lookup\<close> names
  for it, and a key that has no action of its own followed by a second one dispatches the action of the
  sequence of both. A key that has an action of its own never starts a sequence.
\<close>

theorem browser_keys:
  assumes "gm_ok b" and "bd_Validate b = []" and "\<forall>x \<in> set b. fst x \<noteq> []" and "mset m = mset (bd_JSON b)"
    and "plain_key (evtKey e1)" and "normaliseKey (evtKey e1 @ '' '' @ evtKey e2) = evtKey e1 @ '' '' @ evtKey e2"
  shows "snd (key_step (buildKeyTable m) e1 []) = bd_Lookup b (evtKey e1)
    \<and> (bd_Lookup b (evtKey e1) = None \<and> bd_Lookup b (evtKey e1 @ '' '' @ evtKey e2) = Some a \<longrightarrow>
         key_run (buildKeyTable m) [e1, e2] [] = ([], [a]))
    \<and> (bd_Lookup b (evtKey e1) \<noteq> None \<longrightarrow> fst (key_step (buildKeyTable m) e1 []) = [])"
proof -
  let ?t = "buildKeyTable m" and ?k = "evtKey e1"
  have k: "CHR '' '' \<notin> set ?k" and look: "bd_Lookup b ?k = map_of (bd_pairs b) ?k"
    using assms(5) by (simp_all add: plain_key_def Lookup_pairs)
  have spec: "entry_spec (bd_pairs b) ?k (gm_get ?t ?k)" by (rule table_entry [OF assms(1-4)])
  have named: "map_of (bd_pairs b) q = Some x \<Longrightarrow> x \<noteq> []" for q x
    using assms(3) by (fastforce simp: bd_pairs_def dest!: map_of_SomeD)
  show ?thesis
  proof (cases "bd_Lookup b ?k")
    case (Some x)
    then have "gm_get ?t ?k = Some (KeyAction x)" "x \<noteq> []" using spec k look named by (auto simp: entry_spec_def)
    then show ?thesis using Some by (simp add: key_step_def key_fresh_def)
  next
    case None
    have step: "key_step ?t e1 [] = ((case gm_get ?t ?k of None \<Rightarrow> [] | Some _ \<Rightarrow> [?k]), None)"
      using spec None k look by (auto simp: entry_spec_def key_step_def key_fresh_def split: option.splits key_entry.splits)
    have "key_run ?t [e1, e2] [] = ([], [a])" if s: "bd_Lookup b (?k @ '' '' @ evtKey e2) = Some a"
    proof -
      have m: "map_of (bd_pairs b) (?k @ CHR '' '' # evtKey e2) = Some a"
        using s assms(6) by (simp add: Lookup_pairs)
      then obtain sub where e: "gm_get ?t ?k = Some (KeyTable sub)" "gm_get sub (evtKey e2) = Some a"
        using spec None k look by (auto simp: entry_spec_def split: option.splits key_entry.splits)
      have q: "key_step ?t e1 [] = ([?k], None)" using step e by simp
      have "key_step ?t e2 [?k] = ([], Some a)" using e named [OF m] by (simp add: key_step_def)
      then show ?thesis using q by simp
    qed
    then show ?thesis using None step by simp
  qed
qed

section \<open>The default bindings\<close>

text \<open>
  Typing a key string on a keyboard: every key of the sequence in turn, with the key event of the
  modifier before it when it is held, Shift for a capital letter or a dollar sign.
\<close>

definition needs_shift :: "string \<Rightarrow> bool" where
  "needs_shift k \<longleftrightarrow> length k = 1 \<and> ((65 \<le> (of_char (hd k) :: nat) \<and> (of_char (hd k) :: nat) \<le> 90) \<or> k = ''$'')"

definition type_part :: "string \<Rightarrow> key_event list" where
  "type_part k =
     (if HasPrefix k ''Control+'' then
        [\<lparr>ke_key = ''Control'', ke_ctrl = True, ke_shift = False\<rparr>, \<lparr>ke_key = drop 8 k, ke_ctrl = True, ke_shift = False\<rparr>]
      else if needs_shift k then
        [\<lparr>ke_key = ''Shift'', ke_ctrl = False, ke_shift = True\<rparr>, \<lparr>ke_key = k, ke_ctrl = False, ke_shift = True\<rparr>]
      else [\<lparr>ke_key = k, ke_ctrl = False, ke_shift = False\<rparr>])"

definition type_key :: "string \<Rightarrow> key_event list" where
  "type_key keyStr = concat (map type_part (key_parts keyStr))"

lemma key_parts_graph: "s \<noteq> [] \<Longrightarrow> is_graph (hd s) \<Longrightarrow> is_graph (last s) \<Longrightarrow> key_parts s = split_on (CHR '' '') s"
  using normaliseKey_graph [of s] by (simp add: key_parts_def normaliseKey_def)

definition default_table :: key_table where
  "default_table = buildKeyTable (bd_JSON bd_Default)"

lemma default_table_eq:
  "default_table =
     [(''g'', KeyTable [(''t'', ''window.next''), (''T'', ''window.prev''), (''0'', ''window.first''), (''$'', ''window.last''),
        (''n'', ''window.new''), (''x'', ''window.close''), (''r'', ''window.rename''), (''g'', ''scroll.top'')]),
      (''h'', KeyAction ''pane.focus.left''), (''j'', KeyAction ''pane.focus.down''), (''k'', KeyAction ''pane.focus.up''),
      (''l'', KeyAction ''pane.focus.right''), (''s'', KeyAction ''pane.split.h''), (''v'', KeyAction ''pane.split.v''),
      (''H'', KeyAction ''pane.resize.left''), (''J'', KeyAction ''pane.resize.down''), (''K'', KeyAction ''pane.resize.up''),
      (''L'', KeyAction ''pane.resize.right''), (''q'', KeyAction ''pane.close''), (''z'', KeyAction ''pane.zoom''),
      (''R'', KeyAction ''pane.rename''), (''x'', KeyAction ''pane.swap''), (''Control+u'', KeyAction ''scroll.up''),
      (''Control+d'', KeyAction ''scroll.down''), (''G'', KeyAction ''scroll.bottom''), (''Control+l'', KeyAction ''scroll.clear''),
      (''/'', KeyAction ''search.open''), (''n'', KeyAction ''search.next''), (''N'', KeyAction ''search.prev''),
      (''Control+w'', KeyTable [(''s'', ''layout.save''), (''r'', ''layout.reload'')]),
      (''Escape'', KeyAction ''mode.escape''), (''Control+c'', KeyAction ''mode.escape'')]"
  by (simp add: default_table_def buildKeyTable_def bd_JSON_def bd_Default_def add_key_def add_parts_def sub_table_def
      key_parts_graph is_graph_def gm_put_def gm_get_def)

lemma default_runs:
  "(k, a) \<in> set (bd_pairs bd_Default) \<Longrightarrow>
     key_run default_table (type_key k) [] = ([], if k = ''g T'' \<or> k = ''g $'' then [] else [a])"
proof -
  have "list_all (\<lambda>(k, a). key_run default_table (type_key k) [] = ([], if k = ''g T'' \<or> k = ''g $'' then [] else [a])) (bd_pairs bd_Default)"
    by (simp add: default_table_eq bd_pairs_def bd_Default_def type_key_def type_part_def needs_shift_def
        key_parts_graph is_graph_def key_step_def key_fresh_def evtKey_def gm_get_def normaliseKey_graph)
  then show "(k, a) \<in> set (bd_pairs bd_Default) \<Longrightarrow> ?thesis" by (auto simp: list_all_iff)
qed

text \<open>Tables with the same entries behave alike.\<close>

fun same_entry :: "key_entry option \<Rightarrow> key_entry option \<Rightarrow> bool" where
  "same_entry None e \<longleftrightarrow> e = None"
| "same_entry (Some (KeyAction a)) e \<longleftrightarrow> e = Some (KeyAction a)"
| "same_entry (Some (KeyTable t)) e \<longleftrightarrow> (\<exists>t'. e = Some (KeyTable t') \<and> gm_get t' = gm_get t)"

lemma entry_spec_same: "entry_spec xs k e \<Longrightarrow> entry_spec xs k e' \<Longrightarrow> same_entry e e'"
  by (auto simp: entry_spec_def fun_eq_iff split: option.splits key_entry.splits if_splits)

lemma same_entryE [consumes 1, case_names none action table]:
  assumes "same_entry e e'"
  obtains "e = None" "e' = None" | a where "e = Some (KeyAction a)" "e' = Some (KeyAction a)"
    | t t' where "e = Some (KeyTable t)" "e' = Some (KeyTable t')" "gm_get t' = gm_get t"
proof (cases e)
  case (Some x)
  then show ?thesis using assms that by (cases x) auto
qed (use assms that in simp)

lemma key_fresh_same:
  assumes "same_entry (gm_get t k) (gm_get t' k)"
  shows "key_fresh t' k = key_fresh t k"
  using assms by (rule same_entryE) (simp_all add: key_fresh_def)

lemma key_step_same:
  assumes "\<And>k. same_entry (gm_get t k) (gm_get t' k)"
  shows "key_step t' e q = key_step t e q"
  using assms [of "join_with '' '' q"]
  by (rule same_entryE) (simp_all add: key_step_def Let_def key_fresh_same [OF assms] split: option.split)

lemma key_run_same:
  assumes "\<And>k. same_entry (gm_get t k) (gm_get t' k)"
  shows "key_run t' es q = key_run t es q"
  by (induction es arbitrary: q) (simp_all add: key_step_same [OF assms])

text \<open>
  C1: Two default bindings cannot be typed: with the default bindings, in whatever order the page receives
  them, typing a key string in normal mode dispatches its action and nothing else, except for \<open>g T\<close>
  (\<open>window.prev\<close>) and \<open>g $\<close> (\<open>window.last\<close>), which dispatch nothing: the key event of Shift itself ends the
  pending sequence.
\<close>

theorem default_keys:
  assumes "mset m = mset (bd_JSON bd_Default)" and "(k, a) \<in> set (bd_pairs bd_Default)"
  shows "key_run (buildKeyTable m) (type_key k) [] = ([], if k = ''g T'' \<or> k = ''g $'' then [] else [a])"
proof -
  have ok: "gm_ok bd_Default" "\<forall>x \<in> set bd_Default. fst x \<noteq> []" by (simp_all add: gm_ok_def bd_Default_def)
  have "same_entry (gm_get default_table q) (gm_get (buildKeyTable m) q)" for q
    using entry_spec_same [OF table_entry [OF ok(1) Default_clean ok(2) refl] table_entry [OF ok(1) Default_clean ok(2) assms(1)]]
    by (simp add: default_table_def)
  then have "key_run (buildKeyTable m) (type_key k) [] = key_run default_table (type_key k) []" by (rule key_run_same)
  also have "\<dots> = ([], if k = ''g T'' \<or> k = ''g $'' then [] else [a])" by (rule default_runs [OF assms(2)])
  finally show ?thesis .
qed

theorem default_keys_witness:
  "key_run default_table (type_key ''g T'') [] = ([], []) \<and> key_run default_table (type_key ''g t'') [] = ([], [''window.next''])"
proof -
  have "(''g T'', ''window.prev'') \<in> set (bd_pairs bd_Default)" "(''g t'', ''window.next'') \<in> set (bd_pairs bd_Default)"
    by (simp_all add: bd_pairs_def bd_Default_def normaliseKey_graph is_graph_def)
  then show ?thesis
    using default_keys [OF refl, of "''g T''"] default_keys [OF refl, of "''g t''"] by (simp add: default_table_def)
qed

theorem browser_keys_witness:
  "snd (key_step default_table \<lparr>ke_key = ''q'', ke_ctrl = False, ke_shift = False\<rparr> []) = Some ''pane.close''"
proof -
  let ?q = "\<lparr>ke_key = ''q'', ke_ctrl = False, ke_shift = False\<rparr>"
  have ok: "gm_ok bd_Default" "\<forall>x \<in> set bd_Default. fst x \<noteq> []" by (simp_all add: gm_ok_def bd_Default_def)
  have "plain_key (evtKey ?q)" "normaliseKey (evtKey ?q @ '' '' @ evtKey ?q) = evtKey ?q @ '' '' @ evtKey ?q"
    by (simp_all add: plain_key_def evtKey_def normaliseKey_graph is_graph_def)
  from browser_keys [OF ok(1) Default_clean ok(2) refl this]
  have "snd (key_step default_table ?q []) = bd_Lookup bd_Default ''q''" by (simp add: default_table_def evtKey_def)
  also have "\<dots> = Some ''pane.close''"
    by (simp add: bd_Default_def normaliseKey_graph is_graph_def)
  finally show ?thesis .
qed

end
