(* ===== verification/Web_Page.thy ===== *)
theory Web_Page
  imports Web_Ansi Web_Keys Go_Json
begin

text \<open>
  The page of \<open>internal/server/frontend.go\<close>: its state, the layout of the panes, lines and images, modes and
  search. What the page shows is part of the state: the tabs, the panes in document order with their
  grid cells, classes, titles and the children of their bodies. An element is named by its identifier:
  line elements have a number, so that the list of search results can go on naming a line that has left
  the document. Scroll positions are left out.
\<close>

section \<open>State\<close>

record js_env =
  js_lower :: "string \<Rightarrow> string"
  js_float :: "string \<Rightarrow> string"
  js_atob :: "string \<Rightarrow> string option"
  js_rect :: "string \<Rightarrow> (int \<times> int) \<times> (int \<times> int)"

text \<open>A browser, for the examples: letters without case, no size and no encoded images.\<close>

definition je_example :: js_env where
  "je_example = \<lparr>js_lower = (\<lambda>s. s), js_float = (\<lambda>s. s), js_atob = (\<lambda>_. None), js_rect = (\<lambda>_. ((0, 0), (10, 10)))\<rparr>"

record page_pane =
  pp_target_id :: string
  pp_label :: string
  pp_split :: string
  pp_size :: string

record page_window =
  pw_name :: string
  pw_panes :: "page_pane list"

datatype page_mode = NormalMode | SwapMode | SearchMode

datatype child =
    LineEl nat string bool bool
  | BlockEl bool string string

record pane_el =
  pe_id :: string
  pe_title :: string
  pe_body_id :: string
  pe_body :: "child list"
  pe_col :: nat
  pe_row :: nat
  pe_focused :: bool
  pe_zoomed :: bool
  pe_swap_target :: bool

record page =
  st_windows :: "page_window list"
  st_activeWin :: int
  st_focusedPane :: string
  st_mode :: page_mode
  st_swapSource :: string
  st_searchQuery :: string
  st_searchIdx :: nat
  st_searchResults :: "nat list"
  st_zoom :: string
  st_keySeq :: "string list"
  st_totalLines :: nat
  st_scrollbacks :: "(string, string list) gomap"
  st_highlights :: "(string, jval) gomap"
  st_paneFormatter :: "(string, string) gomap"
  pg_keyTable :: key_table
  pg_tabs :: "(string \<times> bool) list"
  pg_panes :: "pane_el list"
  pg_zoom_active :: bool
  pg_cols :: "string list"
  pg_rows :: "string list"
  pg_overlay :: bool
  pg_search_bar :: bool
  pg_matches :: string
  pg_ctx :: "string option"
  pg_next :: nat
  pg_queue :: "(string \<times> string) list"

text \<open>\<open>null\<close> for a pane is the empty string, which is no pane's identifier and as false as \<open>null\<close> is.\<close>

definition page_start :: page where
  "page_start =
     \<lparr>st_windows = [], st_activeWin = 0, st_focusedPane = [], st_mode = NormalMode, st_swapSource = [], st_searchQuery = [],
      st_searchIdx = 0, st_searchResults = [], st_zoom = [], st_keySeq = [], st_totalLines = 0, st_scrollbacks = [],
      st_highlights = [], st_paneFormatter = [], pg_keyTable = [], pg_tabs = [], pg_panes = [], pg_zoom_active = False,
      pg_cols = [], pg_rows = [], pg_overlay = False, pg_search_bar = False, pg_matches = [], pg_ctx = None, pg_next = 0,
      pg_queue = []\<rparr>"

definition MAX_LINES :: nat where "MAX_LINES = 10000"

section \<open>Reading JSON\<close>

text \<open>A property of a value, as text when it is a string, and the two values the page reads.\<close>

definition js_get :: "string \<Rightarrow> jval \<Rightarrow> jval option" where
  "js_get name v = (case v of JObj fs \<Rightarrow> map_of fs name | _ \<Rightarrow> None)"

definition js_text :: "string \<Rightarrow> jval \<Rightarrow> string" where
  "js_text name v = (case js_get name v of Some (JStr s) \<Rightarrow> s | _ \<Rightarrow> [])"

definition js_list :: "string \<Rightarrow> jval \<Rightarrow> jval list" where
  "js_list name v = (case js_get name v of Some (JArr xs) \<Rightarrow> xs | _ \<Rightarrow> [])"

definition js_number :: "string \<Rightarrow> jval \<Rightarrow> int" where
  "js_number name v = (case js_get name v of Some (JNum n) \<Rightarrow> n | _ \<Rightarrow> 0)"

definition js_pane :: "jval \<Rightarrow> page_pane" where
  "js_pane v =
     \<lparr>pp_target_id = js_text ''target_id'' v, pp_label = js_text ''label'' v, pp_split = js_text ''split'' v, pp_size = js_text ''size'' v\<rparr>"

definition js_window :: "jval \<Rightarrow> page_window" where
  "js_window v = \<lparr>pw_name = js_text ''name'' v, pw_panes = map js_pane (js_list ''panes'' v)\<rparr>"

section \<open>The grid\<close>

text \<open>A pane with the split \<open>v\<close> opens a column, any other one a row of the current column.\<close>

fun place_rest :: "nat \<Rightarrow> nat \<Rightarrow> page_pane list \<Rightarrow> (nat \<times> nat \<times> page_pane) list" where
  "place_rest col row [] = []"
| "place_rest col row (p # ps) =
     (if pp_split p = ''v'' then (col + 1, 1, p) # place_rest (col + 1) 1 ps
      else (col, row + 1, p) # place_rest col (row + 1) ps)"

fun placements :: "page_pane list \<Rightarrow> (nat \<times> nat \<times> page_pane) list" where
  "placements [] = []"
| "placements (p # ps) = (1, 1, p) # place_rest 1 1 ps"

definition max_of :: "nat list \<Rightarrow> nat" where
  "max_of ns = foldl max 1 ns"

definition cssSize :: "js_env \<Rightarrow> string \<Rightarrow> string" where
  "cssSize je spec =
     (if spec = [] then ''1fr''
      else if HasSuffix spec ''%'' then js_float je spec @ ''fr''
      else if HasSuffix spec ''px'' then spec
      else spec @ ''ch'')"

definition size_of_first :: "(nat \<times> nat \<times> page_pane) list \<Rightarrow> string" where
  "size_of_first pls = (case pls of [] \<Rightarrow> [] | (_, _, p) # _ \<Rightarrow> pp_size p)"

definition colSizes :: "js_env \<Rightarrow> (nat \<times> nat \<times> page_pane) list \<Rightarrow> string list" where
  "colSizes je pls =
     map (\<lambda>c. cssSize je (size_of_first (filter (\<lambda>(col, row, p). col = c) pls))) [1..<max_of (map fst pls) + 1]"

definition rowSizes :: "js_env \<Rightarrow> (nat \<times> nat \<times> page_pane) list \<Rightarrow> string list" where
  "rowSizes je pls =
     map (\<lambda>r. cssSize je (size_of_first (filter (\<lambda>(col, row, p). row = r \<and> col = 1) pls))) [1..<max_of (map (fst \<circ> snd) pls) + 1]"

section \<open>Panes\<close>

definition makeLines :: "nat \<Rightarrow> string list \<Rightarrow> child list" where
  "makeLines n xs = map (\<lambda>(i, x). LineEl i x False False) (enumerate n xs)"

definition buildPane :: "page_pane \<Rightarrow> nat \<Rightarrow> nat \<Rightarrow> page \<Rightarrow> pane_el \<times> nat" where
  "buildPane p col row st =
     (let lines = (case gm_get (st_scrollbacks st) (pp_target_id p) of None \<Rightarrow> [] | Some xs \<Rightarrow> xs) in
      (\<lparr>pe_id = pp_target_id p, pe_title = (if pp_label p \<noteq> [] then pp_label p else pp_target_id p), pe_body_id = pp_target_id p,
        pe_body = makeLines (pg_next st) lines, pe_col = col, pe_row = row,
        pe_focused = False, pe_zoomed = False, pe_swap_target = False\<rparr>,
       pg_next st + length lines))"

definition addPane :: "nat \<times> nat \<times> page_pane \<Rightarrow> page \<Rightarrow> page" where
  "addPane pl st =
     (case pl of (col, row, p) \<Rightarrow>
        (case buildPane p col row st of (el, n) \<Rightarrow> st\<lparr>pg_panes := pg_panes st @ [el], pg_next := n\<rparr>))"

definition buildPaneGrid :: "js_env \<Rightarrow> page_pane list \<Rightarrow> page \<Rightarrow> page" where
  "buildPaneGrid je panes st =
     (let pls = placements panes
      in fold addPane pls (st\<lparr>pg_cols := colSizes je pls, pg_rows := rowSizes je pls\<rparr>))"

definition focusPane :: "string \<Rightarrow> page \<Rightarrow> page" where
  "focusPane i st =
     (if i = [] then st
      else st\<lparr>st_focusedPane := i, pg_panes := map (\<lambda>el. el\<lparr>pe_focused := (pe_id el = i)\<rparr>) (pg_panes st)\<rparr>)"

text \<open>An update of the first pane with a property, as through \<open>querySelector\<close>.\<close>

fun upd_first :: "('a \<Rightarrow> bool) \<Rightarrow> ('a \<Rightarrow> 'a) \<Rightarrow> 'a list \<Rightarrow> 'a list" where
  "upd_first P f [] = []"
| "upd_first P f (x # xs) = (if P x then f x # xs else x # upd_first P f xs)"

definition restoreZoom :: "page \<Rightarrow> page" where
  "restoreZoom st =
     (if st_zoom st = [] then st
      else if list_ex (\<lambda>el. pe_id el = st_zoom st) (pg_panes st) then
        st\<lparr>pg_panes := upd_first (\<lambda>el. pe_id el = st_zoom st) (\<lambda>el. el\<lparr>pe_zoomed := True\<rparr>) (pg_panes st), pg_zoom_active := True\<rparr>
      else st\<lparr>st_zoom := []\<rparr>)"

definition page_window_at :: "page_window list \<Rightarrow> int \<Rightarrow> page_window option" where
  "page_window_at ws i = (if 0 \<le> i \<and> i < int (length ws) then Some (ws ! nat i) else None)"

definition renderLayout :: "js_env \<Rightarrow> page \<Rightarrow> page" where
  "renderLayout je st =
     (let windows = st_windows st;
          st1 = st\<lparr>pg_tabs := map (\<lambda>(i, w). (pw_name w, int i = st_activeWin st)) (enumerate 0 windows), pg_panes := []\<rparr> in
      case windows of
        [] \<Rightarrow> st1
      | w0 # _ \<Rightarrow>
          let win = (case page_window_at windows (st_activeWin st) of Some w \<Rightarrow> w | None \<Rightarrow> w0) in
          (case pw_panes win of
             [] \<Rightarrow> st1
           | p0 # _ \<Rightarrow>
               let st2 = restoreZoom (buildPaneGrid je (pw_panes win) st1)
               in focusPane (if st_focusedPane st2 \<noteq> [] then st_focusedPane st2 else pp_target_id p0) st2))"

text \<open>
  The nearest pane in a direction. The rectangle of an element is its left and upper edge with its width
  and height; centres and distances are doubled, so that they are whole numbers when the edges are.
\<close>

definition centre2 :: "js_env \<Rightarrow> pane_el \<Rightarrow> int \<times> int" where
  "centre2 je el = (case js_rect je (pe_id el) of ((left, upper), (width, height)) \<Rightarrow> (2 * left + width, 2 * upper + height))"

definition delta2 :: "js_env \<Rightarrow> pane_el \<Rightarrow> pane_el \<Rightarrow> int \<times> int" where
  "delta2 je cur el = (fst (centre2 je el) - fst (centre2 je cur), snd (centre2 je el) - snd (centre2 je cur))"

definition in_direction :: "js_env \<Rightarrow> string \<Rightarrow> pane_el \<Rightarrow> pane_el \<Rightarrow> bool" where
  "in_direction je dir cur el \<longleftrightarrow>
     (case (delta2 je cur el, js_rect je (pe_id el)) of ((dx, dy), (_, (width, height))) \<Rightarrow>
        (dir = ''left'' \<and> dx < -20 \<and> \<bar>dy\<bar> < 2 * height) \<or> (dir = ''right'' \<and> 20 < dx \<and> \<bar>dy\<bar> < 2 * height)
        \<or> (dir = ''up'' \<and> dy < -20 \<and> \<bar>dx\<bar> < 2 * width) \<or> (dir = ''down'' \<and> 20 < dy \<and> \<bar>dx\<bar> < 2 * width))"

definition distance2 :: "js_env \<Rightarrow> pane_el \<Rightarrow> pane_el \<Rightarrow> int" where
  "distance2 je cur el = \<bar>fst (delta2 je cur el)\<bar> + \<bar>snd (delta2 je cur el)\<bar>"

definition nearest :: "js_env \<Rightarrow> string \<Rightarrow> pane_el \<Rightarrow> pane_el list \<Rightarrow> pane_el option" where
  "nearest je dir cur els =
     foldl (\<lambda>b el. if el \<noteq> cur \<and> in_direction je dir cur el \<and> (case b of None \<Rightarrow> True | Some x \<Rightarrow> distance2 je cur el < distance2 je cur x)
                   then Some el else b) None els"

definition focusedPaneEl :: "page \<Rightarrow> pane_el option" where
  "focusedPaneEl st = (if st_focusedPane st = [] then None else find (\<lambda>el. pe_id el = st_focusedPane st) (pg_panes st))"

definition focusRelative :: "js_env \<Rightarrow> string \<Rightarrow> page \<Rightarrow> page" where
  "focusRelative je dir st =
     (case pg_panes st of
        [] \<Rightarrow> st
      | e0 # _ \<Rightarrow>
          (case focusedPaneEl st of
             None \<Rightarrow> focusPane (pe_id e0) st
           | Some cur \<Rightarrow>
               (case nearest je dir cur (pg_panes st) of None \<Rightarrow> st | Some el \<Rightarrow> focusPane (pe_id el) st)))"

section \<open>Search\<close>

text \<open>\<open>textContent\<close> of a line: what is left of its text without the colour sequences.\<close>

definition js_includes :: "string \<Rightarrow> string \<Rightarrow> bool" where
  "js_includes s sub \<longleftrightarrow> go_Index s sub \<noteq> None"

definition line_matches :: "js_env \<Rightarrow> string \<Rightarrow> string \<Rightarrow> bool" where
  "line_matches je q text \<longleftrightarrow> js_includes (js_lower je (strip_sgr text)) (js_lower je q)"

fun upd_line :: "(nat \<Rightarrow> bool) \<Rightarrow> (bool \<Rightarrow> bool) \<Rightarrow> (bool \<Rightarrow> bool) \<Rightarrow> child \<Rightarrow> child" where
  "upd_line P f g (LineEl i x m c) = (if P i then LineEl i x (f m) (g c) else LineEl i x m c)"
| "upd_line P f g b = b"

definition upd_lines :: "(nat \<Rightarrow> bool) \<Rightarrow> (bool \<Rightarrow> bool) \<Rightarrow> (bool \<Rightarrow> bool) \<Rightarrow> page \<Rightarrow> page" where
  "upd_lines P f g st =
     st\<lparr>pg_panes := map (\<lambda>el. el\<lparr>pe_body := map (upd_line P f g) (pe_body el)\<rparr>) (pg_panes st)\<rparr>"

definition clearSearchHighlights :: "page \<Rightarrow> page" where
  "clearSearchHighlights st =
     (upd_lines (\<lambda>_. True) (\<lambda>_. False) (\<lambda>_. False) st)\<lparr>st_searchResults := [], pg_matches := []\<rparr>"

definition scrollToMatch :: "nat \<Rightarrow> page \<Rightarrow> page" where
  "scrollToMatch idx st =
     (if idx < length (st_searchResults st) then upd_lines (\<lambda>i. i = st_searchResults st ! idx) id (\<lambda>_. True) st else st)"

fun line_ids :: "(string \<Rightarrow> bool) \<Rightarrow> child list \<Rightarrow> nat list" where
  "line_ids P [] = []"
| "line_ids P (LineEl i x m c # cs) = (if P x then i # line_ids P cs else line_ids P cs)"
| "line_ids P (BlockEl b d sc # cs) = line_ids P cs"

definition match_count :: "nat \<Rightarrow> nat \<Rightarrow> string" where
  "match_count idx n = show_nat (idx + 1) @ ''/'' @ show_nat n"

definition runSearch :: "js_env \<Rightarrow> string \<Rightarrow> page \<Rightarrow> page" where
  "runSearch je q st =
     (let st1 = clearSearchHighlights (st\<lparr>st_searchQuery := q\<rparr>) in
      if q = [] then st1
      else
        let bodies = (case focusedPaneEl st1 of
                        Some el \<Rightarrow> [pe_body el] | None \<Rightarrow> map pe_body (pg_panes st1));
            results = concat (map (line_ids (line_matches je q)) bodies);
            st2 = (upd_lines (\<lambda>i. i \<in> set results) (\<lambda>_. True) id st1)
                    \<lparr>st_searchResults := results, st_searchIdx := 0,
                     pg_matches := (if results = [] then ''no matches'' else match_count 0 (length results))\<rparr>
        in if results = [] then st2 else scrollToMatch 0 st2)"

definition navigateSearch :: "int \<Rightarrow> page \<Rightarrow> page" where
  "navigateSearch delta st =
     (let n = length (st_searchResults st) in
      if n = 0 then st
      else
        let st1 = (if st_searchIdx st < n then upd_lines (\<lambda>i. i = st_searchResults st ! st_searchIdx st) id (\<lambda>_. False) st else st);
            idx = nat ((int (st_searchIdx st) + delta + int n) mod int n)
        in (scrollToMatch idx (st1\<lparr>st_searchIdx := idx\<rparr>))\<lparr>pg_matches := match_count idx n\<rparr>)"

section \<open>Modes\<close>

definition setMode :: "page_mode \<Rightarrow> page \<Rightarrow> page" where
  "setMode m st =
     (let src = (if m \<noteq> SwapMode then [] else st_swapSource st) in
      st\<lparr>st_mode := m, st_swapSource := src,
         pg_panes := map (\<lambda>el. el\<lparr>pe_swap_target := (m = SwapMode \<and> pe_id el \<noteq> src)\<rparr>) (pg_panes st)\<rparr>)"

definition openSearch :: "page \<Rightarrow> page" where
  "openSearch st = (setMode SearchMode st)\<lparr>pg_search_bar := True\<rparr>"

definition closeSearch :: "page \<Rightarrow> page" where
  "closeSearch st = clearSearchHighlights ((setMode NormalMode st)\<lparr>pg_search_bar := False\<rparr>)"

definition showCtxMenu :: "string \<Rightarrow> page \<Rightarrow> page" where
  "showCtxMenu i st = st\<lparr>pg_ctx := Some i\<rparr>"

definition closeCtxMenu :: "page \<Rightarrow> page" where
  "closeCtxMenu st = st\<lparr>pg_ctx := None\<rparr>"

section \<open>Lines and images\<close>

definition body_of :: "string \<Rightarrow> pane_el \<Rightarrow> bool" where
  "body_of t el \<longleftrightarrow> pe_body_id el = t"

definition on_body :: "string \<Rightarrow> (child list \<Rightarrow> child list) \<Rightarrow> page \<Rightarrow> page" where
  "on_body t f st = st\<lparr>pg_panes := upd_first (body_of t) (\<lambda>el. el\<lparr>pe_body := f (pe_body el)\<rparr>) (pg_panes st)\<rparr>"

definition append_child :: "child \<Rightarrow> child list \<Rightarrow> child list" where
  "append_child c cs = drop (length cs - (MAX_LINES - 1)) cs @ [c]"

definition appendLine :: "js_env \<Rightarrow> string \<Rightarrow> string \<Rightarrow> page \<Rightarrow> page" where
  "appendLine je t text st =
     (let sb = (case gm_get (st_scrollbacks st) t of None \<Rightarrow> [] | Some xs \<Rightarrow> xs) @ [text];
          sb1 = (if MAX_LINES < length sb then drop (length sb - MAX_LINES) sb else sb);
          st1 = st\<lparr>st_scrollbacks := gm_put t sb1 (st_scrollbacks st), st_totalLines := st_totalLines st + 1\<rparr>
      in if \<not> list_ex (body_of t) (pg_panes st1) then st1
         else
           let hit = st_mode st1 = SearchMode \<and> st_searchQuery st1 \<noteq> [] \<and> line_matches je (st_searchQuery st1) text
           in on_body t (append_child (LineEl (pg_next st1) text hit False)) (st1\<lparr>pg_next := pg_next st1 + 1\<rparr>))"

definition renderImage :: "string \<Rightarrow> string \<Rightarrow> string \<Rightarrow> page \<Rightarrow> page" where
  "renderImage t b64data scale st = on_body t (\<lambda>cs. cs @ [BlockEl True b64data scale]) st"

definition renderSVG :: "js_env \<Rightarrow> string \<Rightarrow> string \<Rightarrow> string \<Rightarrow> page \<Rightarrow> page" where
  "renderSVG je t b64data scale st =
     on_body t (\<lambda>cs. cs @ [BlockEl False (case js_atob je b64data of Some svg \<Rightarrow> svg | None \<Rightarrow> ''[svg decode error]'') scale]) st"

text \<open>\<open>className.replace(/rdw-scale-\w+/, ...)\<close>, which replaces the leading word of the scale.\<close>

definition scale_char :: "char \<Rightarrow> bool" where
  "scale_char c \<longleftrightarrow> is_digit c \<or> c = CHR ''_'' \<or> (let n = (of_char c :: nat) in (65 \<le> n \<and> n \<le> 90) \<or> (97 \<le> n \<and> n \<le> 122))"

fun scale_block :: "string \<Rightarrow> child \<Rightarrow> child" where
  "scale_block scale (BlockEl b d old) =
     BlockEl b d (if takeWhile scale_char old = [] then old else scale @ dropWhile scale_char old)"
| "scale_block scale c = c"

definition setPaneScale :: "string \<Rightarrow> string \<Rightarrow> page \<Rightarrow> page" where
  "setPaneScale t scale st = on_body t (map (scale_block scale)) st"

text \<open>The identifiers in the markup of the page; no pane gets one.\<close>

definition element_ids :: "string list" where
  "element_ids =
     [''ctx-menu'', ''hdr'', ''mode-badge'', ''overlay'', ''prompt-box'', ''prompt-buttons'', ''prompt-cancel'', ''prompt-input'',
      ''prompt-label'', ''prompt-ok'', ''s-conn'', ''s-focus'', ''s-lines'', ''s-port'', ''search-bar'', ''search-input'',
      ''search-matches'', ''status'', ''win-tabs'', ''ws'']"

definition pane_element :: "string \<Rightarrow> string option" where
  "pane_element t = find (\<lambda>i. i = ''pane-'' @ t) element_ids"

lemma no_pane_element [simp]: "pane_element t = None"
  by (simp add: pane_element_def element_ids_def)

end
