(* ===== verification/Web_Client.thy ===== *)
theory Web_Client
  imports Web_Page
begin

text \<open>
  The page of \<open>internal/server/frontend.go\<close>: its actions, the events it handles and the frames it receives.
  What the page does besides changing itself is a list of effects: a request with what follows its
  answer, a prompt with what follows its input, a message box.
\<close>

section \<open>Effects\<close>

text \<open>What follows a request: a failure goes to the console, or is shown with \<open>alert\<close>.\<close>

datatype after_fetch = LogError | ReloadOrAlert | AlertError | DeleteCurrentThenReload

datatype prompt_cont = NewWindow | RenameWindow string | SplitPane string string | RenamePane string | SaveLayout

datatype web_effect =
    Fetch string string "jval option" after_fetch
  | Ask string string prompt_cont
  | Alert string
  | Reload

text \<open>\<open>encodeURIComponent\<close>, on the bytes of the string.\<close>

definition uri_byte :: "char \<Rightarrow> bool" where
  "uri_byte c \<longleftrightarrow> is_digit c \<or> (let n = (of_char c :: nat) in (65 \<le> n \<and> n \<le> 90) \<or> (97 \<le> n \<and> n \<le> 122)) \<or> c \<in> set ''-_.!~*()'' \<or> c = CHR 0x27"

definition hex_upper :: "nat \<Rightarrow> char" where
  "hex_upper d = (if d < 10 then char_of (48 + d) else char_of (55 + d))"

definition encodeURIComponent :: "string \<Rightarrow> string" where
  "encodeURIComponent s =
     concat (map (\<lambda>c. if uri_byte c then [c] else [CHR ''%'', hex_upper (of_char c div 16), hex_upper (of_char c mod 16)]) s)"

definition API :: string where "API = ''/api/v1''"

definition post :: "string \<Rightarrow> (string \<times> string) list \<Rightarrow> after_fetch \<Rightarrow> web_effect" where
  "post path body th = Fetch ''POST'' (API @ path) (if body = [] then None else Some (JObj (map (\<lambda>(k, v). (k, JStr v)) body))) th"

section \<open>Actions\<close>

definition currentWindowName :: "page \<Rightarrow> string" where
  "currentWindowName st = (case page_window_at (st_windows st) (st_activeWin st) of Some w \<Rightarrow> pw_name w | None \<Rightarrow> [])"

definition switchWindow :: "int \<Rightarrow> page \<Rightarrow> web_effect list" where
  "switchWindow idx st =
     (case page_window_at (st_windows st) idx of
        None \<Rightarrow> []
      | Some w \<Rightarrow> [post (''/windows/'' @ encodeURIComponent (pw_name w) @ ''/focus'') [] LogError])"

text \<open>The remainder of JavaScript has the sign of the dividend.\<close>

definition js_rem :: "int \<Rightarrow> int \<Rightarrow> int" where
  "js_rem a n = (if 0 \<le> a then a mod n else - ((- a) mod n))"

definition cycleWindow :: "int \<Rightarrow> page \<Rightarrow> web_effect list" where
  "cycleWindow delta st =
     (let n = int (length (st_windows st)) in
      if n = 0 then [] else switchWindow (js_rem (st_activeWin st + delta + n) n) st)"

definition nudgeResize :: "string \<Rightarrow> string \<Rightarrow> web_effect list" where
  "nudgeResize i dir =
     (if i = [] then []
      else [post (''/panes/'' @ encodeURIComponent i @ ''/resize'') [(''direction'', dir), (''size'', ''5%'')] LogError])"

text \<open>The two elements exchange their cells, identifiers and titles, but not their bodies.\<close>

definition swap_els :: "pane_el \<Rightarrow> pane_el \<Rightarrow> pane_el" where
  "swap_els x y = x\<lparr>pe_col := pe_col y, pe_row := pe_row y, pe_id := pe_id y, pe_title := pe_title y\<rparr>"

definition doSwap :: "string \<Rightarrow> string \<Rightarrow> page \<Rightarrow> page \<times> web_effect list" where
  "doSwap a b st =
     ((case (index_where (\<lambda>el. pe_id el = a) (pg_panes st), index_where (\<lambda>el. pe_id el = b) (pg_panes st)) of
         (Some i, Some j) \<Rightarrow>
           let x = pg_panes st ! i; y = pg_panes st ! j
           in st\<lparr>pg_panes := (pg_panes st)[i := swap_els x y, j := swap_els y x]\<rparr>
       | _ \<Rightarrow> st),
      [post (''/panes/'' @ encodeURIComponent a @ ''/swap'') [(''target'', b)] LogError])"

definition togglePaneZoom :: "string \<Rightarrow> page \<Rightarrow> page \<times> web_effect list" where
  "togglePaneZoom i st =
     ((if st_zoom st = i
       then st\<lparr>st_zoom := [], pg_zoom_active := False, pg_panes := map (\<lambda>el. el\<lparr>pe_zoomed := False\<rparr>) (pg_panes st)\<rparr>
       else st\<lparr>st_zoom := i, pg_zoom_active := True, pg_panes := map (\<lambda>el. el\<lparr>pe_zoomed := (pe_id el = i)\<rparr>) (pg_panes st)\<rparr>),
      [post (''/panes/'' @ encodeURIComponent i @ ''/zoom'') [] LogError])"

definition clearPane :: "string \<Rightarrow> page \<Rightarrow> page" where
  "clearPane i st =
     (let st1 = on_body i (\<lambda>_. []) st in
      if gm_get (st_scrollbacks st1) i = None then st1 else st1\<lparr>st_scrollbacks := gm_put i [] (st_scrollbacks st1)\<rparr>)"

text \<open>\<open>dispatch\<close>; the actions that only scroll do nothing here.\<close>

definition dispatch :: "js_env \<Rightarrow> action \<Rightarrow> string \<Rightarrow> page \<Rightarrow> page \<times> web_effect list" where
  "dispatch je a paneID st =
     (let i = (if paneID \<noteq> [] then paneID else st_focusedPane st);
          win = encodeURIComponent (currentWindowName st);
          pane = encodeURIComponent i
      in if a = ''window.next'' then (st, cycleWindow 1 st)
         else if a = ''window.prev'' then (st, cycleWindow (-1) st)
         else if a = ''window.first'' then (st, switchWindow 0 st)
         else if a = ''window.last'' then (st, switchWindow (int (length (st_windows st)) - 1) st)
         else if a = ''window.new'' then (st, [Ask ''New window name'' [] NewWindow])
         else if a = ''window.close'' then (st, [post (''/windows/'' @ win @ ''/focus'') [] DeleteCurrentThenReload])
         else if a = ''window.rename'' then (st, [Ask ''Rename window'' (currentWindowName st) (RenameWindow (currentWindowName st))])
         else if a = ''pane.focus.left'' then (focusRelative je ''left'' st, [])
         else if a = ''pane.focus.right'' then (focusRelative je ''right'' st, [])
         else if a = ''pane.focus.up'' then (focusRelative je ''up'' st, [])
         else if a = ''pane.focus.down'' then (focusRelative je ''down'' st, [])
         else if a = ''pane.split.v'' \<or> a = ''pane.split.h'' then
           (st, if i = [] then [] else [Ask ''New pane target ID'' [] (SplitPane i (if a = ''pane.split.v'' then ''v'' else ''h''))])
         else if a = ''pane.resize.left'' then (st, nudgeResize i ''left'')
         else if a = ''pane.resize.right'' then (st, nudgeResize i ''right'')
         else if a = ''pane.resize.up'' then (st, nudgeResize i ''up'')
         else if a = ''pane.resize.down'' then (st, nudgeResize i ''down'')
         else if a = ''pane.close'' then
           (st, if i = [] then [] else [Fetch ''DELETE'' (API @ ''/panes/'' @ pane) None ReloadOrAlert])
         else if a = ''pane.zoom'' then (if i = [] then (st, []) else togglePaneZoom i st)
         else if a = ''pane.rename'' then (st, if i = [] then [] else [Ask ''Rename pane target ID'' i (RenamePane i)])
         else if a = ''pane.swap'' then
           (if i = [] then (st, [])
            else (if st_mode st = SwapMode then setMode NormalMode st else setMode SwapMode (st\<lparr>st_swapSource := i\<rparr>), []))
         else if a = ''scroll.clear'' then (if i = [] then st else clearPane i st, [])
         else if a = ''search.open'' then (openSearch st, [])
         else if a = ''search.next'' then (navigateSearch 1 st, [])
         else if a = ''search.prev'' then (navigateSearch (-1) st, [])
         else if a = ''layout.save'' then (st, [Ask ''Save layout as'' [] SaveLayout])
         else if a = ''layout.reload'' then (st, [Reload])
         else if a = ''mode.escape'' then (closeCtxMenu (closeSearch (setMode NormalMode st)), [])
         else (st, []))"

text \<open>What follows a prompt; the input is trimmed, and \<open>None\<close> is a prompt that was cancelled.\<close>

definition answer :: "prompt_cont \<Rightarrow> string option \<Rightarrow> web_effect list" where
  "answer k input =
     (let v = (case input of None \<Rightarrow> [] | Some x \<Rightarrow> TrimSpace x) in
      if v = [] then []
      else
        (case k of
           NewWindow \<Rightarrow> [post ''/windows'' [(''name'', v)] ReloadOrAlert]
         | RenameWindow old \<Rightarrow>
             if v = old then []
             else [Fetch ''PATCH'' (API @ ''/windows/'' @ encodeURIComponent old) (Some (JObj [(''name'', JStr v)])) ReloadOrAlert]
         | SplitPane i dir \<Rightarrow>
             [post (''/panes/'' @ encodeURIComponent i @ ''/split'') [(''direction'', dir), (''new_id'', v)] ReloadOrAlert]
         | RenamePane i \<Rightarrow> if v = i then [] else [Alert ''Rename not yet fully wired'']
         | SaveLayout \<Rightarrow> [post ''/layouts'' [(''name'', v)] AlertError]))"

section \<open>Events\<close>

definition keydown :: "js_env \<Rightarrow> key_event \<Rightarrow> page \<Rightarrow> page \<times> web_effect list" where
  "keydown je e st =
     (if pg_overlay st then (st, [])
      else if st_mode st = SearchMode then
        (if ke_key e = ''Escape'' \<or> (ke_ctrl e \<and> ke_key e = ''c'') then closeSearch st
         else if ke_key e = ''Enter'' then navigateSearch 1 st else st, [])
      else
        (case key_step (pg_keyTable st) e (st_keySeq st) of (q, a) \<Rightarrow>
           (let st1 = st\<lparr>st_keySeq := q\<rparr> in case a of None \<Rightarrow> (st1, []) | Some act \<Rightarrow> dispatch je act [] st1)))"

definition search_keydown :: "string \<Rightarrow> page \<Rightarrow> page" where
  "search_keydown k st =
     (if k = ''Escape'' then closeSearch st
      else if k = ''Enter'' \<or> k = ''n'' then navigateSearch 1 st
      else if k = ''N'' then navigateSearch (-1) st else st)"

definition pane_mousedown :: "string \<Rightarrow> page \<Rightarrow> page \<times> web_effect list" where
  "pane_mousedown i st =
     (let st1 = focusPane i st in
      if st_mode st1 = SwapMode \<and> st_swapSource st1 \<noteq> [] \<and> st_swapSource st1 \<noteq> i then
        (case doSwap (st_swapSource st1) i st1 of (st2, effs) \<Rightarrow> (setMode NormalMode st2, effs))
      else (st1, []))"

definition pane_contextmenu :: "string \<Rightarrow> page \<Rightarrow> page" where
  "pane_contextmenu i st = showCtxMenu i (focusPane i st)"

text \<open>The menu is closed first, so the action is given no pane and falls back to the focused one.\<close>

definition ctx_click :: "js_env \<Rightarrow> action \<Rightarrow> page \<Rightarrow> page \<times> web_effect list" where
  "ctx_click je a st = dispatch je a [] (closeCtxMenu st)"

section \<open>Frames\<close>

definition set_layout :: "js_env \<Rightarrow> jval \<Rightarrow> page \<Rightarrow> page" where
  "set_layout je v st =
     renderLayout je (st\<lparr>st_windows := map js_window (js_list ''windows'' v), st_activeWin := js_number ''active_window'' v\<rparr>)"

definition frame_focus :: "js_env \<Rightarrow> string \<Rightarrow> page \<Rightarrow> page" where
  "frame_focus je name st =
     (if name = [] then st
      else (case index_where (\<lambda>w. pw_name w = name) (st_windows st) of
              None \<Rightarrow> st
            | Some idx \<Rightarrow> renderLayout je (st\<lparr>st_activeWin := int idx\<rparr>)))"

text \<open>The actions of a scrollback control look for an element that no pane is.\<close>

definition frame_scrollback :: "string \<Rightarrow> string \<Rightarrow> page \<Rightarrow> page" where
  "frame_scrollback t act st = (case pane_element t of None \<Rightarrow> st | Some _ \<Rightarrow> st)"

definition frame_line :: "js_env \<Rightarrow> bool \<Rightarrow> jval \<Rightarrow> page \<Rightarrow> page" where
  "frame_line je ws_open msg st =
     (if js_get ''target_id'' msg = None \<or> js_get ''line'' msg = None then st
      else
        let t = js_text ''target_id'' msg; line = js_text ''line'' msg in
        if \<not> ws_open then (if length (pg_queue st) < 1000 then st\<lparr>pg_queue := pg_queue st @ [(t, line)]\<rparr> else st)
        else appendLine je t line st)"

text \<open>\<open>or_else s d\<close> is \<open>s || d\<close>.\<close>

definition or_else :: "string \<Rightarrow> string \<Rightarrow> string" where
  "or_else s d = (if s = [] then d else s)"

definition handle_frame :: "js_env \<Rightarrow> bool \<Rightarrow> jval \<Rightarrow> page \<Rightarrow> page \<times> web_effect list" where
  "handle_frame je ws_open msg st =
     (let ty = js_text ''type'' msg; t = js_text ''target_id'' msg;
          payload = (case js_get ''payload'' msg of Some v \<Rightarrow> v | None \<Rightarrow> JNull)
      in if ty = ''reconnect'' then
           ((fold (\<lambda>(i, line). appendLine je i line) (pg_queue st) st)\<lparr>pg_queue := []\<rparr>, [])
         else if ty = ''layout_update'' then (if payload = JNull then st else set_layout je payload st, [])
         else if ty = ''window_focus'' then (frame_focus je (js_text ''name'' payload) st, [])
         else if ty = ''pane_zoom'' then
           (if js_text ''target_id'' payload = [] then (st, []) else dispatch je ''pane.zoom'' (js_text ''target_id'' payload) st)
         else if ty = ''highlight_set'' then
           (case js_get ''profile'' msg of
              Some p \<Rightarrow> (if t \<noteq> [] \<and> js_get ''rules'' p \<noteq> None \<and> js_get ''rules'' p \<noteq> Some JNull
                        then st\<lparr>st_highlights := gm_put t (the (js_get ''rules'' p)) (st_highlights st)\<rparr> else st, [])
            | None \<Rightarrow> (st, []))
         else if ty = ''scrollback_ctl'' then
           (if t \<noteq> [] \<and> js_text ''action'' msg \<noteq> [] then frame_scrollback t (js_text ''action'' msg) st else st, [])
         else if ty = ''image_render'' then
           (if t \<noteq> [] \<and> js_text ''data'' msg \<noteq> [] then renderImage t (js_text ''data'' msg) (or_else (js_text ''scale'' msg) ''fit'') st else st, [])
         else if ty = ''svg_render'' then
           (if t \<noteq> [] \<and> js_text ''data'' msg \<noteq> [] then renderSVG je t (js_text ''data'' msg) (or_else (js_text ''scale'' msg) ''fit'') st else st, [])
         else if ty = ''pane_scale'' then
           (if t \<noteq> [] \<and> js_text ''scale'' msg \<noteq> [] then setPaneScale t (js_text ''scale'' msg) st else st, [])
         else if ty = ''formatter_set'' then
           (if js_get ''target_id'' msg = None then st
            else st\<lparr>st_paneFormatter := gm_put t (or_else (js_text ''formatter'' msg) ''text'') (st_paneFormatter st)\<rparr>, [])
         else (frame_line je ws_open msg st, []))"

section \<open>Runs of the page\<close>

text \<open>The answer of \<open>GET /bindings\<close>, a map from actions to lists of key strings.\<close>

definition js_bindings :: "jval \<Rightarrow> (action, string list) gomap" where
  "js_bindings v =
     (case v of
        JObj fs \<Rightarrow> map (\<lambda>(a, ks). (a, case ks of JArr xs \<Rightarrow> map (\<lambda>x. case x of JStr s \<Rightarrow> s | _ \<Rightarrow> []) xs | _ \<Rightarrow> [])) fs
      | _ \<Rightarrow> [])"

definition startup :: "js_env \<Rightarrow> jval \<Rightarrow> jval \<Rightarrow> page \<Rightarrow> page" where
  "startup je bindings session st = set_layout je session (st\<lparr>pg_keyTable := buildKeyTable (js_bindings bindings)\<rparr>)"

datatype page_event =
    KeyDown key_event
  | SearchKey string
  | SearchInput string
  | PaneDown string
  | PaneMenu string
  | MenuPick action
  | PaneButton action string
  | PromptOpen
  | PromptDone prompt_cont "string option"
  | FrameIn bool jval
  | SessionIn jval
  | StartupIn jval jval

fun page_step :: "js_env \<Rightarrow> page_event \<Rightarrow> page \<Rightarrow> page \<times> web_effect list" where
  "page_step je (KeyDown e) st = keydown je e st"
| "page_step je (SearchKey k) st = (search_keydown k st, [])"
| "page_step je (SearchInput q) st = (runSearch je q st, [])"
| "page_step je (PaneDown i) st = pane_mousedown i st"
| "page_step je (PaneMenu i) st = (pane_contextmenu i st, [])"
| "page_step je (MenuPick a) st = ctx_click je a st"
| "page_step je (PaneButton a i) st = dispatch je a i st"
| "page_step je PromptOpen st = (st\<lparr>pg_overlay := True\<rparr>, [])"
| "page_step je (PromptDone k v) st = (st\<lparr>pg_overlay := False\<rparr>, answer k v)"
| "page_step je (FrameIn ws_open msg) st = handle_frame je ws_open msg st"
| "page_step je (SessionIn v) st = (set_layout je v st, [])"
| "page_step je (StartupIn b v) st = (startup je b v st, [])"

inductive page_reach :: "js_env \<Rightarrow> page \<Rightarrow> bool" for je :: js_env where
  start: "page_reach je page_start"
| step: "page_reach je st \<Longrightarrow> page_step je e st = (st', effs) \<Longrightarrow> page_reach je st'"

section \<open>The invariant of the page\<close>

definition page_inv :: "page \<Rightarrow> bool" where
  "page_inv st \<longleftrightarrow>
     (\<forall>t ls. gm_get (st_scrollbacks st) t = Some ls \<longrightarrow> length ls \<le> MAX_LINES)
     \<and> (st_searchResults st \<noteq> [] \<longrightarrow> st_searchIdx st < length (st_searchResults st))
     \<and> length (st_keySeq st) \<le> 1
     \<and> length (pg_queue st) \<le> 1000
     \<and> (st_mode st = SwapMode \<longleftrightarrow> st_swapSource st \<noteq> [])"

text \<open>Pages that agree in what the invariant reads.\<close>

definition same_core_page :: "page \<Rightarrow> page \<Rightarrow> bool" where
  "same_core_page st st' \<longleftrightarrow> st_scrollbacks st' = st_scrollbacks st \<and> st_searchResults st' = st_searchResults st
     \<and> st_searchIdx st' = st_searchIdx st \<and> st_keySeq st' = st_keySeq st \<and> pg_queue st' = pg_queue st
     \<and> st_mode st' = st_mode st \<and> st_swapSource st' = st_swapSource st"

named_theorems page_intros \<open>preservation of the invariant of the page\<close>

lemma same_core_refl_page [simp]: "same_core_page st st"
  by (simp add: same_core_page_def)

lemma same_core_trans_page: "same_core_page st st' \<Longrightarrow> same_core_page st' st'' \<Longrightarrow> same_core_page st st''"
  by (simp add: same_core_page_def)

lemma page_inv_same: "same_core_page st st' \<Longrightarrow> page_inv st \<Longrightarrow> page_inv st'"
  by (simp add: same_core_page_def page_inv_def)

lemma core_upd_lines [simp]: "same_core_page st (upd_lines P f g st)"
  by (simp add: same_core_page_def upd_lines_def)

lemma core_scrollToMatch [simp]: "same_core_page st (scrollToMatch i st)"
  by (simp add: scrollToMatch_def)

lemma core_on_body [simp]: "same_core_page st (on_body t f st)"
  by (simp add: same_core_page_def on_body_def)

lemma core_focusPane [simp]: "same_core_page st (focusPane i st)"
  by (simp add: same_core_page_def focusPane_def)

lemma core_addPane [simp]: "same_core_page st (addPane pl st)"
  by (simp add: same_core_page_def addPane_def split: prod.split)

lemma core_addPanes [simp]: "same_core_page st (fold addPane pls st)"
  by (induction pls arbitrary: st) (auto intro: same_core_trans_page [OF core_addPane])

lemma core_restoreZoom [simp]: "same_core_page st (restoreZoom st)"
  by (simp add: same_core_page_def restoreZoom_def)

lemma core_buildPaneGrid [simp]: "same_core_page st (buildPaneGrid je ps st)"
  unfolding buildPaneGrid_def Let_def
  by (rule same_core_trans_page [OF _ core_addPanes]) (simp add: same_core_page_def)

lemma core_renderLayout [simp]: "same_core_page st (renderLayout je st)"
proof -
  have 1: "same_core_page st (st\<lparr>pg_tabs := ts, pg_panes := []\<rparr>)" for ts by (simp add: same_core_page_def)
  have "same_core_page st (focusPane i (restoreZoom (buildPaneGrid je ps (st\<lparr>pg_tabs := ts, pg_panes := []\<rparr>))))" for i ps ts
    by (rule same_core_trans_page [OF 1 same_core_trans_page [OF core_buildPaneGrid same_core_trans_page [OF core_restoreZoom core_focusPane]]])
  with 1 show ?thesis by (simp add: renderLayout_def Let_def split: list.split)
qed

lemma core_focusRelative [simp]: "same_core_page st (focusRelative je dir st)"
  by (simp add: focusRelative_def split: list.split option.split)

lemma core_set_layout [simp]: "same_core_page st (set_layout je v st)"
  unfolding set_layout_def by (rule same_core_trans_page [OF _ core_renderLayout]) (simp add: same_core_page_def)

lemma core_startup [simp]: "same_core_page st (startup je b v st)"
  unfolding startup_def by (rule same_core_trans_page [OF _ core_set_layout]) (simp add: same_core_page_def)

lemma core_zoom [simp]: "same_core_page st (fst (togglePaneZoom i st))"
  by (simp add: same_core_page_def togglePaneZoom_def)

lemma core_doSwap [simp]: "same_core_page st (fst (doSwap a b st))"
  by (simp add: same_core_page_def doSwap_def Let_def split: option.split)

lemma core_frame_focus [simp]: "same_core_page st (frame_focus je n st)"
proof -
  have "same_core_page st (renderLayout je (st\<lparr>st_activeWin := i\<rparr>))" for i
    by (rule same_core_trans_page [OF _ core_renderLayout]) (simp add: same_core_page_def)
  then show ?thesis by (simp add: frame_focus_def split: option.split)
qed

lemma inv_setMode [page_intros]: "page_inv st \<Longrightarrow> m \<noteq> SwapMode \<Longrightarrow> page_inv (setMode m st)"
  by (simp add: page_inv_def setMode_def Let_def)

lemma inv_swapMode [page_intros]: "page_inv st \<Longrightarrow> i \<noteq> [] \<Longrightarrow> page_inv (setMode SwapMode (st\<lparr>st_swapSource := i\<rparr>))"
  by (simp add: page_inv_def setMode_def Let_def)

lemma inv_clear [page_intros]: "page_inv st \<Longrightarrow> page_inv (clearSearchHighlights st)"
  by (simp add: page_inv_def clearSearchHighlights_def upd_lines_def)

lemma inv_closeSearch [page_intros]: "page_inv st \<Longrightarrow> page_inv (closeSearch st)"
proof -
  assume "page_inv st"
  then have "page_inv (setMode NormalMode st)" by (simp add: inv_setMode)
  then have "page_inv ((setMode NormalMode st)\<lparr>pg_search_bar := False\<rparr>)" by (simp add: page_inv_def)
  then show ?thesis by (simp add: closeSearch_def inv_clear)
qed

lemma inv_openSearch [page_intros]: "page_inv st \<Longrightarrow> page_inv (openSearch st)"
  using inv_setMode [of st SearchMode] by (simp add: openSearch_def page_inv_def)

lemma inv_idx: "page_inv st \<Longrightarrow> i < length (st_searchResults st) \<Longrightarrow> page_inv (st\<lparr>st_searchIdx := i\<rparr>)"
  by (simp add: page_inv_def)

lemma inv_matches: "page_inv st \<Longrightarrow> page_inv (st\<lparr>pg_matches := m\<rparr>)"
  by (simp add: page_inv_def)

lemma inv_navigate [page_intros]:
  assumes "page_inv st"
  shows "page_inv (navigateSearch d st)"
proof (cases "st_searchResults st = []")
  case False
  let ?n = "length (st_searchResults st)"
  let ?idx = "nat ((int (st_searchIdx st) + d + int ?n) mod int ?n)"
  let ?st1 = "if st_searchIdx st < ?n then upd_lines (\<lambda>i. i = st_searchResults st ! st_searchIdx st) id (\<lambda>_. False) st else st"
  have n: "0 < int ?n" using False by simp
  have idx: "?idx < ?n" using pos_mod_bound [OF n] pos_mod_sign [OF n] by (simp add: nat_less_iff)
  have i1: "page_inv ?st1" by (rule page_inv_same [OF _ assms]) simp
  have "st_searchResults ?st1 = st_searchResults st" by (simp add: upd_lines_def)
  then have "page_inv (?st1\<lparr>st_searchIdx := ?idx\<rparr>)" using idx by (intro inv_idx [OF i1]) simp
  then have "page_inv (scrollToMatch ?idx (?st1\<lparr>st_searchIdx := ?idx\<rparr>))" by (rule page_inv_same [OF core_scrollToMatch])
  then show ?thesis unfolding navigateSearch_def Let_def using False by (simp add: inv_matches)
qed (simp add: navigateSearch_def assms)

lemma inv_runSearch [page_intros]:
  assumes "page_inv st"
  shows "page_inv (runSearch je q st)"
proof -
  have "page_inv (st\<lparr>st_searchQuery := q\<rparr>)" using assms by (simp add: page_inv_def)
  then have c: "page_inv (clearSearchHighlights (st\<lparr>st_searchQuery := q\<rparr>))" by (rule inv_clear)
  have u: "page_inv ((upd_lines P f g st1)\<lparr>st_searchResults := r, st_searchIdx := 0, pg_matches := m\<rparr>)" if "page_inv st1" for P f g st1 r m
    using page_inv_same [OF core_upd_lines that, of P f g] by (simp add: page_inv_def)
  have s: "page_inv (scrollToMatch 0 st2)" if "page_inv st2" for st2
    by (rule page_inv_same [OF core_scrollToMatch that])
  show ?thesis
  proof (cases "q = []")
    case True
    then show ?thesis using c by (simp add: runSearch_def)
  next
    case False
    then show ?thesis unfolding runSearch_def Let_def by (simp add: s u c)
  qed
qed

lemma inv_appendLine [page_intros]:
  assumes "page_inv st"
  shows "page_inv (appendLine je t x st)"
proof -
  let ?sb = "(case gm_get (st_scrollbacks st) t of None \<Rightarrow> [] | Some xs \<Rightarrow> xs) @ [x]"
  let ?sb1 = "if MAX_LINES < length ?sb then drop (length ?sb - MAX_LINES) ?sb else ?sb"
  have 1: "page_inv (st\<lparr>st_scrollbacks := gm_put t ?sb1 (st_scrollbacks st), st_totalLines := n\<rparr>)" for n
    using assms by (auto simp: page_inv_def gm_get_put)
  have 2: "page_inv (on_body t f (st1\<lparr>pg_next := n\<rparr>))" if "page_inv st1" for f n st1
    by (rule page_inv_same [OF core_on_body]) (use that in \<open>simp add: page_inv_def\<close>)
  show ?thesis unfolding appendLine_def Let_def using 1 2 by simp
qed

lemma inv_appends: "page_inv st \<Longrightarrow> page_inv (fold (\<lambda>(i, line). appendLine je i line) q st)"
  by (induction q arbitrary: st) (auto intro: inv_appendLine)

lemma inv_clearPane [page_intros]:
  assumes "page_inv st"
  shows "page_inv (clearPane i st)"
proof -
  have 1: "page_inv (on_body i (\<lambda>_. []) st)" by (rule page_inv_same [OF core_on_body assms])
  have 2: "page_inv (st1\<lparr>st_scrollbacks := gm_put i [] (st_scrollbacks st1)\<rparr>)" if "page_inv st1" for st1
    using that by (auto simp: page_inv_def gm_get_put)
  show ?thesis unfolding clearPane_def Let_def using 1 2 by simp
qed

lemma inv_dispatch [page_intros]:
  assumes "page_inv st"
  shows "page_inv (fst (dispatch je a i st))"
proof -
  have focus: "page_inv (focusRelative je d st)" for d by (rule page_inv_same [OF core_focusRelative assms])
  have zoom: "page_inv (fst (togglePaneZoom j st))" for j by (rule page_inv_same [OF core_zoom assms])
  have ctx: "page_inv (closeCtxMenu st1)" if "page_inv st1" for st1 using that by (simp add: closeCtxMenu_def page_inv_def)
  have esc: "page_inv (closeCtxMenu (closeSearch (setMode NormalMode st)))"
    by (intro ctx inv_closeSearch inv_setMode assms) simp
  note parts = focus zoom esc assms inv_setMode [OF assms, of NormalMode, simplified] inv_swapMode [OF assms] inv_clearPane [OF assms]
    inv_openSearch [OF assms] inv_navigate [OF assms]
  show ?thesis unfolding dispatch_def Let_def by (simp only: if_distrib [of fst] fst_conv) (simp add: parts)
qed

lemma inv_keydown [page_intros]:
  assumes "page_inv st"
  shows "page_inv (fst (keydown je e st))"
proof -
  obtain q a where k: "key_step (pg_keyTable st) e (st_keySeq st) = (q, a)" by (cases "key_step (pg_keyTable st) e (st_keySeq st)")
  have "length q \<le> 1" using k by (auto simp: key_step_def key_fresh_def Let_def split: if_splits option.splits key_entry.splits)
  then have "page_inv (st\<lparr>st_keySeq := q\<rparr>)" using assms by (simp add: page_inv_def)
  then show ?thesis using assms k by (simp add: keydown_def Let_def inv_dispatch inv_closeSearch inv_navigate split: option.split)
qed

lemma inv_frame [page_intros]:
  assumes "page_inv st"
  shows "page_inv (fst (handle_frame je ws_open msg st))"
proof -
  have layout: "page_inv (set_layout je v st)" for v by (rule page_inv_same [OF core_set_layout assms])
  have focus: "page_inv (frame_focus je n st)" for n by (rule page_inv_same [OF core_frame_focus assms])
  have body: "page_inv (on_body t f st)" for t f by (rule page_inv_same [OF core_on_body assms])
  have queue: "page_inv (st1\<lparr>pg_queue := []\<rparr>)" if "page_inv st1" for st1 using that by (simp add: page_inv_def)
  have maps: "page_inv (st\<lparr>st_highlights := x\<rparr>)" "page_inv (st\<lparr>st_paneFormatter := y\<rparr>)" for x y
    using assms by (simp_all add: page_inv_def)
  have line: "page_inv (frame_line je ws_open msg st)"
    using assms by (auto simp: frame_line_def Let_def intro: inv_appendLine) (simp add: page_inv_def)
  note parts = layout focus queue [OF inv_appends [OF assms]] maps line assms body inv_dispatch [OF assms]
  show ?thesis
    unfolding handle_frame_def Let_def
    by (simp only: if_distrib [of fst] fst_conv)
      (simp add: parts frame_scrollback_def renderImage_def renderSVG_def setPaneScale_def split: option.split)
qed

lemma inv_step:
  assumes "page_inv st"
  shows "page_inv (fst (page_step je e st))"
proof (cases e)
  case (SearchKey k)
  then show ?thesis using assms by (simp add: search_keydown_def inv_closeSearch inv_navigate)
next
  case (PaneDown i)
  let ?st1 = "focusPane i st"
  have 1: "page_inv ?st1" by (rule page_inv_same [OF core_focusPane assms])
  obtain st2 effs where d: "doSwap (st_swapSource ?st1) i ?st1 = (st2, effs)" by (cases "doSwap (st_swapSource ?st1) i ?st1")
  have "page_inv st2" using page_inv_same [OF core_doSwap 1] d by (metis fst_conv)
  then show ?thesis using PaneDown 1 d by (simp add: pane_mousedown_def Let_def inv_setMode)
next
  case (PaneMenu i)
  have "page_inv (focusPane i st)" by (rule page_inv_same [OF core_focusPane assms])
  then show ?thesis using PaneMenu by (simp add: pane_contextmenu_def showCtxMenu_def page_inv_def)
next
  case (MenuPick a)
  have "page_inv (closeCtxMenu st)" using assms by (simp add: closeCtxMenu_def page_inv_def)
  then show ?thesis using MenuPick by (simp add: ctx_click_def inv_dispatch)
next
  case (SessionIn v)
  then show ?thesis using page_inv_same [OF core_set_layout assms] by simp
next
  case (StartupIn b v)
  then show ?thesis using page_inv_same [OF core_startup assms] by simp
qed (use assms in \<open>simp_all add: inv_keydown inv_runSearch inv_dispatch inv_frame\<close>, simp_all add: page_inv_def)

text \<open>
  C25: The page never loses its footing: whatever keys, clicks and frames come in whatever order, the page
  keeps at most 10000 lines of each pane, the current search result is one of the results, at most one
  key is pending and at most 1000 lines are queued, and a pane is waiting to be swapped exactly in swap
  mode.
\<close>

theorem page_invariant:
  assumes "page_reach je st"
  shows "(\<forall>t ls. gm_get (st_scrollbacks st) t = Some ls \<longrightarrow> length ls \<le> 10000)
    \<and> (st_searchResults st \<noteq> [] \<longrightarrow> st_searchIdx st < length (st_searchResults st))
    \<and> length (st_keySeq st) \<le> 1 \<and> length (pg_queue st) \<le> 1000
    \<and> (st_mode st = SwapMode \<longleftrightarrow> st_swapSource st \<noteq> [])"
proof -
  from assms have "page_inv st"
  proof induction
    case start
    then show ?case by (simp add: page_inv_def page_start_def)
  next
    case (step st e st' effs)
    then show ?case using inv_step [of st je e] by simp
  qed
  then show ?thesis by (simp add: page_inv_def MAX_LINES_def)
qed

theorem page_invariant_witness:
  "st_keySeq (fst (page_step je_example (SearchInput ''x'') page_start)) = [] \<and> page_reach je_example (fst (page_step je_example (SearchInput ''x'') page_start))"
proof -
  have r: "page_reach je_example (fst (page_step je_example (SearchInput ''x'') page_start))"
    by (rule page_reach.step [OF page_reach.start prod.collapse [symmetric]])
  have "length (st_keySeq (fst (page_step je_example (SearchInput ''x'') page_start))) \<le> 1"
    using page_invariant [OF r] by blast
  moreover have "st_keySeq (fst (page_step je_example (SearchInput ''x'') page_start)) = []"
    by (simp add: runSearch_def clearSearchHighlights_def upd_lines_def page_start_def focusedPaneEl_def)
  ultimately show ?thesis using r by simp
qed

end
