(* ===== verification/Web_Grid.thy ===== *)
theory Web_Grid
  imports Web_Client
begin

text \<open>
  Properties of the page on its own: the cells of the grid, what a pane's body and scrollback hold, and
  what swapping two panes shows until the server answers.
\<close>

section \<open>The grid\<close>

definition cells :: "(nat \<times> nat \<times> page_pane) list \<Rightarrow> (nat \<times> nat) list" where
  "cells pls = map (\<lambda>(c, r, p). (c, r)) pls"

lemma cells_simps [simp]: "cells [] = []" "cells ((c, r, p) # pls) = (c, r) # cells pls"
  by (simp_all add: cells_def)

text \<open>The rest of a layout lies after the cell it starts from: lower in the column, or further right.\<close>

lemma place_rest_after:
  "(c, r) \<in> set (cells (place_rest col row ps)) \<Longrightarrow> (c = col \<and> row < r) \<or> (col < c \<and> 1 \<le> r)"
  by (induction col row ps rule: place_rest.induct) (auto split: if_splits)

lemma place_rest_distinct: "distinct (cells (place_rest col row ps))"
proof (induction col row ps rule: place_rest.induct)
  case (2 col row p ps)
  then show ?case
    using place_rest_after [of "col + 1" 1 "col + 1" 1 ps] place_rest_after [of col "row + 1" col "row + 1" ps]
    by auto
qed simp

lemma place_rest_panes: "map (snd \<circ> snd) (place_rest col row ps) = ps"
  by (induction col row ps rule: place_rest.induct) auto

lemma max_fold: "foldl max (m::nat) ns = Max (insert m (set ns))"
proof (induction ns arbitrary: m)
  case (Cons n ns)
  have "Max (insert (max m n) (set ns)) = Max (insert m (insert n (set ns)))"
    by (cases "ns = []") (simp_all add: max.assoc)
  then show ?case using Cons by simp
qed simp

lemma max_of_ge: "n \<in> set ns \<Longrightarrow> n \<le> max_of ns"
  by (simp add: max_of_def max_fold)

text \<open>
  Every pane has a cell of its own: the grid of a window shows its panes in their order, no two panes
  share a cell, every cell lies within the columns and rows whose sizes are set, and each split to the
  right opens exactly one column.
\<close>

theorem grid_cells:
  "map (snd \<circ> snd) (placements ps) = ps \<and> distinct (cells (placements ps))
    \<and> (\<forall>(c, r) \<in> set (cells (placements ps)). 1 \<le> c \<and> c \<le> length (colSizes je (placements ps))
         \<and> 1 \<le> r \<and> r \<le> length (rowSizes je (placements ps)))
    \<and> length (colSizes je (placements ps)) = 1 + length (filter (\<lambda>p. pp_split p = ''v'') (tl ps))"
proof -
  have size_cols: "length (colSizes je pls) = max_of (map fst pls)" and size_rows: "length (rowSizes je pls) = max_of (map (fst \<circ> snd) pls)" for pls
    by (simp_all add: colSizes_def rowSizes_def)
  have cols: "foldl max col (map fst (place_rest col row qs)) = col + length (filter (\<lambda>p. pp_split p = ''v'') qs)" for col row qs
    by (induction col row qs rule: place_rest.induct) simp_all
  show ?thesis
  proof (cases ps)
    case Nil
    then show ?thesis by (simp add: size_cols max_of_def)
  next
    case (Cons p qs)
    let ?pls = "placements ps"
    have bound: "1 \<le> c \<and> c \<le> max_of (map fst ?pls) \<and> 1 \<le> r \<and> r \<le> max_of (map (fst \<circ> snd) ?pls)"
      if "(c, r) \<in> set (cells ?pls)" for c r
    proof -
      have "c \<in> set (map fst ?pls)" "r \<in> set (map (fst \<circ> snd) ?pls)" using that by (force simp: cells_def)+
      moreover have "1 \<le> c \<and> 1 \<le> r" using that place_rest_after [of c r 1 1 qs] Cons by auto
      ultimately show ?thesis using max_of_ge by blast
    qed
    have "distinct (cells ?pls)"
      using place_rest_distinct [of 1 1 qs] place_rest_after [of 1 1 1 1 qs] Cons by auto
    moreover have "map (snd \<circ> snd) ?pls = ps" using place_rest_panes [of 1 1 qs] Cons by simp
    moreover have "max_of (map fst ?pls) = 1 + length (filter (\<lambda>p. pp_split p = ''v'') qs)"
      using cols [of 1 1 qs] Cons by (simp add: max_of_def)
    ultimately show ?thesis using bound Cons by (auto simp: size_cols size_rows)
  qed
qed

theorem grid_cells_witness:
  "(let p = \<lparr>pp_target_id = ''a'', pp_label = [], pp_split = [], pp_size = []\<rparr>;
        q = \<lparr>pp_target_id = ''b'', pp_label = [], pp_split = ''v'', pp_size = []\<rparr>
    in distinct (cells (placements [p, q])) \<and> length (colSizes je_example (placements [p, q])) = 2)"
  using grid_cells [of "[\<lparr>pp_target_id = ''a'', pp_label = [], pp_split = [], pp_size = []\<rparr>,
      \<lparr>pp_target_id = ''b'', pp_label = [], pp_split = ''v'', pp_size = []\<rparr>]" je_example]
  by (simp add: Let_def del: placements.simps)

section \<open>The scrollback of a pane\<close>

definition page_lines :: "string \<Rightarrow> page \<Rightarrow> string list" where
  "page_lines t st = (case gm_get (st_scrollbacks st) t of None \<Rightarrow> [] | Some ls \<Rightarrow> ls)"

lemma page_scrollbacks_append:
  "st_scrollbacks (appendLine je t x st) = gm_put t (keep_last MAX_LINES (page_lines t st @ [x])) (st_scrollbacks st)"
  by (simp add: appendLine_def Let_def on_body_def page_lines_def keep_last_def)

lemma page_lines_append: "page_lines u (appendLine je t x st) = (if u = t then keep_last MAX_LINES (page_lines t st @ [x]) else page_lines u st)"
  by (simp add: page_lines_def [of u] page_scrollbacks_append gm_get_put)

lemma page_lines_clear: "page_lines u (clearPane i st) = (if u = i then [] else page_lines u st)"
proof -
  have on: "gm_get (st_scrollbacks (on_body i f st)) = gm_get (st_scrollbacks st)" for f by (simp add: on_body_def)
  show ?thesis by (auto simp: clearPane_def Let_def page_lines_def on gm_get_put)
qed

text \<open>The page's copy of a scrollback is a bounded log, like the server's.\<close>

interpretation page_log: line_log "page_lines t" "\<lambda>st x. appendLine je t x st" "clearPane t" "\<lambda>_. MAX_LINES"
    "\<lambda>st. length (page_lines t st) \<le> MAX_LINES" for t je
  by unfold_locales (simp_all add: page_lines_append page_lines_clear MAX_LINES_def)

end
