(* ===== verification/Web_Session.thy ===== *)
theory Web_Session
  imports Web_Grid Server_Properties
begin

text \<open>
  The page beside the session it shows: what it makes of the snapshot the server sends, of the frames of
  the streams, and of the frames that announce something else.
\<close>

section \<open>The layout\<close>

definition page_pane_of :: "pane_state \<Rightarrow> page_pane" where
  "page_pane_of p =
     \<lparr>pp_target_id = tid_String (pn_TargetID p), pp_label = pn_Label p, pp_split = pn_Split p, pp_size = pn_Size p\<rparr>"

definition page_window_of :: "window_state \<Rightarrow> page_window" where
  "page_window_of w = \<lparr>pw_name = wn_Name w, pw_panes = map page_pane_of (wn_Panes w)\<rparr>"

lemma js_get_obj [simp]: "js_get n (JObj fs) = map_of fs n"
  by (simp add: js_get_def)

lemma js_text_omit:
  "js_text n (JObj (enc_str_omit k s @ fs)) = (if n = k \<and> s \<noteq> [] then s else js_text n (JObj fs))"
  "js_text n (JObj (enc_bool_omit k b @ fs)) = (if n = k \<and> b then [] else js_text n (JObj fs))"
  by (simp_all add: js_text_def enc_str_omit_def enc_bool_omit_def)

lemma js_text_Cons: "js_text n (JObj ((k, v) # fs)) = (if n = k then (case v of JStr s \<Rightarrow> s | _ \<Rightarrow> []) else js_text n (JObj fs))"
  by (simp add: js_text_def split: jval.split)

lemma js_text_Nil [simp]: "js_text n (JObj []) = []"
  by (simp add: js_text_def)

lemma js_pane_enc: "js_pane (enc_pane p) = page_pane_of p"
  by (simp add: js_pane_def enc_pane_def page_pane_of_def js_text_Cons js_text_omit del: append_Nil2)

lemma js_window_enc: "js_window (enc_window w) = page_window_of w"
  by (simp add: js_window_def enc_window_def page_window_of_def js_text_Cons js_list_def js_pane_enc)

lemma js_snapshot:
  "map js_window (js_list ''windows'' (mg_Snapshot m)) = map page_window_of (mg_windows m)"
  "js_number ''active_window'' (mg_Snapshot m) = mg_active m"
  by (simp_all add: mg_Snapshot_def js_list_def js_number_def js_window_enc)

text \<open>The elements a layout builds.\<close>

definition shown_in :: "page \<Rightarrow> pane_el \<Rightarrow> page_pane \<Rightarrow> bool" where
  "shown_in st el p \<longleftrightarrow> pe_id el = pp_target_id p \<and> pe_body_id el = pp_target_id p
     \<and> pe_title el = (if pp_label p \<noteq> [] then pp_label p else pp_target_id p)
     \<and> (\<exists>n. pe_body el = makeLines n (page_lines (pp_target_id p) st))"

lemma shown_cong: "st_scrollbacks st' = st_scrollbacks st \<Longrightarrow> shown_in st' el p = shown_in st el p"
  by (simp add: shown_in_def page_lines_def)

lemma shown_upd [simp]: "shown_in st (el\<lparr>pe_focused := a\<rparr>) p = shown_in st el p" "shown_in st (el\<lparr>pe_zoomed := a\<rparr>) p = shown_in st el p"
  by (simp_all add: shown_in_def)

lemma add_panes:
  "list_all2 (shown_in s0) (pg_panes st) ps \<Longrightarrow> st_scrollbacks st = st_scrollbacks s0 \<Longrightarrow>
    list_all2 (shown_in s0) (pg_panes (fold addPane pls st)) (ps @ map (snd \<circ> snd) pls)"
proof (induction pls arbitrary: st ps)
  case (Cons pl pls)
  obtain c r p where pl: "pl = (c, r, p)" by (cases pl)
  obtain el n where b: "buildPane p c r st = (el, n)" by fastforce
  then have el: "shown_in s0 el p" using Cons.prems(2) by (auto simp: buildPane_def shown_in_def page_lines_def Let_def)
  have add: "addPane pl st = st\<lparr>pg_panes := pg_panes st @ [el], pg_next := n\<rparr>" by (simp add: addPane_def pl b)
  have "list_all2 (shown_in s0) (pg_panes (addPane pl st)) (ps @ [p])"
    using Cons.prems(1) el by (simp add: add list_all2_appendI)
  from Cons.IH [OF this] Cons.prems(2) show ?case by (simp add: pl add [unfolded pl])
qed simp

lemma fold_addPane_same [simp]:
  "st_windows (fold addPane pls st) = st_windows st" "st_activeWin (fold addPane pls st) = st_activeWin st"
  "st_focusedPane (fold addPane pls st) = st_focusedPane st" "pg_tabs (fold addPane pls st) = pg_tabs st" "pg_keyTable (fold addPane pls st) = pg_keyTable st" "pg_overlay (fold addPane pls st) = pg_overlay st"
  "st_scrollbacks (fold addPane pls st) = st_scrollbacks st" "st_zoom (fold addPane pls st) = st_zoom st"
  by (induction pls arbitrary: st) (auto simp: addPane_def split: prod.split)

lemma upd_first_all2: "(\<And>x y. R x y \<Longrightarrow> R (f x) y) \<Longrightarrow> list_all2 R xs ys \<Longrightarrow> list_all2 R (upd_first P f xs) ys"
  by (induction xs arbitrary: ys) (auto simp: list_all2_Cons1)

lemma restore_same [simp]:
  "st_windows (restoreZoom st) = st_windows st" "st_activeWin (restoreZoom st) = st_activeWin st"
  "st_focusedPane (restoreZoom st) = st_focusedPane st" "pg_tabs (restoreZoom st) = pg_tabs st" "pg_keyTable (restoreZoom st) = pg_keyTable st" "pg_overlay (restoreZoom st) = pg_overlay st"
  by (simp_all add: restoreZoom_def)

lemma restore_shown: "list_all2 (shown_in s0) (pg_panes st) ps \<Longrightarrow> list_all2 (shown_in s0) (pg_panes (restoreZoom st)) ps"
  by (simp add: restoreZoom_def upd_first_all2)

lemma focus_same [simp]:
  "st_windows (focusPane i st) = st_windows st" "st_activeWin (focusPane i st) = st_activeWin st" "pg_tabs (focusPane i st) = pg_tabs st" "pg_keyTable (focusPane i st) = pg_keyTable st" "pg_overlay (focusPane i st) = pg_overlay st"
  by (simp_all add: focusPane_def)

lemma focus_shown: "list_all2 (shown_in s0) (pg_panes st) ps \<Longrightarrow> list_all2 (shown_in s0) (pg_panes (focusPane i st)) ps"
  by (simp add: focusPane_def list_all2_conv_all_nth)

text \<open>What \<open>renderLayout\<close> leaves: the panes of the window it picks, or none.\<close>

definition picked :: "page \<Rightarrow> page_pane list" where
  "picked st = (case st_windows st of [] \<Rightarrow> []
     | w0 # _ \<Rightarrow> pw_panes (case page_window_at (st_windows st) (st_activeWin st) of Some w \<Rightarrow> w | None \<Rightarrow> w0))"

lemma render_eq:
  "renderLayout je st =
     (let st1 = st\<lparr>pg_tabs := map (\<lambda>(i, w). (pw_name w, int i = st_activeWin st)) (enumerate 0 (st_windows st)), pg_panes := []\<rparr> in
      if picked st = [] then st1
      else let st2 = restoreZoom (buildPaneGrid je (picked st) st1)
           in focusPane (if st_focusedPane st2 \<noteq> [] then st_focusedPane st2 else pp_target_id (hd (picked st))) st2)"
proof (cases "st_windows st")
  case (Cons w0 ws)
  then show ?thesis by (cases "picked st") (simp_all add: renderLayout_def picked_def Let_def del: enumerate_simps placements.simps)
qed (simp add: renderLayout_def picked_def Let_def)

lemma grid_same [simp]:
  "st_windows (buildPaneGrid je ps st) = st_windows st" "st_activeWin (buildPaneGrid je ps st) = st_activeWin st"
  "st_focusedPane (buildPaneGrid je ps st) = st_focusedPane st" "pg_tabs (buildPaneGrid je ps st) = pg_tabs st" "pg_keyTable (buildPaneGrid je ps st) = pg_keyTable st" "pg_overlay (buildPaneGrid je ps st) = pg_overlay st"
  by (simp_all add: buildPaneGrid_def Let_def)

lemma grid_shown:
  assumes "ps \<noteq> []" and "pg_panes st1 = []" and "st_scrollbacks st1 = st_scrollbacks st"
  shows "list_all2 (shown_in st) (pg_panes (buildPaneGrid je ps st1)) ps"
proof -
  have "map (snd \<circ> snd) (placements ps) = ps" using assms(1) place_rest_panes [of 1 1 "tl ps"] by (cases ps) simp_all
  then show ?thesis
    using add_panes [of st "st1\<lparr>pg_cols := colSizes je (placements ps), pg_rows := rowSizes je (placements ps)\<rparr>" "[]" "placements ps"] assms(2,3)
    by (simp add: buildPaneGrid_def Let_def)
qed

lemma tab_names: "map fst (map (\<lambda>(i, w). (pw_name w, Q i)) (enumerate k ws)) = map pw_name ws" for Q :: "nat \<Rightarrow> bool"
  by (induction ws arbitrary: k) simp_all

lemma render_shown:
  "list_all2 (shown_in st) (pg_panes (renderLayout je st)) (picked st)"
  "map fst (pg_tabs (renderLayout je st)) = map pw_name (st_windows st)"
  "st_windows (renderLayout je st) = st_windows st" "st_activeWin (renderLayout je st) = st_activeWin st"
  "st_focusedPane (renderLayout je st) =
     (if st_focusedPane st \<noteq> [] \<or> picked st = [] then st_focusedPane st else pp_target_id (hd (picked st)))"
  unfolding render_eq Let_def
  by (simp_all add: focus_shown restore_shown grid_shown tab_names del: map_map) (simp add: focusPane_def)

lemma shown_ids: "list_all2 (shown_in st) els ps \<Longrightarrow> map pe_id els = map pp_target_id ps"
  by (induction rule: list_all2_induct) (simp_all add: shown_in_def)

lemma set_layout_keys [simp]: "pg_keyTable (set_layout je v st) = pg_keyTable st" "pg_overlay (set_layout je v st) = pg_overlay st"
  by (simp_all add: set_layout_def render_eq Let_def)

lemma layout_step:
  "page_step je (SessionIn (mg_Snapshot m)) st = (set_layout je (mg_Snapshot m) st, [])"
  "page_step je (FrameIn ws_open (special ''layout_update'' (mg_Snapshot m))) st = (set_layout je (mg_Snapshot m) st, [])"
  by (simp_all add: handle_frame_def special_def js_text_def mg_Snapshot_def Let_def)

lemma picked_active:
  assumes "mg_inv m"
  shows "picked (st\<lparr>st_windows := map page_window_of (mg_windows m), st_activeWin := mg_active m\<rparr>) =
    (case ActiveWindow m of Some (Some w) \<Rightarrow> map page_pane_of (wn_Panes w) | _ \<Rightarrow> [])"
proof (cases "mg_windows m")
  case (Cons w ws)
  then have "0 \<le> mg_active m \<and> mg_active m < int (length (mg_windows m))" using assms by (auto simp: mg_inv_def)
  then have "page_window_at (map page_window_of (mg_windows m)) (mg_active m) = Some (page_window_of (mg_windows m ! nat (mg_active m)))"
    by (simp add: page_window_at_def nat_less_iff)
  then show ?thesis using Cons assms by (simp add: picked_def ActiveWindow_inv page_window_of_def split: list.split)
qed (use assms in \<open>simp add: picked_def ActiveWindow_inv\<close>)



text \<open>
  The focus outlives its pane: when the focused pane has been closed, the next layout leaves the focus
  on its identifier, no element of the page is marked as focused, and the command that closes the focused
  pane asks the server to close the closed one again.
\<close>

theorem closed_pane_keeps_focus:
  assumes "mg_inv m" and "ActiveWindow m = Some (Some w)" and "wn_Panes w \<noteq> []"
    and "st_focusedPane st = i" and "i \<noteq> []" and "i \<notin> (tid_String \<circ> pn_TargetID) ` set (wn_Panes w)"
  shows "let st' = set_layout je (mg_Snapshot m) st in
    st_focusedPane st' = i \<and> focusedPaneEl st' = None \<and> list_all (\<lambda>el. \<not> pe_focused el) (pg_panes st')
    \<and> dispatch je ''pane.close'' [] st' = (st', [Fetch ''DELETE'' (API @ ''/panes/'' @ encodeURIComponent i) None ReloadOrAlert])"
proof -
  let ?st1 = "st\<lparr>st_windows := map page_window_of (mg_windows m), st_activeWin := mg_active m\<rparr>"
  let ?st' = "renderLayout je ?st1"
  have p: "picked ?st1 = map page_pane_of (wn_Panes w)" using picked_active [OF assms(1), of st] assms(2) by simp
  then have ne: "picked ?st1 \<noteq> []" using assms(3) by simp
  have foc: "st_focusedPane ?st' = i" using render_shown(5) [of je ?st1] assms(4,5) by simp
  have ids: "pe_id el \<noteq> i" if "el \<in> set (pg_panes ?st')" for el
  proof -
    have "pe_id el \<in> set (map pe_id (pg_panes ?st'))" using that by simp
    also have "\<dots> = (tid_String \<circ> pn_TargetID) ` set (wn_Panes w)"
      unfolding shown_ids [OF render_shown(1)] p by (auto simp: page_pane_of_def)
    finally have "pe_id el \<in> (tid_String \<circ> pn_TargetID) ` set (wn_Panes w)" .
    then show ?thesis using assms(6) by auto
  qed
  have "\<exists>st2. ?st' = focusPane i st2" using ne assms(4,5) unfolding render_eq Let_def by auto
  then obtain st2 where st2: "?st' = focusPane i st2" by blast
  have "list_all (\<lambda>el. pe_focused el = (pe_id el = i)) (pg_panes ?st')"
    unfolding st2 using assms(5) by (auto simp: focusPane_def list_all_iff)
  then have "list_all (\<lambda>el. \<not> pe_focused el) (pg_panes ?st')" using ids by (auto simp: list_all_iff)
  moreover have "focusedPaneEl ?st' = None" using ids by (auto simp: focusedPaneEl_def foc find_None_iff)
  ultimately show ?thesis
    using assms(5) foc by (simp add: set_layout_def js_snapshot dispatch_def Let_def)
qed

lemma first_active:
  "ActiveWindow (mg_example\<lparr>mg_active := 0\<rparr>) = Some (Some \<lparr>wn_Name = ''one'', wn_Panes = [pane_example ''a'', pane_example ''b'']\<rparr>)"
  "mg_inv (mg_example\<lparr>mg_active := 0\<rparr>)"
  by (simp_all add: mg_example_def mg_inv_def ActiveWindow_def go_at_def)

theorem closed_pane_keeps_focus_witness:
  "focusedPaneEl (set_layout je_example (mg_Snapshot (mg_example\<lparr>mg_active := 0\<rparr>)) (page_start\<lparr>st_focusedPane := ''gone''\<rparr>)) = None"
  using closed_pane_keeps_focus [OF first_active(2,1), of "page_start\<lparr>st_focusedPane := ''gone''\<rparr>" "''gone''" je_example]
  by (simp add: pane_example_def Let_def)

text \<open>A pane that the style sheet hides: the page is zoomed, and the pane is not the one it is zoomed on.\<close>

definition pane_hidden :: "page \<Rightarrow> pane_el \<Rightarrow> bool" where
  "pane_hidden st el \<longleftrightarrow> pg_zoom_active st \<and> \<not> pe_zoomed el"

lemma grid_zoom:
  "pg_zoom_active (buildPaneGrid je ps st) = pg_zoom_active st" "st_zoom (buildPaneGrid je ps st) = st_zoom st"
  "list_all (\<lambda>el. \<not> pe_zoomed el) (pg_panes st) \<Longrightarrow> list_all (\<lambda>el. \<not> pe_zoomed el) (pg_panes (buildPaneGrid je ps st))"
proof -
  have act: "pg_zoom_active (fold addPane pls st) = pg_zoom_active st" for pls st
    by (induction pls arbitrary: st) (auto simp: addPane_def split: prod.split)
  have new: "list_all (\<lambda>el. \<not> pe_zoomed el) (pg_panes st) \<Longrightarrow> list_all (\<lambda>el. \<not> pe_zoomed el) (pg_panes (fold addPane pls st))" for pls st
    by (induction pls arbitrary: st) (auto simp: addPane_def buildPane_def Let_def split: prod.split)
  show "pg_zoom_active (buildPaneGrid je ps st) = pg_zoom_active st" "st_zoom (buildPaneGrid je ps st) = st_zoom st"
    by (simp_all add: buildPaneGrid_def Let_def act)
  show "list_all (\<lambda>el. \<not> pe_zoomed el) (pg_panes (buildPaneGrid je ps st))" if "list_all (\<lambda>el. \<not> pe_zoomed el) (pg_panes st)"
    using that by (simp add: buildPaneGrid_def Let_def new)
qed

text \<open>
  The page goes blank when its zoomed pane is not in the next layout, because the pane was closed or
  another window came to the front: the page forgets which pane it was zoomed on, yet stays zoomed, so
  that the style sheet hides every pane it shows.
\<close>

theorem zoomed_pane_gone:
  assumes "mg_inv m" and "ActiveWindow m = Some (Some w)" and "wn_Panes w \<noteq> []"
    and "pg_zoom_active st" and "st_zoom st = i" and "i \<noteq> []" and "i \<notin> (tid_String \<circ> pn_TargetID) ` set (wn_Panes w)"
  shows "let st' = set_layout je (mg_Snapshot m) st in
    st_zoom st' = [] \<and> pg_panes st' \<noteq> [] \<and> list_all (pane_hidden st') (pg_panes st')"
proof -
  let ?st1 = "st\<lparr>st_windows := map page_window_of (mg_windows m), st_activeWin := mg_active m\<rparr>"
  let ?ps = "map page_pane_of (wn_Panes w)"
  define st2 where "st2 = ?st1\<lparr>pg_tabs := map (\<lambda>(i, w). (pw_name w, int i = mg_active m)) (enumerate 0 (map page_window_of (mg_windows m))), pg_panes := []\<rparr>"
  define st3 where "st3 = buildPaneGrid je ?ps st2"
  have p: "picked ?st1 = ?ps" using picked_active [OF assms(1), of st] assms(2) by simp
  have "list_all2 (shown_in st) (pg_panes st3) ?ps"
    unfolding st3_def by (rule grid_shown) (use assms(3) in \<open>simp_all add: st2_def\<close>)
  from shown_ids [OF this] have ids: "map pe_id (pg_panes st3) = map (tid_String \<circ> pn_TargetID) (wn_Panes w)"
    by (simp add: page_pane_of_def comp_def)
  then have ne: "pg_panes st3 \<noteq> []" using assms(3) by auto
  have "i \<notin> set (map pe_id (pg_panes st3))" unfolding ids using assms(7) by simp
  then have gone: "\<not> list_ex (\<lambda>el. pe_id el = i) (pg_panes st3)" by (auto simp: list_ex_iff)
  have z: "st_zoom st3 = i" "pg_zoom_active st3" "list_all (\<lambda>el. \<not> pe_zoomed el) (pg_panes st3)"
    using assms(4,5) by (simp_all add: st3_def grid_zoom st2_def)
  have "restoreZoom st3 = st3\<lparr>st_zoom := []\<rparr>" using z(1) gone assms(6) by (simp add: restoreZoom_def)
  then have "\<exists>j. set_layout je (mg_Snapshot m) st = focusPane j (st3\<lparr>st_zoom := []\<rparr>)"
    using assms(3) p by (simp add: set_layout_def js_snapshot render_eq Let_def st3_def st2_def exI)
  then obtain j where "set_layout je (mg_Snapshot m) st = focusPane j (st3\<lparr>st_zoom := []\<rparr>)" by blast
  then show ?thesis
    using z(2,3) ne by (simp add: focusPane_def pane_hidden_def list_all_iff)
qed

theorem zoomed_pane_gone_witness:
  "pg_panes (set_layout je_example (mg_Snapshot (mg_example\<lparr>mg_active := 0\<rparr>)) (page_start\<lparr>st_zoom := ''gone'', pg_zoom_active := True\<rparr>)) \<noteq> []"
  using zoomed_pane_gone [OF first_active(2,1), of "page_start\<lparr>st_zoom := ''gone'', pg_zoom_active := True\<rparr>" "''gone''" je_example]
  by (simp add: pane_example_def Let_def)

section \<open>The frames of the streams\<close>

definition see_line :: "js_env \<Rightarrow> bool \<Rightarrow> target_id \<times> string \<Rightarrow> page \<Rightarrow> page" where
  "see_line je ws_open f st = fst (handle_frame je ws_open (message (fst f) (snd f)) st)"

text \<open>The lines among some frames that are meant for a pane.\<close>

definition lines_for :: "string \<Rightarrow> (string \<times> string) list \<Rightarrow> string list" where
  "lines_for u xs = map snd (filter (\<lambda>(t, x). t = u) xs)"

definition raw_frame :: "target_id \<times> string \<Rightarrow> string \<times> string" where
  "raw_frame f = (tid_String (fst f), snd f)"

lemma lines_for_simps [simp]:
  "lines_for u [] = []" "lines_for u ((t, x) # xs) = (if t = u then x # lines_for u xs else lines_for u xs)"
  by (simp_all add: lines_for_def)

lemma see_line_eq: "see_line je ws_open (t, x) st = frame_line je ws_open (message t x) st"
  by (simp add: see_line_def handle_frame_def message_def js_text_Cons Let_def)

lemma see_open: "see_line je True (t, x) st = appendLine je (tid_String t) x st"
  by (simp add: see_line_eq frame_line_def message_def js_text_Cons)

lemma see_closed:
  "see_line je False (t, x) st = (if length (pg_queue st) < 1000 then st\<lparr>pg_queue := pg_queue st @ [(tid_String t, x)]\<rparr> else st)"
  by (simp add: see_line_eq frame_line_def message_def js_text_Cons)

lemma appends_lines:
  "length (page_lines u st) \<le> MAX_LINES \<Longrightarrow>
    page_lines u (fold (\<lambda>(t, x). appendLine je t x) xs st) = keep_last MAX_LINES (page_lines u st @ lines_for u xs)"
proof (induction xs arbitrary: st)
  case (Cons f xs)
  obtain t x where f: "f = (t, x)" by (cases f)
  show ?case
  proof (cases "t = u")
    case True
    let ?st = "appendLine je u x st"
    have len: "length (page_lines u ?st) \<le> MAX_LINES" using page_log.ok_append [OF Cons.prems] .
    have "page_lines u ?st = keep_last MAX_LINES (page_lines u st @ [x])" by (simp add: page_lines_append)
    then show ?thesis using Cons.IH [OF len] by (simp add: f True keep_last_idem)
  next
    case False
    then show ?thesis using Cons.IH [of "appendLine je t x st"] Cons.prems by (simp add: f page_lines_append)
  qed
qed simp

lemma start_logs: "page_lines u page_start = []" "pg_queue page_start = []"
  by (simp_all add: page_lines_def page_start_def)

text \<open>What the body of a pane shows: its lines and the images between them.\<close>

fun child_shown :: "child \<Rightarrow> string + string" where
  "child_shown (LineEl i x m c) = Inl x"
| "child_shown (BlockEl b d sc) = Inr d"

definition body_shown :: "string \<Rightarrow> page \<Rightarrow> (string + string) list" where
  "body_shown u st = (case find (body_of u) (pg_panes st) of None \<Rightarrow> [] | Some el \<Rightarrow> map child_shown (pe_body el))"

lemma find_upd_first:
  "(\<And>el. P el \<Longrightarrow> P (f el)) \<Longrightarrow> find P (upd_first P f xs) = map_option f (find P xs)"
  by (induction xs) auto

lemma find_upd_other:
  "(\<And>el. P el \<Longrightarrow> \<not> Q el \<and> \<not> Q (f el)) \<Longrightarrow> find Q (upd_first P f xs) = find Q xs"
  by (induction xs) auto

lemma append_child_keep: "append_child c cs = keep_last MAX_LINES (cs @ [c])"
  by (simp add: append_child_def keep_last_def MAX_LINES_def)

lemma map_keep_last: "map f (keep_last n xs) = keep_last n (map f xs)"
  by (simp add: keep_last_def drop_map)

lemma body_append:
  "body_shown u (appendLine je t x st) =
     (if u = t \<and> find (body_of u) (pg_panes st) \<noteq> None then keep_last MAX_LINES (body_shown u st @ [Inl x]) else body_shown u st)"
proof -
  have ex: "list_ex (body_of t) (pg_panes st) \<longleftrightarrow> find (body_of t) (pg_panes st) \<noteq> None"
    by (auto simp: find_None_iff list_ex_iff)
  show ?thesis
  proof (cases "u = t")
    case True
    have keep: "body_of t el \<Longrightarrow> body_of t (el\<lparr>pe_body := b\<rparr>)" for el b by (simp add: body_of_def)
    show ?thesis
      unfolding True by (auto simp: body_shown_def appendLine_def Let_def ex on_body_def find_upd_first keep append_child_keep map_keep_last split: option.split)
  next
    case False
    then have other: "body_of t el \<Longrightarrow> \<not> body_of u el \<and> \<not> body_of u (el\<lparr>pe_body := b\<rparr>)" for el b by (auto simp: body_of_def)
    show ?thesis
      using False by (simp add: body_shown_def appendLine_def Let_def on_body_def find_upd_other other)
  qed
qed

lemma find_body: "find (body_of u) (pg_panes (appendLine je t x st)) = None \<longleftrightarrow> find (body_of u) (pg_panes st) = None"
proof -
  have "find (body_of u) (upd_first (body_of t) (\<lambda>el. el\<lparr>pe_body := f (pe_body el)\<rparr>) els) = None \<longleftrightarrow> find (body_of u) els = None" for f els
    by (induction els) (auto simp: body_of_def)
  then show ?thesis by (simp add: appendLine_def Let_def on_body_def)
qed

lemma appends_body:
  "find (body_of u) (pg_panes st) \<noteq> None \<Longrightarrow> length (body_shown u st) \<le> MAX_LINES \<Longrightarrow>
    body_shown u (fold (\<lambda>(t, x). appendLine je t x) xs st) = keep_last MAX_LINES (body_shown u st @ map Inl (lines_for u xs))"
proof (induction xs arbitrary: st)
  case (Cons f xs)
  obtain t x where f: "f = (t, x)" by (cases f)
  let ?st = "appendLine je t x st"
  have there: "find (body_of u) (pg_panes ?st) \<noteq> None" using Cons.prems(1) by (simp only: find_body) simp
  have body: "body_shown u ?st = (if u = t then keep_last MAX_LINES (body_shown u st @ [Inl x]) else body_shown u st)"
    using Cons.prems(1) by (simp add: body_append)
  then have "length (body_shown u ?st) \<le> MAX_LINES" using Cons.prems(2) by simp
  from Cons.IH [OF there this] show ?case by (simp add: f body keep_last_idem del: find_None_iff)
qed simp



text \<open>
  Frames that come while the socket is closing wait: they change no pane until the next connection
  announces itself, and then the oldest 1000 of those that wait are shown in their order; later ones are
  lost.
\<close>

theorem queued_frames_flushed:
  assumes "length (pg_queue st) \<le> 1000" and "length (page_lines u st) \<le> 10000"
  shows "let q = take 1000 (pg_queue st @ map raw_frame fs);
      st1 = fold (see_line je False) fs st; st2 = fst (handle_frame je True reconnect_frame st1)
    in st1 = st\<lparr>pg_queue := q\<rparr> \<and> pg_queue st2 = [] \<and> page_lines u st2 = keep_last 10000 (page_lines u st @ lines_for u q)"
proof -
  let ?q = "take 1000 (pg_queue st @ map raw_frame fs)"
  have wait: "fold (see_line je False) fs st = st\<lparr>pg_queue := ?q\<rparr>"
    using assms(1)
  proof (induction fs arbitrary: st)
    case (Cons f fs)
    have "see_line je False f st = (if length (pg_queue st) < 1000 then st\<lparr>pg_queue := pg_queue st @ [raw_frame f]\<rparr> else st)"
      using see_closed [of je "fst f" "snd f" st] by (simp add: raw_frame_def)
    moreover have "\<not> length (pg_queue st) < 1000 \<Longrightarrow> length (pg_queue st) = 1000" using Cons.prems by simp
    ultimately show ?case using Cons.IH [of "see_line je False f st"] by (cases "length (pg_queue st) < 1000") simp_all
  qed simp
  have lines: "page_lines u (st1\<lparr>pg_queue := x\<rparr>) = page_lines u st1" for st1 x by (simp add: page_lines_def)
  have "handle_frame je True reconnect_frame st1 = ((fold (\<lambda>(i, line). appendLine je i line) (pg_queue st1) st1)\<lparr>pg_queue := []\<rparr>, [])" for st1
    by (simp add: handle_frame_def reconnect_frame_def js_text_Cons Let_def)
  then show ?thesis
    using appends_lines [of u "st\<lparr>pg_queue := ?q\<rparr>" je ?q] assms(2) by (simp add: wait lines Let_def MAX_LINES_def)
qed

theorem queued_frames_flushed_witness:
  "pg_queue (fst (handle_frame je_example True reconnect_frame (fold (see_line je_example False) [(TargetID ''a'', ''x'')] page_start))) = []"
  using queued_frames_flushed [where st = page_start and u = "''a''" and je = je_example and fs = "[(TargetID ''a'', ''x'')]"]
  by (simp add: start_logs Let_def) metis

section \<open>Frames without effect\<close>

definition idle_frame :: "jval \<Rightarrow> bool" where
  "idle_frame f \<longleftrightarrow> (\<forall>je ws_open st. handle_frame je ws_open f st = (st, []))"

lemma idle_special:
  "idle_frame (special ''pane_resize'' v)" "idle_frame (special ''group_hide'' v)"
  "idle_frame (special ''group_show'' v)" "idle_frame (special ''pane_focus'' v)"
  by (simp_all add: idle_frame_def handle_frame_def special_def js_text_Cons frame_line_def Let_def)

definition only_announces :: "'p handler \<Rightarrow> 'p env \<Rightarrow> request \<Rightarrow> 'p server \<Rightarrow> bool" where
  "only_announces h ev r s \<longleftrightarrow> fst (h ev r s) = s \<or> (\<exists>f. idle_frame f \<and> fst (h ev r s) = sv_broadcast f s \<and> snd (h ev r s) = NoContent)"

text \<open>
  Four routes do nothing that can be seen: resizing a pane and hiding, showing or focusing a group
  change no window, pane or layout on the server; when the server accepts such a request it broadcasts one
  frame, and every page ignores that frame.
\<close>

theorem resize_and_groups_idle:
  "only_announces handlePaneResize ev r s \<and> only_announces (handleGroupAction GroupHide) ev r s
    \<and> only_announces (handleGroupAction GroupShow) ev r s \<and> only_announces (handleGroupAction GroupFocus) ev r s"
proof -
  have resize: "only_announces handlePaneResize ev r s"
    by (cases "decode_body r (body_str2 ''direction'' ''size'')"; simp add: only_announces_def handlePaneResize_def split: prod.split sum.split)
      (blast intro: idle_special)
  have announce: "only_announces h ev r s" if "h ev r s = (sv_broadcast f s, NoContent)" "idle_frame f" for h f
    using that by (auto simp: only_announces_def)
  have refuse: "only_announces h ev r s" if "h ev r s = (s, resp)" for h resp
    using that by (simp add: only_announces_def)
  have group: "only_announces (handleGroupAction a) ev r s" if a: "a = GroupHide \<or> a = GroupShow \<or> a = GroupFocus" for a
  proof (cases "PathValue r ''name'' = [] \<or> group_targets (PathValue r ''name'') (sv_manager s) = []")
    case True
    then have "\<exists>resp. handleGroupAction a ev r s = (s, resp)" by (auto simp: handleGroupAction_def Let_def)
    then show ?thesis using refuse by blast
  next
    case False
    then obtain t ts where "group_targets (PathValue r ''name'') (sv_manager s) = t # ts" by (auto simp: neq_Nil_conv)
    with a False show ?thesis by (elim disjE) (simp_all add: handleGroupAction_def Let_def announce idle_special)
  qed
  show ?thesis using resize group by simp
qed

end
