(* ===== verification/Cli_Client.thy ===== *)
theory Cli_Client
  imports Http_Client
begin

text \<open>
  The REST client of \<open>cmd/rdw/commands.go\<close> and the commands that are one request. A command takes its
  flags and arguments, acts on the world, and ends with an error or with what it prints: a list of
  formats with their arguments (the alignment of a table is the library's). A panic is an error.
\<close>

section \<open>Output and actions\<close>

datatype out_arg = OStr string | OInt int | OVal "jval option"

type_synonym cli_output = "(string \<times> out_arg list) list"
type_synonym ('p, 'a) io = "'p world \<Rightarrow> 'p world \<times> 'a result"

definition tab :: "string list \<Rightarrow> string" where
  "tab cells = join_with [TAB] cells"

definition then_io :: "('p, 'a) io \<Rightarrow> ('a \<Rightarrow> ('p, 'b) io) \<Rightarrow> ('p, 'b) io" where
  "then_io f g w = (case f w of (w', Inl e) \<Rightarrow> (w', Inl e) | (w', Inr x) \<Rightarrow> g x w')"

definition pure_io :: "'a result \<Rightarrow> ('p, 'a) io" where
  "pure_io r w = (w, r)"

lemma then_io_Inr: "f w = (w', Inr x) \<Longrightarrow> then_io f g w = g x w'"
  by (simp add: then_io_def)

lemma then_io_Inl: "f w = (w', Inl e) \<Longrightarrow> then_io f g w = (w', Inl e)"
  by (simp add: then_io_def)

section \<open>The REST client\<close>

record rest_client =
  rc_port :: int
  rc_token :: string

definition newRestClient :: "'p client_env \<Rightarrow> int \<Rightarrow> ('p, rest_client) io" where
  "newRestClient ce port =
     then_io (resolve_port ce port) (\<lambda>resolved. pure_io (Inr \<lparr>rc_port = resolved, rc_token = []\<rparr>))"

definition rest_do :: "'p client_env \<Rightarrow> rest_client \<Rightarrow> string \<Rightarrow> string \<Rightarrow> jval option \<Rightarrow> ('p, nat \<times> body) io" where
  "rest_do ce c meth path v w =
     (case parse_target path of
        Inl e \<Rightarrow> (w, Inl e)
      | Inr _ \<Rightarrow>
          (case http_call ce (rc_port c) meth path (rc_token c) v w of
             (w', Inl e) \<Rightarrow> (w', Inl (Wrapf ''connecting to rdw server: %w'' [] e))
           | (w', Inr resp) \<Rightarrow> (w', Inr resp)))"

text \<open>Decoding a body into a map; what is not JSON, or nothing, is an error.\<close>

fun decodeBody :: "body \<Rightarrow> (string \<times> jval) list result" where
  "decodeBody NoBody = Inl (Extern ''EOF'')"
| "decodeBody (TextBody t) = Inl (Extern ''invalid character looking for beginning of value'')"
| "decodeBody (JsonBody v) = dec_obj v"

text \<open>The member is there, empty, when it is not a string.\<close>

fun error_member :: "body \<Rightarrow> string option" where
  "error_member (JsonBody (JObj fs)) =
     (case map_of fs ''error'' of Some (JStr m) \<Rightarrow> Some m | Some _ \<Rightarrow> Some [] | None \<Rightarrow> None)"
| "error_member _ = None"

definition checkStatus :: "nat \<Rightarrow> nat \<times> body \<Rightarrow> go_err option" where
  "checkStatus expected resp =
     (case resp of (code, b) \<Rightarrow>
        if code = expected then None
        else (case error_member b of
                Some msg \<Rightarrow> Some (Errorf ''server error (%d): %s'' [AInt (int code), AStr msg])
              | None \<Rightarrow> Some (Errorf ''unexpected status %d'' [AInt (int code)])))"

text \<open>The shape of most commands: find the server, make the request, look at the reply.\<close>

definition request :: "'p client_env \<Rightarrow> int \<Rightarrow> string \<Rightarrow> string \<Rightarrow> jval option \<Rightarrow> (nat \<times> body \<Rightarrow> 'a result) \<Rightarrow> ('p, 'a) io" where
  "request ce port meth path v look =
     then_io (newRestClient ce port) (\<lambda>rc. then_io (rest_do ce rc meth path v) (\<lambda>resp. pure_io (look resp)))"

definition checked :: "nat \<Rightarrow> cli_output \<Rightarrow> nat \<times> body \<Rightarrow> cli_output result" where
  "checked expected out resp = (case checkStatus expected resp of Some e \<Rightarrow> Inl e | None \<Rightarrow> Inr out)"

definition decoded :: "((string \<times> jval) list \<Rightarrow> cli_output result) \<Rightarrow> nat \<times> body \<Rightarrow> cli_output result" where
  "decoded show resp = bindr (decodeBody (snd resp)) show"

definition jstr :: "'p client_env \<Rightarrow> string \<Rightarrow> jval" where
  "jstr ce s = JStr (ce_wire ce s)"

definition arg :: "'p client_env \<Rightarrow> string \<Rightarrow> string \<Rightarrow> jval option" where
  "arg ce name s = Some (JObj [(name, jstr ce s)])"

section \<open>Reading untyped JSON\<close>

fun as_str :: "jval option \<Rightarrow> string" where
  "as_str (Some (JStr s)) = s"
| "as_str _ = []"

fun as_arr :: "jval option \<Rightarrow> jval list" where
  "as_arr (Some (JArr vs)) = vs"
| "as_arr _ = []"

fun as_bool :: "jval option \<Rightarrow> bool" where
  "as_bool (Some (JBool b)) = b"
| "as_bool _ = False"

fun as_obj :: "jval option \<Rightarrow> (string \<times> jval) list" where
  "as_obj (Some (JObj fs)) = fs"
| "as_obj _ = []"

definition ifaceSliceStr :: "jval option \<Rightarrow> string list" where
  "ifaceSliceStr v = map (\<lambda>x. as_str (Some x)) (as_arr v)"

text \<open>A time is a string in the reply; here it is the instant, or the text of the zero time.\<close>

fun as_time :: "jval option \<Rightarrow> out_arg option" where
  "as_time (Some (JStr s)) = (if s = [] then None else Some (OStr s))"
| "as_time (Some (JNum i)) = Some (OInt i)"
| "as_time _ = None"

text \<open>\<open>v.(map[string]interface{})\<close>, which panics on anything else.\<close>

fun must_obj :: "jval \<Rightarrow> (string \<times> jval) list result" where
  "must_obj (JObj fs) = Inr fs"
| "must_obj _ = Inl (Extern ''panic: interface conversion'')"

section \<open>Windows\<close>

definition windowCreateCmd :: "'p client_env \<Rightarrow> int \<Rightarrow> string \<Rightarrow> ('p, cli_output) io" where
  "windowCreateCmd ce port name =
     request ce port ''POST'' ''/api/v1/windows'' (arg ce ''name'' name) (checked 201 [(''window %q created'', [OStr name])])"

definition windowCloseCmd :: "'p client_env \<Rightarrow> int \<Rightarrow> string \<Rightarrow> ('p, cli_output) io" where
  "windowCloseCmd ce port name = request ce port ''DELETE'' (''/api/v1/windows/'' @ name) None (checked 204 [])"

definition windowRenameCmd :: "'p client_env \<Rightarrow> int \<Rightarrow> string \<Rightarrow> string \<Rightarrow> ('p, cli_output) io" where
  "windowRenameCmd ce port old new =
     request ce port ''PATCH'' (''/api/v1/windows/'' @ old) (arg ce ''name'' new) (checked 204 [])"

definition windowFocusCmd :: "'p client_env \<Rightarrow> int \<Rightarrow> string \<Rightarrow> ('p, cli_output) io" where
  "windowFocusCmd ce port name = request ce port ''POST'' (''/api/v1/windows/'' @ name @ ''/focus'') None (checked 204 [])"

definition window_row :: "jval \<Rightarrow> (string \<times> out_arg list) result" where
  "window_row v = bindr (must_obj v) (\<lambda>win.
     Inr (tab [''%s'', ''%d''], [OStr (as_str (map_of win ''name'')), OInt (int (length (as_arr (map_of win ''panes''))))]))"

definition show_windows :: "(string \<times> jval) list \<Rightarrow> cli_output result" where
  "show_windows body =
     (let wins = as_arr (map_of body ''windows'') in
      if wins = [] then Inr [(''no windows'', [])]
      else bindr (mapr window_row wins) (\<lambda>rows. Inr ((tab [''NAME'', ''PANES''], []) # rows)))"

definition windowListCmd :: "'p client_env \<Rightarrow> int \<Rightarrow> ('p, cli_output) io" where
  "windowListCmd ce port = request ce port ''GET'' ''/api/v1/windows'' None (decoded show_windows)"

section \<open>Panes\<close>

definition paneSplitCmd :: "'p client_env \<Rightarrow> int \<Rightarrow> string \<Rightarrow> bool \<Rightarrow> string \<Rightarrow> string \<Rightarrow> string \<Rightarrow> ('p, cli_output) io" where
  "paneSplitCmd ce port grp private parent direction newID =
     request ce port ''POST'' (''/api/v1/panes/'' @ parent @ ''/split'')
       (Some (JObj ([(''direction'', jstr ce direction)]
          @ (if grp \<noteq> [] then [(''group'', jstr ce grp)] else [])
          @ [(''new_id'', jstr ce newID)]
          @ (if private then [(''private'', JBool True)] else []))))
       (checked 201 [])"

definition paneResizeCmd :: "'p client_env \<Rightarrow> int \<Rightarrow> string \<Rightarrow> string \<Rightarrow> string \<Rightarrow> ('p, cli_output) io" where
  "paneResizeCmd ce port pane direction sz =
     (case ParseResizeArg sz of
        Inl e \<Rightarrow> pure_io (Inl (Wrapf ''invalid size %q: %w'' [AStr sz] e))
      | Inr _ \<Rightarrow>
          request ce port ''POST'' (''/api/v1/panes/'' @ pane @ ''/resize'')
            (Some (JObj [(''direction'', jstr ce direction), (''size'', jstr ce sz)])) (checked 204 []))"

definition paneZoomCmd :: "'p client_env \<Rightarrow> int \<Rightarrow> string \<Rightarrow> ('p, cli_output) io" where
  "paneZoomCmd ce port pane = request ce port ''POST'' (''/api/v1/panes/'' @ pane @ ''/zoom'') None (checked 204 [])"

definition paneSwapCmd :: "'p client_env \<Rightarrow> int \<Rightarrow> string \<Rightarrow> string \<Rightarrow> ('p, cli_output) io" where
  "paneSwapCmd ce port a b =
     request ce port ''POST'' (''/api/v1/panes/'' @ a @ ''/swap'') (arg ce ''target'' b) (checked 204 [])"

definition paneRenameCmd :: "'p client_env \<Rightarrow> int \<Rightarrow> string \<Rightarrow> string \<Rightarrow> ('p, cli_output) io" where
  "paneRenameCmd ce port pane title =
     request ce port ''PATCH'' (''/api/v1/panes/'' @ pane) (arg ce ''title'' title) (checked 204 [])"

definition paneCloseCmd :: "'p client_env \<Rightarrow> int \<Rightarrow> string \<Rightarrow> ('p, cli_output) io" where
  "paneCloseCmd ce port pane = request ce port ''DELETE'' (''/api/v1/panes/'' @ pane) None (checked 204 [])"

section \<open>Layouts\<close>

definition layoutSaveCmd :: "'p client_env \<Rightarrow> int \<Rightarrow> string \<Rightarrow> ('p, cli_output) io" where
  "layoutSaveCmd ce port name =
     request ce port ''POST'' ''/api/v1/layouts'' (arg ce ''name'' name) (checked 201 [(''layout %q saved'', [OStr name])])"

definition show_layouts :: "(string \<times> jval) list \<Rightarrow> cli_output result" where
  "show_layouts body =
     (let layouts = as_arr (map_of body ''layouts'') in
      if layouts = [] then Inr [(''no saved layouts'', [])] else Inr (map (\<lambda>v. (''%v'', [OVal (Some v)])) layouts))"

definition layoutListCmd :: "'p client_env \<Rightarrow> int \<Rightarrow> ('p, cli_output) io" where
  "layoutListCmd ce port = request ce port ''GET'' ''/api/v1/layouts'' None (decoded show_layouts)"

definition layout_LoadFile :: "'p client_env \<Rightarrow> string \<Rightarrow> layout result" where
  "layout_LoadFile ce path =
     (case ce_ReadFile ce path of
        Inl e \<Rightarrow> Inl (Wrapf ''reading layout file %q: %w'' [AStr path] e)
      | Inr data \<Rightarrow> Layout_Parse (ce_unmarshal ce) data)"

definition load_ref :: "'p client_env \<Rightarrow> string \<Rightarrow> layout result" where
  "load_ref ce ref =
     (case layout_LoadFile ce ref of
        Inr l \<Rightarrow> Inr l
      | Inl _ \<Rightarrow>
          (case layout_LoadFile ce (ref @ ''.yaml'') of
             Inr l \<Rightarrow> Inr l
           | Inl e \<Rightarrow> Inl (Wrapf ''not a saved preset and cannot load as file: %w'' [] e)))"

text \<open>The upload sends the name only, not the layout.\<close>

definition upload_layout :: "'p client_env \<Rightarrow> rest_client \<Rightarrow> string \<Rightarrow> layout \<Rightarrow> ('p, cli_output) io" where
  "upload_layout ce rc ref l =
     (let name = (if l_Name l = [] then ref else l_Name l) in
      then_io (rest_do ce rc ''POST'' ''/api/v1/layouts'' (arg ce ''name'' name))
        (\<lambda>_. then_io (rest_do ce rc ''POST'' (''/api/v1/layouts/'' @ name @ ''/apply'') None)
          (\<lambda>resp2. pure_io (checked 204 [] resp2))))"

definition applyLayoutRef :: "'p client_env \<Rightarrow> rest_client \<Rightarrow> string \<Rightarrow> ('p, cli_output) io" where
  "applyLayoutRef ce rc ref w =
     (case rest_do ce rc ''POST'' (''/api/v1/layouts/'' @ ref @ ''/apply'') None w of (w1, preset) \<Rightarrow>
        if (case preset of Inr (code, _) \<Rightarrow> code = 204 | Inl _ \<Rightarrow> False) then (w1, Inr [])
        else (case load_ref ce ref of
                Inl e \<Rightarrow> (w1, Inl e)
              | Inr l \<Rightarrow>
                  if l_SchemaVersion l \<noteq> 1 then
                    (w1, Inl (Errorf ''layout %q: unsupported schema_version %d (expected 1)'' [AStr ref, AInt (l_SchemaVersion l)]))
                  else upload_layout ce rc ref l w1))"

definition layoutApplyCmd :: "'p client_env \<Rightarrow> int \<Rightarrow> string \<Rightarrow> ('p, cli_output) io" where
  "layoutApplyCmd ce port ref = then_io (newRestClient ce port) (\<lambda>rc. applyLayoutRef ce rc ref)"

section \<open>The key-value store\<close>

definition kvSetCmd :: "'p client_env \<Rightarrow> int \<Rightarrow> string \<Rightarrow> string \<Rightarrow> ('p, cli_output) io" where
  "kvSetCmd ce port key value =
     request ce port ''PUT'' (''/api/v1/kv/'' @ key) (arg ce ''value'' value) (checked 204 [])"

text \<open>The value of a reply without one, an error reply for example, is the empty string.\<close>

definition show_value :: "string \<Rightarrow> nat \<times> body \<Rightarrow> cli_output result" where
  "show_value key resp =
     bindr (decodeBody (snd resp)) (\<lambda>fs. bindr (dec_str_map (JObj fs)) (\<lambda>body.
       if fst resp = 404 then Inl (Errorf ''key %q not found'' [AStr key])
       else Inr [(''%s'', [OStr (case map_of body ''value'' of None \<Rightarrow> [] | Some v \<Rightarrow> v)])]))"

definition kvGetCmd :: "'p client_env \<Rightarrow> int \<Rightarrow> string \<Rightarrow> ('p, cli_output) io" where
  "kvGetCmd ce port key = request ce port ''GET'' (''/api/v1/kv/'' @ key) None (show_value key)"

definition kvDeleteCmd :: "'p client_env \<Rightarrow> int \<Rightarrow> string \<Rightarrow> ('p, cli_output) io" where
  "kvDeleteCmd ce port key = request ce port ''DELETE'' (''/api/v1/kv/'' @ key) None (checked 204 [])"

end
