(* ===== verification/Selftest.thy ===== *)
theory Selftest
  imports Http_Client
begin

text \<open>
  \<open>internal/selftest\<close>: the program's own in-process checks, as definitions over the models of the
  components they exercise. What the checks take from outside (the clock, the context, the random bytes,
  the hash, the YAML decoder, the loopback connection) are arguments. The text of a detail is kept as a
  format with its arguments. Only \<open>checkSessionManager\<close> can panic, by the nil window; that is \<open>None\<close>.
\<close>

section \<open>Results\<close>

record check =
  ck_Name :: string
  ck_Passed :: bool
  ck_Detail :: "go_err option"

record selftest_result =
  st_Passed :: bool
  st_Checks :: "check list"

definition failed :: "string \<Rightarrow> go_err \<Rightarrow> check" where
  "failed name e = \<lparr>ck_Name = name, ck_Passed = False, ck_Detail = Some e\<rparr>"

definition passed :: "string \<Rightarrow> check" where
  "passed name = \<lparr>ck_Name = name, ck_Passed = True, ck_Detail = None\<rparr>"

text \<open>An identifier whose error is ignored: the zero value on failure.\<close>

definition target_or_zero :: "string \<Rightarrow> target_id" where
  "target_or_zero s = (case ParseTargetID s of Inl _ \<Rightarrow> TargetID '''' | Inr t \<Rightarrow> t)"

definition key_or_zero :: "string \<Rightarrow> key" where
  "key_or_zero s = (case ParseKey s of Inl _ \<Rightarrow> Key '''' | Inr k \<Rightarrow> k)"

section \<open>The checks\<close>

definition checkTargetID :: check where
  "checkTargetID =
     (case ParseTargetID ''selftest-pane'' of
        Inl e \<Rightarrow> failed ''TargetID validation'' e
      | Inr _ \<Rightarrow>
          (case ParseTargetID ''-invalid'' of
             Inr _ \<Rightarrow> failed ''TargetID validation'' (Errorf ''expected error for invalid ID'' [])
           | Inl _ \<Rightarrow> passed ''TargetID validation''))"

definition checkKVStore :: check where
  "checkKVStore =
     (let store = kv_New in
      case ParseKey ''selftest-key'' of
        Inl e \<Rightarrow> failed ''KV store'' e
      | Inr k \<Rightarrow>
          (case kv_Set k ''hello'' store of
             Inl e \<Rightarrow> failed ''KV store'' e
           | Inr store1 \<Rightarrow>
               if kv_Get store1 k \<noteq> Some ''hello'' then
                 failed ''KV store'' (Errorf ''got %q want %q''
                   [AStr (case kv_Get store1 k of None \<Rightarrow> '''' | Some v \<Rightarrow> v), AStr ''hello''])
               else if kv_Get (kv_Delete k store1) k \<noteq> None then
                 failed ''KV store'' (Errorf ''delete did not remove key'' [])
               else passed ''KV store''))"

text \<open>A pipeline of the checks: no filters, and sinks that only collect.\<close>

definition no_filters :: "unit filter_fun" where
  "no_filters f line = (f, line, True)"

definition check_pipeline :: "string \<Rightarrow> int \<Rightarrow> (unit, unit, unit) pipeline" where
  "check_pipeline name maxStages = pl_New (target_or_zero name) False maxStages (NewScrollbackBuffer 100)"

definition check_run :: "(nat \<Rightarrow> bool) \<Rightarrow> go_err \<Rightarrow> string \<Rightarrow> (unit, unit, unit) pipeline
    \<Rightarrow> ((unit, unit, unit) pipeline \<times> kv_store \<times> (unit, unit) effect list) \<times> go_err option" where
  "check_run done ctxErr input p = pl_Run (own_step no_filters '''') done ctxErr input (p, kv_New, [])"

definition checkControlSequence :: "(nat \<Rightarrow> bool) \<Rightarrow> go_err \<Rightarrow> check" where
  "checkControlSequence done ctxErr =
     (case check_run done ctxErr (''=:selftest=ok'' @ [LF] @ ''normal line'' @ [LF]) (check_pipeline ''selftest-ctrl'' 8) of
        (_, Some e) \<Rightarrow> failed ''Control sequence dispatch'' e
      | ((p, store, _), None) \<Rightarrow>
          let v = kv_Get store (key_or_zero ''selftest''); sb = pl_scrollback p in
          if v \<noteq> Some ''ok'' then
            failed ''Control sequence dispatch'' (Errorf ''KV selftest=%q ok=%v''
              [AStr (case v of None \<Rightarrow> '''' | Some x \<Rightarrow> x), AInt (if v = None then 0 else 1)])
          else if sb_Len sb \<noteq> 1 \<or> sb_Lines sb ! 0 \<noteq> ''normal line'' then
            failed ''Control sequence dispatch'' (Errorf ''scrollback: %v'' (map AStr (sb_Lines sb)))
          else passed ''Control sequence dispatch'')"

fun sink_line :: "('s, 'h) effect \<Rightarrow> string option" where
  "sink_line (CallSink s t l) = Some l"
| "sink_line (CallHandler h t q) = None"

definition checkPipelineRelay :: "(nat \<Rightarrow> bool) \<Rightarrow> go_err \<Rightarrow> check" where
  "checkPipelineRelay done ctxErr =
     (case check_run done ctxErr (''line1'' @ [LF] @ ''line2'' @ [LF] @ ''line3'' @ [LF])
             (AddSink () (check_pipeline ''selftest-relay'' 0)) of
        (_, Some e) \<Rightarrow> failed ''Pipeline relay'' e
      | ((p, store, es), None) \<Rightarrow>
          let received = List.map_filter sink_line es in
          if length received \<noteq> 3 \<or> join_with '','' received \<noteq> ''line1,line2,line3'' then
            failed ''Pipeline relay'' (Errorf ''got %v'' (map AStr received))
          else passed ''Pipeline relay'')"

definition checkBase64Decode :: "(nat \<Rightarrow> bool) \<Rightarrow> go_err \<Rightarrow> check" where
  "checkBase64Decode done ctxErr =
     (case check_run done ctxErr (''b64:'' @ b64_encode ''hello'' @ [LF]) (check_pipeline ''selftest-b64'' 0) of
        (_, Some e) \<Rightarrow> failed ''Base64 decode'' e
      | ((p, store, _), None) \<Rightarrow>
          let ls = sb_Lines (pl_scrollback p) in
          if length ls \<noteq> 1 \<or> ls ! 0 \<noteq> ''hello'' then failed ''Base64 decode'' (Errorf ''got %v'' (map AStr ls))
          else passed ''Base64 decode'')"

definition checkScrollbackOverflow :: check where
  "checkScrollbackOverflow =
     (let sb = foldl (\<lambda>b i. sb_Append b (''line'' @ show_nat i)) (NewScrollbackBuffer 3) [0..<5];
          ls = sb_Lines sb
      in if length ls \<noteq> 3 \<or> ls ! 0 \<noteq> ''line2'' \<or> ls ! 2 \<noteq> ''line4'' then
           failed ''Scrollback overflow'' (Errorf ''got %v'' (map AStr ls))
         else passed ''Scrollback overflow'')"

definition selftest_yaml :: string where
  "selftest_yaml =
     [LF] @ ''schema_version: 1'' @ [LF] @ ''name: selftest'' @ [LF] @ ''windows:'' @ [LF] @ ''  - name: build'' @ [LF]
     @ ''    panes:'' @ [LF] @ ''      - target_id: stdout'' @ [LF] @ ''      - target_id: stderr'' @ [LF]
     @ ''        split: h'' @ [LF] @ ''        size: 30%'' @ [LF]"

definition checkLayoutParse :: "(string \<Rightarrow> layout result) \<Rightarrow> check" where
  "checkLayoutParse unmarshal =
     (case Layout_Parse unmarshal selftest_yaml of
        Inl e \<Rightarrow> failed ''Layout parse'' e
      | Inr l \<Rightarrow>
          if length (l_Windows l) \<noteq> 1 \<or> ws_Name (l_Windows l ! 0) \<noteq> ''build'' then
            failed ''Layout parse'' (Errorf ''unexpected window structure'' [])
          else if length (ws_Panes (l_Windows l ! 0)) \<noteq> 2 then
            failed ''Layout parse'' (Errorf ''expected 2 panes'' [])
          else passed ''Layout parse'')"

text \<open>The sink of the router check writes to a list next to the router.\<close>

record got_host = "(unit, unit, unit) host" +
  h_got :: "string list"

fun exec_got :: "(unit, unit) effect \<Rightarrow> got_host \<Rightarrow> got_host" where
  "exec_got (CallSink s t l) st = st\<lparr>h_got := h_got st @ [tid_String t @ '':'' @ l]\<rparr>"
| "exec_got (CallHandler h t q) st = st"

definition check_route :: "target_id \<Rightarrow> string \<Rightarrow> got_host \<Rightarrow> got_host \<times> go_err option" where
  "check_route t line st = rt_Route (\<lambda>_. no_filters) '''' exec_got t line st"

definition checkRouterBasic :: check where
  "checkRouterBasic =
     (let r = rt_New (Some ()) \<lparr>ro_AllowUnassigned = False, ro_FilterChainMax = 0, ro_DefaultScrollbackCap = 0\<rparr>;
          t = target_or_zero ''st-pane''
      in case Register t 100 r of
           Inl e \<Rightarrow> failed ''Router basic'' e
         | Inr r1 \<Rightarrow>
             (case check_route t ''hello'' \<lparr>h_router = r1, h_kv = kv_New, h_got = []\<rparr> of
                (_, Some e) \<Rightarrow> failed ''Router basic'' e
              | (st, None) \<Rightarrow>
                  if length (h_got st) \<noteq> 1 \<or> h_got st ! 0 \<noteq> ''st-pane:hello'' then
                    failed ''Router basic'' (Errorf ''got %v'' (map AStr (h_got st)))
                  else if snd (check_route (target_or_zero ''missing'') ''x'' st) = None then
                    failed ''Router basic'' (Errorf ''expected error for unregistered target'' [])
                  else passed ''Router basic''))"

definition checkSessionManager :: "check option" where
  "checkSessionManager =
     (case CreateWindow ''w1'' NewManager of
        Inl e \<Rightarrow> Some (failed ''Session manager'' e)
      | Inr m1 \<Rightarrow>
          (case CreateWindow ''w2'' m1 of
             Inl e \<Rightarrow> Some (failed ''Session manager'' e)
           | Inr m2 \<Rightarrow>
               (case FocusWindow ''w2'' m2 of
                  Inl e \<Rightarrow> Some (failed ''Session manager'' e)
                | Inr m3 \<Rightarrow>
                    (case ActiveWindow m3 of
                       None \<Rightarrow> None
                     | Some None \<Rightarrow> None
                     | Some (Some w) \<Rightarrow>
                         if wn_Name w \<noteq> ''w2'' then Some (failed ''Session manager'' (Errorf ''wrong active window'' []))
                         else (case CloseWindow ''w1'' m3 of
                                 Inl e \<Rightarrow> Some (failed ''Session manager'' e)
                               | Inr m4 \<Rightarrow>
                                   if length (Windows m4) \<noteq> 1 then
                                     Some (failed ''Session manager'' (Errorf ''expected 1 window after close'' []))
                                   else Some (passed ''Session manager''))))))"

text \<open>\<open>clock i\<close> is the time at the \<open>i\<close>-th reading of the clock.\<close>

definition checkAuthToken :: "(string \<Rightarrow> string) \<Rightarrow> string result \<Rightarrow> (nat \<Rightarrow> int) \<Rightarrow> check" where
  "checkAuthToken H entropy clock =
     (case auth_Create H entropy (clock 0) \<lparr>co_Expiry = 3600 * 1000000000, co_Panes = [], co_Windows = []\<rparr> NewTokenStore of
        Inl e \<Rightarrow> failed ''Auth token'' e
      | Inr (plain, tok, store) \<Rightarrow>
          if plain = tk_Hash tok then failed ''Auth token'' (Errorf ''plaintext equals hash'' [])
          else if (case auth_Verify H (clock 1) plain store of None \<Rightarrow> True | Some got \<Rightarrow> tk_ID got \<noteq> tk_ID tok) then
            failed ''Auth token'' (Errorf ''verify failed for valid token'' [])
          else if auth_Verify H (clock 2) ''wrongtoken'' store \<noteq> None then
            failed ''Auth token'' (Errorf ''verify succeeded for wrong token'' [])
          else if auth_Verify H (clock 3) plain (fst (auth_Revoke (tk_ID tok) store)) \<noteq> None then
            failed ''Auth token'' (Errorf ''verify succeeded after revoke'' [])
          else passed ''Auth token'')"

text \<open>\<open>conn\<close> is the error of the loopback connection, if any.\<close>

definition checkServerPing :: "'p env \<Rightarrow> request \<Rightarrow> go_err option \<Rightarrow> check" where
  "checkServerPing ev req conn =
     (let cfg = cfg_Default\<lparr>cg_Auth := (cg_Auth cfg_Default)\<lparr>ac_NoAuth := True\<rparr>\<rparr>;
          s = sv_New cfg \<lparr>op_SessionID = ''selftest-ping'', op_PersistPath = [], op_Restore = False\<rparr>
      in case conn of
           Some e \<Rightarrow> failed ''Server ping'' e
         | None \<Rightarrow>
             (case reply_of (\<lambda>_. []) (snd (sv_serve ev (req\<lparr>rq_pattern := ''GET /api/v1/ping''\<rparr>) s)) of
                Inl e \<Rightarrow> failed ''Server ping'' e
              | Inr (code, _) \<Rightarrow>
                  if code \<noteq> 200 then failed ''Server ping'' (Errorf ''status %d'' [AInt (int code)])
                  else passed ''Server ping''))"

section \<open>The run\<close>

record 'p selftest_env =
  se_done :: "nat \<Rightarrow> bool"
  se_ctxErr :: go_err
  se_unmarshal :: "string \<Rightarrow> layout result"
  se_H :: "string \<Rightarrow> string"
  se_entropy :: "string result"
  se_clock :: "nat \<Rightarrow> int"
  se_env :: "'p env"
  se_req :: request
  se_conn :: "go_err option"

definition check_line :: "check \<Rightarrow> string \<times> string \<times> go_err option" where
  "check_line c = (if ck_Passed c then ''PASS'' else ''FAIL'', ck_Name c,
     if \<not> ck_Passed c \<and> ck_Detail c \<noteq> None then ck_Detail c else None)"

definition selftest_Run :: "'p selftest_env \<Rightarrow> (selftest_result \<times> (string \<times> string \<times> go_err option) list) option" where
  "selftest_Run se =
     (case checkSessionManager of
        None \<Rightarrow> None
      | Some session \<Rightarrow>
          let checks =
                [checkTargetID, checkKVStore, checkControlSequence (se_done se) (se_ctxErr se),
                 checkPipelineRelay (se_done se) (se_ctxErr se), checkBase64Decode (se_done se) (se_ctxErr se),
                 checkScrollbackOverflow, checkLayoutParse (se_unmarshal se), checkRouterBasic, session,
                 checkAuthToken (se_H se) (se_entropy se) (se_clock se),
                 checkServerPing (se_env se) (se_req se) (se_conn se)]
          in Some (\<lparr>st_Passed = list_all ck_Passed checks, st_Checks = checks\<rparr>, map check_line checks))"

section \<open>The checks pass\<close>

lemma ids_pass:
  "ParseTargetID ''selftest-pane'' = Inr (TargetID ''selftest-pane'')" "\<not> is_ok (ParseTargetID ''-invalid'')"
  "ParseKey ''selftest-key'' = Inr (Key ''selftest-key'')" "ParseKey ''selftest'' = Inr (Key ''selftest'')"
  "ParseTargetID ''st-pane'' = Inr (TargetID ''st-pane'')" "ParseTargetID ''missing'' = Inr (TargetID ''missing'')"
  by code_simp+

lemma pass_TargetID: "ck_Passed checkTargetID"
  by code_simp

lemma pass_KVStore: "ck_Passed checkKVStore"
  by (simp add: checkKVStore_def Let_def ids_pass kv_Set_def kv_New_def kv_Get_def kv_Delete_def ValueMaxBytes_def
      StoreMaxBytes_def passed_def gm_get_put gm_get_del)

lemma show_digit: "n < 10 \<Longrightarrow> show_nat n = [digit_char n]"
  by (simp add: show_nat.simps)

lemma digits: "digit_char 0 = CHR ''0''" "digit_char (Suc 0) = CHR ''1''" "digit_char 2 = CHR ''2''" "digit_char 3 = CHR ''3''" "digit_char 4 = CHR ''4''"
  by code_simp+

lemma cap_small: "0 < c \<Longrightarrow> c \<le> 100 \<Longrightarrow> sb_Cap (NewScrollbackBuffer c) = nat c \<and> sb_Lines (NewScrollbackBuffer c) = []"
  by (simp add: NewScrollbackBuffer_def Let_def sb_Cap_def MaxScrollbackCap_def sb_Lines_def)

lemma lines_kept: "0 < c \<Longrightarrow> c \<le> 100 \<Longrightarrow> sb_Lines (foldl sb_Append (NewScrollbackBuffer c) ls) = keep_last (nat c) ls"
  using sb.append_all [OF sb_inv_New, of c ls] cap_small [of c] by simp

lemma lines_one: "sb_Lines (sb_Append (NewScrollbackBuffer 100) x) = [x]"
  using lines_kept [of 100 "[x]"] by (simp add: keep_last_def)

lemma len_lines: "sb_Len b = length (sb_Lines b)"
  by (simp add: sb_Len_def sb_Lines_map)

lemma pass_Scrollback: "ck_Passed checkScrollbackOverflow"
proof -
  have five: "[0..<5] = [0, 1, 2, 3, 4]" by code_simp
  have "foldl (\<lambda>b i. sb_Append b (''line'' @ show_nat i)) (NewScrollbackBuffer 3) [0..<5]
      = foldl sb_Append (NewScrollbackBuffer 3) [''line0'', ''line1'', ''line2'', ''line3'', ''line4'']"
    unfolding five by (simp add: show_digit digits)
  moreover have "sb_Lines (foldl sb_Append (NewScrollbackBuffer 3) [''line0'', ''line1'', ''line2'', ''line3'', ''line4''])
      = [''line2'', ''line3'', ''line4'']"
    by (subst lines_kept) (simp_all add: keep_last_def)
  ultimately show ?thesis
    by (simp only: checkScrollbackOverflow_def Let_def) (simp add: passed_def)
qed

lemma pass_Session: "checkSessionManager = Some (passed ''Session manager'')"
  by code_simp

lemma plain_items: "list_all (\<lambda>l. CHR '':'' \<notin> set l \<and> LF \<notin> set l \<and> CR \<notin> set l \<and> length l < 65536) ls \<Longrightarrow> list_all item_ok (map Plain ls)"
  by (auto simp: list_all_iff item_ok_def Parse_no_colon intro!: dropCR_id dest: last_in_set)

lemma check_pipeline_fields [simp]:
  "pl_filters (check_pipeline n c) = []" "\<not> pl_TimestampEnabled (check_pipeline n c)" "pl_sinks (check_pipeline n c) = []"
  "pl_scrollback (check_pipeline n c) = NewScrollbackBuffer 100"
  by (simp_all add: check_pipeline_def pl_New_def)

lemma pass_Relay: "ck_Passed (checkPipelineRelay (\<lambda>_. False) ctxErr)"
proof -
  have "list_all item_ok (map Plain [''line1'', ''line2'', ''line3''])" by (rule plain_items) simp
  from Run_items [OF this, of "AddSink () (check_pipeline ''selftest-relay'' 0)"] show ?thesis
    by (simp add: checkPipelineRelay_def check_run_def AddSink_def List.map_filter_simps passed_def)
qed

lemma pass_Base64: "ck_Passed (checkBase64Decode (\<lambda>_. False) ctxErr)"
proof -
  have "list_all item_ok [Binary ''hello'']" using binary_ok [of "''hello''"] by simp
  from Run_items [OF this, of "check_pipeline ''selftest-b64'' 0"] show ?thesis
    by (simp add: checkBase64Decode_def check_run_def lines_one passed_def)
qed

lemma pass_Control: "ck_Passed (checkControlSequence (\<lambda>_. False) ctxErr)"
proof -
  let ?p = "check_pipeline ''selftest-ctrl'' 8"
  let ?kv = "\<lparr>kv_data = [(Key ''selftest'', ''ok'')], kv_totalBytes = 2\<rparr>"
  have scan: "scan_lines (''=:selftest=ok'' @ LF # ''normal line'' @ [LF]) = ([''=:selftest=ok'', ''normal line''], False)"
    using scan_lines_step [of "''=:selftest=ok''" "''normal line'' @ [LF]"] scan_lines_one [of "''normal line''"]
    by (simp add: MaxScanTokenSize_def dropCR_def)
  have plain: "list_all kv_plain [(''selftest'', ''ok'')]"
    by (simp add: kv_plain_def TrimSpace_graph is_graph_def)
  have "Parse ''=:selftest=ok'' = Some (mk_seq KindKV ''selftest=ok'')" using Parse_kv [of "''selftest=ok''"] by simp
  moreover have "KVPairs (mk_seq KindKV ''selftest=ok'') = Inr [(''selftest'', ''ok'')]"
    using KVPairs_plain [OF plain] by (simp add: kv_payload_def)
  ultimately have first: "processLine no_filters '''' ''=:selftest=ok'' ?p kv_New = (?p, ?kv, [], None)"
    by (simp add: processLine_def IsVerbatim_def applyKVSequence_def kv_Set_def kv_New_def ids_pass
          Let_def ValueMaxBytes_def StoreMaxBytes_def gm_put_def)
  have "item_ok (Plain ''normal line'')" using plain_items [of "[''normal line'']"] by simp
  from processLine_item [OF this, of ?p no_filters "''''" ?kv]
  have second: "processLine no_filters '''' ''normal line'' ?p ?kv =
      (?p\<lparr>pl_scrollback := sb_Append (NewScrollbackBuffer 100) ''normal line''\<rparr>, ?kv, [], None)"
    by simp
  show ?thesis
    using scan first second
    by (simp add: checkControlSequence_def check_run_def pl_Run_def own_step_def ids_pass key_or_zero_def kv_Get_def
        gm_get_def len_lines lines_one passed_def)
qed

lemma route_hello:
  "check_route (TargetID ''st-pane'') ''hello'' \<lparr>h_router = r, h_kv = kv_New, h_got = []\<rparr> =
     (\<lparr>h_router = rt_put_pipe (TargetID ''st-pane'') (p\<lparr>pl_scrollback := sb_Append (pl_scrollback p) ''hello''\<rparr>) r, h_kv = kv_New,
        h_got = [''st-pane:hello'']\<rparr>, None)"
  if "rt_Get (TargetID ''st-pane'') r = Some p" "pl_filters p = []" "\<not> pl_TimestampEnabled p" "pl_sinks p = [()]"
    "pl_targetID p = TargetID ''st-pane''" for r p
proof -
  have "scan_lines (''hello'' @ [LF]) = ([''hello''], False)"
    using scan_lines_one [of "''hello''"] by (simp add: MaxScanTokenSize_def dropCR_def)
  moreover have "item_ok (Plain ''hello'')" using plain_items [of "[''hello'']"] by simp
  ultimately show ?thesis
    using that processLine_item [of "Plain ''hello''" p no_filters "''''" kv_New]
    by (simp add: check_route_def rt_Route_def rt_open_def pl_Run_def rt_line_def)
qed

lemma pass_Router: "ck_Passed checkRouterBasic"
proof -
  let ?t = "TargetID ''st-pane''"
  let ?r = "rt_New (Some ()) \<lparr>ro_AllowUnassigned = False, ro_FilterChainMax = 0, ro_DefaultScrollbackCap = 0\<rparr> :: (unit, unit, unit) router"
  let ?p = "newPipeline ?t 100 ?r"
  let ?q = "?p\<lparr>pl_scrollback := sb_Append (pl_scrollback ?p) ''hello''\<rparr>"
  obtain r where reg: "Register ?t 100 ?r = Inr r" and r: "rt_Get ?t r = Some ?p" "\<And>u. u \<noteq> ?t \<Longrightarrow> rt_Get u r = None"
      "rt_opts r = rt_opts ?r"
    by (simp add: Register_def rt_New_def Let_def gm_get_put rt_Get_def)
  have p: "pl_filters ?p = []" "\<not> pl_TimestampEnabled ?p" "pl_sinks ?p = [()]" "pl_targetID ?p = ?t"
    by (simp_all add: newPipeline_def rt_New_def Let_def AddSink_def pl_New_def)
  obtain e where "snd (check_route (TargetID ''missing'') ''x'' \<lparr>h_router = rt_put_pipe ?t ?q r, h_kv = kv_New, h_got = [''st-pane:hello'']\<rparr>) = Some e"
    using r by (simp add: check_route_def rt_Route_def rt_open_def rt_put_pipe_def rt_Get_def gm_get_put rt_New_def Let_def)
  with reg route_hello [OF r(1) p] show ?thesis
    by (simp add: checkRouterBasic_def Let_def target_or_zero_def ids_pass passed_def)
qed

lemma pass_Auth:
  assumes "H (hex_encode raw) \<noteq> hex_encode raw" and "take 16 (H ''wrongtoken'') \<noteq> take 16 (H (hex_encode raw))"
    and "clock 1 \<le> clock 0 + 3600 * 1000000000"
  shows "ck_Passed (checkAuthToken H (Inr raw) clock)"
  using assms
  by (simp add: checkAuthToken_def auth_Create_def Let_def auth_Verify_def gm_get_put gm_get_del IsExpired_def auth_Revoke_def
      NewTokenStore_def passed_def)

lemma pass_Ping:
  fixes ev :: "'p env"
  shows "ck_Passed (checkServerPing ev req None)"
proof -
  have "(''GET /api/v1/ping'', rateLimitMiddleware handlePing) \<in> set (routes cfg :: (string \<times> 'p handler) list)" for cfg
    by (simp add: routes_def unauth_routes_def)
  then have "map_of (routes cfg :: (string \<times> 'p handler) list) ''GET /api/v1/ping'' = Some (rateLimitMiddleware handlePing)" for cfg
    by (rule map_of_is_SomeI [OF routes_distinct])
  then show ?thesis
    by (simp add: checkServerPing_def sv_serve_def rateLimitMiddleware_def handlePing_def passed_def Allow_def sv_New_def
        NewRateLimiter_def gm_get_def Let_def)
qed

definition selftest_layout :: layout where
  "selftest_layout =
     \<lparr>l_SchemaVersion = 1, l_Name = ''selftest'',
      l_Windows = [\<lparr>ws_Name = ''build'', ws_Panes =
        [\<lparr>ps_TargetID = ''stdout'', ps_Group = '''', ps_Split = '''', ps_Size = '''', ps_Private = False, ps_ScrollbackCap = 0\<rparr>,
         \<lparr>ps_TargetID = ''stderr'', ps_Group = '''', ps_Split = ''h'', ps_Size = ''30%'', ps_Private = False, ps_ScrollbackCap = 0\<rparr>]\<rparr>]\<rparr>"

lemma pass_Layout: "unmarshal selftest_yaml = Inr selftest_layout \<Longrightarrow> ck_Passed (checkLayoutParse unmarshal)"
proof -
  assume u: "unmarshal selftest_yaml = Inr selftest_layout"
  have "Layout_Validate selftest_layout = None" by code_simp
  with u have "Layout_Parse unmarshal selftest_yaml = Inr selftest_layout" by (simp add: Layout_Parse_def)
  then show ?thesis by (simp add: checkLayoutParse_def selftest_layout_def passed_def)
qed

text \<open>
  The self test passes: when no deadline expires, the connection and the random source work, the
  YAML decoder reads the test document as it is written, the clock does not advance by an hour during
  the test, and the hash neither fixes the fresh secret nor collides on it with the wrong one, all
  eleven checks pass, every printed line says so, and nothing panics.
\<close>

theorem selftest_passes:
  assumes "se_done se = (\<lambda>_. False)" and "se_conn se = None" and "se_entropy se = Inr raw"
    and "se_unmarshal se selftest_yaml = Inr selftest_layout" and "se_clock se 1 \<le> se_clock se 0 + 3600 * 1000000000"
    and "se_H se (hex_encode raw) \<noteq> hex_encode raw" and "take 16 (se_H se ''wrongtoken'') \<noteq> take 16 (se_H se (hex_encode raw))"
  shows "\<exists>r out. selftest_Run se = Some (r, out) \<and> st_Passed r \<and> length (st_Checks r) = 11
    \<and> out = map (\<lambda>c. (''PASS'', ck_Name c, None)) (st_Checks r)"
proof -
  have "ck_Passed (passed n)" for n by (simp add: passed_def)
  then show ?thesis
    using assms pass_TargetID pass_KVStore pass_Control pass_Relay pass_Base64 pass_Scrollback pass_Layout [of "se_unmarshal se"]
      pass_Router pass_Auth [of "se_H se" raw "se_clock se"] pass_Ping [of "se_env se" "se_req se"]
    by (simp add: selftest_Run_def pass_Session Let_def check_line_def)
qed

theorem selftest_passes_witness:
  "\<exists>r out. selftest_Run
      \<lparr>se_done = (\<lambda>_. False), se_ctxErr = Extern ''ctx'',
       se_unmarshal = (\<lambda>d. if d = selftest_yaml then Inr selftest_layout else Inl (Extern ''yaml'')),
       se_H = pad_hash, se_entropy = Inr ''AB'', se_clock = int, se_env = env_example,
       se_req = request_of ''GET /api/v1/ping'' [] [] JNull, se_conn = None\<rparr> = Some (r, out) \<and> st_Passed r"
proof -
  let ?se = "\<lparr>se_done = (\<lambda>_. False), se_ctxErr = Extern ''ctx'',
       se_unmarshal = (\<lambda>d. if d = selftest_yaml then Inr selftest_layout else Inl (Extern ''yaml'')),
       se_H = pad_hash, se_entropy = Inr ''AB'', se_clock = int, se_env = env_example,
       se_req = request_of ''GET /api/v1/ping'' [] [] JNull, se_conn = None\<rparr>"
  have "pad_hash (hex_encode ''AB'') \<noteq> hex_encode ''AB''" "take 16 (pad_hash ''wrongtoken'') \<noteq> take 16 (pad_hash (hex_encode ''AB''))"
    by code_simp+
  with selftest_passes [of ?se "''AB''"] show ?thesis by auto
qed

end
