(* ===== verification/Cli_Commands.thy ===== *)
theory Cli_Commands
  imports Cli_Client Selftest
begin

text \<open>
  The other commands of \<open>cmd/rdw/commands.go\<close> that talk to the REST interface: tokens, groups, exports, the
  focus cycle, formatters and the status reports; and the self test.
\<close>

section \<open>Tokens\<close>

definition comma_list :: "string \<Rightarrow> string list" where
  "comma_list s = (if s = [] then [] else split_on (CHR '','') s)"

definition jstrings :: "'p client_env \<Rightarrow> string list \<Rightarrow> jval" where
  "jstrings ce xs = JArr (map (jstr ce) xs)"

text \<open>\<open>secs\<close> is \<open>int64(expiry.Seconds())\<close>.\<close>

definition token_body :: "'p client_env \<Rightarrow> int \<Rightarrow> string \<Rightarrow> string \<Rightarrow> jval" where
  "token_body ce secs panesStr windowsStr =
     JObj ([(''expiry_seconds'', JNum secs)]
       @ (if comma_list panesStr \<noteq> [] then [(''panes'', jstrings ce (comma_list panesStr))] else [])
       @ (if comma_list windowsStr \<noteq> [] then [(''windows'', jstrings ce (comma_list windowsStr))] else []))"

definition show_token :: "nat \<times> body \<Rightarrow> cli_output result" where
  "show_token resp =
     (if fst resp \<noteq> 201 then checked 201 [] resp
      else bindr (decodeBody (snd resp)) (\<lambda>result.
        Inr ([(''token: %s'', [OVal (map_of result ''token'')]), (''id:    %s'', [OVal (map_of result ''id'')])]
          @ (case as_time (map_of result ''expires_at'') of None \<Rightarrow> [] | Some t \<Rightarrow> [(''expires: %s'', [t])])
          @ [(''This token will not be shown again.'', [])])))"

definition tokenCreateCmd :: "'p client_env \<Rightarrow> int \<Rightarrow> int \<Rightarrow> string \<Rightarrow> string \<Rightarrow> ('p, cli_output) io" where
  "tokenCreateCmd ce port secs panesStr windowsStr =
     request ce port ''POST'' ''/api/v1/tokens'' (Some (token_body ce secs panesStr windowsStr)) show_token"

definition tokenRevokeCmd :: "'p client_env \<Rightarrow> int \<Rightarrow> string \<Rightarrow> ('p, cli_output) io" where
  "tokenRevokeCmd ce port i =
     request ce port ''DELETE'' (''/api/v1/tokens/'' @ i) None (checked 204 [(''token %q revoked'', [OStr i])])"

definition scope_str :: "jval option \<Rightarrow> string" where
  "scope_str v = (let s = join_with '','' (ifaceSliceStr v) in if s = [] then ''all'' else s)"

definition token_row :: "jval \<Rightarrow> (string \<times> out_arg list) result" where
  "token_row v = bindr (must_obj v) (\<lambda>tok.
     Inr (tab [''%s'', ''%s'', ''%s'', ''%s''],
       [OStr (as_str (map_of tok ''id'')),
        (case as_time (map_of tok ''expires_at'') of None \<Rightarrow> OStr ''never'' | Some t \<Rightarrow> t),
        OStr (scope_str (map_of tok ''panes'')), OStr (scope_str (map_of tok ''windows''))]))"

definition show_tokens :: "(string \<times> jval) list \<Rightarrow> cli_output result" where
  "show_tokens body =
     (let tokens = as_arr (map_of body ''tokens'') in
      if tokens = [] then Inr [(''no active tokens'', [])]
      else bindr (mapr token_row tokens) (\<lambda>rows. Inr ((tab [''ID'', ''EXPIRES'', ''PANES'', ''WINDOWS''], []) # rows)))"

definition tokenListCmd :: "'p client_env \<Rightarrow> int \<Rightarrow> ('p, cli_output) io" where
  "tokenListCmd ce port = request ce port ''GET'' ''/api/v1/tokens'' None (decoded show_tokens)"

section \<open>Groups and exports\<close>

definition groupAction :: "string \<Rightarrow> 'p client_env \<Rightarrow> int \<Rightarrow> string \<Rightarrow> ('p, cli_output) io" where
  "groupAction action ce port grp =
     request ce port ''POST'' (''/api/v1/groups/'' @ grp @ ''/'' @ action) None (checked 204 [])"

definition savePaneCmd :: "'p client_env \<Rightarrow> int \<Rightarrow> string \<Rightarrow> string \<Rightarrow> ('p, cli_output) io" where
  "savePaneCmd ce port i outDir =
     request ce port ''POST'' ''/api/v1/export/pane''
       (Some (JObj [(''out_dir'', jstr ce outDir), (''target_id'', jstr ce i)])) (checked 204 [])"

definition saveWindowCmd :: "'p client_env \<Rightarrow> int \<Rightarrow> string \<Rightarrow> string \<Rightarrow> ('p, cli_output) io" where
  "saveWindowCmd ce port name outDir =
     request ce port ''POST'' ''/api/v1/export/window''
       (Some (JObj [(''name'', jstr ce name), (''out_dir'', jstr ce outDir)])) (checked 204 [])"

definition saveAllCmd :: "'p client_env \<Rightarrow> int \<Rightarrow> string \<Rightarrow> ('p, cli_output) io" where
  "saveAllCmd ce port outDir =
     request ce port ''POST'' ''/api/v1/export/all'' (arg ce ''out_dir'' outDir) (checked 204 [])"

section \<open>The focus cycle\<close>

definition cycleStartCmd :: "'p client_env \<Rightarrow> int \<Rightarrow> int \<Rightarrow> string list \<Rightarrow> ('p, cli_output) io" where
  "cycleStartCmd ce port interval windows =
     request ce port ''POST'' ''/api/v1/cycle/start''
       (Some (JObj [(''interval_ms'', JNum interval), (''windows'', jstrings ce windows)])) (checked 200 [])"

definition cycleStopCmd :: "'p client_env \<Rightarrow> int \<Rightarrow> ('p, cli_output) io" where
  "cycleStopCmd ce port = request ce port ''POST'' ''/api/v1/cycle/stop'' None (checked 204 [])"

definition show_cycle :: "(string \<times> jval) list \<Rightarrow> cli_output result" where
  "show_cycle body =
     (if as_bool (map_of body ''running'') then
        Inr [(''running  windows=%v  interval=%dms'',
              map OStr (ifaceSliceStr (map_of body ''windows''))
              @ [OInt (case map_of body ''interval_ms'' of Some (JNum n) \<Rightarrow> n | _ \<Rightarrow> 0)])]
      else Inr [(''not running'', [])])"

definition cycleStatusCmd :: "'p client_env \<Rightarrow> int \<Rightarrow> ('p, cli_output) io" where
  "cycleStatusCmd ce port = request ce port ''GET'' ''/api/v1/cycle/status'' None (decoded show_cycle)"

section \<open>Formatters\<close>

text \<open>The body is decoded into \<open>map[string][]string\<close>.\<close>

definition show_formatters :: "(string \<times> jval) list \<Rightarrow> cli_output result" where
  "show_formatters fs =
     bindr (mapr (\<lambda>(k, v). bindr (dec_list dec_str v) (\<lambda>xs. Inr (k, xs))) fs) (\<lambda>body.
       Inr (map (\<lambda>n. (''%s'', [OStr n])) (case map_of body ''formatters'' of None \<Rightarrow> [] | Some ns \<Rightarrow> ns)))"

definition formatterListCmd :: "'p client_env \<Rightarrow> int \<Rightarrow> ('p, cli_output) io" where
  "formatterListCmd ce port = request ce port ''GET'' ''/api/v1/formatters'' None (decoded show_formatters)"

definition formatterRegisterCmd :: "'p client_env \<Rightarrow> int \<Rightarrow> string \<Rightarrow> string \<Rightarrow> ('p, cli_output) io" where
  "formatterRegisterCmd ce port name cmd =
     request ce port ''POST'' ''/api/v1/formatters''
       (Some (JObj [(''cmd'', jstr ce cmd), (''name'', jstr ce name)])) (checked 204 [])"

definition formatterUnregisterCmd :: "'p client_env \<Rightarrow> int \<Rightarrow> string \<Rightarrow> ('p, cli_output) io" where
  "formatterUnregisterCmd ce port name =
     request ce port ''DELETE'' (''/api/v1/formatters/'' @ name) None (checked 204 [])"

section \<open>Status\<close>

definition listed :: "string \<Rightarrow> jval option \<Rightarrow> bool \<Rightarrow> cli_output" where
  "listed label v show_empty =
     (case v of
        Some (JArr xs) \<Rightarrow>
          if xs = [] \<and> \<not> show_empty then []
          else (tab [label, ''%d''], [OInt (int (length xs))]) # map (\<lambda>x. (tab [''  -'', ''%v''], [OVal (Some x)])) xs
      | _ \<Rightarrow> [])"

definition pane_row :: "string \<times> jval \<Rightarrow> string \<times> out_arg list" where
  "pane_row p =
     (let pm = as_obj (Some (snd p)); title = as_str (map_of pm ''title''); fmtName = as_str (map_of pm ''formatter'');
          sbLen = OVal (map_of pm ''scrollback_len'')
      in if title \<noteq> [] then (tab [''  %s'', ''[%s] scrollback=%v formatter=%s''], [OStr (fst p), OStr title, sbLen, OStr fmtName])
         else (tab [''  %s'', ''scrollback=%v formatter=%s''], [OStr (fst p), sbLen, OStr fmtName]))"

text \<open>The panes are printed in the order of the map, which is that of the list here.\<close>

definition printStatus :: "(string \<times> jval) list \<Rightarrow> cli_output" where
  "printStatus body =
     [(tab [''port'', ''%v''], [OVal (map_of body ''port'')]),
      (tab [''connections'', ''%v''], [OVal (map_of body ''connections'')]),
      (tab [''kv_entries'', ''%v''], [OVal (map_of body ''kv_len'')])]
     @ (case map_of body ''cycle'' of
          Some (JObj cycle) \<Rightarrow>
            (tab [''cycle.running'', ''%v''], [OVal (map_of cycle ''running'')])
            # (if as_bool (map_of cycle ''running'') then
                 [(tab [''cycle.windows'', ''%v''], [OVal (map_of cycle ''windows'')]),
                  (tab [''cycle.interval_ms'', ''%v''], [OVal (map_of cycle ''interval_ms'')])]
               else [])
        | _ \<Rightarrow> [])
     @ listed ''saved_layouts'' (map_of body ''layouts'') True
     @ listed ''formatters'' (map_of body ''formatters'') True
     @ listed ''highlight_profiles'' (map_of body ''highlights'') False
     @ (case map_of body ''panes'' of
          Some (JObj panes) \<Rightarrow> (tab [''panes'', ''%d''], [OInt (int (length panes))]) # map pane_row panes
        | _ \<Rightarrow> [])"

definition printStatusPane :: "(string \<times> jval) list \<Rightarrow> cli_output" where
  "printStatusPane body =
     map (\<lambda>k. (tab [k, ''%v''], [OVal (map_of body k)]))
       [''target_id'', ''title'', ''formatter'', ''saved_formatter'', ''scrollback_len'', ''scrollback_cap'', ''last_line'']
     @ (case map_of body ''bookmarks'' of
          Some (JArr bms) \<Rightarrow>
            (tab [''bookmarks'', ''%d''], [OInt (int (length bms))])
            # map (\<lambda>b. let bm = as_obj (Some b) in
                 (tab [''  %v'', ''line=%v''], [OVal (map_of bm ''name''), OVal (map_of bm ''line_index'')])) bms
        | _ \<Rightarrow> [])"

definition runStatus :: "'p client_env \<Rightarrow> int \<Rightarrow> bool \<Rightarrow> ('p, cli_output) io" where
  "runStatus ce port asJSON =
     request ce port ''GET'' ''/api/v1/status'' None
       (decoded (\<lambda>body. Inr (if asJSON then [(''%v'', [OVal (Some (JObj body))])] else printStatus body)))"

definition runStatusPane :: "'p client_env \<Rightarrow> int \<Rightarrow> bool \<Rightarrow> string \<Rightarrow> ('p, cli_output) io" where
  "runStatusPane ce port asJSON pane =
     request ce port ''GET'' (''/api/v1/status/panes/'' @ pane) None
       (decoded (\<lambda>body. Inr (if asJSON then [(''%v'', [OVal (Some (JObj body))])] else printStatusPane body)))"

section \<open>The self test\<close>

definition runSelftest :: "'p selftest_env \<Rightarrow> go_err option option" where
  "runSelftest se =
     (case selftest_Run se of
        None \<Rightarrow> None
      | Some (r, out) \<Rightarrow> Some (if \<not> st_Passed r then Some (Errorf ''selftest: one or more checks failed'' []) else None))"

end
