(* ===== verification/Cli_Locked.thy ===== *)
theory Cli_Locked
  imports Cli_Commands
begin

text \<open>
  The command line against a server that asks for tokens. The client never has one, so this says what
  every command does against a server with the default configuration.
\<close>

section \<open>The commands\<close>

datatype cli_cmd =
    WindowCreate string | WindowClose string | WindowRename string string | WindowFocus string | WindowList
  | PaneSplit string bool string string string | PaneResize string string string | PaneZoom string
  | PaneSwap string string | PaneRename string string | PaneClose string
  | LayoutSave string | LayoutApply string | LayoutList
  | KvSet string string | KvGet string | KvDelete string
  | TokenCreate int string string | TokenRevoke string | TokenList
  | GroupAct string string | SavePane string string | SaveWindow string string | SaveAll string
  | CycleStart int "string list" | CycleStop | CycleStatus
  | FormatterList | FormatterRegister string string | FormatterUnregister string
  | Status bool | StatusPane bool string

fun cli_run :: "'p client_env \<Rightarrow> int \<Rightarrow> cli_cmd \<Rightarrow> ('p, cli_output) io" where
  "cli_run ce port (WindowCreate n) = windowCreateCmd ce port n"
| "cli_run ce port (WindowClose n) = windowCloseCmd ce port n"
| "cli_run ce port (WindowRename a b) = windowRenameCmd ce port a b"
| "cli_run ce port (WindowFocus n) = windowFocusCmd ce port n"
| "cli_run ce port WindowList = windowListCmd ce port"
| "cli_run ce port (PaneSplit g p a d n) = paneSplitCmd ce port g p a d n"
| "cli_run ce port (PaneResize a d n) = paneResizeCmd ce port a d n"
| "cli_run ce port (PaneZoom a) = paneZoomCmd ce port a"
| "cli_run ce port (PaneSwap a b) = paneSwapCmd ce port a b"
| "cli_run ce port (PaneRename a b) = paneRenameCmd ce port a b"
| "cli_run ce port (PaneClose a) = paneCloseCmd ce port a"
| "cli_run ce port (LayoutSave n) = layoutSaveCmd ce port n"
| "cli_run ce port (LayoutApply n) = layoutApplyCmd ce port n"
| "cli_run ce port LayoutList = layoutListCmd ce port"
| "cli_run ce port (KvSet k v) = kvSetCmd ce port k v"
| "cli_run ce port (KvGet k) = kvGetCmd ce port k"
| "cli_run ce port (KvDelete k) = kvDeleteCmd ce port k"
| "cli_run ce port (TokenCreate e a b) = tokenCreateCmd ce port e a b"
| "cli_run ce port (TokenRevoke i) = tokenRevokeCmd ce port i"
| "cli_run ce port TokenList = tokenListCmd ce port"
| "cli_run ce port (GroupAct a g) = groupAction a ce port g"
| "cli_run ce port (SavePane i d) = savePaneCmd ce port i d"
| "cli_run ce port (SaveWindow n d) = saveWindowCmd ce port n d"
| "cli_run ce port (SaveAll d) = saveAllCmd ce port d"
| "cli_run ce port (CycleStart i ws) = cycleStartCmd ce port i ws"
| "cli_run ce port CycleStop = cycleStopCmd ce port"
| "cli_run ce port CycleStatus = cycleStatusCmd ce port"
| "cli_run ce port FormatterList = formatterListCmd ce port"
| "cli_run ce port (FormatterRegister n c) = formatterRegisterCmd ce port n c"
| "cli_run ce port (FormatterUnregister n) = formatterUnregisterCmd ce port n"
| "cli_run ce port (Status j) = runStatus ce port j"
| "cli_run ce port (StatusPane j p) = runStatusPane ce port j p"

fun only_reads :: "cli_cmd \<Rightarrow> bool" where
  "only_reads WindowList = True"
| "only_reads LayoutList = True"
| "only_reads (KvGet k) = True"
| "only_reads TokenList = True"
| "only_reads CycleStatus = True"
| "only_reads FormatterList = True"
| "only_reads (Status j) = True"
| "only_reads (StatusPane j p) = True"
| "only_reads _ = False"

section \<open>What holds of every request of the client\<close>

text \<open>A relation between worlds that every request without a token respects is respected by every command.\<close>

locale client_relation =
  fixes R :: "'p world \<Rightarrow> 'p world \<Rightarrow> bool" and ce :: "'p client_env"
  assumes here: "R w w"
    and chain: "R w w' \<Longrightarrow> R w' w'' \<Longrightarrow> R w w''"
    and call: "R w (fst (http_call ce port meth path [] v w))"
begin

definition safe :: "('p, 'a) io \<Rightarrow> bool" where
  "safe f \<longleftrightarrow> (\<forall>w. R w (fst (f w)))"

lemma safeD: "safe f \<Longrightarrow> R w (fst (f w))"
  by (simp add: safe_def)

lemma safe_pure: "safe (pure_io r)"
  by (simp add: safe_def pure_io_def here)

lemma safe_then:
  assumes "safe f" and "\<And>w w' x. f w = (w', Inr x) \<Longrightarrow> safe (g x)"
  shows "safe (then_io f g)"
  unfolding safe_def
proof
  fix w
  obtain w' r where f: "f w = (w', r)" by fastforce
  with assms(1) have "R w w'" by (metis safeD fst_conv)
  then show "R w (fst (then_io f g w))"
    using f chain safeD [OF assms(2) [of w w']] by (cases r) (auto simp: then_io_def)
qed

lemma safe_resolve: "safe (resolve_port ce port)"
  using call by (auto simp: safe_def resolve_port_def split: prod.split) (metis fst_conv)

lemma safe_client: "safe (newRestClient ce port)"
  unfolding newRestClient_def by (rule safe_then [OF safe_resolve safe_pure])

lemma client_token: "newRestClient ce port w = (w', Inr rc) \<Longrightarrow> rc_token rc = []"
  by (auto simp: newRestClient_def then_io_def pure_io_def split: prod.splits sum.splits)

lemma safe_do: "rc_token rc = [] \<Longrightarrow> safe (rest_do ce rc meth path v)"
  unfolding safe_def rest_do_def using call [of _ "rc_port rc" meth path v] here
  by (auto split: sum.split prod.split) (metis fst_conv)+

lemma safe_request: "safe (request ce port meth path v look)"
  unfolding request_def
  by (rule safe_then [OF safe_client]) (auto intro!: safe_then safe_do safe_pure dest: client_token)

lemma safe_upload: "rc_token rc = [] \<Longrightarrow> safe (upload_layout ce rc ref l)"
  unfolding upload_layout_def Let_def by (intro safe_then safe_do safe_pure)

lemma safe_apply: "rc_token rc = [] \<Longrightarrow> safe (applyLayoutRef ce rc ref)"
  unfolding safe_def
proof
  fix w
  assume t: "rc_token rc = []"
  obtain w1 r where first: "rest_do ce rc ''POST'' (''/api/v1/layouts/'' @ ref @ ''/apply'') None w = (w1, r)" by fastforce
  then have "R w w1" using safeD [OF safe_do [OF t]] by (metis fst_conv)
  then show "R w (fst (applyLayoutRef ce rc ref w))"
    unfolding applyLayoutRef_def first prod.case
    by (auto split: sum.split intro: chain [OF _ safeD [OF safe_upload [OF t]]])
qed

lemma safe_command: "safe (cli_run ce port c)"
  by (cases c)
    (auto simp: windowCreateCmd_def windowCloseCmd_def windowRenameCmd_def windowFocusCmd_def windowListCmd_def paneSplitCmd_def
      paneResizeCmd_def paneZoomCmd_def paneSwapCmd_def paneRenameCmd_def paneCloseCmd_def layoutSaveCmd_def layoutApplyCmd_def
      layoutListCmd_def kvSetCmd_def kvGetCmd_def kvDeleteCmd_def tokenCreateCmd_def tokenRevokeCmd_def tokenListCmd_def
      groupAction_def savePaneCmd_def saveWindowCmd_def saveAllCmd_def cycleStartCmd_def cycleStopCmd_def cycleStatusCmd_def
      formatterListCmd_def formatterRegisterCmd_def formatterUnregisterCmd_def runStatus_def runStatusPane_def
      intro!: safe_request safe_pure safe_then [OF safe_client] safe_apply dest: client_token split: sum.split)

end

section \<open>A server that asks for tokens\<close>

definition locked :: "'p world \<Rightarrow> bool" where
  "locked w \<longleftrightarrow> (\<forall>p s. w_servers w p = Some s \<longrightarrow> \<not> ac_NoAuth (cg_Auth (sv_cfg s)))"

text \<open>Nothing but the counters of the rate limiter differs.\<close>

definition buckets_only :: "'p world \<Rightarrow> 'p world \<Rightarrow> bool" where
  "buckets_only w w' \<longleftrightarrow> w_registry w' = w_registry w
     \<and> (\<forall>p. case w_servers w p of None \<Rightarrow> w_servers w' p = None
             | Some s \<Rightarrow> (\<exists>rl. w_servers w' p = Some (s\<lparr>sv_rl := rl\<rparr>)))"

lemma route_cases:
  assumes "map_of (routes cfg) p = Some (h :: 'p handler)"
  obtains (unauth) g where "(p, g) \<in> set unauth_routes" "h = rateLimitMiddleware g"
    | (authed) g where "(p, g) \<in> set authed_routes" "h = authMiddleware (ac_NoAuth (cg_Auth cfg)) g"
    | (admin) g where "(p, g) \<in> set admin_routes" "h = guard_admin cfg g"
    | (bare) "(p, h) \<in> set bare_routes"
  using map_of_SomeD [OF assms] by (auto simp: routes_def)

text \<open>Such a server never answers a request without a token with 201 or 204.\<close>

definition refused :: "'p server \<Rightarrow> 'p server \<times> response \<Rightarrow> bool" where
  "refused s out \<longleftrightarrow> (\<exists>rl. fst out = s\<lparr>sv_rl := rl\<rparr>)
     \<and> (\<forall>text_of. case reply_of text_of (snd out) of Inl _ \<Rightarrow> True | Inr (code, b) \<Rightarrow> code \<noteq> 201 \<and> code \<noteq> 204)"

lemma refused_same: "(\<And>text_of. case reply_of text_of r of Inl _ \<Rightarrow> True | Inr (code, b) \<Rightarrow> code \<noteq> 201 \<and> code \<noteq> 204) \<Longrightarrow> refused s (s, r)"
  unfolding refused_def by (auto intro!: exI [of _ "sv_rl s"])

lemma unauth_refused:
  assumes "(p, g) \<in> set unauth_routes"
  shows "refused s (rateLimitMiddleware g ev r s)"
proof -
  have "\<exists>v. g ev r u = (u, JsonOk v)" for u
    using assms by (auto simp: unauth_routes_def handlePing_def handleBindings_def handleFormatters_def Let_def)
  then obtain v where g: "\<And>u. g ev r u = (u, JsonOk (v u))" by metis
  obtain rl allowed where a: "Allow (ev_now ev) (remote_host ev r) (sv_rl s) = (rl, allowed)" by fastforce
  have "refused s (s\<lparr>sv_rl := x\<rparr>, JsonOk y)" "refused s (s\<lparr>sv_rl := x\<rparr>, ApiError 429 m e)" "refused s (s, JsonOk y)" for x y m e
    by (auto simp: refused_def intro: exI [of _ "sv_rl s"])
  then show ?thesis by (simp add: rateLimitMiddleware_def a g)
qed

lemma bare_refused:
  assumes "(p, h) \<in> set bare_routes" and "\<not> ac_NoAuth (cg_Auth (sv_cfg s))" and "rq_auth r = []"
  shows "refused s (h ev r s)"
  using assms by (auto simp: bare_routes_def handleWS_def handleAdmin_def handleAdminPage_def handleFrontend_def Let_def intro!: refused_same)

lemma serve_refused:
  assumes "\<not> ac_NoAuth (cg_Auth (sv_cfg s))" and "rq_auth r = []"
  shows "refused s (sv_serve ev r s)"
proof (cases "map_of (routes (sv_cfg s) :: (string \<times> 'a handler) list) (rq_pattern r)")
  case None
  then show ?thesis by (simp add: sv_serve_def refused_same)
next
  case (Some h)
  then show ?thesis
  proof (cases rule: route_cases)
    case (unauth g)
    with Some unauth_refused show ?thesis by (auto simp: sv_serve_def)
  next
    case (authed g)
    with Some assms show ?thesis by (auto simp: sv_serve_def authMiddleware_def intro!: refused_same)
  next
    case (admin g)
    with Some assms show ?thesis
      by (auto simp: sv_serve_def guard_admin_def Let_def loopbackOnly_def authMiddleware_def intro!: refused_same)
  next
    case bare
    with Some assms bare_refused show ?thesis by (auto simp: sv_serve_def)
  qed
qed

definition no_success :: "(nat \<times> body) result \<Rightarrow> bool" where
  "no_success r \<longleftrightarrow> (case r of Inl _ \<Rightarrow> True | Inr (code, b) \<Rightarrow> code \<noteq> 201 \<and> code \<noteq> 204)"

lemma segs_refused:
  assumes "\<not> ac_NoAuth (cg_Auth (sv_cfg s))" and "serve_segs ce ev m segs q [] v s = (s', r)"
  shows "(\<exists>rl. s' = s\<lparr>sv_rl := rl\<rparr>) \<and> no_success r"
proof -
  obtain p binds where m: "mux m segs = (p, binds)" by fastforce
  let ?req = "\<lparr>rq_pattern = p, rq_path = binds, rq_url_path = ''/'' @ join_with ''/'' segs, rq_query = query_pairs q, rq_auth = [],
      rq_remote = ce_remote ce, rq_body = (case v of None \<Rightarrow> Inl (Extern ''EOF'') | Some b \<Rightarrow> Inr b), rq_protos = [], rq_upgrade = False\<rparr>"
  obtain s1 resp where serve: "sv_serve ev ?req s = (s1, resp)" by fastforce
  then have "s' = s1" "r = reply_of (ce_text ce) resp" using assms(2) m by (auto simp: serve_segs_def)
  moreover have "refused s (s1, resp)" using serve_refused [OF assms(1), of ?req ev] serve by simp
  ultimately show ?thesis by (simp add: refused_def no_success_def)
qed

lemma http_refused:
  assumes "\<not> ac_NoAuth (cg_Auth (sv_cfg s))" and "http_serve ce ev m target [] v s = (s', r)"
  shows "(\<exists>rl. s' = s\<lparr>sv_rl := rl\<rparr>) \<and> no_success r"
proof -
  obtain path query where t: "target = (path, query)" by fastforce
  show ?thesis
  proof (cases "CHR '' '' \<in> set query")
    case True
    with assms(2) t have "s' = s" "r = Inr (400, TextBody ''400 Bad Request'')" by (auto simp: http_serve_def Let_def)
    then show ?thesis by (auto simp: no_success_def intro!: exI [of _ "sv_rl s"])
  next
    case False
    with assms(2) t show ?thesis
      by (auto simp: http_serve_def Let_def dest: segs_refused [OF assms(1)] split: if_splits)
  qed
qed

lemma rl_same: "\<exists>rl. s = s\<lparr>sv_rl := rl\<rparr>" for s :: "'p server"
  by (rule exI [of _ "sv_rl s"]) simp

lemma buckets_same: "w_registry w' = w_registry w \<Longrightarrow> w_servers w' = w_servers w \<Longrightarrow> buckets_only w w'"
  by (auto simp: buckets_only_def rl_same split: option.split)

lemma call_locked:
  assumes "locked w" and "http_call ce port m path [] v w = (w', r)"
  shows "locked w' \<and> buckets_only w w' \<and> no_success r"
proof -
  have same: "buckets_only w (w\<lparr>w_calls := n\<rparr>)" "locked (w\<lparr>w_calls := n\<rparr>)" "no_success (Inl e)" "buckets_only w w" for n e
    using assms(1) by (simp_all add: buckets_same locked_def no_success_def)
  show ?thesis
  proof (cases "parse_target path")
    case (Inl e)
    with assms same show ?thesis by (auto simp: http_call_def)
  next
    case target: (Inr t)
    show ?thesis
    proof (cases "ce_conn ce (w_calls w) = None \<and> w_servers w port \<noteq> None")
      case False
      with assms(2) target same show ?thesis by (auto simp: http_call_def Let_def split: option.splits)
    next
      case True
      then obtain s where s: "w_servers w port = Some s" by blast
      obtain s' q where serve: "http_serve ce (ce_env ce (w_calls w)) m t [] v s = (s', q)" by fastforce
      have auth: "\<not> ac_NoAuth (cg_Auth (sv_cfg s))" using assms(1) s by (simp add: locked_def)
      from http_refused [OF auth serve] obtain rl where rl: "s' = s\<lparr>sv_rl := rl\<rparr>" and "no_success q" by blast
      moreover have "w' = w\<lparr>w_calls := w_calls w + 1, w_servers := (w_servers w)(port := Some s')\<rparr>" "r = q"
        using assms(2) target True s serve by (auto simp: http_call_def Let_def)
      ultimately show ?thesis using assms(1) s auth by (auto simp: locked_def buckets_only_def rl_same split: option.split)
    qed
  qed
qed

lemma buckets_chain: "buckets_only w w' \<Longrightarrow> buckets_only w' w'' \<Longrightarrow> buckets_only w w''"
  unfolding buckets_only_def
proof (elim conjE, intro conjI allI)
  fix p
  assume a: "\<forall>p. case w_servers w p of None \<Rightarrow> w_servers w' p = None | Some s \<Rightarrow> \<exists>rl. w_servers w' p = Some (s\<lparr>sv_rl := rl\<rparr>)"
    and b: "\<forall>p. case w_servers w' p of None \<Rightarrow> w_servers w'' p = None | Some s \<Rightarrow> \<exists>rl. w_servers w'' p = Some (s\<lparr>sv_rl := rl\<rparr>)"
  show "case w_servers w p of None \<Rightarrow> w_servers w'' p = None | Some s \<Rightarrow> \<exists>rl. w_servers w'' p = Some (s\<lparr>sv_rl := rl\<rparr>)"
    using a [rule_format, of p] b [rule_format, of p] by (cases "w_servers w p") auto
qed simp

interpretation lock: client_relation "\<lambda>w w'. locked w \<longrightarrow> locked w' \<and> buckets_only w w'" ce for ce :: "'p client_env"
proof
  show "locked w \<longrightarrow> locked w \<and> buckets_only w w" for w :: "'p world"
    by (simp add: buckets_same)
  show "locked w \<longrightarrow> locked w'' \<and> buckets_only w w''"
    if "locked w \<longrightarrow> locked w' \<and> buckets_only w w'" "locked w' \<longrightarrow> locked w'' \<and> buckets_only w' w''" for w w' w'' :: "'p world"
    using that buckets_chain by blast
  show "locked w \<longrightarrow> locked (fst (http_call ce port meth path [] v w)) \<and> buckets_only w (fst (http_call ce port meth path [] v w))"
    for w :: "'p world" and port meth path v
    using call_locked [of w ce port meth path v] by (metis prod.collapse)
qed

section \<open>What the commands answer\<close>

text \<open>An action that cannot succeed.\<close>

definition fails :: "'p world \<Rightarrow> ('p, 'a) io \<Rightarrow> bool" where
  "fails w f \<longleftrightarrow> (\<exists>e. snd (f w) = Inl e)"

lemma fails_then:
  assumes "locked w" and "lock.safe f" and "\<And>w' x. locked w' \<Longrightarrow> f w = (w', Inr x) \<Longrightarrow> fails w' (g x)"
  shows "fails w (then_io f g)"
proof -
  obtain w' r where f: "f w = (w', r)" by fastforce
  with lock.safeD [OF assms(2), of w] assms(1) have "locked w'" by simp
  with f assms(3) show ?thesis by (cases r) (auto simp: fails_def then_io_def)
qed

lemma do_locked: "locked w \<Longrightarrow> rc_token rc = [] \<Longrightarrow> rest_do ce rc m path v w = (w', Inr (code, b)) \<Longrightarrow> code \<noteq> 201 \<and> code \<noteq> 204"
  using call_locked [of w ce "rc_port rc" m path v]
  by (auto simp: rest_do_def no_success_def split: sum.splits prod.splits)

lemma fails_pure: "(\<exists>e. r = Inl e) \<Longrightarrow> fails w (pure_io r)"
  by (simp add: fails_def pure_io_def)

lemma fails_request:
  assumes "locked w" and "\<And>code b. code \<noteq> 201 \<Longrightarrow> code \<noteq> 204 \<Longrightarrow> \<exists>e. look (code, b) = Inl e"
  shows "fails w (request ce port m path v look)"
  unfolding request_def
proof (rule fails_then [OF assms(1) lock.safe_client])
  fix w' rc
  assume w: "locked w'" "newRestClient ce port w = (w', Inr rc)"
  then have t: "rc_token rc = []" by (rule_tac lock.client_token)
  show "fails w' (then_io (rest_do ce rc m path v) (\<lambda>resp. pure_io (look resp)))"
  proof (rule fails_then [OF w(1) lock.safe_do [OF t]])
    fix w'' x
    assume "rest_do ce rc m path v w' = (w'', Inr x)"
    with do_locked [OF w(1) t, of ce m path v w'' "fst x" "snd x"] assms(2) show "fails w'' (pure_io (look x))"
      by (cases x) (auto intro: fails_pure)
  qed
qed

lemma checked_fails: "code \<noteq> expected \<Longrightarrow> \<exists>e. checked expected out (code, b) = Inl e"
  by (auto simp: checked_def checkStatus_def split: option.split)

lemma fails_apply:
  assumes w: "locked w" and t: "rc_token rc = []"
  shows "fails w (applyLayoutRef ce rc ref)"
proof -
  obtain w1 r where first: "rest_do ce rc ''POST'' (''/api/v1/layouts/'' @ ref @ ''/apply'') None w = (w1, r)" by fastforce
  have w1: "locked w1" using lock.safeD [OF lock.safe_do [OF t], of w ce "''POST''" "''/api/v1/layouts/'' @ ref @ ''/apply''" None] first w by simp
  have "\<not> (case r of Inl _ \<Rightarrow> False | Inr (code, _) \<Rightarrow> code = 204)"
  proof (cases r)
    case (Inr x)
    with do_locked [OF w t, of ce "''POST''" "''/api/v1/layouts/'' @ ref @ ''/apply''" None w1 "fst x" "snd x"] first
    show ?thesis by (cases x) simp
  qed simp
  moreover have "fails w1 (upload_layout ce rc ref l)" for l
    unfolding upload_layout_def Let_def
    by (intro fails_then [OF _ lock.safe_do [OF t]] w1) (auto dest: do_locked [OF _ t] intro!: fails_pure checked_fails)
  ultimately show ?thesis
    unfolding fails_def applyLayoutRef_def first prod.case by (simp split: sum.split)
qed

text \<open>A guarded route is answered by 401, and the error has no other member.\<close>

lemma authed_pattern: "(p, h :: 'p handler) \<in> set authed_routes \<Longrightarrow> p \<in> set patterns"
proof -
  assume "(p, h) \<in> set authed_routes"
  then have "p \<in> set (map fst (authed_routes :: (string \<times> 'p handler) list))" by force
  moreover have eq: "map fst (authed_routes :: (string \<times> 'p handler) list) = map fst (authed_routes :: (string \<times> unit handler) list)"
    by (simp add: authed_routes_def)
  ultimately show ?thesis unfolding eq patterns_def set_append by blast
qed

lemma call_401:
  fixes w :: "'p world"
  assumes "locked w" and "plain_path ss" and "(p, h :: 'p handler) \<in> set authed_routes" and "parse_pattern p = (m, ps)"
    and "match_segs ps ss = Some binds" and "http_call ce port m (''/'' @ join_with ''/'' ss) [] v w = (w', Inr reply)"
  shows "reply = (401, error_body (ce_text ce) ''authorization header required'' None)"
proof -
  let ?path = "''/'' @ join_with ''/'' ss"
  from assms(6) obtain s where conn: "ce_conn ce (w_calls w) = None" and s: "w_servers w port = Some s"
    unfolding http_call_def parse_plain [OF assms(2)] Let_def by (auto split: option.splits)
  let ?r = "plain_request ce p binds ss [] v"
  have "\<not> ac_NoAuth (cg_Auth (sv_cfg s))" using assms(1) s by (simp add: locked_def)
  then have "sv_serve (ce_env ce (w_calls w)) ?r s = (s, ApiError 401 ''authorization header required'' None)"
    using authed_route [OF assms(3), of "sv_cfg s"] by (simp add: sv_serve_def authMiddleware_def plain_request_def)
  from call_plain [OF assms(2) authed_pattern [OF assms(3)] assms(4,5) conn s this] assms(6) show ?thesis by simp
qed

lemma do_401:
  fixes w :: "'p world"
  assumes "locked w" and "rc_token rc = []" and "plain_path ss" and "(p, h :: 'p handler) \<in> set authed_routes" and "parse_pattern p = (m, ps)"
    and "match_segs ps ss = Some binds" and "rest_do ce rc m (''/'' @ join_with ''/'' ss) v w = (w', Inr reply)"
  shows "reply = (401, error_body (ce_text ce) ''authorization header required'' None)"
proof -
  have "http_call ce (rc_port rc) m (''/'' @ join_with ''/'' ss) [] v w = (w', Inr reply)"
    using assms(2,7) unfolding rest_do_def parse_plain [OF assms(3)] by (auto split: prod.splits sum.splits)
  from call_401 [OF assms(1,3-6) this] show ?thesis .
qed

lemma cycle_start_fails: "locked w \<Longrightarrow> fails w (cycleStartCmd ce port i ws)"
  unfolding cycleStartCmd_def request_def
proof (intro fails_then [OF _ lock.safe_client])
  fix w' :: "'a world" and rc
  assume w: "locked w'" and new: "newRestClient ce port w = (w', Inr rc)"
  have t: "rc_token rc = []" using new by (rule lock.client_token)
  let ?v = "Some (JObj [(''interval_ms'', JNum i), (''windows'', jstrings ce ws)])"
  show "fails w' (then_io (rest_do ce rc ''POST'' ''/api/v1/cycle/start'' ?v) (\<lambda>resp. pure_io (checked 200 [] resp)))"
  proof (rule fails_then [OF w lock.safe_do [OF t]])
    fix w'' reply
    assume call: "rest_do ce rc ''POST'' ''/api/v1/cycle/start'' ?v w' = (w'', Inr reply)"
    have path: "plain_path [''api'', ''v1'', ''cycle'', ''start'']" by (simp add: plain_path_def plain_name_def plain_byte_def is_alnum_def)
    have route: "(''POST /api/v1/cycle/start'', handleCycleStart :: 'a handler) \<in> set authed_routes" by (simp add: authed_routes_def)
    have pat: "parse_pattern ''POST /api/v1/cycle/start'' = (''POST'', [''api'', ''v1'', ''cycle'', ''start''])"
      by (simp add: parse_pattern_def)
    have match: "match_segs [''api'', ''v1'', ''cycle'', ''start''] [''api'', ''v1'', ''cycle'', ''start''] = Some []" by simp
    from do_401 [OF w t path route pat match, of ce ?v w'' reply] call
    have "reply = (401, error_body (ce_text ce) ''authorization header required'' None)" by simp
    then show "fails w'' (pure_io (checked 200 [] reply))" by (auto intro!: fails_pure checked_fails)
  qed
qed


definition ce_example :: "nat client_env" where
  "ce_example =
     \<lparr>ce_env = (\<lambda>_. env_example), ce_conn = (\<lambda>_. None), ce_text = (\<lambda>_. ''error''), ce_remote = ''127.0.0.1'',
      ce_wire = (\<lambda>x. x), ce_ReadFile = (\<lambda>f. if f = ''day.yaml'' then Inr selftest_yaml else Inl (Extern ''no such file'')),
      ce_unmarshal = (\<lambda>d. if d = selftest_yaml then Inr selftest_layout else Inl (Extern ''yaml'')), ce_ulower = (\<lambda>x. x),
      ce_socket = (\<lambda>p. if p = ''/run/rdw/7681.sock'' then Some 7681 else None), ce_runtime_dir = ''/run'', ce_temp_dir = ''/tmp''\<rparr>"

definition world_of :: "nat server \<Rightarrow> nat world" where
  "world_of s = \<lparr>w_servers = [7681 \<mapsto> s], w_registry = None, w_calls = 0\<rparr>"

lemma locked_example: "locked (world_of (start_example\<lparr>sv_cfg := cfg_Default\<rparr>))"
  by (simp add: locked_def world_of_def cfg_Default_def)


lemma ping_resolves:
  fixes w :: "'p world"
  assumes "ce_conn ce (w_calls w) = None" and "w_servers w (probe_port port) = Some s"
    and "Allow (ev_now (ce_env ce (w_calls w))) (remote_host (ce_env ce (w_calls w)) (plain_request ce p b ss [] None)) (sv_rl s) = (rl, allowed)"
  shows "resolve_port ce port w =
    (w\<lparr>w_servers := (w_servers w)(probe_port port := Some (s\<lparr>sv_rl := rl\<rparr>)), w_calls := w_calls w + 1\<rparr>,
     Resolve (\<lambda>_. Inr (if allowed then 200 else 429)) (w_registry w) port)"
proof -
  let ?ss = "[''api'', ''v1'', ''ping'']"
  let ?r = "plain_request ce ''GET /api/v1/ping'' [] ?ss [] None"
  have plain: "plain_path ?ss" by (simp add: plain_path_def plain_name_def plain_byte_def is_alnum_def)
  have pat: "''GET /api/v1/ping'' \<in> set patterns" by (simp add: patterns_def unauth_routes_def)
  have pp: "parse_pattern ''GET /api/v1/ping'' = (''GET'', ?ss)" by (simp add: parse_pattern_def)
  have match: "match_segs ?ss ?ss = Some []" by simp
  have "(''GET /api/v1/ping'', rateLimitMiddleware handlePing) \<in> set (routes cfg :: (string \<times> 'p handler) list)" for cfg
    by (simp add: routes_def unauth_routes_def)
  then have route: "map_of (routes cfg :: (string \<times> 'p handler) list) ''GET /api/v1/ping'' = Some (rateLimitMiddleware handlePing)" for cfg
    by (rule map_of_is_SomeI [OF routes_distinct])
  have host: "remote_host ev (plain_request ce p b ss [] None) = remote_host ev ?r" for ev :: "'p env"
    by (simp add: remote_host_def plain_request_def split: option.split)
  obtain resp where serve: "sv_serve (ce_env ce (w_calls w)) ?r s = (s\<lparr>sv_rl := rl\<rparr>, resp)"
      and resp: "map_sum id fst (reply_of (ce_text ce) resp) = Inr (if allowed then 200 else 429)"
    using assms(3) [unfolded host] route [of "sv_cfg s"]
    by (cases allowed) (auto simp: sv_serve_def rateLimitMiddleware_def handlePing_def plain_request_def)
  from call_plain [OF plain pat pp match assms(1,2) serve] resp show ?thesis
    by (simp add: resolve_port_def)
qed

lemma Resolve_200: "Resolve (\<lambda>_. Inr 200) f port = Inr (probe_port port)"
  by (simp add: Resolve_def probe_def probe_port_def)

lemma ping_example:
  "\<exists>w1. resolve_port ce_example 0 (world_of (start_example\<lparr>sv_cfg := cfg\<rparr>)) = (w1, Inr 7681) \<and> w_servers w1 7681 \<noteq> None"
proof -
  let ?s = "start_example\<lparr>sv_cfg := cfg\<rparr>"
  obtain rl where "Allow (ev_now env_example) (remote_host env_example (plain_request ce_example [] [] [] [] None)) (sv_rl ?s) = (rl, True)"
    by (simp add: Allow_def start_example_def sv_New_def NewRateLimiter_def gm_get_def Let_def)
  then show ?thesis
    using ping_resolves [of ce_example "world_of ?s" 0 ?s "[]" "[]" "[]" rl True]
    by (simp add: ce_example_def world_of_def Resolve_200 probe_port_def ds_DefaultPort_def)
qed

text \<open>One request after the server has been found.\<close>

lemma request_401:
  fixes w :: "'p world"
  assumes "locked w" and "resolve_port ce port w = (w1, Inr p)" and "ce_conn ce (w_calls w1) = None" and "w_servers w1 p \<noteq> None"
    and "plain_path ss" and "(pat, h :: 'p handler) \<in> set authed_routes" and "parse_pattern pat = (m, ps)" and "match_segs ps ss = Some binds"
  shows "snd (request ce port m (''/'' @ join_with ''/'' ss) None look w) =
    look (401, error_body (ce_text ce) ''authorization header required'' None)"
proof -
  let ?rc = "\<lparr>rc_port = p, rc_token = []\<rparr>"
  have new: "newRestClient ce port w = (w1, Inr ?rc)" using assms(2) by (simp add: newRestClient_def then_io_def pure_io_def)
  have w1: "locked w1" using lock.safeD [OF lock.safe_client, of w ce port] assms(1) new by simp
  obtain w2 r where do: "rest_do ce ?rc m (''/'' @ join_with ''/'' ss) None w1 = (w2, r)" by fastforce
  obtain s s' resp where s: "w_servers w1 p = Some s" using assms(4) by blast
  have auth: "\<not> ac_NoAuth (cg_Auth (sv_cfg s))" using w1 s by (simp add: locked_def)
  have "\<exists>reply. r = Inr reply"
  proof -
    let ?r = "plain_request ce pat binds ss [] None"
    have "sv_serve (ce_env ce (w_calls w1)) ?r s = (s, ApiError 401 ''authorization header required'' None)"
      using authed_route [OF assms(6), of "sv_cfg s"] auth by (simp add: sv_serve_def authMiddleware_def plain_request_def)
    from call_plain [OF assms(5) authed_pattern [OF assms(6)] assms(7,8,3) s this]
    have "http_call ce p m (''/'' @ join_with ''/'' ss) [] None w1
        = (w1\<lparr>w_servers := (w_servers w1)(p := Some s), w_calls := w_calls w1 + 1\<rparr>, Inr (401, error_body (ce_text ce) ''authorization header required'' None))"
      by simp
    then show ?thesis using do unfolding rest_do_def parse_plain [OF assms(5)] by auto
  qed
  then obtain reply where r: "r = Inr reply" ..
  have "reply = (401, error_body (ce_text ce) ''authorization header required'' None)"
    by (rule do_401 [OF w1 _ assms(5-8)]) (use do r in simp_all)
  then show ?thesis using new do r by (simp add: request_def then_io_def pure_io_def)
qed

text \<open>
  What cannot be read looks empty: once the client has found such a server, \<open>window list\<close>, \<open>layout
  list\<close>, \<open>token list\<close>, \<open>cycle status\<close> and \<open>kv get\<close> do not report the refusal; they succeed and print
  that there is no window, no layout, no token and no cycle, and the empty string for the value of every
  key.
\<close>

theorem cli_reads_empty:
  assumes "locked w" and "resolve_port ce port w = (w1, Inr p)" and "ce_conn ce (w_calls w1) = None" and "w_servers w1 p \<noteq> None"
    and "plain_name key"
  shows "snd (windowListCmd ce port w) = Inr [(''no windows'', [])]
    \<and> snd (layoutListCmd ce port w) = Inr [(''no saved layouts'', [])]
    \<and> snd (tokenListCmd ce port w) = Inr [(''no active tokens'', [])]
    \<and> snd (cycleStatusCmd ce port w) = Inr [(''not running'', [])]
    \<and> snd (kvGetCmd ce port key w) = Inr [(''%s'', [OStr ''''])]"
proof -
  have plain: "plain_path [''api'', ''v1'', ''windows'']" "plain_path [''api'', ''v1'', ''layouts'']" "plain_path [''api'', ''v1'', ''tokens'']"
    "plain_path [''api'', ''v1'', ''cycle'', ''status'']" "plain_path [''api'', ''v1'', ''kv'', key]"
    using assms(5) by (simp_all add: plain_path_def plain_name_def plain_byte_def is_alnum_def)
  have routes: "(''GET /api/v1/windows'', handleWindowList :: 'a handler) \<in> set authed_routes"
    "(''GET /api/v1/layouts'', handleLayoutList :: 'a handler) \<in> set authed_routes"
    "(''GET /api/v1/tokens'', handleTokenList :: 'a handler) \<in> set authed_routes"
    "(''GET /api/v1/cycle/status'', handleCycleStatus :: 'a handler) \<in> set authed_routes"
    "(''GET /api/v1/kv/{key}'', handleKVGet :: 'a handler) \<in> set authed_routes"
    by (simp_all add: authed_routes_def)
  note get = request_401 [OF assms(1-4)]
  have key: "key \<noteq> []" "key \<noteq> ''/''" using assms(5) plain_byte_facts [of "CHR ''/''"] by (auto simp: plain_name_def)
  show ?thesis
    using get [OF plain(1) routes(1), of "''GET''" "[''api'', ''v1'', ''windows'']" "[]" "decoded show_windows"]
      get [OF plain(2) routes(2), of "''GET''" "[''api'', ''v1'', ''layouts'']" "[]" "decoded show_layouts"]
      get [OF plain(3) routes(3), of "''GET''" "[''api'', ''v1'', ''tokens'']" "[]" "decoded show_tokens"]
      get [OF plain(4) routes(4), of "''GET''" "[''api'', ''v1'', ''cycle'', ''status'']" "[]" "decoded show_cycle"]
      get [OF plain(5) routes(5), of "''GET''" "[''api'', ''v1'', ''kv'', ''{key}'']" "[(''key'', key)]" "show_value key"] key
    by (simp add: windowListCmd_def layoutListCmd_def tokenListCmd_def cycleStatusCmd_def kvGetCmd_def parse_pattern_def
        decoded_def error_body_def show_windows_def show_layouts_def show_tokens_def show_cycle_def show_value_def dec_str_map_def)
qed

theorem cli_reads_empty_witness:
  "snd (kvGetCmd ce_example 0 ''k'' (world_of (start_example\<lparr>sv_cfg := cfg_Default\<rparr>))) = Inr [(''%s'', [OStr ''''])]"
proof -
  let ?s = "start_example\<lparr>sv_cfg := cfg_Default\<rparr>"
  obtain w1 where w1: "resolve_port ce_example 0 (world_of ?s) = (w1, Inr 7681)" "w_servers w1 7681 \<noteq> None"
    using ping_example by blast
  have "plain_name ''k''" by (simp add: plain_name_def plain_byte_def is_alnum_def)
  with cli_reads_empty [OF locked_example w1(1) _ w1(2), of "''k''"] show ?thesis by (simp add: ce_example_def)
qed

end
