(* ===== verification/Cli_Limits.thy ===== *)
theory Cli_Limits
  imports Cli_Locked
begin

text \<open>
  The client finds its server by a ping, and the ping is rate limited by the server like a request
  without a token: what that does to a series of commands.
\<close>

fun resolve_times :: "'p client_env \<Rightarrow> int \<Rightarrow> nat \<Rightarrow> 'p world \<Rightarrow> 'p world \<times> int result list" where
  "resolve_times ce port 0 w = (w, [])"
| "resolve_times ce port (Suc k) w =
     (case resolve_port ce port w of (w1, r) \<Rightarrow> (case resolve_times ce port k w1 of (w2, rs) \<Rightarrow> (w2, r # rs)))"

definition client_host :: "'p client_env \<Rightarrow> nat \<Rightarrow> string" where
  "client_host ce i = remote_host (ce_env ce i) (plain_request ce [] [] [] [] None)"

text \<open>The connections of the next \<open>k\<close> requests work, and come from one host before \<open>t\<close>.\<close>

definition busy_until :: "'p client_env \<Rightarrow> string \<Rightarrow> int \<Rightarrow> nat \<Rightarrow> nat \<Rightarrow> bool" where
  "busy_until ce h t n k \<longleftrightarrow>
     (\<forall>i < k. ce_conn ce (n + i) = None \<and> client_host ce (n + i) = h \<and> ev_now (ce_env ce (n + i)) \<le> t)"

lemma busy_Suc: "busy_until ce h t n (Suc k) \<longleftrightarrow>
    ce_conn ce n = None \<and> client_host ce n = h \<and> ev_now (ce_env ce n) \<le> t \<and> busy_until ce h t (Suc n) k"
  unfolding busy_until_def by (subst All_less_Suc2) simp

lemma Resolve_429: "\<exists>e. Resolve (\<lambda>_. Inr 429) f port = Inl e"
  by (simp add: Resolve_def probe_def Let_def)

lemma resolve_next:
  assumes "busy_until ce h t (w_calls w) (Suc k)" and "w_servers w (probe_port port) = Some s"
    and "Allow (ev_now (ce_env ce (w_calls w))) h (sv_rl s) = (rl, allowed)"
  shows "resolve_port ce port w =
    (w\<lparr>w_servers := (w_servers w)(probe_port port := Some (s\<lparr>sv_rl := rl\<rparr>)), w_calls := w_calls w + 1\<rparr>,
     Resolve (\<lambda>_. Inr (if allowed then 200 else 429)) (w_registry w) port)"
  by (rule ping_resolves) (use assms in \<open>auto simp: busy_Suc client_host_def\<close>)

text \<open>After \<open>c\<close> pings of the window.\<close>

lemma resolves_in_window:
  assumes "busy_until ce h t (w_calls w) k" and "w_servers w (probe_port port) = Some s"
    and "gm_get (sv_rl s) h = Some \<lparr>rb_count = c, rb_resetAt = t\<rparr>" and "c \<le> 10"
  shows "snd (resolve_times ce port k w) =
    replicate (min k (10 - c)) (Inr (probe_port port)) @ replicate (k - (10 - c)) (Resolve (\<lambda>_. Inr 429) (w_registry w) port)"
  using assms
proof (induction k arbitrary: w s c)
  case (Suc k)
  let ?now = "ev_now (ce_env ce (w_calls w))"
  have now: "?now \<le> t" using Suc.prems(1) by (simp add: busy_Suc)
  show ?case
  proof (cases "c < 10")
    case True
    let ?rl = "gm_put h \<lparr>rb_count = c + 1, rb_resetAt = t\<rparr> (sv_rl s)"
    have "Allow ?now h (sv_rl s) = (?rl, True)"
      using Suc.prems(3) now True by (simp add: Allow_def rateLimitRequests_def)
    note first = resolve_next [OF Suc.prems(1,2) this]
    let ?w = "w\<lparr>w_servers := (w_servers w)(probe_port port := Some (s\<lparr>sv_rl := ?rl\<rparr>)), w_calls := w_calls w + 1\<rparr>"
    have "snd (resolve_times ce port k ?w) =
        replicate (min k (10 - (c + 1))) (Inr (probe_port port)) @ replicate (k - (10 - (c + 1))) (Resolve (\<lambda>_. Inr 429) (w_registry ?w) port)"
      by (rule Suc.IH [where s = "s\<lparr>sv_rl := ?rl\<rparr>"]) (use Suc.prems(1) True in \<open>simp_all add: busy_Suc gm_get_put\<close>)
    moreover have "10 - c = Suc (10 - (c + 1))" using True by simp
    ultimately show ?thesis using first by (simp add: Resolve_200 split_beta)
  next
    case False
    then have "Allow ?now h (sv_rl s) = (sv_rl s, False)"
      using Suc.prems(3) now by (simp add: Allow_def rateLimitRequests_def)
    note first = resolve_next [OF Suc.prems(1,2) this]
    let ?w = "w\<lparr>w_servers := (w_servers w)(probe_port port := Some s), w_calls := w_calls w + 1\<rparr>"
    have "snd (resolve_times ce port k ?w) =
        replicate (min k (10 - c)) (Inr (probe_port port)) @ replicate (k - (10 - c)) (Resolve (\<lambda>_. Inr 429) (w_registry ?w) port)"
      by (rule Suc.IH [where s = s]) (use Suc.prems in \<open>simp_all add: busy_Suc\<close>)
    then show ?thesis using first False Suc.prems(4) by (simp add: split_beta)
  qed
qed simp



end
