(* ===== verification/Mirror_Tee.thy ===== *)
theory Mirror_Tee
  imports Go_Strings
begin

text \<open>
  \<open>internal/mirror/mirror.go\<close>: the sinks, and the copying goroutine of \<open>Tee\<close>. The reader is the list of the results of its
  reads, each the bytes read and an error that may come with them; what the goroutine does to the pipe
  and to the sink is a list of actions in its order.
\<close>

datatype tee_action =
    PipeWrite string
  | SinkWrite string
  | PipeCloseWithError go_err
  | SinkClose

fun tee_loop :: "(string \<times> go_err option) list \<Rightarrow> tee_action list" where
  "tee_loop [] = []"
| "tee_loop ((data, err) # reads) =
     (if data \<noteq> [] then [PipeWrite data, SinkWrite data] else [])
     @ (case err of Some e \<Rightarrow> [PipeCloseWithError e, SinkClose] | None \<Rightarrow> tee_loop reads)"

fun pipe_bytes :: "tee_action list \<Rightarrow> string" where
  "pipe_bytes [] = []"
| "pipe_bytes (PipeWrite d # as) = d @ pipe_bytes as"
| "pipe_bytes (_ # as) = pipe_bytes as"

fun sink_bytes :: "tee_action list \<Rightarrow> string" where
  "sink_bytes [] = []"
| "sink_bytes (SinkWrite d # as) = d @ sink_bytes as"
| "sink_bytes (_ # as) = sink_bytes as"

text \<open>What a reader delivers: everything up to and with its first error.\<close>

fun delivered :: "(string \<times> go_err option) list \<Rightarrow> string" where
  "delivered [] = []"
| "delivered ((d, None) # rs) = d @ delivered rs"
| "delivered ((d, Some e) # rs) = d"

lemma pipe_bytes_append: "pipe_bytes (xs @ ys) = pipe_bytes xs @ pipe_bytes ys"
  by (induction xs rule: pipe_bytes.induct) auto

lemma sink_bytes_append: "sink_bytes (xs @ ys) = sink_bytes xs @ sink_bytes ys"
  by (induction xs rule: sink_bytes.induct) auto

text \<open>
  The mirror is an exact copy: the bytes written to the sink and the bytes handed to the consumer
  are both exactly what the reader delivered, up to and with the read that reports the end; then the
  consumer sees that error and the sink is closed, each once and last.
\<close>

theorem tee_copies:
  "pipe_bytes (tee_loop reads) = delivered reads \<and> sink_bytes (tee_loop reads) = delivered reads
   \<and> (case List.find (\<lambda>r. snd r \<noteq> None) reads of
        Some (d, Some e) \<Rightarrow> (\<exists>pre. tee_loop reads = pre @ [PipeCloseWithError e, SinkClose]
                              \<and> SinkClose \<notin> set pre \<and> (\<forall>x. PipeCloseWithError x \<notin> set pre))
      | _ \<Rightarrow> SinkClose \<notin> set (tee_loop reads))"
proof (induction reads rule: delivered.induct)
  case (2 d rs)
  let ?w = "if d \<noteq> [] then [PipeWrite d, SinkWrite d] else []"
  have t: "tee_loop ((d, None) # rs) = ?w @ tee_loop rs" by simp
  have ext: "\<exists>pre'. ?w @ tee_loop rs = pre' @ [PipeCloseWithError e, SinkClose] \<and> SinkClose \<notin> set pre'
      \<and> (\<forall>x. PipeCloseWithError x \<notin> set pre')"
    if "tee_loop rs = pre @ [PipeCloseWithError e, SinkClose]" "SinkClose \<notin> set pre" "\<forall>x. PipeCloseWithError x \<notin> set pre"
    for pre e using that by (intro exI [of _ "?w @ pre"]) auto
  show ?case
    unfolding t using 2 ext by (auto simp: pipe_bytes_append sink_bytes_append split: option.splits)
next
  case (3 d e rs)
  let ?w = "if d \<noteq> [] then [PipeWrite d, SinkWrite d] else []"
  have "tee_loop ((d, Some e) # rs) = ?w @ [PipeCloseWithError e, SinkClose]" by simp
  then show ?case by (auto simp: pipe_bytes_append sink_bytes_append intro!: exI [of _ ?w])
qed simp

section \<open>Sinks\<close>

text \<open>A file that is appended to, or the standard input of a shell command that runs.\<close>

datatype mirror_sink = FileSink string | CmdSink string

datatype sink_effect = FileWrite string string | FileClose string | StdinWrite string string | StdinClose string | AwaitExit string

definition FileSync :: "(string \<Rightarrow> go_err option) \<Rightarrow> string \<Rightarrow> mirror_sink result" where
  "FileSync openFile path =
     (case openFile path of
        Some e \<Rightarrow> Inl (Wrapf ''mirror: open %q: %w'' [AStr path] e)
      | None \<Rightarrow> Inr (FileSink path))"

text \<open>The start of a command fails at its pipe, the flag is then set, or at the process.\<close>

definition CmdSync :: "(string \<Rightarrow> (bool \<times> go_err) option) \<Rightarrow> string \<Rightarrow> mirror_sink result" where
  "CmdSync startCmd cmd =
     (case startCmd cmd of
        Some (True, e) \<Rightarrow> Inl (Wrapf ''mirror: stdin pipe: %w'' [] e)
      | Some (False, e) \<Rightarrow> Inl (Wrapf ''mirror: start %q: %w'' [AStr cmd] e)
      | None \<Rightarrow> Inr (CmdSink cmd))"

fun sink_Write :: "mirror_sink \<Rightarrow> string \<Rightarrow> sink_effect" where
  "sink_Write (FileSink p) d = FileWrite p d"
| "sink_Write (CmdSink c) d = StdinWrite c d"

text \<open>Closing a command's input waits for the command to end.\<close>

fun sink_Close :: "mirror_sink \<Rightarrow> sink_effect list" where
  "sink_Close (FileSink p) = [FileClose p]"
| "sink_Close (CmdSink c) = [StdinClose c, AwaitExit c]"

fun sink_effects :: "mirror_sink \<Rightarrow> tee_action list \<Rightarrow> sink_effect list" where
  "sink_effects s [] = []"
| "sink_effects s (SinkWrite d # as) = sink_Write s d # sink_effects s as"
| "sink_effects s (SinkClose # as) = sink_Close s @ sink_effects s as"
| "sink_effects s (_ # as) = sink_effects s as"

lemma sink_effects_append: "sink_effects s (xs @ ys) = sink_effects s xs @ sink_effects s ys"
  by (induction s xs rule: sink_effects.induct) simp_all

text \<open>A command sees the whole input in order, then its end, and is waited for once, after that.\<close>

lemma tee_command:
  "List.find (\<lambda>r. snd r \<noteq> None) reads \<noteq> None \<Longrightarrow>
   \<exists>ds. concat ds = delivered reads \<and> sink_effects (CmdSink c) (tee_loop reads) = map (StdinWrite c) ds @ [StdinClose c, AwaitExit c]"
proof (induction reads rule: delivered.induct)
  case (2 d rs)
  then obtain ds where "concat ds = delivered rs"
    "sink_effects (CmdSink c) (tee_loop rs) = map (StdinWrite c) ds @ [StdinClose c, AwaitExit c]" by auto
  then show ?case by (intro exI [of _ "if d = [] then ds else d # ds"]) simp
next
  case (3 d e rs)
  show ?case by (intro exI [of _ "if d = [] then [] else [d]"]) simp
qed simp

end
