(* ===== verification/Cli_Pipe.thy ===== *)
theory Cli_Pipe
  imports Cli_Client Pipe_Server Mirror_Tee
begin

text \<open>
  \<open>rdw pipe\<close> and \<open>rdw send\<close> of \<open>cmd/rdw/commands.go\<close>, and \<open>cmd/rdw/server.go\<close>: the commands that go over the
  Unix socket of a server. \<open>ce_socket\<close> says which server listens on a path.
\<close>

section \<open>The Unix socket\<close>

definition unixSocketPath :: "'p client_env \<Rightarrow> string \<Rightarrow> string" where
  "unixSocketPath ce sessionID =
     (let base = (if ce_runtime_dir ce = [] then ce_temp_dir ce else ce_runtime_dir ce)
      in base @ ''/rdw/'' @ sessionID @ ''.sock'')"

text \<open>One connection to a socket: the dial may fail, otherwise \<open>talk\<close> is what the server does with it.\<close>

definition socket_call ::
    "'p client_env \<Rightarrow> string \<Rightarrow> (go_err \<Rightarrow> 'r) \<Rightarrow> ('p env \<Rightarrow> 'p server \<Rightarrow> 'p server \<times> 'r) \<Rightarrow> 'p world \<Rightarrow> 'p world \<times> 'r" where
  "socket_call ce path no talk w =
     (let n = w_calls w; w1 = w\<lparr>w_calls := n + 1\<rparr>;
          target = (case ce_socket ce path of None \<Rightarrow> None | Some port \<Rightarrow> map_option (Pair port) (w_servers w port))
      in case ce_conn ce n of
           Some e \<Rightarrow> (w1, no e)
         | None \<Rightarrow>
             (case target of
                None \<Rightarrow> (w1, no (Extern ''connection refused''))
              | Some (port, s) \<Rightarrow>
                  (case talk (ce_env ce n) s of (s', r) \<Rightarrow> (w1\<lparr>w_servers := (w_servers w)(port := Some s')\<rparr>, r))))"

definition sendUnixCommand :: "'p client_env \<Rightarrow> string \<Rightarrow> string \<times> jval result \<Rightarrow> ('p, unix_response) io" where
  "sendUnixCommand ce path cmd =
     socket_call ce path (\<lambda>e. Inl (Wrapf ''connecting to %q: %w'' [AStr path] e))
       (\<lambda>ev s. case serveUnix ev (Inr cmd) s of (s', resp) \<Rightarrow> (s', Inr resp))"

text \<open>The send function of the relay: a line to the socket of the resolved server.\<close>

definition socket_send :: "'p client_env \<Rightarrow> string \<Rightarrow> target_id \<Rightarrow> 'p world send" where
  "socket_send ce path t line =
     socket_call ce path (\<lambda>_. False) (\<lambda>ev s. unix_send (ce_wire ce) None path ev t line s)"

definition relay_io :: "'p client_env \<Rightarrow> int \<Rightarrow> target_id \<Rightarrow> int \<Rightarrow> string \<Rightarrow> ('p, unit) io" where
  "relay_io ce resolved t queueLen input w =
     (case Relay (socket_send ce (unixSocketPath ce (show_int resolved)) t) (\<lambda>_. False) (Extern ''context'') queueLen input w of
        ((w', queue), None) \<Rightarrow> (w', Inr ())
      | ((w', queue), Some e) \<Rightarrow> (w', Inl e))"

section \<open>\<open>rdw send\<close>\<close>

definition isImageMagic :: "string \<Rightarrow> bool" where
  "isImageMagic data =
     (if length data < 4 then False
      else if take 4 data = CHR 0x89 # ''PNG'' then True
      else if take 2 data = [CHR 0xFF, CHR 0xD8] then True
      else if 6 \<le> length data \<and> (take 6 data = ''GIF87a'' \<or> take 6 data = ''GIF89a'') then True
      else if 12 \<le> length data \<and> take 4 data = ''RIFF'' \<and> take 4 (drop 8 data) = ''WEBP'' then True
      else False)"

text \<open>\<open>filepath.Ext\<close>: from the last dot of the last element.\<close>

definition path_Ext :: "string \<Rightarrow> string" where
  "path_Ext p =
     (let tail = takeWhile (\<lambda>c. c \<noteq> CHR ''.'' \<and> c \<noteq> CHR ''/'') (rev p) in
      case drop (length tail) (rev p) of
        [] \<Rightarrow> []
      | c # _ \<Rightarrow> if c = CHR ''.'' then c # rev tail else [])"

definition buildSendLine :: "'p client_env \<Rightarrow> string \<Rightarrow> string \<Rightarrow> string" where
  "buildSendLine ce path data =
     (let ext = ToLower (ce_ulower ce) (path_Ext path) in
      if ext = ''.svg'' \<or> (4 < length data \<and> HasPrefix (TrimSpace (take (min 100 (length data)) data)) ''<svg'') then
        ''svg-data:'' @ b64_encode data
      else if ext = ''.csv'' \<or> ext = ''.tsv'' then ''f:csv'' @ [LF] @ data
      else if ext = ''.md'' \<or> ext = ''.markdown'' then ''f:markdown'' @ [LF] @ data
      else if isImageMagic data \<or> ext = ''.png'' \<or> ext = ''.jpg'' \<or> ext = ''.jpeg'' \<or> ext = ''.gif'' \<or> ext = ''.webp'' then
        ''b64:'' @ b64_encode data
      else data)"

definition runSend :: "'p client_env \<Rightarrow> int \<Rightarrow> string \<Rightarrow> string \<Rightarrow> ('p, unit) io" where
  "runSend ce port idStr path =
     (case ce_ReadFile ce path of
        Inl e \<Rightarrow> pure_io (Inl (Wrapf ''send: read %q: %w'' [AStr path] e))
      | Inr data \<Rightarrow>
          then_io (resolve_port ce port) (\<lambda>resolved.
            (case ParseTargetID idStr of
               Inl e \<Rightarrow> pure_io (Inl (Wrapf ''invalid target ID %q: %w'' [AStr idStr] e))
             | Inr t \<Rightarrow> relay_io ce resolved t 10 (buildSendLine ce path data @ [LF]))))"

section \<open>\<open>rdw pipe\<close>\<close>

record pipe_flags =
  pf_id :: string
  pf_layout :: string
  pf_window :: string
  pf_title :: string
  pf_filters :: "string list"
  pf_forward :: string
  pf_file :: string
  pf_cmd :: string

text \<open>The window of \<open>--window\<close>: focused, or created when the focus is answered by 404.\<close>

definition pipe_window :: "'p client_env \<Rightarrow> rest_client \<Rightarrow> string \<Rightarrow> ('p, unit) io" where
  "pipe_window ce rc name w =
     (case rest_do ce rc ''POST'' (''/api/v1/windows/'' @ name @ ''/focus'') None w of (w1, r) \<Rightarrow>
        (case (if (case r of Inr (code, _) \<Rightarrow> code = 404 | Inl _ \<Rightarrow> False)
               then rest_do ce rc ''POST'' ''/api/v1/windows'' (arg ce ''name'' name) w1 else (w1, r)) of
           (w2, Inl e) \<Rightarrow> (w2, Inl (Wrapf ''window %q: %w'' [AStr name] e))
         | (w2, Inr _) \<Rightarrow> (w2, Inr ())))"

definition pipe_title :: "'p client_env \<Rightarrow> rest_client \<Rightarrow> string \<Rightarrow> string \<Rightarrow> ('p, unit) io" where
  "pipe_title ce rc idStr title w =
     (case rest_do ce rc ''PATCH'' (''/api/v1/panes/'' @ idStr) (arg ce ''title'' title) w of
        (w1, Inl e) \<Rightarrow> (w1, Inl (Wrapf ''setting title: %w'' [] e))
      | (w1, Inr _) \<Rightarrow> (w1, Inr ()))"

fun pipe_filters :: "'p client_env \<Rightarrow> rest_client \<Rightarrow> string \<Rightarrow> string list \<Rightarrow> ('p, unit) io" where
  "pipe_filters ce rc idStr [] w = (w, Inr ())"
| "pipe_filters ce rc idStr (f # fs) w =
     (case rest_do ce rc ''POST'' (''/api/v1/panes/'' @ idStr @ ''/filters'') (arg ce ''cmd'' f) w of
        (w1, Inl e) \<Rightarrow> (w1, Inl (Wrapf ''registering filter %q: %w'' [AStr f] e))
      | (w1, Inr resp) \<Rightarrow>
          (case checkStatus 204 resp of Some e \<Rightarrow> (w1, Inl e) | None \<Rightarrow> pipe_filters ce rc idStr fs w1))"

text \<open>
  The sinks of the forward flags: \<open>openFile\<close> and \<open>startCmd\<close> say whether they can be opened. A sink sees
  a copy of the input and does not change it.
\<close>

definition pipe_sinks :: "(string \<Rightarrow> go_err option) \<Rightarrow> (string \<Rightarrow> (bool \<times> go_err) option) \<Rightarrow> pipe_flags \<Rightarrow> mirror_sink list result" where
  "pipe_sinks openFile startCmd fl =
     (let rd = (if pf_forward fl = ''rd'' \<or> pf_forward fl = ''both''
                then (case CmdSync startCmd ''rd 2>/dev/null || true'' of Inl _ \<Rightarrow> [] | Inr k \<Rightarrow> [k]) else [])
      in case (if pf_file fl = [] then Inr [] else map_sum id (\<lambda>k. [k]) (FileSync openFile (pf_file fl))) of
           Inl e \<Rightarrow> Inl e
         | Inr file \<Rightarrow>
             (case (if pf_cmd fl = [] then Inr [] else map_sum id (\<lambda>k. [k]) (CmdSync startCmd (pf_cmd fl))) of
                Inl e \<Rightarrow> Inl e
              | Inr cmd \<Rightarrow> Inr (rd @ file @ cmd)))"

definition runPipe ::
    "'p client_env \<Rightarrow> (string \<Rightarrow> go_err option) \<Rightarrow> (string \<Rightarrow> (bool \<times> go_err) option) \<Rightarrow> int \<Rightarrow> pipe_flags \<Rightarrow> string \<Rightarrow> ('p, unit) io" where
  "runPipe ce openFile startCmd port fl input =
     (case ParseTargetID (pf_id fl) of
        Inl e \<Rightarrow> pure_io (Inl (Wrapf ''invalid target ID %q: %w'' [AStr (pf_id fl)] e))
      | Inr t \<Rightarrow>
          then_io (resolve_port ce port) (\<lambda>resolved.
            let rc = \<lparr>rc_port = resolved, rc_token = []\<rparr> in
            then_io (\<lambda>w. if pf_layout fl = [] then (w, Inr [])
                         else (case applyLayoutRef ce rc (pf_layout fl) w of
                                 (w', Inl e) \<Rightarrow> (w', Inl (Wrapf ''applying layout %q: %w'' [AStr (pf_layout fl)] e))
                               | (w', Inr x) \<Rightarrow> (w', Inr x)))
             (\<lambda>_. then_io (if pf_window fl = [] then pure_io (Inr ()) else pipe_window ce rc (pf_window fl))
             (\<lambda>_. then_io (if pf_title fl = [] then pure_io (Inr ()) else pipe_title ce rc (pf_id fl) (pf_title fl))
             (\<lambda>_. then_io (pipe_filters ce rc (pf_id fl) (pf_filters fl))
             (\<lambda>_. then_io (pure_io (pipe_sinks openFile startCmd fl))
             (\<lambda>_. relay_io ce resolved t 1000 input)))))))"

section \<open>\<open>rdw server\<close>\<close>

record start_flags =
  sf_port :: int
  sf_network_expose :: bool
  sf_no_auth :: bool
  sf_restore :: bool
  sf_kv_persist :: string
  sf_admin_token :: string

definition start_config :: "start_flags \<Rightarrow> config \<Rightarrow> config" where
  "start_config fl cfg =
     (let c1 = (if sf_port fl \<noteq> 0 then cfg\<lparr>cg_Server := (cg_Server cfg)\<lparr>sc_Port := sf_port fl\<rparr>\<rparr> else cfg);
          c2 = (if sf_network_expose fl then c1\<lparr>cg_Server := (cg_Server c1)\<lparr>sc_NetworkExpose := True\<rparr>\<rparr> else c1);
          c3 = (if sf_no_auth fl then c2\<lparr>cg_Auth := (cg_Auth c2)\<lparr>ac_NoAuth := True\<rparr>\<rparr> else c2);
          c4 = (if sf_admin_token fl \<noteq> [] then c3\<lparr>cg_Auth := (cg_Auth c3)\<lparr>ac_AdminToken := sf_admin_token fl\<rparr>\<rparr> else c3)
      in if sf_kv_persist fl \<noteq> [] then c4\<lparr>cg_KV_PersistPath := sf_kv_persist fl\<rparr> else c4)"

text \<open>\<open>internal/browser\<close>: the program that opens an address, started without waiting for it.\<close>

definition browser_Open :: "string \<Rightarrow> string \<Rightarrow> (string \<times> string list) result" where
  "browser_Open goos url =
     (if goos = ''linux'' then Inr (''xdg-open'', [url])
      else if goos = ''darwin'' then Inr (''open'', [url])
      else if goos = ''windows'' then Inr (''rundll32'', [''url.dll,FileProtocolHandler'', url])
      else Inl (Errorf ''browser: unsupported OS %q'' [AStr goos]))"

text \<open>The flag \<open>--open-browser\<close>: the browser is started before the server listens, and its error is ignored.\<close>

definition start_browser :: "string \<Rightarrow> bool \<Rightarrow> config \<Rightarrow> (string \<times> string list) option" where
  "start_browser goos flag cfg =
     (if flag then (case browser_Open goos (''http://127.0.0.1:'' @ show_int (sc_Port (cg_Server cfg))) of
                      Inl _ \<Rightarrow> None | Inr c \<Rightarrow> Some c)
      else None)"

text \<open>The server that \<open>Run\<close> is called on.\<close>

definition runServerStart ::
    "(string \<Rightarrow> string result) \<Rightarrow> (string \<Rightarrow> config \<Rightarrow> config result) \<Rightarrow> string \<Rightarrow> start_flags \<Rightarrow> 'p server result" where
  "runServerStart read yaml cfgPath fl =
     (case cfg_Load read yaml cfgPath of
        Inl e \<Rightarrow> Inl (Wrapf ''loading config: %w'' [] e)
      | Inr cfg0 \<Rightarrow>
          let cfg = start_config fl cfg0
          in Inr (sv_New cfg \<lparr>op_SessionID = show_int (sc_Port (cg_Server cfg)), op_PersistPath = sf_kv_persist fl,
                             op_Restore = sf_restore fl\<rparr>))"

definition runServerStop :: "'p client_env \<Rightarrow> int \<Rightarrow> ('p, cli_output) io" where
  "runServerStop ce port =
     then_io (resolve_port ce port) (\<lambda>resolved w.
       (case sendUnixCommand ce (unixSocketPath ce (show_int resolved)) (''stop'', Inl (Extern ''EOF'')) w of
          (w', Inl e) \<Rightarrow> (w', Inl (Wrapf ''sending stop command: %w'' [] e))
        | (w', Inr resp) \<Rightarrow>
            if \<not> ur_OK resp then
              (w', Inl (case ur_Error resp of None \<Rightarrow> Errorf ''server error: '' [] | Some e \<Rightarrow> Wrapf ''server error: %s'' [] e))
            else (w', Inr [(''rdw server on port %d stopping'', [OInt resolved])])))"

definition runServerList ::
    "go_err option \<Rightarrow> go_err option \<Rightarrow> (int \<Rightarrow> bool) \<Rightarrow> registry_file \<Rightarrow> registry_file \<times> cli_output" where
  "runServerList mkdir write signal f =
     (let f' = fst (PruneStale mkdir write signal f); servers = ReadRegistry f' in
      (f', if servers = [] then [(''no rdw servers registered'', [])]
           else (tab [''PORT'', ''PID'', ''STARTED'', ''SOCKET''], [])
             # map (\<lambda>s. (tab [''%d'', ''%d'', ''%s'', ''%s''],
                 [OInt (si_Port s), OInt (si_PID s), OStr (si_StartedAt s), OStr (si_SocketPath s)])) servers))"

end
