(* ===== verification/Cli_Flows.thy ===== *)
theory Cli_Flows
  imports Cli_Limits Cli_Pipe Layout_Properties
begin

text \<open>
  Whole commands against an open server: the key-value commands, applying a layout file, sending an image,
  and what the flags of \<open>server start\<close> reach.
\<close>

section \<open>A command that reaches its server\<close>

text \<open>The client finds the server, which is \<open>s\<close> after the ping, in the world \<open>w1\<close>.\<close>

definition found :: "'p client_env \<Rightarrow> int \<Rightarrow> 'p world \<Rightarrow> 'p world \<Rightarrow> 'p server \<Rightarrow> bool" where
  "found ce port w w1 s \<longleftrightarrow> resolve_port ce port w = (w1, Inr (probe_port port)) \<and> w_servers w1 (probe_port port) = Some s"

lemma do_open:
  fixes w :: "'p world"
  assumes "ce_conn ce (w_calls w) = None" and "w_servers w (rc_port rc) = Some s" and "rc_token rc = []"
    and "ac_NoAuth (cg_Auth (sv_cfg s))" and "plain_path ss"
    and "(pat, h) \<in> set authed_routes" and "parse_pattern pat = (m, ps)" and "match_segs ps ss = Some binds"
    and "h (ce_env ce (w_calls w)) (plain_request ce pat binds ss [] v) s = (s', resp)"
    and "reply_of (ce_text ce) resp = Inr reply"
  shows "rest_do ce rc m (''/'' @ join_with ''/'' ss) v w =
    (w\<lparr>w_servers := (w_servers w)(rc_port rc := Some s'), w_calls := w_calls w + 1\<rparr>, Inr reply)"
proof -
  have "sv_serve (ce_env ce (w_calls w)) (plain_request ce pat binds ss [] v) s = (s', resp)"
    using authed_route [OF assms(6), of "sv_cfg s"] assms(4,9) by (simp add: sv_serve_def authMiddleware_def plain_request_def)
  from call_plain [OF assms(5) authed_pattern [OF assms(6)] assms(7,8,1,2) this] assms(3,10) show ?thesis
    unfolding rest_do_def parse_plain [OF assms(5)] by simp
qed

lemma request_open:
  fixes w :: "'p world"
  assumes "found ce port w w1 s" and "ce_conn ce (w_calls w1) = None" and "ac_NoAuth (cg_Auth (sv_cfg s))" and "plain_path ss"
    and "(pat, h) \<in> set authed_routes" and "parse_pattern pat = (m, ps)" and "match_segs ps ss = Some binds"
    and "h (ce_env ce (w_calls w1)) (plain_request ce pat binds ss [] v) s = (s', resp)"
    and "reply_of (ce_text ce) resp = Inr reply"
  shows "request ce port m (''/'' @ join_with ''/'' ss) v look w =
    (w1\<lparr>w_servers := (w_servers w1)(probe_port port := Some s'), w_calls := w_calls w1 + 1\<rparr>, look reply)"
  using do_open [of ce w1 "\<lparr>rc_port = probe_port port, rc_token = []\<rparr>" s, OF assms(2) _ _ assms(3-9)] assms(1)
  by (simp add: found_def request_def newRestClient_def then_io_def pure_io_def)

text \<open>Finding the server leaves it as it is, but for the rate limiter.\<close>

lemma found_server:
  fixes w :: "'p world"
  assumes "found ce port w w1 s" and "ce_conn ce (w_calls w) = None" and "w_servers w (probe_port port) = Some s0"
  shows "\<exists>rl. s = s0\<lparr>sv_rl := rl\<rparr>"
proof -
  obtain rl allowed where "Allow (ev_now (ce_env ce (w_calls w))) (remote_host (ce_env ce (w_calls w)) (plain_request ce [] [] [] [] None)) (sv_rl s0) = (rl, allowed)"
    by fastforce
  from ping_resolves [OF assms(2,3) this] assms(1) show ?thesis by (auto simp: found_def)
qed

lemma found_ping:
  fixes w :: "'p world"
  assumes "ce_conn ce (w_calls w) = None" and "w_servers w (probe_port port) = Some s"
    and "Allow (ev_now (ce_env ce (w_calls w))) (client_host ce (w_calls w)) (sv_rl s) = (rl, True)"
  shows "found ce port w (w\<lparr>w_servers := (w_servers w)(probe_port port := Some (s\<lparr>sv_rl := rl\<rparr>)), w_calls := w_calls w + 1\<rparr>) (s\<lparr>sv_rl := rl\<rparr>)"
  using ping_resolves [OF assms(1,2) assms(3) [unfolded client_host_def]] by (simp add: found_def Resolve_200)

text \<open>The limiter of an example server, after some pings at one time.\<close>

definition pinged :: "nat \<Rightarrow> rate_limiter" where
  "pinged n = [(client_host ce_example 0, \<lparr>rb_count = n, rb_resetAt = rateLimitWindow\<rparr>)]"

lemma found_example:
  assumes "w_servers w 7681 = Some s" and "n < 10" and "sv_rl s = (if n = 0 then NewRateLimiter else pinged n)"
  shows "found ce_example 0 w (w\<lparr>w_servers := (w_servers w)(7681 \<mapsto> s\<lparr>sv_rl := pinged (Suc n)\<rparr>), w_calls := w_calls w + 1\<rparr>)
    (s\<lparr>sv_rl := pinged (Suc n)\<rparr>)"
proof -
  have port: "probe_port 0 = 7681" by (simp add: probe_port_def ds_DefaultPort_def)
  have "client_host ce_example (w_calls w) = client_host ce_example 0" by (simp add: client_host_def ce_example_def)
  then have "Allow (ev_now (ce_env ce_example (w_calls w))) (client_host ce_example (w_calls w)) (sv_rl s) = (pinged (Suc n), True)"
    using assms(2,3) by (simp add: Allow_def pinged_def NewRateLimiter_def gm_get_def gm_put_def ce_example_def env_example_def
        rateLimitRequests_def rateLimitWindow_def)
  from found_ping [of ce_example w 0 s, OF _ _ this] show ?thesis using assms(1) by (simp add: port ce_example_def)
qed

section \<open>Keys and values\<close>

definition kv_put_request :: "'p client_env \<Rightarrow> string \<Rightarrow> string \<Rightarrow> request" where
  "kv_put_request ce k v = plain_request ce ''PUT /api/v1/kv/{key}'' [(''key'', k)] [''api'', ''v1'', ''kv'', k] []
     (Some (JObj [(''value'', JStr v)]))"

definition kv_get_request :: "'p client_env \<Rightarrow> string \<Rightarrow> request" where
  "kv_get_request ce k = plain_request ce ''GET /api/v1/kv/{key}'' [(''key'', k)] [''api'', ''v1'', ''kv'', k] [] None"

lemma kv_request_facts:
  "PathValue (kv_put_request ce k v) ''key'' = k" "PathValue (kv_get_request ce k) ''key'' = k"
  "decode_body (kv_put_request ce k v) (body_str ''value'') = Inr v"
  by (simp_all add: kv_put_request_def kv_get_request_def plain_request_def PathValue_def decode_body_def body_str_def jfield_Cons ascii_lower_def)

lemma kv_path:
  assumes "plain_name k"
  shows "plain_path [''api'', ''v1'', ''kv'', k]"
    and "match_segs [''api'', ''v1'', ''kv'', ''{key}''] [''api'', ''v1'', ''kv'', k] = Some [(''key'', k)]"
proof -
  have "k \<noteq> []" "k \<noteq> ''/''" using assms plain_byte_facts [of "CHR ''/''"] by (auto simp: plain_name_def)
  then show "match_segs [''api'', ''v1'', ''kv'', ''{key}''] [''api'', ''v1'', ''kv'', k] = Some [(''key'', k)]" by simp
qed (use assms in \<open>simp add: plain_path_def plain_name_def plain_byte_def is_alnum_def\<close>)

lemma kv_patterns:
  "parse_pattern ''PUT /api/v1/kv/{key}'' = (''PUT'', [''api'', ''v1'', ''kv'', ''{key}''])"
  "parse_pattern ''GET /api/v1/kv/{key}'' = (''GET'', [''api'', ''v1'', ''kv'', ''{key}''])"
  by (simp_all add: parse_pattern_def)

lemma kv_set_call:
  fixes w :: "'p world"
  assumes "found ce port w w1 s" and "ce_conn ce (w_calls w1) = None" and "ac_NoAuth (cg_Auth (sv_cfg s))"
    and "plain_name k" and "ce_wire ce v = v"
    and "handleKVSet (ce_env ce (w_calls w1)) (kv_put_request ce k v) s = (s1, resp)" and "reply_of (ce_text ce) resp = Inr reply"
  shows "kvSetCmd ce port k v w =
      (w1\<lparr>w_servers := (w_servers w1)(probe_port port := Some s1), w_calls := w_calls w1 + 1\<rparr>, checked 204 [] reply)"
proof -
  have "(''PUT /api/v1/kv/{key}'', handleKVSet :: 'p handler) \<in> set authed_routes" by (simp add: authed_routes_def)
  from request_open [OF assms(1-3) kv_path(1) [OF assms(4)] this kv_patterns(1) kv_path(2) [OF assms(4)] assms(6) [unfolded kv_put_request_def] assms(7)]
  show ?thesis using assms(5) by (simp add: kvSetCmd_def arg_def jstr_def)
qed

lemma kv_get_call:
  fixes w :: "'p world"
  assumes "found ce port w w1 s" and "ce_conn ce (w_calls w1) = None" and "ac_NoAuth (cg_Auth (sv_cfg s))" and "plain_name k"
    and "handleKVGet (ce_env ce (w_calls w1)) (kv_get_request ce k) s = (s1, resp)" and "reply_of (ce_text ce) resp = Inr reply"
  shows "snd (kvGetCmd ce port k w) = show_value k reply"
proof -
  have "(''GET /api/v1/kv/{key}'', handleKVGet :: 'p handler) \<in> set authed_routes" by (simp add: authed_routes_def)
  from request_open [where look = "show_value k", OF assms(1-3) kv_path(1) [OF assms(4)] this kv_patterns(2) kv_path(2) [OF assms(4)] assms(5) [unfolded kv_get_request_def] assms(6)]
  show ?thesis by (simp add: kvGetCmd_def)
qed

text \<open>
  C19: What \<open>rdw kv set\<close> stores, \<open>rdw kv get\<close> prints: against an open server, setting a legal key to a value
  that fits succeeds silently, and whenever the client then asks the same server, it prints that value;
  a value that does not fit is refused and changes nothing.
\<close>

theorem kv_set_get:
  fixes w :: "'p world"
  assumes "found ce port w w1 s" and "ce_conn ce (w_calls w1) = None" and "ac_NoAuth (cg_Auth (sv_cfg s))"
    and "srv_ok compile s" and "ParseKey k = Inr key" and "plain_name k" and "ce_wire ce v = v"
  shows "case kvSetCmd ce port k v w of (w', r) \<Rightarrow>
    if kv_accepts (h_kv s) key v
    then r = Inr []
      \<and> (\<forall>w2 s2. found ce port w' w2 s2 \<and> ce_conn ce (w_calls w') = None \<and> ce_conn ce (w_calls w2) = None \<longrightarrow>
           snd (kvGetCmd ce port k w') = Inr [(''%s'', [OStr v])])
    else (\<exists>e. r = Inl e) \<and> w_servers w' (probe_port port) = Some s"
proof -
  let ?put = "kv_put_request ce k v" and ?get = "kv_get_request ce k"
  note path = kv_request_facts(1,2) [of ce k]
  have key: "ParseKey (PathValue ?put ''key'') = Inr key" using assms(5) path by simp
  obtain s1 resp where set: "handleKVSet (ce_env ce (w_calls w1)) ?put s = (s1, resp)" by fastforce
  note post = kv_over_http [OF assms(4) key kv_request_facts(3), of "ce_env ce (w_calls w1)", unfolded set prod.case path]
  obtain reply where reply: "reply_of (ce_text ce) resp = Inr reply" using post by (auto split: if_splits)
  note run = kv_set_call [OF assms(1-3,6,7) set reply]
  let ?w = "w1\<lparr>w_servers := (w_servers w1)(probe_port port := Some s1), w_calls := w_calls w1 + 1\<rparr>"
  show ?thesis
  proof (cases "kv_accepts (h_kv s) key v")
    case True
    have "snd (kvGetCmd ce port k ?w) = Inr [(''%s'', [OStr v])]"
      if f: "found ce port ?w w2 s2" and c: "ce_conn ce (w_calls ?w) = None" "ce_conn ce (w_calls w2) = None" for w2 s2
    proof -
      obtain rl where s2: "s2 = s1\<lparr>sv_rl := rl\<rparr>" using found_server [OF f c(1)] by auto
      have same: "handleKVGet ev ?get s2 = (s2, snd (handleKVGet ev ?get s1))" for ev :: "'p env"
        using assms(5) by (simp add: s2 handleKVGet_def Let_def path split: option.split)
      have "snd (handleKVGet (ce_env ce (w_calls w2)) ?get s1) = JsonOk (jstrs [(''key'', k), (''value'', v)])"
        using post True path by auto
      with same have get: "handleKVGet (ce_env ce (w_calls w2)) ?get s2 = (s2, JsonOk (jstrs [(''key'', k), (''value'', v)]))" by simp
      have cfg: "ac_NoAuth (cg_Auth (sv_cfg s2))"
        using set assms(3,5) s2 path(1) kv_request_facts(3) [of ce k v] by (auto simp: handleKVSet_def Let_def split: sum.splits option.splits)
      have "reply_of (ce_text ce) (JsonOk (jstrs [(''key'', k), (''value'', v)])) = Inr (200, JsonBody (jstrs [(''key'', k), (''value'', v)]))" by simp
      from kv_get_call [OF f c(2) cfg assms(6) get this] show ?thesis by (simp add: show_value_def jstrs_def dec_str_map_def)
    qed
    moreover have "checked 204 [] reply = Inr []" using post True reply by (auto simp: checked_def checkStatus_def)
    ultimately show ?thesis using True by (auto simp: run)
  next
    case False
    then have "s1 = s" and "fst reply = 413" using post reply by auto
    then show ?thesis using False checked_fails [of 413 204 "[]" "snd reply"] by (cases reply) (simp add: run)
  qed
qed

lemma start_pinged:
  "found ce_example 0 (world_of start_example)
     ((world_of start_example)\<lparr>w_servers := [7681 \<mapsto> start_example\<lparr>sv_rl := pinged 1\<rparr>], w_calls := 1\<rparr>) (start_example\<lparr>sv_rl := pinged 1\<rparr>)"
  "srv_ok (\<lambda>_. None) (start_example\<lparr>sv_rl := pinged 1\<rparr>)" "ac_NoAuth (cg_Auth (sv_cfg (start_example\<lparr>sv_rl := pinged 1\<rparr>)))"
proof -
  have "sv_rl start_example = NewRateLimiter" by (simp add: start_example_def sv_New_def Let_def)
  with found_example [of "world_of start_example" start_example 0]
  show "found ce_example 0 (world_of start_example)
     ((world_of start_example)\<lparr>w_servers := [7681 \<mapsto> start_example\<lparr>sv_rl := pinged 1\<rparr>], w_calls := 1\<rparr>) (start_example\<lparr>sv_rl := pinged 1\<rparr>)"
    by (simp add: world_of_def)
  show "srv_ok (\<lambda>_. None) (start_example\<lparr>sv_rl := pinged 1\<rparr>)"
    by (rule srv_upd(4) [OF reach_ok [OF start_example_reach]]) (simp add: pinged_def gm_ok_def)
  show "ac_NoAuth (cg_Auth (sv_cfg (start_example\<lparr>sv_rl := pinged 1\<rparr>)))" by (simp add: start_example_def sv_New_def cfg_example_def Let_def)
qed

theorem kv_set_get_witness:
  "\<exists>w'. kvSetCmd ce_example 0 ''k'' ''v1'' (world_of start_example) = (w', Inr [])
    \<and> snd (kvGetCmd ce_example 0 ''k'' w') = Inr [(''%s'', [OStr ''v1''])]"
proof -
  let ?s = "start_example\<lparr>sv_rl := pinged 1\<rparr>" and ?w = "world_of start_example"
  let ?w1 = "?w\<lparr>w_servers := [7681 \<mapsto> ?s], w_calls := 1\<rparr>"
  note f = start_pinged(1) and ok = start_pinged(2) and auth = start_pinged(3)
  have conn: "ce_conn ce_example n = None" for n by (simp add: ce_example_def)
  have key: "ParseKey ''k'' = Inr (Key ''k'')" by code_simp
  have plain: "plain_name ''k''" by (simp add: plain_name_def plain_byte_def is_alnum_def)
  have wire: "ce_wire ce_example ''v1'' = ''v1''" by (simp add: ce_example_def)
  have acc: "kv_accepts (h_kv ?s) (Key ''k'') ''v1''"
    by (simp add: kv_accepts_def start_example_def sv_New_def Let_def kv_New_def ValueMaxBytes_def StoreMaxBytes_def kv_Get_def gm_get_def)
  obtain w' r where run: "kvSetCmd ce_example 0 ''k'' ''v1'' ?w = (w', r)" by fastforce
  note main = kv_set_get [OF f conn auth ok key plain wire, unfolded run prod.case, simplified acc if_True]
  obtain kv where kv: "kv_Set (Key ''k'') ''v1'' (h_kv ?s) = Inr kv"
    using acc kvs.accepts_iff [OF srv_parts(2) [OF ok], of "Key ''k''" "''v1''"] by (cases "kv_Set (Key ''k'') ''v1'' (h_kv ?s)") auto
  have db: "sv_kvDB ?s = None" by (simp add: start_example_def sv_New_def Let_def)
  have set: "handleKVSet (ce_env ce_example (w_calls ?w1)) (kv_put_request ce_example ''k'' ''v1'') ?s = (?s\<lparr>h_kv := kv\<rparr>, NoContent)"
    using kv db by (simp add: handleKVSet_def kv_request_facts key Let_def)
  let ?w' = "?w1\<lparr>w_servers := (w_servers ?w1)(7681 \<mapsto> ?s\<lparr>h_kv := kv\<rparr>), w_calls := w_calls ?w1 + 1\<rparr>"
  have "w' = ?w'"
    using kv_set_call [OF f conn auth plain wire set, of "(204, NoBody)"] run by (simp add: probe_port_def ds_DefaultPort_def)
  then have s1: "w_servers w' 7681 = Some (?s\<lparr>h_kv := kv\<rparr>)" "sv_rl (?s\<lparr>h_kv := kv\<rparr>) = pinged 1" by simp_all
  from found_example [OF s1(1), of 1] s1(2) obtain w2 s2 where "found ce_example 0 w' w2 s2" by auto
  with main conn run show ?thesis by blast
qed

section \<open>Layout files\<close>

lemma layout_path:
  assumes "plain_name n"
  shows "plain_path [''api'', ''v1'', ''layouts'', n, ''apply'']" and "plain_path [''api'', ''v1'', ''layouts'']"
    and "match_segs [''api'', ''v1'', ''layouts'', ''{name}'', ''apply''] [''api'', ''v1'', ''layouts'', n, ''apply''] = Some [(''name'', n)]"
proof -
  have "n \<noteq> []" "n \<noteq> ''/''" using assms plain_byte_facts [of "CHR ''/''"] by (auto simp: plain_name_def)
  then show "match_segs [''api'', ''v1'', ''layouts'', ''{name}'', ''apply''] [''api'', ''v1'', ''layouts'', n, ''apply''] = Some [(''name'', n)]"
    by simp
qed (use assms in \<open>simp_all add: plain_path_def plain_name_def plain_byte_def is_alnum_def\<close>)

lemma layout_patterns:
  "parse_pattern ''POST /api/v1/layouts/{name}/apply'' = (''POST'', [''api'', ''v1'', ''layouts'', ''{name}'', ''apply''])"
  "parse_pattern ''POST /api/v1/layouts'' = (''POST'', [''api'', ''v1'', ''layouts''])"
  by (simp_all add: parse_pattern_def)

definition apply_request :: "'p client_env \<Rightarrow> string \<Rightarrow> request" where
  "apply_request ce n = plain_request ce ''POST /api/v1/layouts/{name}/apply'' [(''name'', n)] [''api'', ''v1'', ''layouts'', n, ''apply''] [] None"

definition save_request :: "'p client_env \<Rightarrow> string \<Rightarrow> request" where
  "save_request ce n = plain_request ce ''POST /api/v1/layouts'' [] [''api'', ''v1'', ''layouts''] [] (Some (JObj [(''name'', JStr n)]))"

lemma layout_request_facts:
  "PathValue (apply_request ce n) ''name'' = n" "decode_body (save_request ce n) (body_str ''name'') = Inr n"
  by (simp_all add: apply_request_def save_request_def plain_request_def PathValue_def decode_body_def body_str_def jfield_Cons ascii_lower_def)

lemma do_apply:
  fixes w :: "'p world"
  assumes "ce_conn ce (w_calls w) = None" and "w_servers w (rc_port rc) = Some s" and "rc_token rc = []"
    and "ac_NoAuth (cg_Auth (sv_cfg s))" and "plain_name n"
    and "handleLayoutApply (ce_env ce (w_calls w)) (apply_request ce n) s = (s', resp)" and "reply_of (ce_text ce) resp = Inr reply"
  shows "rest_do ce rc ''POST'' (''/api/v1/layouts/'' @ n @ ''/apply'') None w =
    (w\<lparr>w_servers := (w_servers w)(rc_port rc := Some s'), w_calls := w_calls w + 1\<rparr>, Inr reply)"
proof -
  have "(''POST /api/v1/layouts/{name}/apply'', handleLayoutApply :: 'p handler) \<in> set authed_routes" by (simp add: authed_routes_def)
  from do_open [OF assms(1-4) layout_path(1) [OF assms(5)] this layout_patterns(1) layout_path(3) [OF assms(5)]
      assms(6) [unfolded apply_request_def] assms(7)]
  show ?thesis by simp
qed

lemma do_save:
  fixes w :: "'p world"
  assumes "ce_conn ce (w_calls w) = None" and "w_servers w (rc_port rc) = Some s" and "rc_token rc = []"
    and "ac_NoAuth (cg_Auth (sv_cfg s))" and "plain_name n" and "ce_wire ce n = n"
  shows "rest_do ce rc ''POST'' ''/api/v1/layouts'' (arg ce ''name'' n) w =
    (w\<lparr>w_servers := (w_servers w)(rc_port rc := Some (s\<lparr>sv_layouts := gm_put n (mg_Snapshot (sv_manager s)) (sv_layouts s)\<rparr>)),
       w_calls := w_calls w + 1\<rparr>, Inr (201, NoBody))"
proof -
  have route: "(''POST /api/v1/layouts'', handleLayoutSave :: 'p handler) \<in> set authed_routes" by (simp add: authed_routes_def)
  have match: "match_segs [''api'', ''v1'', ''layouts''] [''api'', ''v1'', ''layouts''] = Some []" by simp
  have "n \<noteq> []" using assms(5) by (simp add: plain_name_def)
  then have save: "handleLayoutSave (ce_env ce (w_calls w)) (save_request ce n) s =
      (s\<lparr>sv_layouts := gm_put n (mg_Snapshot (sv_manager s)) (sv_layouts s)\<rparr>, Created)"
    by (simp add: handleLayoutSave_def layout_request_facts)
  have "reply_of (ce_text ce) Created = Inr (201, NoBody)" by simp
  from do_open [OF assms(1-4) layout_path(2) [OF assms(5)] route layout_patterns(2) match save [unfolded save_request_def] this]
  show ?thesis using assms(6) by (simp add: arg_def jstr_def)
qed

text \<open>
  C21: A layout file is never applied: when \<open>rdw layout apply\<close> is given a file instead of the name of a
  saved layout, it reads and validates the file and reports success, but what it sends to the server is
  the layout's name only; the server saves the session as it is under that name, over any layout saved
  there before, and applies that. The windows of the file play no part, and the session stays as it was.
\<close>

theorem layout_file_not_applied:
  fixes w :: "'p world"
  assumes "found ce port w w1 s" and "\<And>n. ce_conn ce n = None" and "ac_NoAuth (cg_Auth (sv_cfg s))" and "srv_ok compile s"
    and "plain_name ref" and "gm_get (sv_layouts s) ref = None" and "load_ref ce ref = Inr l" and "l_SchemaVersion l = 1"
    and "plain_name name" and "name = (if l_Name l = [] then ref else l_Name l)" and "ce_wire ce name = name"
    and "int (length (mg_windows (sv_manager s))) < 2 ^ 63"
    and "list_all (\<lambda>w. list_all (\<lambda>p. int64 (pn_ScrollbackCap p)) (wn_Panes w)) (mg_windows (sv_manager s))"
  shows "\<exists>w' s'. layoutApplyCmd ce port ref w = (w', Inr []) \<and> w_servers w' (probe_port port) = Some s'
    \<and> mg_windows (sv_manager s') = mg_windows (sv_manager s) \<and> mg_active (sv_manager s') = mg_active (sv_manager s)
    \<and> gm_get (sv_layouts s') name = Some (mg_Snapshot (sv_manager s))"
proof -
  let ?rc = "\<lparr>rc_port = probe_port port, rc_token = []\<rparr>"
  have new: "newRestClient ce port w = (w1, Inr ?rc)" and s: "w_servers w1 (probe_port port) = Some s"
    using assms(1) by (simp_all add: found_def newRestClient_def then_io_def pure_io_def)
  let ?w2 = "w1\<lparr>w_servers := (w_servers w1)(probe_port port := Some s), w_calls := w_calls w1 + 1\<rparr>"
  have miss: "handleLayoutApply (ce_env ce (w_calls w1)) (apply_request ce ref) s = (s, ApiError 404 (''layout not found: '' @ ref) None)"
    using assms(6) by (simp add: handleLayoutApply_def layout_request_facts Let_def)
  obtain b where "reply_of (ce_text ce) (ApiError 404 (''layout not found: '' @ ref) None) = Inr (404, b)" by simp
  from do_apply [of ce w1 ?rc s ref, OF assms(2) _ _ assms(3,5) miss this] s
  have first: "rest_do ce ?rc ''POST'' (''/api/v1/layouts/'' @ ref @ ''/apply'') None w1 = (?w2, Inr (404, b))" by simp
  let ?s3 = "s\<lparr>sv_layouts := gm_put name (mg_Snapshot (sv_manager s)) (sv_layouts s)\<rparr>"
  let ?w3 = "?w2\<lparr>w_servers := (w_servers ?w2)(probe_port port := Some ?s3), w_calls := w_calls ?w2 + 1\<rparr>"
  have save: "rest_do ce ?rc ''POST'' ''/api/v1/layouts'' (arg ce ''name'' name) ?w2 = (?w3, Inr (201, NoBody))"
    using do_save [of ce ?w2 ?rc s name, OF assms(2) _ _ assms(3,9,11)] by simp
  have "gm_get (sv_layouts ?s3) (PathValue (apply_request ce name) ''name'') = Some (mg_Snapshot (sv_manager s))"
    by (simp add: layout_request_facts gm_get_put)
  from apply_saved [OF srv_parts(9) [OF assms(4)] assms(12,13) this, of "ce_env ce (w_calls ?w3)"] obtain s4 where
    app: "handleLayoutApply (ce_env ce (w_calls ?w3)) (apply_request ce name) ?s3 = (s4, NoContent)"
    and s4: "mg_windows (sv_manager s4) = mg_windows (sv_manager s)" "mg_active (sv_manager s4) = mg_active (sv_manager s)"
      "sv_layouts s4 = sv_layouts ?s3"
    by blast
  let ?w4 = "?w3\<lparr>w_servers := (w_servers ?w3)(probe_port port := Some s4), w_calls := w_calls ?w3 + 1\<rparr>"
  have "reply_of (ce_text ce) NoContent = Inr (204, NoBody)" by simp
  from do_apply [of ce ?w3 ?rc ?s3 name, OF assms(2) _ _ _ assms(9) app this] assms(3)
  have second: "rest_do ce ?rc ''POST'' (''/api/v1/layouts/'' @ name @ ''/apply'') None ?w3 = (?w4, Inr (204, NoBody))" by simp
  have "upload_layout ce ?rc ref l ?w2 = (?w4, Inr [])"
    unfolding upload_layout_def Let_def assms(10) [symmetric] then_io_def save prod.case sum.case second
    by (simp add: pure_io_def checked_def checkStatus_def)
  then have "applyLayoutRef ce ?rc ref w1 = (?w4, Inr [])"
    unfolding applyLayoutRef_def first prod.case assms(7) by (simp add: assms(8))
  then have "layoutApplyCmd ce port ref w = (?w4, Inr [])" unfolding layoutApplyCmd_def then_io_def new prod.case sum.case .
  moreover have "w_servers ?w4 (probe_port port) = Some s4" by simp
  ultimately show ?thesis using s4 by (auto simp: gm_get_put)
qed

theorem layout_file_not_applied_witness:
  "load_ref ce_example ''day'' = Inr selftest_layout
   \<and> (\<exists>w' s'. layoutApplyCmd ce_example 0 ''day'' (world_of start_example) = (w', Inr []) \<and> w_servers w' 7681 = Some s'
       \<and> mg_windows (sv_manager s') = [])"
proof -
  let ?s = "start_example\<lparr>sv_rl := pinged 1\<rparr>"
  have valid: "Layout_Validate selftest_layout = None" by code_simp
  have load: "load_ref ce_example ''day'' = Inr selftest_layout"
    using valid by (simp add: load_ref_def layout_LoadFile_def ce_example_def Layout_Parse_def)
  have conn: "\<And>n. ce_conn ce_example n = None" by (simp add: ce_example_def)
  have plain: "plain_name ''day''" "plain_name ''selftest''" by (simp_all add: plain_name_def plain_byte_def is_alnum_def)
  have l: "l_SchemaVersion selftest_layout = 1" "''selftest'' = (if l_Name selftest_layout = [] then ''day'' else l_Name selftest_layout)"
    by (simp_all add: selftest_layout_def)
  have s: "gm_get (sv_layouts ?s) ''day'' = None" "mg_windows (sv_manager ?s) = []"
    by (simp_all add: start_example_def sv_New_def Let_def gm_get_def NewManager_def)
  have wire: "ce_wire ce_example ''selftest'' = ''selftest''" by (simp add: ce_example_def)
  have few: "int (length (mg_windows (sv_manager ?s))) < 2 ^ 63"
    and caps: "list_all (\<lambda>w. list_all (\<lambda>p. int64 (pn_ScrollbackCap p)) (wn_Panes w)) (mg_windows (sv_manager ?s))" unfolding s(2) by simp_all
  have "probe_port 0 = 7681" by (simp add: probe_port_def ds_DefaultPort_def)
  with layout_file_not_applied [OF start_pinged(1) conn start_pinged(3,2) plain(1) s(1) load l(1) plain(2) l(2) wire few caps] s(2) load
  show ?thesis by auto
qed

section \<open>Sending an image\<close>

lemma send_line:
  fixes w :: "'p world"
  assumes "ce_conn ce (w_calls w) = None" and "ce_socket ce path = Some port" and "w_servers w port = Some s"
    and "ParseTargetID (tid_String t) = Inr t" and "ce_wire ce (tid_String t) = tid_String t" and "ce_wire ce (item_line i) = item_line i"
    and "srv_ok compile s" and "wired (h_router s)" and "rt_Get t (h_router s) = Some p" and "pl_filters p = []" and "item_ok i"
  shows "socket_send ce path t (item_line i) w =
    (w\<lparr>w_servers := (w_servers w)(port := Some (sv_broadcast (message t (item_data i))
         (s\<lparr>h_router := rt_put_pipe t (p\<lparr>pl_scrollback := sb_Append (pl_scrollback p) (item_data i)\<rparr>) (h_router s)\<rparr>))),
       w_calls := w_calls w + 1\<rparr>, True)"
  using send_unix_route [OF assms(4-6) route_item [OF assms(7-11)], of path "ce_env ce (w_calls w)"] assms(1-3)
  by (simp add: socket_send_def socket_call_def unix_send_def Let_def)

lemma image_item:
  "item_ok (Binary data) \<longleftrightarrow> length data \<le> 49146"
  "49146 < length data \<Longrightarrow> 65536 \<le> length (''b64:'' @ b64_encode data)"
proof -
  have len: "length (''b64:'' @ b64_encode data) = 4 + 4 * ((length data + 2) div 3)" by (simp add: length_b64_encode)
  then show long: "49146 < length data \<Longrightarrow> 65536 \<le> length (''b64:'' @ b64_encode data)" by simp
  have "item_ok (Binary data) \<Longrightarrow> \<not> 49146 < length data" 
    by (rule notI, drule long) (simp add: item_ok_def)
  then show "item_ok (Binary data) \<longleftrightarrow> length data \<le> 49146" using binary_ok [of data] by (meson not_less)
qed

text \<open>
  C28: An image that is sent arrives whole, or not at all: the bytes of a PNG file of up to 49146 bytes become
  the newest entry of the pane's scrollback, exactly, and \<open>rdw send\<close> succeeds; for a larger one the line does
  not fit into the scanner of the relay, the command reports that, and the server sees nothing of it.
\<close>

theorem send_image:
  fixes w :: "'p world"
  assumes "found ce port w w1 s" and "ce_conn ce (w_calls w1) = None"
    and "ce_socket ce (unixSocketPath ce (show_int (probe_port port))) = Some (probe_port port)"
    and "srv_ok compile s" and "wired (h_router s)" and "rt_Get t (h_router s) = Some p" and "pl_filters p = []"
    and "ParseTargetID idStr = Inr t" and "ce_wire ce idStr = idStr" and "\<forall>d. ce_wire ce (''b64:'' @ b64_encode d) = ''b64:'' @ b64_encode d"
    and "ce_ReadFile ce file = Inr data" and "ToLower (ce_ulower ce) (path_Ext file) = ''.png''"
    and "\<not> HasPrefix (TrimSpace (take (min 100 (length data)) data)) ''<svg''"
  shows "case runSend ce port idStr file w of (w', r) \<Rightarrow>
    if length data \<le> 49146
    then r = Inr () \<and> (\<exists>s' p'. w_servers w' (probe_port port) = Some s' \<and> rt_Get t (h_router s') = Some p'
        \<and> sb_Lines (pl_scrollback p') = keep_last (sb_Cap (pl_scrollback p)) (sb_Lines (pl_scrollback p) @ [data]))
    else r = Inl ErrTooLong \<and> w_servers w' = w_servers w1"
proof -
  let ?line = "''b64:'' @ b64_encode data" and ?path = "unixSocketPath ce (show_int (probe_port port))"
  have resolve: "resolve_port ce port w = (w1, Inr (probe_port port))" and s: "w_servers w1 (probe_port port) = Some s"
    using assms(1) by (simp_all add: found_def)
  have t: "tid_String t = idStr" using assms(8) by (auto simp: ParseTargetID_Inr)
  have build: "buildSendLine ce file data = ?line" using assms(12,13) by (simp add: buildSendLine_def Let_def)
  have run: "runSend ce port idStr file w = relay_io ce (probe_port port) t 10 (?line @ [LF]) w1"
    unfolding runSend_def then_io_def assms(11) sum.case resolve prod.case assms(8) build ..
  have free: "LF \<notin> set ?line" using b64_encode_no_LF [of data] by simp
  show ?thesis
  proof (cases "length data \<le> 49146")
    case True
    then have ok: "item_ok (Binary data)" by (simp add: image_item)
    then have "scan_lines (?line @ [LF]) = ([?line], False)"
      using scan_lines_one [OF free] by (simp add: item_ok_def MaxScanTokenSize_def)
    moreover have "hybrid_lines [?line] = [?line]" by simp
    ultimately have "relay_io ce (probe_port port) t 10 (?line @ [LF]) w1 =
        (case socket_send ce ?path t ?line w1 of (w', sent) \<Rightarrow> (w', Inr ()))"
      unfolding relay_io_def Relay_def relay_def by (simp add: relay_line_def split_beta)
    moreover have "socket_send ce ?path t (item_line (Binary data)) w1 = (w1\<lparr>w_servers := (w_servers w1)(probe_port port := Some (sv_broadcast (message t data)
         (s\<lparr>h_router := rt_put_pipe t (p\<lparr>pl_scrollback := sb_Append (pl_scrollback p) data\<rparr>) (h_router s)\<rparr>))),
       w_calls := w_calls w1 + 1\<rparr>, True)"
      using send_line [OF assms(2,3) s _ _ _ assms(4-7) ok] assms(8-10) t by simp
    moreover have "sb_inv (pl_scrollback p)" using srv_parts(1) [OF assms(4)] assms(6) by (auto simp: rt_inv_def pipe_ok_def)
    ultimately show ?thesis
      using True run sb.lines_append [of "pl_scrollback p" data] by (simp add: rt_put_pipe_def rt_Get_def gm_get_put)
  next
    case False
    then have "scan_lines (?line @ LF # []) = ([], True)"
      using scan_lines_too_long [OF free] image_item(2) [of data] by (simp add: MaxScanTokenSize_def)
    then have "relay_io ce (probe_port port) t 10 (?line @ [LF]) w1 = (w1, Inl ErrTooLong)"
      unfolding relay_io_def Relay_def relay_def by simp
    then show ?thesis using False run by simp
  qed
qed

theorem send_image_witness:
  "\<exists>w' s' p'. runSend (ce_example\<lparr>ce_ReadFile := (\<lambda>_. Inr (CHR 0x89 # ''PNG''))\<rparr>) 0 ''a'' ''x.png''
       (world_of (server_example\<lparr>sv_rl := NewRateLimiter\<rparr>)) = (w', Inr ())
     \<and> w_servers w' 7681 = Some s' \<and> rt_Get (TargetID ''a'') (h_router s') = Some p' \<and> sb_Lines (pl_scrollback p') = [CHR 0x89 # ''PNG'']"
proof -
  let ?data = "CHR 0x89 # ''PNG''"
  let ?ce = "ce_example\<lparr>ce_ReadFile := (\<lambda>_. Inr ?data)\<rparr>"
  let ?s = "server_example\<lparr>sv_rl := pinged 1\<rparr>" and ?w = "world_of (server_example\<lparr>sv_rl := NewRateLimiter\<rparr>)"
  let ?p = "newPipeline (TargetID ''a'') 3 (h_router start_example)"
  let ?w1 = "?w\<lparr>w_servers := (w_servers ?w)(7681 \<mapsto> ?s), w_calls := 1\<rparr>"
  have port: "probe_port 0 = 7681" by (simp add: probe_port_def ds_DefaultPort_def)
  have host: "client_host ?ce n = client_host ce_example 0" for n by (simp add: client_host_def plain_request_def ce_example_def remote_host_def)
  have now: "ev_now (ce_env ?ce n) = 0" for n by (simp add: ce_example_def env_example_def)
  have "Allow (ev_now (ce_env ?ce (w_calls ?w))) (client_host ?ce (w_calls ?w)) (sv_rl (server_example\<lparr>sv_rl := NewRateLimiter\<rparr>)) = (pinged 1, True)"
    unfolding host now by (simp add: pinged_def Allow_def NewRateLimiter_def gm_get_def gm_put_def)
  from found_ping [of ?ce ?w 0, OF _ _ this] have f: "found ?ce 0 ?w ?w1 ?s"
    by (simp add: port world_of_def ce_example_def)
  have conn: "ce_conn ?ce (w_calls ?w1) = None" by (simp add: ce_example_def)
  have dig: "digit_char 7 = CHR ''7''" "digit_char 6 = CHR ''6''" "digit_char 8 = CHR ''8''" "digit_char 1 = CHR ''1''" by code_simp+
  have digits: "show_int 7681 = ''7681''" by (simp add: show_int_def show_nat.simps dig [simplified])
  have sock: "ce_socket ?ce (unixSocketPath ?ce (show_int (probe_port 0))) = Some (probe_port 0)"
    unfolding port digits by (simp add: unixSocketPath_def ce_example_def)
  have ok: "srv_ok (\<lambda>_. None) ?s" by (rule srv_upd(4) [OF reach_ok [OF server_example_reach]]) (simp add: pinged_def gm_ok_def)
  have wired: "wired (h_router ?s)" using wiring.reach [OF server_example_reach] by simp
  have pipe: "rt_Get (TargetID ''a'') (h_router ?s) = Some ?p" using example_fields(2) by simp
  have fresh: "pl_filters ?p = []" by (simp add: newPipeline_fresh)
  have target: "ParseTargetID ''a'' = Inr (TargetID ''a'')" by code_simp
  have wire: "ce_wire ?ce ''a'' = ''a''" "\<forall>d. ce_wire ?ce (''b64:'' @ b64_encode d) = ''b64:'' @ b64_encode d" by (simp_all add: ce_example_def)
  have readf: "ce_ReadFile ?ce ''x.png'' = Inr ?data" by simp
  have ext: "ToLower (ce_ulower ?ce) (path_Ext ''x.png'') = ''.png''"
    by (simp add: path_Ext_def ToLower_def is_ascii_def ascii_lower_def)
  have svg: "\<not> HasPrefix (TrimSpace (take (min 100 (length ?data)) ?data)) ''<svg''" by code_simp
  have c: "sb_Cap (pl_scrollback ?p) = 3" "sb_Lines (pl_scrollback ?p) = []"
    by (simp_all add: newPipeline_fresh) (simp add: newPipeline_def Let_def pl_New_def AddSink_def NewScrollbackBuffer_def sb_Cap_def
        MaxScrollbackCap_def split: option.split)
  obtain w' r where run: "runSend ?ce 0 ''a'' ''x.png'' ?w = (w', r)" by fastforce
  from send_image [OF f conn sock ok wired pipe fresh target wire readf ext svg, unfolded run prod.case c]
  show ?thesis unfolding run by (auto simp: port keep_last_def)
qed

section \<open>The flags of the server\<close>

text \<open>
  What the flags of \<open>rdw server start\<close> reach: when the configuration can be loaded, the server starts
  with its port, exposure, authentication and admin token as the flags say, else as configured; but
  \<open>--kv-persist\<close> and \<open>--restore\<close> have no effect on it: it starts with an empty store, an empty session and
  no database, whatever is stored.
\<close>

theorem start_flags_reach:
  assumes "cfg_Load read yaml path = Inr cfg"
  shows "\<exists>s. runServerStart read yaml path fl = Inr s
    \<and> sv_port s = (if sf_port fl = 0 then sc_Port (cg_Server cfg) else sf_port fl)
    \<and> sc_NetworkExpose (cg_Server (sv_cfg s)) = (sf_network_expose fl \<or> sc_NetworkExpose (cg_Server cfg))
    \<and> ac_NoAuth (cg_Auth (sv_cfg s)) = (sf_no_auth fl \<or> ac_NoAuth (cg_Auth cfg))
    \<and> ac_AdminToken (cg_Auth (sv_cfg s)) = (if sf_admin_token fl = [] then ac_AdminToken (cg_Auth cfg) else sf_admin_token fl)
    \<and> (\<forall>ev open rows. \<exists>s'. sv_Run_start ev open rows s = Inr s'
         \<and> sv_kvDB s' = None \<and> h_kv s' = kv_New \<and> sv_manager s' = NewManager)"
  using assms
  by (simp add: runServerStart_def Let_def start_config_def start_state) (simp add: sv_New_def Let_def)

theorem start_flags_reach_witness:
  "\<exists>s :: nat server. runServerStart (\<lambda>_. Inl (Extern ''no file'')) (\<lambda>_ c. Inr c) []
      \<lparr>sf_port = 9000, sf_network_expose = False, sf_no_auth = True, sf_restore = True, sf_kv_persist = ''kv.db'', sf_admin_token = []\<rparr> = Inr s
     \<and> sv_port s = 9000 \<and> ac_NoAuth (cg_Auth (sv_cfg s))"
proof -
  have "cfg_Load (\<lambda>_. Inl (Extern ''no file'')) (\<lambda>_ c. Inr c) [] = Inr cfg_Default" by (simp add: cfg_Load_def)
  from start_flags_reach [OF this, of "\<lparr>sf_port = 9000, sf_network_expose = False, sf_no_auth = True, sf_restore = True, sf_kv_persist = ''kv.db'', sf_admin_token = []\<rparr>"]
  obtain s :: "nat server" where "runServerStart (\<lambda>_. Inl (Extern ''no file'')) (\<lambda>_ c. Inr c) []
      \<lparr>sf_port = 9000, sf_network_expose = False, sf_no_auth = True, sf_restore = True, sf_kv_persist = ''kv.db'', sf_admin_token = []\<rparr> = Inr s"
    "sv_port s = 9000" "ac_NoAuth (cg_Auth (sv_cfg s))" by auto
  then show ?thesis by blast
qed

end
