(* ===== verification/Web_Flows.thy ===== *)
theory Web_Flows
  imports Web_Session Cli_Flows
begin

text \<open>
  The page together with the server: the requests it makes reach the routes through the same URL parsing
  as those of the command line, and the frames it receives are those of its connection.
\<close>

section \<open>Paths\<close>

definition uri_path :: "string list \<Rightarrow> string" where
  "uri_path ss = ''/'' @ join_with ''/'' (map encodeURIComponent ss)"

lemma encode_Nil [simp]: "encodeURIComponent [] = []"
  by (simp add: encodeURIComponent_def)

lemma encode_Cons:
  "encodeURIComponent (c # s) = (if uri_byte c then c # encodeURIComponent s
     else CHR ''%'' # hex_upper (of_char c div 16) # hex_upper (of_char c mod 16) # encodeURIComponent s)"
  by (simp add: encodeURIComponent_def)

lemma nibbles: "of_char c div 16 < (16::nat)" "of_char c mod 16 < (16::nat)"
  using nat_of_char_less_256 [of c] by (simp_all add: div_less_iff_less_mult)

lemma hex_upper_facts:
  "d < 16 \<Longrightarrow> hex_char (hex_upper d) \<and> hex_value (hex_upper d) = d \<and> uri_byte (hex_upper d)"
  by (auto simp: hex_upper_def hex_char_def hex_value_def uri_byte_def is_digit_def Let_def)

lemma uri_byte_facts:
  "uri_byte c \<Longrightarrow> escaped_byte c \<and> \<not> ctl_byte c \<and> c \<noteq> CHR ''%'' \<and> c \<noteq> CHR ''#'' \<and> c \<noteq> CHR ''?'' \<and> c \<noteq> CHR ''/''"
  by (auto simp: uri_byte_def escaped_byte_def path_byte_def is_alnum_def ctl_byte_def is_digit_def Let_def)

lemma percent_facts: "escaped_byte (CHR ''%'') \<and> \<not> ctl_byte (CHR ''%'')"
  by code_simp

lemma encode_bytes: "c \<in> set (encodeURIComponent s) \<Longrightarrow> uri_byte c \<or> c = CHR ''%''"
proof (induction s)
  case (Cons d s)
  then show ?case using hex_upper_facts [OF nibbles(1) [of d]] hex_upper_facts [OF nibbles(2) [of d]]
    by (auto simp: encode_Cons split: if_splits)
qed simp

lemma unescape_encode: "url_unescape (encodeURIComponent s @ t) = map_option (append s) (url_unescape t)"
proof (induction s)
  case Nil
  then show ?case by (simp add: option.map_ident)
next
  case (Cons d s)
  have d: "hex_char (hex_upper (of_char d div 16)) \<and> hex_value (hex_upper (of_char d div 16)) = of_char d div 16"
    "hex_char (hex_upper (of_char d mod 16)) \<and> hex_value (hex_upper (of_char d mod 16)) = of_char d mod 16"
    using hex_upper_facts [OF nibbles(1) [of d]] hex_upper_facts [OF nibbles(2) [of d]] by blast+
  have "d \<noteq> CHR ''%''" if "uri_byte d" using uri_byte_facts [OF that] by blast
  then show ?case using Cons d by (simp add: encode_Cons option.map_comp comp_def)
qed

lemma unescaped_encode: "unescaped (encodeURIComponent s) = s"
  using unescape_encode [of s "[]"] by (simp add: unescaped_def)


lemma encode_free: "list_all uri_byte s \<Longrightarrow> encodeURIComponent s = s"
  by (induction s) (simp_all add: encode_Cons)

text \<open>A name that survives the cleaning of a path.\<close>

definition uri_name :: "string \<Rightarrow> bool" where
  "uri_name s \<longleftrightarrow> s \<noteq> [] \<and> s \<noteq> ''.'' \<and> s \<noteq> ''..''"

lemma encoded_name: "uri_name s \<Longrightarrow> encodeURIComponent s \<noteq> [] \<and> encodeURIComponent s \<noteq> ''.'' \<and> encodeURIComponent s \<noteq> ''..''"
proof -
  assume s: "uri_name s"
  have "encodeURIComponent s = e \<Longrightarrow> unescaped e = s" for e using unescaped_encode by blast
  moreover have "unescaped [] = []" "unescaped ''.'' = ''.''" "unescaped ''..'' = ''..''" by (simp_all add: unescaped_def)
  ultimately show ?thesis using s unfolding uri_name_def by metis
qed

lemma unescape_join: "url_unescape (join_with ''/'' (map encodeURIComponent ss)) = Some (join_with ''/'' ss)"
proof (induction ss rule: induct_list012)
  case (2 x)
  then show ?case using unescape_encode [of x "[]"] by simp
qed (simp_all add: unescape_encode)

lemma uri_path_bytes: "c \<in> set (uri_path ss) \<Longrightarrow> uri_byte c \<or> c = CHR ''%'' \<or> c = CHR ''/''"
  using set_join [of "CHR ''/''" "map encodeURIComponent ss"] encode_bytes by (auto simp: uri_path_def)

lemma parse_uri: "parse_target (uri_path ss) = Inr (uri_path ss, [])"
proof -
  let ?p = "uri_path ss"
  have ok: "escaped_byte c \<and> \<not> ctl_byte c \<and> c \<noteq> CHR ''#'' \<and> c \<noteq> CHR ''?''" if "c \<in> set ?p" for c
    using uri_path_bytes [OF that] uri_byte_facts [of c] percent_facts slash_facts by auto
  have tw: "takeWhile (\<lambda>c. c \<noteq> CHR ''#'') ?p = ?p" "takeWhile (\<lambda>c. c \<noteq> CHR ''?'') ?p = ?p"
    by (rule takeWhile_all, use ok in blast)+
  have "url_unescape ?p = Some (''/'' @ join_with ''/'' ss)" by (simp add: uri_path_def unescape_join)
  moreover have "\<not> list_ex ctl_byte ?p" "list_all escaped_byte ?p" using ok by (auto simp: list_ex_iff list_all_iff)
  ultimately show ?thesis unfolding parse_target_def Let_def tw by simp
qed

lemma clean_encoded: "list_all uri_name ss \<Longrightarrow> clean_segs acc (map encodeURIComponent ss) = rev acc @ map encodeURIComponent ss"
  by (induction ss arbitrary: acc) (simp_all add: encoded_name)

text \<open>The server sees the names the page has put into the path, whatever bytes they are made of.\<close>

lemma serve_uri:
  assumes "ss \<noteq> []" and "list_all uri_name ss"
  shows "http_serve ce ev meth (uri_path ss, []) token v s = serve_segs ce ev meth ss [] token v s"
proof -
  let ?es = "map encodeURIComponent ss"
  have split: "split_on (CHR ''/'') (join_with ''/'' ?es) = ?es"
  proof (rule split_on_join)
    fix x assume "x \<in> set ?es"
    then show "CHR ''/'' \<notin> set x" using encode_bytes uri_byte_facts [of "CHR ''/''"] by fastforce
  qed (use assms(1) in simp)
  have "last ?es \<noteq> []" using assms encoded_name [of "last ss"] last_in_set [of ss] by (simp add: last_map list_all_iff)
  then have clean: "clean_path ?es = ?es"
    using assms(1) clean_encoded [OF assms(2), of "[]"] by (cases ?es) (simp_all add: clean_path_def del: clean_segs.simps)
  have "map unescaped ?es = ss" by (simp add: unescaped_encode map_idI)
  then show ?thesis by (simp add: http_serve_def uri_path_def split clean Let_def del: map_map)
qed

section \<open>Requests and frames\<close>

text \<open>
  \<open>api\<close>: a request without an \<open>Authorization\<close> header. It fails when the answer is not a success; an
  answer without JSON is \<open>null\<close>.
\<close>

definition api :: "'p client_env \<Rightarrow> 'p env \<Rightarrow> string \<Rightarrow> string \<Rightarrow> jval option \<Rightarrow> 'p server \<Rightarrow> 'p server \<times> jval result" where
  "api ce ev meth path v s =
     (case parse_target path of
        Inl e \<Rightarrow> (s, Inl e)
      | Inr target \<Rightarrow>
          (case http_serve ce ev meth target [] v s of
             (s', Inl e) \<Rightarrow> (s', Inl e)
           | (s', Inr (status, b)) \<Rightarrow>
               (s', if 200 \<le> status \<and> status < 300 then Inr (case b of JsonBody j \<Rightarrow> j | _ \<Rightarrow> JNull)
                    else Inl (Extern ''request failed''))))"

definition reloadSession :: "'p client_env \<Rightarrow> 'p env \<Rightarrow> js_env \<Rightarrow> page \<times> 'p server \<Rightarrow> page \<times> 'p server" where
  "reloadSession ce ev je ps =
     (case ps of (st, s) \<Rightarrow>
        (case api ce ev ''GET'' (API @ ''/session'') None s of
           (s', Inr v) \<Rightarrow> (set_layout je v st, s')
         | (s', Inl _) \<Rightarrow> (st, s')))"

text \<open>What an effect does: the request, and what is chained to its success.\<close>

fun perform :: "'p client_env \<Rightarrow> 'p env \<Rightarrow> js_env \<Rightarrow> web_effect \<Rightarrow> page \<times> 'p server \<Rightarrow> page \<times> 'p server" where
  "perform ce ev je (Fetch meth path v th) (st, s) =
     (case api ce ev meth path v s of
        (s', Inl _) \<Rightarrow> (st, s')
      | (s', Inr _) \<Rightarrow>
          (case th of
             ReloadOrAlert \<Rightarrow> reloadSession ce ev je (st, s')
           | DeleteCurrentThenReload \<Rightarrow>
               (case api ce ev ''DELETE'' (API @ ''/windows/'' @ encodeURIComponent (currentWindowName st)) None s' of
                  (s'', Inl _) \<Rightarrow> (st, s'')
                | (s'', Inr _) \<Rightarrow> reloadSession ce ev je (st, s''))
           | _ \<Rightarrow> (st, s')))"
| "perform ce ev je Reload (st, s) = reloadSession ce ev je (st, s)"
| "perform ce ev je (Ask _ _ _) (st, s) = (st, s)"
| "perform ce ev je (Alert _) (st, s) = (st, s)"

text \<open>One frame from the write pump of connection \<open>c\<close> to the page.\<close>

definition receive :: "js_env \<Rightarrow> nat \<Rightarrow> page \<times> 'p server \<Rightarrow> page \<times> web_effect list \<times> 'p server" where
  "receive je c ps =
     (case ps of (st, s) \<Rightarrow>
        (case writePump c (sv_hub s) of
           (h, Some (TextFrame f)) \<Rightarrow> (case handle_frame je True f st of (st', effs) \<Rightarrow> (st', effs, s\<lparr>sv_hub := h\<rparr>))
         | (h, _) \<Rightarrow> (st, [], s\<lparr>sv_hub := h\<rparr>)))"

text \<open>A round: what is pending is performed, then one frame arrives.\<close>

definition tab_round :: "'p client_env \<Rightarrow> js_env \<Rightarrow> nat \<Rightarrow> 'p env \<Rightarrow> page \<times> web_effect list \<times> 'p server \<Rightarrow> page \<times> web_effect list \<times> 'p server" where
  "tab_round ce je c ev t = (case t of (st, effs, s) \<Rightarrow> receive je c (fold (perform ce ev je) effs (st, s)))"

text \<open>A request to an authenticated route of a server without authentication.\<close>

lemma api_open:
  assumes "ac_NoAuth (cg_Auth (sv_cfg s))" and "ss \<noteq> []" and "list_all uri_name ss"
    and "(pat, h) \<in> set authed_routes" and "parse_pattern pat = (m, ps)" and "match_segs ps ss = Some binds"
  shows "api ce ev m (uri_path ss) v s =
    (case h ev (plain_request ce pat binds ss [] v) s of (s', resp) \<Rightarrow>
       (s', case reply_of (ce_text ce) resp of
              Inl e \<Rightarrow> Inl e
            | Inr (status, b) \<Rightarrow> if 200 \<le> status \<and> status < 300 then Inr (case b of JsonBody j \<Rightarrow> j | _ \<Rightarrow> JNull)
                else Inl (Extern ''request failed'')))"
proof -
  note pat = authed_pattern [OF assms(4)]
  show ?thesis
    unfolding api_def parse_uri
    using authed_route [OF assms(4), of "sv_cfg s"] assms(1)
    by (simp add: serve_uri [OF assms(2,3)] serve_segs_def mux_eq [OF pat assms(5,6)] plain_request_def sv_serve_def
        authMiddleware_def split: prod.split sum.split)
qed

lemma api_closed:
  assumes "\<not> ac_NoAuth (cg_Auth (sv_cfg s))" and "ss \<noteq> []" and "list_all uri_name ss"
    and "(pat, h :: 'p handler) \<in> set authed_routes" and "parse_pattern pat = (m, ps)" and "match_segs ps ss = Some binds"
  shows "api ce ev m (uri_path ss) v (s :: 'p server) = (s, Inl (Extern ''request failed''))"
proof -
  note pat = authed_pattern [OF assms(4)]
  show ?thesis
    unfolding api_def parse_uri
    using authed_route [OF assms(4), of "sv_cfg s"] assms(1)
    by (simp add: serve_uri [OF assms(2,3)] serve_segs_def mux_eq [OF pat assms(5,6)] sv_serve_def authMiddleware_def)
qed

section \<open>Zoom\<close>

definition zoom_request :: "string \<Rightarrow> web_effect" where
  "zoom_request i = post (''/panes/'' @ encodeURIComponent i @ ''/zoom'') [] LogError"

definition zoom_frame :: "string \<Rightarrow> jval" where
  "zoom_frame i = special ''pane_zoom'' (jstrs [(''target_id'', i)])"

lemma target_name: "ParseTargetID i = Inr t \<Longrightarrow> i \<noteq> [] \<and> uri_name i \<and> i \<noteq> ''/''"
  by (auto simp: ParseTargetID_Inr uri_name_def targetIDPattern_def word_char_def)

lemma zoom_path: "API @ ''/panes/'' @ encodeURIComponent i @ ''/zoom'' = uri_path [''api'', ''v1'', ''panes'', i, ''zoom'']"
  by (simp add: uri_path_def API_def encode_free uri_byte_def is_digit_def)

lemma zoom_effect: "zoom_request i = Fetch ''POST'' (uri_path [''api'', ''v1'', ''panes'', i, ''zoom'']) None LogError"
  using zoom_path [of i] by (simp add: zoom_request_def post_def)

lemma zoom_served:
  assumes "ac_NoAuth (cg_Auth (sv_cfg s))" and "ParseTargetID i = Inr t" and "FindPane t (sv_manager s) \<noteq> None"
  shows "perform ce ev je (zoom_request i) (st, s) = (st, sv_broadcast (zoom_frame i) s)"
proof -
  let ?ss = "[''api'', ''v1'', ''panes'', i, ''zoom'']"
  have names: "list_all uri_name ?ss" using target_name [OF assms(2)] by (simp add: uri_name_def)
  have pat: "(''POST /api/v1/panes/{id}/zoom'', handlePaneZoom) \<in> set authed_routes" by (simp add: authed_routes_def)
  have pp: "parse_pattern ''POST /api/v1/panes/{id}/zoom'' = (''POST'', [''api'', ''v1'', ''panes'', ''{id}'', ''zoom''])"
    by (simp add: parse_pattern_def)
  have binds: "match_segs [''api'', ''v1'', ''panes'', ''{id}'', ''zoom''] ?ss = Some [(''id'', i)]"
    using target_name [OF assms(2)] by simp
  show ?thesis
    using api_open [OF assms(1) _ names pat pp binds, of ce ev None] assms(2,3)
    by (auto simp: zoom_effect handlePaneZoom_def plain_request_def PathValue_def zoom_frame_def Let_def)
qed

lemma zoom_seen:
  "i \<noteq> [] \<Longrightarrow> handle_frame je ws_open (zoom_frame i) st = (fst (togglePaneZoom i st), [zoom_request i])"
  by (simp add: handle_frame_def zoom_frame_def special_def jstrs_def js_text_Cons Let_def dispatch_def togglePaneZoom_def zoom_request_def
      js_get_def)

text \<open>The hub of a single page, with nothing waiting: a frame goes in and comes out.\<close>

definition single :: "nat \<Rightarrow> hub \<Rightarrow> bool" where
  "single c h \<longleftrightarrow> hb_conns h = [c] \<and>
     (\<exists>k. hb_heap h c = Some k \<and> \<not> cn_closed k \<and> cn_send k = [] \<and> \<not> isRevoked (cn_tokenID k) h)"

lemma single_echo:
  assumes "single c (sv_hub s)"
  shows "\<exists>h. sv_broadcast f s = s\<lparr>sv_hub := h\<rparr> \<and> writePump c h = (sv_hub s, Some (TextFrame f))"
proof -
  obtain k where k: "hb_conns (sv_hub s) = [c]" "hb_heap (sv_hub s) c = Some k" "\<not> cn_closed k" "cn_send k = []"
      "\<not> isRevoked (cn_tokenID k) (sv_hub s)"
    using assms by (auto simp: single_def)
  have "upd_conn c (\<lambda>k. k\<lparr>cn_send := []\<rparr>) (upd_conn c (\<lambda>k. k\<lparr>cn_send := cn_send k @ [f]\<rparr>) (sv_hub s)) = sv_hub s"
    using k(2,4) by (cases "sv_hub s") (auto simp: upd_conn_def fun_eq_iff)
  then show ?thesis
    using k by (intro exI [of _ "upd_conn c (\<lambda>k. k\<lparr>cn_send := cn_send k @ [f]\<rparr>) (sv_hub s)"])
      (simp add: sv_broadcast_def Broadcast_def tokenID_of_def send_or_drop_def sendBufSize_def writePump_def)
qed

lemma zoom_round:
  assumes "ac_NoAuth (cg_Auth (sv_cfg s))" and "ParseTargetID i = Inr t" and "FindPane t (sv_manager s) \<noteq> None"
    and "single c (sv_hub s)"
  shows "tab_round ce je c ev (st, [zoom_request i], s) = (fst (togglePaneZoom i st), [zoom_request i], s)"
proof -
  obtain h where "sv_broadcast (zoom_frame i) s = s\<lparr>sv_hub := h\<rparr>" "writePump c h = (sv_hub s, Some (TextFrame (zoom_frame i)))"
    using single_echo [OF assms(4)] by blast
  then show ?thesis
    using target_name [OF assms(2)] by (simp add: tab_round_def receive_def zoom_served [OF assms(1-3)] zoom_seen)
qed

text \<open>
  C17: A zoom never settles: when the one page of an open server zooms its focused pane, the server sends
  the page the zoom it has just made, the page takes it for a new command, toggles the zoom back and asks
  the server again: after any number of rounds one zoom request is pending, the server is as it was, and
  the pane is zoomed exactly after every even number of rounds.
\<close>

theorem zoom_never_settles:
  assumes "ac_NoAuth (cg_Auth (sv_cfg s))" and "ParseTargetID i = Inr t" and "FindPane t (sv_manager s) \<noteq> None"
    and "single c (sv_hub s)" and "st_focusedPane st = i" and "st_zoom st = []"
  shows "case dispatch je ''pane.zoom'' [] st of (st1, effs) \<Rightarrow>
    (case fold (tab_round ce je c) evs (st1, effs, s) of (st', effs', s') \<Rightarrow>
       effs' = [zoom_request i] \<and> s' = s \<and> st_zoom st' = (if even (length evs) then i else []))"
proof -
  have i: "i \<noteq> []" using target_name [OF assms(2)] by blast
  have press: "dispatch je ''pane.zoom'' [] st = (fst (togglePaneZoom i st), [zoom_request i])"
    using assms(5) i by (simp add: dispatch_def Let_def togglePaneZoom_def zoom_request_def)
  have rounds: "case fold (tab_round ce je c) evs (st1, [zoom_request i], s) of (st', effs', s') \<Rightarrow>
      effs' = [zoom_request i] \<and> s' = s \<and> st_zoom st' = (if even (length evs) then st_zoom st1 else if st_zoom st1 = i then [] else i)"
    if "st_zoom st1 = i \<or> st_zoom st1 = []" for st1
    using that
  proof (induction evs arbitrary: st1)
    case (Cons ev evs)
    let ?st = "fst (togglePaneZoom i st1)"
    have z: "st_zoom ?st = (if st_zoom st1 = i then [] else i)" by (simp add: togglePaneZoom_def)
    have "fold (tab_round ce je c) (ev # evs) (st1, [zoom_request i], s) = fold (tab_round ce je c) evs (?st, [zoom_request i], s)"
      by (simp add: zoom_round [OF assms(1-4)])
    then show ?case using Cons.IH [of ?st] Cons.prems z i by (auto split: prod.splits if_splits)
  qed simp
  have z: "st_zoom (fst (togglePaneZoom i st)) = i" using assms(6) i by (simp add: togglePaneZoom_def)
  show ?thesis unfolding press using rounds [of "fst (togglePaneZoom i st)"] by (auto simp: z split: prod.splits)
qed

text \<open>The example server, once its page has taken the frame that greets it.\<close>

definition open_example :: "nat server" where
  "open_example = server_example\<lparr>sv_hub := fst (writePump 0 (sv_hub server_example))\<rparr>"

lemma server_example_open: "ac_NoAuth (cg_Auth (sv_cfg server_example))"
  by (simp add: server_example_def events_example_def event_create event_ws start_fields CreateWindow_def findWindow_def
      NewManager_def AddPane_def Let_def maxPanesPerWindow_def Register_def gm_get_def gm_put_def serveWS_def Windows_def)

lemma example_pane: "FindPane (TargetID ''a'') (sv_manager server_example) \<noteq> None"
  using example_fields(1) by (auto simp: FindPane_def Windows_def pane_example_def)

lemma open_example_facts:
  "ac_NoAuth (cg_Auth (sv_cfg open_example))" "FindPane (TargetID ''a'') (sv_manager open_example) \<noteq> None"
  "single 0 (sv_hub open_example)"
  using example_fields(3,4) example_pane
  by (simp_all add: open_example_def server_example_open writePump_def single_def isRevoked_def)

theorem zoom_never_settles_witness:
  "case dispatch je_example ''pane.zoom'' [] (page_start\<lparr>st_focusedPane := ''a''\<rparr>) of (st1, effs) \<Rightarrow>
     (case fold (tab_round ce_example je_example 0) [env_example] (st1, effs, open_example) of (st', effs', s') \<Rightarrow>
        effs' = [zoom_request ''a''] \<and> s' = open_example \<and> st_zoom st' = [])"
proof -
  have "ParseTargetID ''a'' = Inr (TargetID ''a'')" by code_simp
  from zoom_never_settles [OF open_example_facts(1) this open_example_facts(2,3), where st = "page_start\<lparr>st_focusedPane := ''a''\<rparr>" and je = je_example and ce = ce_example and evs = "[env_example]"]
  show ?thesis by (simp add: page_start_def)
qed

section \<open>Opening the page\<close>

text \<open>
  The start of the page: the two requests, and, whether they succeed or not, the socket. The browser
  offers the sub-protocol and sends no \<open>Authorization\<close> header with the upgrade either.
\<close>

definition ws_upgrade :: "'p client_env \<Rightarrow> 'p env \<Rightarrow> 'p server \<Rightarrow> 'p server \<times> response" where
  "ws_upgrade ce ev s =
     (case mux ''GET'' [''api'', ''v1'', ''ws''] of (pattern, binds) \<Rightarrow>
        sv_serve ev ((plain_request ce pattern binds [''api'', ''v1'', ''ws''] [] None)\<lparr>rq_protos := [wsProto], rq_upgrade := True\<rparr>) s)"

definition page_open :: "'p client_env \<Rightarrow> 'p env \<Rightarrow> js_env \<Rightarrow> 'p server \<Rightarrow> page \<times> 'p server \<times> response" where
  "page_open ce ev je s =
     (case api ce ev ''GET'' (API @ ''/bindings'') None s of
        (s1, rb) \<Rightarrow>
          (case api ce ev ''GET'' (API @ ''/session'') None s1 of
             (s2, rs) \<Rightarrow>
               (case ws_upgrade ce ev s2 of
                  (s3, resp) \<Rightarrow>
                    (case (rb, rs) of
                       (Inr b, Inr v) \<Rightarrow> (startup je b v page_start, s3, resp)
                     | _ \<Rightarrow> (page_start, s3, resp)))))"

lemma api_paths:
  "API @ ''/bindings'' = uri_path [''api'', ''v1'', ''bindings'']" "API @ ''/session'' = uri_path [''api'', ''v1'', ''session'']"
  by (simp_all add: uri_path_def API_def encode_free uri_byte_def is_digit_def)

lemma ws_route: "ws_upgrade ce ev s =
    handleWS ev ((plain_request ce ''GET /api/v1/ws'' [] [''api'', ''v1'', ''ws''] [] None)\<lparr>rq_protos := [wsProto], rq_upgrade := True\<rparr>) (s :: 'p server)"
proof -
  have pat: "''GET /api/v1/ws'' \<in> set patterns" by (simp add: patterns_def)
  have pp: "parse_pattern ''GET /api/v1/ws'' = (''GET'', [''api'', ''v1'', ''ws''])" by (simp add: parse_pattern_def)
  have m: "match_segs [''api'', ''v1'', ''ws''] [''api'', ''v1'', ''ws''] = Some []" by simp
  have "map_of (routes (sv_cfg s) :: (string \<times> 'p handler) list) ''GET /api/v1/ws'' = Some handleWS"
    by (rule bare_route) (simp add: bare_routes_def)
  then show ?thesis by (simp add: ws_upgrade_def mux_eq [OF pat pp m] sv_serve_def plain_request_def)
qed

definition web_host :: "'p client_env \<Rightarrow> 'p env \<Rightarrow> string" where
  "web_host ce ev = (case ev_host ev (ce_remote ce) of None \<Rightarrow> ce_remote ce | Some h \<Rightarrow> h)"

lemma api_bindings:
  fixes s :: "'p server"
  shows "api ce ev ''GET'' (API @ ''/bindings'') None s =
    (case Allow (ev_now ev) (web_host ce ev) (sv_rl s) of (rl, allowed) \<Rightarrow>
       (s\<lparr>sv_rl := rl\<rparr>,
        if allowed then (case snd (handleBindings ev undefined s) of JsonOk v \<Rightarrow> Inr v | _ \<Rightarrow> Inl (Extern ''request failed''))
        else Inl (Extern ''request failed'')))"
proof -
  let ?ss = "[''api'', ''v1'', ''bindings'']"
  have pat: "''GET /api/v1/bindings'' \<in> set patterns" by (simp add: patterns_def unauth_routes_def)
  have pp: "parse_pattern ''GET /api/v1/bindings'' = (''GET'', ?ss)" by (simp add: parse_pattern_def)
  have m: "match_segs ?ss ?ss = Some []" by simp
  have "(''GET /api/v1/bindings'', rateLimitMiddleware handleBindings) \<in> set (routes cfg :: (string \<times> 'p handler) list)" for cfg
    by (simp add: routes_def unauth_routes_def)
  then have route: "map_of (routes cfg :: (string \<times> 'p handler) list) ''GET /api/v1/bindings'' = Some (rateLimitMiddleware handleBindings)" for cfg
    by (rule map_of_is_SomeI [OF routes_distinct])
  have names: "list_all uri_name ?ss" by (simp add: uri_name_def)
  have host: "remote_host ev r = web_host ce ev" if "rq_remote r = ce_remote ce" for r
    using that by (simp add: remote_host_def web_host_def split: option.split)
  obtain rl ok where "Allow (ev_now ev) (web_host ce ev) (sv_rl s) = (rl, ok)" by fastforce
  then show ?thesis
    unfolding api_paths api_def parse_uri
    by (simp add: serve_uri [OF _ names] serve_segs_def mux_eq [OF pat pp m] sv_serve_def route rateLimitMiddleware_def host
        handleBindings_def Let_def)
qed

text \<open>Pages and the keys pressed on them.\<close>

definition press :: "js_env \<Rightarrow> key_event list \<Rightarrow> page \<Rightarrow> page \<times> web_effect list" where
  "press je es st = fold (\<lambda>e (st, effs). case page_step je (KeyDown e) st of (st', effs') \<Rightarrow> (st', effs @ effs')) es (st, [])"

lemma press_blank: "pg_keyTable st = [] \<Longrightarrow> st_mode st = NormalMode \<Longrightarrow> snd (press je es st) = []"
proof -
  have step: "snd (page_step je (KeyDown e) st) = [] \<and> pg_keyTable (fst (page_step je (KeyDown e) st)) = [] \<and> st_mode (fst (page_step je (KeyDown e) st)) = NormalMode"
    if "pg_keyTable st = []" "st_mode st = NormalMode" for e st
    using that by (simp add: keydown_def key_step_def key_fresh_def gm_get_def Let_def)
  have "snd (fold (\<lambda>e (st, effs). case page_step je (KeyDown e) st of (st', effs') \<Rightarrow> (st', effs @ effs')) es (st, [])) = []"
    if "pg_keyTable st = []" "st_mode st = NormalMode" for st
    using that
  proof (induction es arbitrary: st)
    case (Cons e es)
    obtain st1 effs where p: "page_step je (KeyDown e) st = (st1, effs)" by fastforce
    with step [OF Cons.prems, of e] have "effs = []" "pg_keyTable st1 = []" "st_mode st1 = NormalMode" by simp_all
    then show ?case using Cons.IH [of st1] p by (simp del: page_step.simps)
  qed simp
  then show "pg_keyTable st = [] \<Longrightarrow> st_mode st = NormalMode \<Longrightarrow> snd (press je es st) = []" by (simp add: press_def)
qed

text \<open>
  C12: The browser is locked out of a server that asks for tokens, which is the default: whoever opens the
  page gets one without a window, no key that is pressed sends a request, the connection is refused, and
  the server is as it was, but for the rate limiter. The page has no way to send a token.
\<close>

theorem browser_locked_out:
  assumes "\<not> ac_NoAuth (cg_Auth (sv_cfg s))"
  shows "case page_open ce ev je s of (st, s', resp) \<Rightarrow>
    st = page_start \<and> resp = HttpError 401 ''authorization required'' \<and> s' = s\<lparr>sv_rl := sv_rl s'\<rparr>
    \<and> (\<forall>es. snd (press je es st) = [])"
proof -
  have blank: "snd (press je es page_start) = []" for es by (rule press_blank) (simp_all add: page_start_def)
  have session: "(''GET /api/v1/session'', handleSession) \<in> set authed_routes" by (simp add: authed_routes_def)
  have pp: "parse_pattern ''GET /api/v1/session'' = (''GET'', [''api'', ''v1'', ''session''])" by (simp add: parse_pattern_def)
  have m: "match_segs [''api'', ''v1'', ''session''] [''api'', ''v1'', ''session''] = Some []" by simp
  have closed: "api ce ev ''GET'' (API @ ''/session'') None u = (u, Inl (Extern ''request failed''))"
    if "\<not> ac_NoAuth (cg_Auth (sv_cfg u))" for u :: "'a server"
    unfolding api_paths by (rule api_closed [OF that _ _ session pp m]) (simp_all add: uri_name_def)
  have refused: "ws_upgrade ce ev u = (u, HttpError 401 ''authorization required'')"
    if "\<not> ac_NoAuth (cg_Auth (sv_cfg u))" for u :: "'a server"
    using that by (simp add: ws_route handleWS_def plain_request_def Let_def)
  obtain rl ok where al: "Allow (ev_now ev) (web_host ce ev) (sv_rl s) = (rl, ok)" by fastforce
  show ?thesis
    using assms blank by (simp add: page_open_def api_bindings al closed refused split: sum.split)
qed

theorem browser_locked_out_witness:
  "fst (page_open ce_example env_example je_example (start_example\<lparr>sv_cfg := cfg_Default\<rparr>)) = page_start"
proof -
  have "\<not> ac_NoAuth (cg_Auth (sv_cfg (start_example\<lparr>sv_cfg := cfg_Default\<rparr>)))" by (simp add: cfg_Default_def)
  from browser_locked_out [OF this, where ce = ce_example and ev = env_example and je = je_example] show ?thesis by (simp split: prod.splits)
qed

text \<open>The bindings as the page reads them back; \<open>null\<close> stands for an action without keys.\<close>

lemma js_bindings_enc:
  "(\<forall>(a, ks) \<in> set m. ks \<noteq> []) \<Longrightarrow> js_bindings (JObj (map (\<lambda>(a, ks). (a, enc_slice ks)) m)) = m"
  by (induction m) (auto simp: js_bindings_def enc_slice_def enc_strs_def comp_def)

lemma default_json: "\<forall>(a, ks) \<in> set (bd_JSON bd_Default). ks \<noteq> []"
  by (simp add: bd_JSON_def bd_Default_def gm_put_def)



section \<open>The next window\<close>

text \<open>A page that shows what the server holds, and a window the server can be asked for.\<close>

definition in_step :: "page \<Rightarrow> 'p server \<Rightarrow> bool" where
  "in_step st s \<longleftrightarrow> st_windows st = map page_window_of (mg_windows (sv_manager s)) \<and> st_activeWin st = mg_active (sv_manager s)"

definition routable :: "string \<Rightarrow> bool" where
  "routable n \<longleftrightarrow> uri_name n \<and> n \<noteq> ''/''"

definition focus_request :: "string \<Rightarrow> web_effect" where
  "focus_request n = post (''/windows/'' @ encodeURIComponent n @ ''/focus'') [] LogError"

definition focus_frame :: "string \<Rightarrow> jval" where
  "focus_frame n = special ''window_focus'' (jstrs [(''name'', n)])"

lemma index_where_nth:
  "distinct (map f xs) \<Longrightarrow> i < length xs \<Longrightarrow> index_where (\<lambda>x. f x = f (xs ! i)) xs = Some i"
  unfolding index_where_Some by (auto simp: distinct_conv_nth)

lemma focus_path: "API @ ''/windows/'' @ encodeURIComponent n @ ''/focus'' = uri_path [''api'', ''v1'', ''windows'', n, ''focus'']"
  by (simp add: uri_path_def API_def encode_free uri_byte_def is_digit_def)

lemma focus_served:
  assumes "ac_NoAuth (cg_Auth (sv_cfg s))" and "routable n" and "FocusWindow n (sv_manager s) = Inr m"
  shows "perform ce ev je (focus_request n) (st, s)
    = (st, sv_broadcast (focus_frame n) (s\<lparr>sv_manager := m\<rparr>))"
proof -
  let ?ss = "[''api'', ''v1'', ''windows'', n, ''focus'']"
  have names: "list_all uri_name ?ss" using assms(2) by (simp add: uri_name_def routable_def)
  have pat: "(''POST /api/v1/windows/{name}/focus'', handleWindowFocus) \<in> set authed_routes" by (simp add: authed_routes_def)
  have pp: "parse_pattern ''POST /api/v1/windows/{name}/focus'' = (''POST'', [''api'', ''v1'', ''windows'', ''{name}'', ''focus''])"
    by (simp add: parse_pattern_def)
  have binds: "match_segs [''api'', ''v1'', ''windows'', ''{name}'', ''focus''] ?ss = Some [(''name'', n)]"
    using assms(2) by (simp add: routable_def uri_name_def)
  have "focus_request n = Fetch ''POST'' (uri_path ?ss) None LogError"
    using focus_path [of n] by (simp add: focus_request_def post_def)
  then show ?thesis
    using api_open [OF assms(1) _ names pat pp binds, of ce ev None] assms(3)
    by (simp add: handleWindowFocus_def plain_request_def PathValue_def focus_frame_def Let_def)
qed

lemma focus_seen: "handle_frame je ws_open (focus_frame n) st = (frame_focus je n st, [])"
  by (simp add: handle_frame_def focus_frame_def special_def jstrs_def js_text_Cons Let_def)

lemma type_next:
  assumes "pg_keyTable st = default_table" and "st_mode st \<noteq> SearchMode" and "\<not> pg_overlay st" and "st_keySeq st = []"
  shows "press je (type_key ''g t'') st = (st, cycleWindow 1 st)"
proof -
  have "type_key ''g t'' = [\<lparr>ke_key = ''g'', ke_ctrl = False, ke_shift = False\<rparr>, \<lparr>ke_key = ''t'', ke_ctrl = False, ke_shift = False\<rparr>]"
    by code_simp
  moreover have "key_step default_table \<lparr>ke_key = ''g'', ke_ctrl = False, ke_shift = False\<rparr> [] = ([''g''], None)"
    "key_step default_table \<lparr>ke_key = ''t'', ke_ctrl = False, ke_shift = False\<rparr> [''g''] = ([], Some ''window.next'')"
    by (simp_all add: default_table_eq key_step_def key_fresh_def evtKey_def gm_get_def Let_def)
  moreover have "cycleWindow 1 (st\<lparr>st_keySeq := []\<rparr>) = cycleWindow 1 st" using assms(4) by (cases st) simp
  ultimately show ?thesis
    using assms by (simp add: press_def keydown_def dispatch_def Let_def)
qed


definition page_example :: page where
  "page_example = set_layout je_example (mg_Snapshot (sv_manager open_example)) (page_start\<lparr>pg_keyTable := default_table\<rparr>)"

lemma page_example_facts:
  "in_step page_example open_example" "pg_keyTable page_example = default_table" "st_mode page_example \<noteq> SearchMode"
  "\<not> pg_overlay page_example" "st_keySeq page_example = []"
proof -
  have core: "same_core_page (page_start\<lparr>pg_keyTable := default_table\<rparr>) page_example"
    unfolding page_example_def by (rule core_set_layout)
  then show "st_mode page_example \<noteq> SearchMode" "st_keySeq page_example = []"
    by (simp_all add: same_core_page_def page_start_def)
  show "in_step page_example open_example"
    by (simp add: page_example_def in_step_def set_layout_def js_snapshot render_shown(3,4))
qed (simp_all add: page_example_def, simp add: page_start_def)


section \<open>A line from its source to the page\<close>

lemma message_seen: "handle_frame je True (message t x) st = (appendLine je (tid_String t) x st, [])"
  by (simp add: handle_frame_def message_def js_text_Cons frame_line_def Let_def)


lemma open_example_reach: "sv_reach True (\<lambda>_. None) open_example"
proof -
  have "open_example = sv_event (WriteTurn 0) server_example" by (simp add: open_example_def)
  then show ?thesis using sv_reach.event [OF server_example_reach, of "WriteTurn 0"] by simp
qed


end
