(* ===== verification/Web_Admin.thy ===== *)
theory Web_Admin
  imports Web_Flows
begin

text \<open>
  The admin page, the string \<open>adminHTML\<close> of \<open>routes.go\<close>: its script asks for the status of the server with
  the token of its own address and writes tables of it into the document. What is written is the string
  that is assigned to \<open>innerHTML\<close>. A time in the status stands for its text.
\<close>

section \<open>Values as text\<close>

fun js_truthy :: "jval option \<Rightarrow> bool" where
  "js_truthy None = False"
| "js_truthy (Some JNull) = False"
| "js_truthy (Some (JBool b)) = b"
| "js_truthy (Some (JNum n)) = (n \<noteq> 0)"
| "js_truthy (Some (JStr s)) = (s \<noteq> [])"
| "js_truthy _ = True"

text \<open>\<open>String(v)\<close> of a value; in an array a missing value is empty.\<close>

fun js_element :: "jval \<Rightarrow> string" where
  "js_element JNull = []"
| "js_element (JBool b) = (if b then ''true'' else ''false'')"
| "js_element (JNum n) = show_int n"
| "js_element (JFrac x) = x"
| "js_element (JStr s) = s"
| "js_element (JArr xs) = join_with '','' (map js_element xs)"
| "js_element (JObj _) = ''[object Object]''"

definition js_String :: "jval option \<Rightarrow> string" where
  "js_String v = (case v of None \<Rightarrow> ''undefined'' | Some JNull \<Rightarrow> ''null'' | Some x \<Rightarrow> js_element x)"

definition js_or :: "jval option \<Rightarrow> string \<Rightarrow> string" where
  "js_or v s = (if js_truthy v then js_String v else s)"

text \<open>\<open>JSON.stringify\<close> of a list of strings.\<close>

definition json_char :: "char \<Rightarrow> string" where
  "json_char c =
     (if c = DQUOTE then [CHR 0x5C, DQUOTE] else if c = CHR 0x5C then [CHR 0x5C, CHR 0x5C]
      else if c = CHR 0x08 then [CHR 0x5C, CHR ''b''] else if c = CHR 0x0C then [CHR 0x5C, CHR ''f'']
      else if c = LF then [CHR 0x5C, CHR ''n''] else if c = CR then [CHR 0x5C, CHR ''r'']
      else if c = TAB then [CHR 0x5C, CHR ''t'']
      else if of_char c < (32::nat) then [CHR 0x5C] @ ''u00'' @ [char_of (48 + of_char c div (16::nat)), (''0123456789abcdef'') ! (of_char c mod 16)]
      else [c])"

definition json_string :: "string \<Rightarrow> string" where
  "json_string s = [DQUOTE] @ concat (map json_char s) @ [DQUOTE]"

definition json_slice :: "jval option \<Rightarrow> string" where
  "json_slice v =
     (case v of
        Some (JArr xs) \<Rightarrow> ''['' @ join_with '','' (map (\<lambda>x. case x of JStr s \<Rightarrow> json_string s | _ \<Rightarrow> js_String (Some x)) xs) @ '']''
      | _ \<Rightarrow> js_String v)"

section \<open>Tables\<close>

definition admin_row :: "string \<Rightarrow> string \<Rightarrow> string \<Rightarrow> string" where
  "admin_row k v c =
     ''<tr><td>'' @ escHtml k @ ''</td><td class='' @ [DQUOTE] @ c @ [DQUOTE] @ ''>'' @ escHtml v @ ''</td></tr>''"

definition admin_table :: "string \<Rightarrow> string list \<Rightarrow> string" where
  "admin_table title rows =
     (if rows = [] then [] else ''<h2>'' @ escHtml title @ ''</h2><table>'' @ concat rows @ ''</table>'')"

text \<open>\<open>for in\<close> visits the keys that are array indices first, in their order.\<close>

definition index_key :: "string \<Rightarrow> bool" where
  "index_key k \<longleftrightarrow> list_all is_digit k \<and> k \<noteq> [] \<and> (k = ''0'' \<or> hd k \<noteq> CHR ''0'') \<and> digits_value k < 2 ^ 32 - 1"

definition for_in :: "(string \<times> jval) list \<Rightarrow> (string \<times> jval) list" where
  "for_in fs = sort_key (\<lambda>e. digits_value (fst e)) (filter (\<lambda>e. index_key (fst e)) fs) @ filter (\<lambda>e. \<not> index_key (fst e)) fs"

definition em_dash :: string where "em_dash = [CHR 0xE2, CHR 0x80, CHR 0x94]"

definition admin_pane_row :: "string \<times> jval \<Rightarrow> string" where
  "admin_pane_row e =
     (case e of (i, p) \<Rightarrow>
        admin_row i (''title='' @ js_or (js_get ''title'' p) em_dash
          @ ''  scrollback='' @ js_String (js_get ''scrollback_len'' p)
          @ ''  formatter='' @ js_or (js_get ''formatter'' p) ''text''
          @ ''  bookmarks='' @ js_String (js_get ''bookmarks'' p)) [])"

definition admin_token_row :: "jval \<Rightarrow> string" where
  "admin_token_row t =
     admin_row (js_String (js_get ''id'' t))
       (''panes='' @ json_slice (js_get ''panes'' t) @ '' expires='' @ js_String (js_get ''expires'' t)) []"

definition cycle_rows :: "jval \<Rightarrow> string list" where
  "cycle_rows c =
     [admin_row ''running'' (js_String (js_get ''running'' c)) (if js_truthy (js_get ''running'' c) then ''ok'' else ''off''),
      if js_truthy (js_get ''running'' c) then admin_row ''windows'' (join_with '', '' (map js_element (js_list ''windows'' c))) [] else [],
      if js_truthy (js_get ''running'' c) then admin_row ''interval_ms'' (js_String (js_get ''interval_ms'' c)) [] else []]"

definition js_fields :: "string \<Rightarrow> jval \<Rightarrow> (string \<times> jval) list" where
  "js_fields name v = (case js_get name v of Some (JObj fs) \<Rightarrow> fs | _ \<Rightarrow> [])"

definition name_rows :: "string \<Rightarrow> jval \<Rightarrow> string list" where
  "name_rows name d = map (\<lambda>f. admin_row (js_String (Some f)) [] []) (js_list name d)"

text \<open>The fields have the types that the status gives them, or are missing.\<close>

definition render_admin :: "jval \<Rightarrow> string" where
  "render_admin d =
     admin_table ''Server''
       [admin_row ''port'' (js_String (js_get ''port'' d)) [], admin_row ''connections'' (js_String (js_get ''connections'' d)) [],
        admin_row ''kv_entries'' (js_String (js_get ''kv_len'' d)) []]
     @ (if js_truthy (js_get ''cycle'' d) then admin_table ''Focus cycle'' (cycle_rows (the (js_get ''cycle'' d))) else [])
     @ (let rows = map admin_pane_row (for_in (js_fields ''panes'' d)) in
        if js_truthy (js_get ''panes'' d) then admin_table (''Panes ('' @ show_nat (length rows) @ '')'') rows else [])
     @ admin_table ''Formatters'' (name_rows ''formatters'' d)
     @ admin_table ''Highlight profiles'' (name_rows ''highlights'' d)
     @ admin_table ''Saved layouts'' (name_rows ''layouts'' d)
     @ (let rows = map admin_token_row (js_list ''tokens'' d) in admin_table (''Tokens ('' @ show_nat (length rows) @ '')'') rows)"

section \<open>Loading\<close>

datatype admin_view = AdminHtml string | AdminError | AdminRefused nat

definition admin_load :: "'p client_env \<Rightarrow> 'p env \<Rightarrow> string \<Rightarrow> 'p server \<Rightarrow> 'p server \<times> admin_view" where
  "admin_load ce ev token s =
     (case parse_target (API @ ''/status'') of
        Inl _ \<Rightarrow> (s, AdminError)
      | Inr target \<Rightarrow>
          (case http_serve ce ev ''GET'' target token None s of
             (s', Inr (_, JsonBody v)) \<Rightarrow> (s', AdminHtml (render_admin v))
           | (s', _) \<Rightarrow> (s', AdminError)))"

text \<open>The page as a browser opens it at \<open>/admin?token=\<dots>\<close>, and its first load.\<close>

definition admin_open :: "'p client_env \<Rightarrow> 'p env \<Rightarrow> string \<Rightarrow> 'p server \<Rightarrow> 'p server \<times> admin_view" where
  "admin_open ce ev token s =
     (case parse_target (''/admin?token='' @ encodeURIComponent token) of
        Inl _ \<Rightarrow> (s, AdminError)
      | Inr target \<Rightarrow>
          (case http_serve ce ev ''GET'' target [] None s of
             (s', Inr (status, _)) \<Rightarrow> if status = 200 then admin_load ce ev token s' else (s', AdminRefused status)
           | (s', Inl _) \<Rightarrow> (s', AdminError)))"

section \<open>What is written\<close>

definition admin_tags :: "string list" where
  "admin_tags =
     [''<tr>'', ''<td>'', ''</td>'', ''</tr>'', ''<h2>'', ''</h2>'', ''<table>'', ''</table>'',
      ''<td class='' @ [DQUOTE, DQUOTE] @ ''>'', ''<td class='' @ [DQUOTE] @ ''ok'' @ [DQUOTE] @ ''>'', ''<td class='' @ [DQUOTE] @ ''off'' @ [DQUOTE] @ ''>'']"

definition admin_piece :: "string \<Rightarrow> bool" where
  "admin_piece p \<longleftrightarrow> p \<in> set admin_tags \<or> (\<exists>c. p = [c] \<and> c \<noteq> CHR ''<'' \<and> c \<noteq> CHR ''>'')"

definition admin_safe :: "string \<Rightarrow> bool" where
  "admin_safe h \<longleftrightarrow> (\<exists>ps. h = concat ps \<and> list_all admin_piece ps)"

lemma admin_append: "admin_safe a \<Longrightarrow> admin_safe b \<Longrightarrow> admin_safe (a @ b)"
  unfolding admin_safe_def by (metis concat_append list_all_append)

lemma admin_Nil [simp]: "admin_safe []"
  unfolding admin_safe_def by (intro exI [of _ "[]"]) simp

lemma admin_concat: "(\<And>x. x \<in> set xs \<Longrightarrow> admin_safe x) \<Longrightarrow> admin_safe (concat xs)"
  by (induction xs) (simp_all add: admin_append)

lemma admin_tag: "t \<in> set admin_tags \<Longrightarrow> admin_safe t"
  unfolding admin_safe_def by (intro exI [of _ "[t]"]) (simp add: admin_piece_def)

lemma admin_text: "admin_safe (escHtml s)"
proof -
  have "admin_safe t" if "CHR ''<'' \<notin> set t" "CHR ''>'' \<notin> set t" for t
    unfolding admin_safe_def using that
    by (intro exI [of _ "map (\<lambda>c. [c]) t"], induction t) (auto simp: admin_piece_def)
  then show ?thesis using escHtml_safe by blast
qed

lemma admin_marks:
  "admin_safe ''<tr>''" "admin_safe ''<td>''" "admin_safe ''</td>''" "admin_safe ''</tr>''"
  "admin_safe ''<h2>''" "admin_safe ''</h2>''" "admin_safe ''<table>''" "admin_safe ''</table>''"
  by (rule admin_tag, simp add: admin_tags_def)+

lemma row_safe:
  assumes "c \<in> {[], ''ok'', ''off''}"
  shows "admin_safe (admin_row k v c)"
proof -
  have td: "admin_safe (''<td class='' @ [DQUOTE] @ c @ [DQUOTE] @ ''>'')"
    using assms by (intro admin_tag) (auto simp: admin_tags_def)
  have "admin_safe (''<tr>'' @ ''<td>'' @ escHtml k @ ''</td>'' @ t @ escHtml v @ ''</td>'' @ ''</tr>'')"
    if "admin_safe t" for t
    using that by (intro admin_append admin_text admin_marks)
  from this [OF td] show ?thesis by (simp add: admin_row_def)
qed

lemma table_safe:
  assumes "\<And>r. r \<in> set rows \<Longrightarrow> admin_safe r"
  shows "admin_safe (admin_table title rows)"
proof -
  have "admin_safe (concat rows)" using assms by (rule admin_concat)
  then have "admin_safe (''<h2>'' @ escHtml title @ ''</h2>'' @ ''<table>'' @ concat rows @ ''</table>'')"
    by (intro admin_append admin_text admin_marks)
  then show ?thesis by (simp add: admin_table_def)
qed

text \<open>
  Whatever titles, names and tokens a status holds, what the admin page writes into its document is
  its own tags and text without an angle bracket: nothing that a pane or a user names becomes markup.
\<close>

theorem admin_html_safe: "\<exists>ps. render_admin d = concat ps \<and> list_all admin_piece ps"
proof -
  have panes: "admin_safe (admin_table t (map admin_pane_row es))" for t es
    by (rule table_safe) (auto simp: admin_pane_row_def row_safe)
  have tokens: "admin_safe (admin_table t (map admin_token_row ts))" for t ts
    by (rule table_safe) (auto simp: admin_token_row_def row_safe)
  have names: "admin_safe (admin_table t (name_rows n d))" for t n
    by (rule table_safe) (auto simp: name_rows_def row_safe)
  have cycle: "admin_safe (admin_table t (cycle_rows c))" for t c
    by (rule table_safe) (auto simp: cycle_rows_def row_safe split: if_splits)
  have server: "admin_safe (admin_table t [admin_row a b [], admin_row e f [], admin_row g h []])" for t a b e f g h
    by (rule table_safe) (auto simp: row_safe)
  have "admin_safe (render_admin d)"
    unfolding render_admin_def Let_def
    by (intro admin_append server names tokens) (simp_all add: panes cycle)
  then show ?thesis by (simp add: admin_safe_def)
qed

section \<open>Whom it shows the status\<close>

lemma encoded_clear:
  assumes "c \<in> set (encodeURIComponent tok)"
  shows "\<not> ctl_byte c \<and> c \<noteq> CHR ''#'' \<and> c \<noteq> CHR ''&'' \<and> c \<noteq> CHR '';'' \<and> c \<noteq> CHR ''+'' \<and> c \<noteq> CHR '' ''"
proof -
  have "d \<noteq> CHR ''&'' \<and> d \<noteq> CHR '';'' \<and> d \<noteq> CHR ''+'' \<and> d \<noteq> CHR '' ''" if "uri_byte d \<or> d = CHR ''%''" for d
    using that by (auto simp: uri_byte_def is_alnum_def is_digit_def Let_def)
  then show ?thesis using encode_bytes [OF assms] uri_byte_facts [of c] percent_facts by blast
qed

lemma admin_target: "parse_target (''/admin?token='' @ encodeURIComponent tok) = Inr (''/admin'', ''token='' @ encodeURIComponent tok)"
proof -
  let ?u = "''/admin?token='' @ encodeURIComponent tok"
  have front: "c \<in> set ''/admin?token='' \<Longrightarrow> \<not> ctl_byte c \<and> c \<noteq> CHR ''#''" for c by (auto simp: ctl_byte_def)
  have clear: "\<not> ctl_byte c \<and> c \<noteq> CHR ''#''" if "c \<in> set ?u" for c
    using that encoded_clear [of c tok] front [of c] unfolding set_append by blast
  have all: "takeWhile (\<lambda>c. c \<noteq> CHR ''#'') ?u = ?u" by (rule takeWhile_all) (use clear in blast)
  have ctl: "\<not> list_ex ctl_byte ?u" using clear unfolding list_ex_iff by blast
  have path: "takeWhile (\<lambda>c. c \<noteq> CHR ''?'') ?u = ''/admin''" by simp
  have "list_all escaped_byte ''/admin''" by code_simp
  moreover have "url_unescape ''/admin'' = Some ''/admin''" by (rule unescape_free) simp
  ultimately show ?thesis unfolding parse_target_def Let_def all path using ctl by simp
qed

lemma admin_query: "query_pairs (''token='' @ encodeURIComponent tok) = [(''token'', tok)]"
proof -
  let ?q = "''token='' @ encodeURIComponent tok"
  have clear: "CHR ''&'' \<notin> set ?q" "CHR '';'' \<notin> set ?q" using encoded_clear [of _ tok] by auto
  have plus: "map (\<lambda>c. if c = CHR ''+'' then CHR '' '' else c) (encodeURIComponent tok) = encodeURIComponent tok"
    by (rule map_idI) (use encoded_clear in auto)
  have key: "takeWhile (\<lambda>c. c \<noteq> CHR ''='') ?q = ''token''" by simp
  have "url_unescape (encodeURIComponent tok) = Some tok" using unescape_encode [of tok "[]"] by simp
  then show ?thesis unfolding query_pairs_def split_on_single [OF clear(1)] using clear(2) plus
    by (simp add: map_filter_simps Let_def)
qed

lemma admin_served:
  fixes s :: "'p server"
  shows "\<exists>r. rq_auth r = [] \<and> rq_query r = [(''token'', tok)] \<and>
    http_serve ce ev ''GET'' (''/admin'', ''token='' @ encodeURIComponent tok) [] None s =
      (case handleAdmin ev r s of (s', resp) \<Rightarrow> (s', reply_of (ce_text ce) resp))"
proof -
  have pat: "''GET /admin'' \<in> set patterns" by (simp add: patterns_def)
  have pp: "parse_pattern ''GET /admin'' = (''GET'', [''admin''])" by (simp add: parse_pattern_def)
  have m: "match_segs [''admin''] [''admin''] = Some []" by simp
  have h: "map_of (routes (sv_cfg s) :: (string \<times> 'p handler) list) ''GET /admin'' = Some handleAdmin"
    by (rule bare_route) (simp add: bare_routes_def)
  have sp: "CHR '' '' \<notin> set (''token='' @ encodeURIComponent tok)" using encoded_clear [of _ tok] by auto
  have split: "split_on (CHR ''/'') ''admin'' = [''admin'']" by simp
  have clean: "clean_path [''admin''] = [''admin'']" by (simp add: clean_path_def)
  have un: "unescaped ''admin'' = ''admin''" by (simp add: unescaped_def)
  let ?r = "\<lparr>rq_pattern = ''GET /admin'', rq_path = [], rq_url_path = ''/'' @ ''admin'', rq_query = [(''token'', tok)], rq_auth = [],
    rq_remote = ce_remote ce, rq_body = Inl (Extern ''EOF''), rq_protos = [], rq_upgrade = False\<rparr>"
  have "http_serve ce ev ''GET'' (''/admin'', ''token='' @ encodeURIComponent tok) [] None s =
    (case handleAdmin ev ?r s of (s', resp) \<Rightarrow> (s', reply_of (ce_text ce) resp))"
    unfolding http_serve_def Let_def prod.case using sp
    by (simp add: split clean un serve_segs_def mux_eq [OF pat pp m] admin_query sv_serve_def h del: split_on.simps set_append
        append_Cons)
  then show ?thesis by (intro exI [of _ ?r]) simp
qed

lemma admin_status:
  fixes s :: "'p server"
  assumes "A \<noteq> []" and "handleStatus ev r s = (s, JsonOk v)"
  shows "admin_load ce ev A s =
    (s, AdminHtml (render_admin
          (if ac_NoAuth (cg_Auth (sv_cfg s)) \<or> auth_Verify (ev_H ev) (ev_now ev) A (sv_tokens s) \<noteq> None then v
           else JObj [(''error'', JStr ''invalid or expired token'')])))"
proof -
  let ?ss = "[''api'', ''v1'', ''status'']"
  have path: "API @ ''/status'' = uri_path ?ss" by (simp add: uri_path_def API_def encode_free uri_byte_def is_digit_def)
  have mem: "(''GET /api/v1/status'', handleStatus) \<in> set (authed_routes :: (string \<times> 'p handler) list)"
    by (simp add: authed_routes_def)
  have pp: "parse_pattern ''GET /api/v1/status'' = (''GET'', ?ss)" by (simp add: parse_pattern_def)
  have m: "match_segs ?ss ?ss = Some []" by simp
  have names: "list_all uri_name ?ss" by (simp add: uri_name_def)
  have any: "handleStatus ev q s = (s, JsonOk v)" for q using assms(2) by (simp add: handleStatus_def)
  show ?thesis
    unfolding admin_load_def path parse_uri
    using assms(1) authed_route [OF mem, of "sv_cfg s"]
    by (auto simp: serve_uri [OF _ names] serve_segs_def mux_eq [OF authed_pattern [OF mem] pp m] sv_serve_def
        authMiddleware_def HasPrefix_def TrimPrefix_def error_body_def any split: option.split)
qed

text \<open>What the page shows where its request is refused: the fields of the answer it expects are missing.\<close>

definition admin_blank :: string where
  "admin_blank =
     admin_table ''Server'' [admin_row ''port'' ''undefined'' [], admin_row ''connections'' ''undefined'' [], admin_row ''kv_entries'' ''undefined'' []]"

lemma render_error: "render_admin (JObj [(''error'', m)]) = admin_blank"
  by (simp add: render_admin_def admin_blank_def js_get_def js_String_def js_fields_def name_rows_def js_list_def admin_table_def for_in_def)

text \<open>
  C30: On a server with an admin token, the admin page opens only for that token, and opening it changes
  nothing in the server. The page then asks for the status with the same token as a session token: with
  authentication on it is refused there, unless a session has exactly that token, and the page shows
  nothing but three undefined rows, as text would be shown, never the refusal.
\<close>

theorem admin_page_view:
  fixes s :: "'p server"
  assumes "ac_AdminToken (cg_Auth (sv_cfg s)) = A" and "A \<noteq> []"
  shows "\<exists>v. (\<forall>r. handleStatus ev r s = (s, JsonOk v)) \<and>
    admin_open ce ev tok s =
      (s, if tok \<noteq> A then AdminRefused 401
          else AdminHtml (if ac_NoAuth (cg_Auth (sv_cfg s)) \<or> auth_Verify (ev_H ev) (ev_now ev) A (sv_tokens s) \<noteq> None
                          then render_admin v else admin_blank))"
proof -
  obtain v where v: "handleStatus ev r s = (s, JsonOk v)" for r by (simp add: handleStatus_def)
  obtain r where r: "rq_auth r = []" "rq_query r = [(''token'', tok)]"
    "http_serve ce ev ''GET'' (''/admin'', ''token='' @ encodeURIComponent tok) [] None s =
      (case handleAdmin ev r s of (s', resp) \<Rightarrow> (s', reply_of (ce_text ce) resp))"
    using admin_served by blast
  have h: "handleAdmin ev r s = (s, if tok \<noteq> A then HttpError 401 ''unauthorized'' else Page ''adminHTML'')"
    using r(1,2) assms by (simp add: handleAdmin_def handleAdminPage_def QueryGet_def Let_def)
  have "admin_open ce ev tok s = (if tok \<noteq> A then (s, AdminRefused 401) else admin_load ce ev A s)"
    unfolding admin_open_def admin_target sum.case r(3) h by simp
  then show ?thesis using admin_status [OF assms(2) v, of ce] v by (intro exI [of _ v]) (simp add: render_error)
qed

definition admin_server :: "nat server" where
  "admin_server = sv_New (cfg_Default\<lparr>cg_Auth := (cg_Auth cfg_Default)\<lparr>ac_AdminToken := ''a&b''\<rparr>\<rparr>)
     \<lparr>op_SessionID = [], op_PersistPath = ''kv.db'', op_Restore = True\<rparr>"

lemma admin_server_facts:
  "ac_AdminToken (cg_Auth (sv_cfg admin_server)) = ''a&b''" "\<not> ac_NoAuth (cg_Auth (sv_cfg admin_server))"
  "auth_Verify H now x (sv_tokens admin_server) = None"
  by (simp_all add: admin_server_def sv_New_def cfg_Default_def auth_Verify_def NewTokenStore_def gm_get_def Let_def)

theorem admin_page_view_witness:
  "admin_open ce_example env_example ''guess'' admin_server = (admin_server, AdminRefused 401) \<and>
   admin_open ce_example env_example ''a&b'' admin_server = (admin_server, AdminHtml admin_blank)"
  using admin_page_view [OF admin_server_facts(1), of env_example ce_example "''guess''"]
    admin_page_view [OF admin_server_facts(1), of env_example ce_example "''a&b''"] admin_server_facts(2,3)
  by simp

end
