(* ===== verification/Book_Markdown.thy ===== *)
theory Book_Markdown
  imports Formatters
begin

text \<open>
  The converter of \<open>book/build_book.go\<close>, which builds the documentation: \<open>inlineMd\<close> for the text of a
  line and \<open>mdToHTML\<close> for a file. A regular expression is the function that recognises it at the start
  of a string. The order in which the placeholders of the code spans are put back is the order of a Go
  map: \<open>ord\<close> is the order of one run. \<open>mdToHTML\<close> is a \<open>partial_function (option)\<close>, because it does not
  always return.
\<close>

section \<open>Replacing what a regular expression matches\<close>

text \<open>A matcher gives the replacement and the number of bytes it covers, less one.\<close>

type_synonym matcher = "string \<Rightarrow> (string \<times> nat) option"

function gsub :: "matcher \<Rightarrow> string \<Rightarrow> string" where
  "gsub m [] = []"
| "gsub m (c # s) =
     (case m (c # s) of None \<Rightarrow> c # gsub m s | Some (out, n) \<Rightarrow> out @ gsub m (drop n s))"
  by pat_completeness auto
termination
  by (relation "measure (\<lambda>(m, s). length s)") auto

definition html_EscapeString :: "string \<Rightarrow> string" where
  "html_EscapeString s = concat (map esc1 s)"

definition go_ReplaceAll :: "string \<Rightarrow> string \<Rightarrow> string \<Rightarrow> string" where
  "go_ReplaceAll old new s = gsub (\<lambda>t. if HasPrefix t old then Some (new, length old - 1) else None) s"

section \<open>inlineMd\<close>

abbreviation BTICK :: char where "BTICK \<equiv> CHR 0x60"
abbreviation NUL :: char where "NUL \<equiv> CHR 0x00"

definition placeholder :: "nat \<Rightarrow> string" where
  "placeholder k = NUL # show_nat k @ [NUL]"

text \<open>The code spans, replaced by their placeholders, which are numbered from left to right.\<close>

function hide_code :: "nat \<Rightarrow> string \<Rightarrow> string \<times> (string, string) gomap" where
  "hide_code k [] = ([], [])"
| "hide_code k (c # s) =
     (let inner = takeWhile (\<lambda>x. x \<noteq> BTICK) s in
      if c = BTICK \<and> inner \<noteq> [] \<and> length inner < length s then
        (case hide_code (Suc k) (drop (Suc (length inner)) s) of
           (t, ph) \<Rightarrow> (placeholder k @ t, (placeholder k, ''<code>'' @ html_EscapeString inner @ ''</code>'') # ph))
      else (case hide_code k s of (t, ph) \<Rightarrow> (c # t, ph)))"
  by pat_completeness auto
termination
  by (relation "measure (\<lambda>(k, s). length s)") auto

definition match_bold :: matcher where
  "match_bold s =
     (let inner = takeWhile (\<lambda>x. x \<noteq> CHR ''*'') (drop 2 s) in
      if HasPrefix s ''**'' \<and> inner \<noteq> [] \<and> HasPrefix (drop (2 + length inner) s) ''**''
      then Some (''<strong>'' @ inner @ ''</strong>'', length inner + 3) else None)"

definition match_italic :: matcher where
  "match_italic s =
     (let inner = takeWhile (\<lambda>x. x \<noteq> CHR ''*'') (drop 1 s) in
      if HasPrefix s ''*'' \<and> inner \<noteq> [] \<and> HasPrefix (drop (1 + length inner) s) ''*''
      then Some (''<em>'' @ inner @ ''</em>'', length inner + 1) else None)"

text \<open>The text and the address of a link at the start of a string.\<close>

definition link_groups :: "string \<Rightarrow> (string \<times> string) option" where
  "link_groups s =
     (let r = drop 1 s;
          t = takeWhile (\<lambda>x. x \<noteq> CHR '']'') r;
          u = takeWhile (\<lambda>x. x \<noteq> CHR '')'') (drop (length t + 2) r) in
      if HasPrefix s ''['' \<and> t \<noteq> [] \<and> HasPrefix (drop (length t) r) '']('' \<and> u \<noteq> []
         \<and> HasPrefix (drop (length t + 2 + length u) r) '')''
      then Some (t, u) else None)"

definition match_link :: matcher where
  "match_link s =
     (case link_groups s of
        None \<Rightarrow> None
      | Some (t, u) \<Rightarrow> Some (''<a href='' @ [DQUOTE] @ u @ [DQUOTE] @ ''>'' @ t @ ''</a>'', length t + length u + 3))"

type_synonym map_order = "(string, string) gomap \<Rightarrow> (string, string) gomap"

definition any_order :: "map_order \<Rightarrow> bool" where
  "any_order ord \<longleftrightarrow> (\<forall>m. mset (ord m) = mset m)"

definition inline_passes :: "string \<Rightarrow> string" where
  "inline_passes s = gsub match_link (gsub match_italic (gsub match_bold (html_EscapeString s)))"

definition put_back :: "(string, string) gomap \<Rightarrow> string \<Rightarrow> string" where
  "put_back ph s = fold (\<lambda>(k, v) t. go_ReplaceAll (html_EscapeString k) v t) ph s"

lemma put_back_simps [simp]:
  "put_back [] t = t" "put_back ((k, v) # ph) t = put_back ph (go_ReplaceAll (html_EscapeString k) v t)"
  by (simp_all add: put_back_def)

definition inlineMd :: "map_order \<Rightarrow> string \<Rightarrow> string" where
  "inlineMd ord s = (case hide_code 0 s of (t, ph) \<Rightarrow> put_back (ord ph) (inline_passes t))"

section \<open>mdToHTML\<close>

record md_state =
  ms_b :: string
  ms_inCode :: bool
  ms_codeLang :: string
  ms_codeBuf :: string
  ms_inTable :: bool
  ms_tableRows :: "string list"
  ms_inList :: bool
  ms_listOl :: bool
  ms_listBuf :: string

definition md_start :: md_state where
  "md_start = \<lparr>ms_b = [], ms_inCode = False, ms_codeLang = [], ms_codeBuf = [], ms_inTable = False, ms_tableRows = [],
     ms_inList = False, ms_listOl = False, ms_listBuf = []\<rparr>"

definition angled :: "string \<Rightarrow> string" where "angled t = ''<'' @ t @ ''>''"
definition angled_end :: "string \<Rightarrow> string" where "angled_end t = ''</'' @ t @ ''>''"

definition emit :: "string \<Rightarrow> md_state \<Rightarrow> md_state" where
  "emit t st = st\<lparr>ms_b := ms_b st @ t\<rparr>"

definition go_Trim :: "string \<Rightarrow> string \<Rightarrow> string" where
  "go_Trim s cutset = TrimRight (TrimLeft s cutset) cutset"

definition table_row :: "map_order \<Rightarrow> string \<Rightarrow> string \<Rightarrow> string" where
  "table_row ord t row =
     ''<tr>'' @ concat (map (\<lambda>c. angled t @ inlineMd ord (TrimSpace c) @ angled_end t) (split_on (CHR ''|'') (go_Trim row ''|'')))
     @ ''</tr>'' @ [LF]"

text \<open>The second row is taken for the separator, whatever it is.\<close>

definition table_html :: "map_order \<Rightarrow> string list \<Rightarrow> string" where
  "table_html ord rows =
     ''<table>'' @ [LF]
     @ concat (map (\<lambda>(j, row). if j = 1 then [] else table_row ord (if j = 0 then ''th'' else ''td'') row) (enumerate 0 rows))
     @ ''</table>'' @ [LF]"

definition bk_flush :: "map_order \<Rightarrow> md_state \<Rightarrow> md_state" where
  "bk_flush ord st =
     (let st1 = (if ms_inList st then
                   (let t = (if ms_listOl st then ''ol'' else ''ul'')
                    in (emit (angled t @ ms_listBuf st @ angled_end t @ [LF]) st)\<lparr>ms_listBuf := [], ms_inList := False\<rparr>)
                 else st)
      in if ms_inTable st1 then (emit (table_html ord (ms_tableRows st1)) st1)\<lparr>ms_tableRows := [], ms_inTable := False\<rparr> else st1)"

definition code_fence :: string where "code_fence = [BTICK, BTICK, BTICK]"

abbreviation fence_line :: "string \<Rightarrow> bool" where "fence_line l \<equiv> HasPrefix l code_fence"

definition fence_turn :: "map_order \<Rightarrow> string \<Rightarrow> md_state \<Rightarrow> md_state" where
  "fence_turn ord line st =
     (if ms_inCode st then
        (emit (''<pre><code''
               @ (if ms_codeLang st = [] then []
                  else '' class='' @ [DQUOTE] @ ''language-'' @ html_EscapeString (ms_codeLang st) @ [DQUOTE])
               @ ''>'' @ html_EscapeString (ms_codeBuf st) @ ''</code></pre>'' @ [LF]) st)
          \<lparr>ms_codeBuf := [], ms_inCode := False, ms_codeLang := []\<rparr>
      else (bk_flush ord st)\<lparr>ms_inCode := True, ms_codeLang := TrimPrefix line code_fence\<rparr>)"

definition hash_level :: "string \<Rightarrow> nat" where
  "hash_level l = length (takeWhile (\<lambda>c. c = CHR ''#'') l)"

text \<open>What is left of a line after the number of an ordered item.\<close>

definition ol_text :: "string \<Rightarrow> string option" where
  "ol_text l =
     (let ds = takeWhile is_digit l in
      if ds \<noteq> [] \<and> HasPrefix (drop (length ds) l) ''. '' then Some (drop (length ds + 2) l) else None)"

definition list_item :: "map_order \<Rightarrow> bool \<Rightarrow> string \<Rightarrow> md_state \<Rightarrow> md_state" where
  "list_item ord ol t st =
     (let st1 = (if \<not> ms_inList st \<or> ms_listOl st \<noteq> ol then (bk_flush ord st)\<lparr>ms_inList := True, ms_listOl := ol\<rparr> else st)
      in st1\<lparr>ms_listBuf := ms_listBuf st1 @ ''<li>'' @ inlineMd ord t @ ''</li>'' @ [LF]\<rparr>)"

definition bk_para_line :: "string \<Rightarrow> bool" where
  "bk_para_line l \<longleftrightarrow> TrimSpace l \<noteq> [] \<and> \<not> HasPrefix l ''#'' \<and> \<not> fence_line l \<and> \<not> HasPrefix l ''- ''
     \<and> \<not> HasPrefix l ''> '' \<and> l \<noteq> ''---''"

fun join_para :: "string list \<Rightarrow> string \<Rightarrow> string" where
  "join_para [] para = para"
| "join_para (t # ts) para = join_para ts (para @ (if para \<noteq> [] then '' '' else []) @ t)"

text \<open>One turn of the loop: the new state and the number of lines it consumes.\<close>

definition block_turn :: "map_order \<Rightarrow> string list \<Rightarrow> md_state \<Rightarrow> md_state \<times> nat" where
  "block_turn ord ls st =
     (let line = hd ls; st1 = bk_flush ord st in
      if HasPrefix line ''#'' \<and> hash_level line \<le> 4 then
        (let t = ''h'' @ show_nat (hash_level line)
         in (emit (angled t @ inlineMd ord (TrimSpace (drop (hash_level line) line)) @ angled_end t @ [LF]) st1, 1))
      else
        let st = (if HasPrefix line ''#'' then st1 else st) in
        if line = ''---'' \<or> line = ''***'' then (emit (''<hr>'' @ [LF]) st1, 1)
        else if HasPrefix line ''> '' then
          (let qs = takeWhile (\<lambda>l. HasPrefix l ''> '') ls
           in (emit (''<blockquote>'' @ concat (map (\<lambda>l. ''<p>'' @ inlineMd ord (drop 2 l) @ ''</p>'') qs) @ ''</blockquote>'' @ [LF]) st1,
               length qs))
        else (case ol_text line of
                Some t \<Rightarrow> (list_item ord True t st, 1)
              | None \<Rightarrow>
                  if HasPrefix line ''- '' \<or> HasPrefix line ''* '' then (list_item ord False (drop 2 line) st, 1)
                  else if TrimSpace line = [] then (st1, 1)
                  else
                    (let ps = takeWhile bk_para_line ls
                     in (emit (''<p>'' @ join_para (map (inlineMd ord) ps) [] @ ''</p>'' @ [LF]) st1, length ps))))"

definition md_turn_lines :: "map_order \<Rightarrow> string list \<Rightarrow> md_state \<Rightarrow> md_state \<times> nat" where
  "md_turn_lines ord ls st =
     (let line = hd ls in
      if fence_line line then (fence_turn ord line st, 1)
      else if ms_inCode st then (st\<lparr>ms_codeBuf := ms_codeBuf st @ line @ [LF]\<rparr>, 1)
      else if HasPrefix (TrimSpace line) ''|'' then (st\<lparr>ms_inTable := True, ms_tableRows := ms_tableRows st @ [line]\<rparr>, 1)
      else block_turn ord ls (if ms_inTable st then bk_flush ord st else st))"

partial_function (option) md_lines :: "map_order \<Rightarrow> string list \<Rightarrow> md_state \<Rightarrow> md_state option" where
  "md_lines ord ls st =
     (if ls = [] then Some st
      else case md_turn_lines ord ls st of (st', k) \<Rightarrow> md_lines ord (drop k ls) st')"

definition mdToHTML :: "map_order \<Rightarrow> string \<Rightarrow> string option" where
  "mdToHTML ord md = map_option (\<lambda>st. ms_b (bk_flush ord st)) (md_lines ord (split_on LF md) md_start)"

declare md_lines.simps [code]

section \<open>When it returns\<close>

text \<open>The lines outside the code fences: a fence line opens and closes in turn.\<close>

fun outside_code :: "bool \<Rightarrow> string list \<Rightarrow> string list" where
  "outside_code b [] = []"
| "outside_code b (l # ls) =
     (if fence_line l then outside_code (\<not> b) ls else if b then outside_code b ls else l # outside_code b ls)"

definition five :: "string \<Rightarrow> bool" where "five l \<longleftrightarrow> HasPrefix l ''#####''"

definition five_ahead :: "bool \<Rightarrow> string list \<Rightarrow> bool" where
  "five_ahead b ls \<longleftrightarrow> list_ex five (outside_code b ls)"

lemma five_ahead_simps [simp]:
  "\<not> five_ahead b []" "fence_line l \<Longrightarrow> five_ahead b (l # ls) = five_ahead (\<not> b) ls"
  "\<not> fence_line l \<Longrightarrow> five_ahead True (l # ls) = five_ahead True ls"
  "\<not> fence_line l \<Longrightarrow> five_ahead False (l # ls) = (five l \<or> five_ahead False ls)"
  by (simp_all add: five_ahead_def)

lemma five_iff: "five l \<longleftrightarrow> HasPrefix l ''#'' \<and> \<not> hash_level l \<le> 4"
proof (cases "HasPrefix l ''#''")
  case True
  then obtain a where l: "l = CHR ''#'' # a" by (auto simp: HasPrefix_iff)
  have "HasPrefix a ''####'' \<longleftrightarrow> \<not> length (takeWhile (\<lambda>c. c = CHR ''#'') a) \<le> 3"
    by (cases a rule: remdups_adj.cases; cases "tl (tl a)" rule: remdups_adj.cases) auto
  then show ?thesis by (simp add: five_def hash_level_def l)
next
  case False
  then show ?thesis by (cases l) (auto simp: five_def)
qed

lemma trim_left_last: "(\<And>e. e \<in> set encs \<Longrightarrow> c \<notin> set e) \<Longrightarrow> s = a @ [c] \<Longrightarrow> \<exists>a'. trim_left_of encs s = a' @ [c]"
proof (induction encs s arbitrary: a rule: trim_left_of.induct)
  case (1 encs s)
  show ?case
  proof (cases "find (\<lambda>e. e \<noteq> [] \<and> HasPrefix s e) encs")
    case None
    then have "trim_left_of encs s = s" by (subst trim_left_of.simps) simp
    then show ?thesis using "1.prems"(2) by simp
  next
    case (Some e)
    then have e: "e \<in> set encs" "HasPrefix s e" by (auto simp: find_Some_iff)
    then obtain t where t: "s = e @ t" by (auto simp: HasPrefix_iff)
    then have "t \<noteq> []" using "1.prems" e(1) by (metis append_Nil2 in_set_conv_decomp)
    then have "drop (length e) s = butlast t @ [c]" using t "1.prems"(2) by (metis append_butlast_last_id append_eq_conv_conj last_appendR last_snoc)
    from "1.IH" [OF Some "1.prems"(1) this] Some show ?thesis by (subst trim_left_of.simps) simp
  qed
qed

lemma TrimSpace_hash: "\<exists>u. TrimSpace (CHR ''#'' # t) = CHR ''#'' # u"
proof -
  have g: "is_graph (CHR ''#'')" by (simp add: is_graph_def)
  have "TrimLeftSpace (CHR ''#'' # t) = CHR ''#'' # t"
    unfolding TrimLeftSpace_def by (rule trim_left_stop) (use g space_hd_not_graph in metis)
  moreover obtain a where "trim_left_of (map rev space_encodings) (rev t @ [CHR ''#'']) = a @ [CHR ''#'']"
    using trim_left_last [of "map rev space_encodings" "CHR ''#''" _ "rev t"] g space_no_graph by fastforce
  ultimately show ?thesis by (simp add: TrimSpace_def TrimRightSpace_def)
qed

lemma five_excludes: "HasPrefix l ''#'' \<Longrightarrow> \<not> fence_line l \<and> \<not> HasPrefix l ''> '' \<and> \<not> HasPrefix l ''- '' \<and> \<not> HasPrefix l ''* ''
    \<and> ol_text l = None \<and> \<not> bk_para_line l \<and> l \<noteq> ''---'' \<and> l \<noteq> ''***'' \<and> TrimSpace l \<noteq> [] \<and> \<not> HasPrefix (TrimSpace l) ''|''"
proof -
  assume "HasPrefix l ''#''"
  then obtain t where l: "l = CHR ''#'' # t" by (auto simp: HasPrefix_iff)
  then obtain u where "TrimSpace l = CHR ''#'' # u" using TrimSpace_hash by blast
  then show ?thesis by (auto simp: l code_fence_def ol_text_def bk_para_line_def is_digit_def Let_def)
qed

lemma inCode_simps [simp]:
  "ms_inCode (emit t st) = ms_inCode st" "ms_inCode (bk_flush ord st) = ms_inCode st" "ms_inCode (list_item ord ol t st) = ms_inCode st"
  by (simp_all add: emit_def bk_flush_def list_item_def Let_def)

text \<open>A turn consumes a line, and none that it cannot pass; at such a line it consumes none for ever.\<close>

lemma ahead_takeWhile:
  assumes "\<And>l. P l \<Longrightarrow> \<not> fence_line l \<and> \<not> five l"
  shows "five_ahead False (drop (length (takeWhile P ls)) ls) = five_ahead False ls"
  using assms by (induction ls) auto

lemma taken: "ls \<noteq> [] \<Longrightarrow> P (hd ls) \<Longrightarrow> 0 < length (takeWhile P ls)"
  by (cases ls) auto

lemma block_turn_inCode: "ms_inCode (fst (block_turn ord ls st)) = ms_inCode st"
  by (simp add: block_turn_def Let_def split: option.split)

lemma block_turn_progress:
  assumes "ls \<noteq> []" and "\<not> fence_line (hd ls)" and "\<not> five (hd ls)" and "k = snd (block_turn ord ls st)"
  shows "0 < k \<and> five_ahead False (drop k ls) = five_ahead False ls"
proof -
  have quote: "\<not> fence_line l \<and> \<not> five l" if "HasPrefix l ''> ''" for l
    using that by (auto simp: five_def code_fence_def HasPrefix_iff)
  have para: "\<not> fence_line l \<and> \<not> five l" if "bk_para_line l" for l
    using that by (auto simp: bk_para_line_def five_iff)
  note quotes = ahead_takeWhile [of "\<lambda>l. HasPrefix l ''> ''", OF quote] and paras = ahead_takeWhile [of bk_para_line, OF para]
  consider (one) "k = 1" | (quote) "HasPrefix (hd ls) ''> ''" "k = length (takeWhile (\<lambda>l. HasPrefix l ''> '') ls)"
    | (para) "bk_para_line (hd ls)" "k = length (takeWhile bk_para_line ls)"
    using assms five_iff [of "hd ls"]
    by (auto simp: block_turn_def Let_def bk_para_line_def split: if_splits option.splits)
  then show ?thesis
  proof cases
    case one
    then show ?thesis using assms(1-3) by (cases ls) auto
  next
    case quote
    then show ?thesis using taken [of ls "\<lambda>l. HasPrefix l ''> ''"] quotes assms(1) by simp
  next
    case para
    then show ?thesis using taken [of ls bk_para_line] paras assms(1) by simp
  qed
qed

lemma turn_lines_progress:
  assumes "ls \<noteq> []" and "ms_inCode st \<or> \<not> five (hd ls)" and "md_turn_lines ord ls st = (st', k)"
  shows "0 < k \<and> five_ahead (ms_inCode st') (drop k ls) = five_ahead (ms_inCode st) ls"
proof -
  obtain l rest where ls: "ls = l # rest" using assms(1) by (cases ls) auto
  show ?thesis
  proof (cases "fence_line l \<or> ms_inCode st \<or> HasPrefix (TrimSpace l) ''|''")
    case True
    then show ?thesis
      using assms(2,3) by (auto simp: ls md_turn_lines_def fence_turn_def Let_def split: if_splits)
  next
    case False
    let ?st = "if ms_inTable st then bk_flush ord st else st"
    from False have t: "block_turn ord ls ?st = (st', k)" using assms(3) by (simp add: ls md_turn_lines_def)
    then have "ms_inCode st' = ms_inCode st" using block_turn_inCode [of ord ls ?st] by (simp split: if_splits)
    with block_turn_progress [OF assms(1), of k ord ?st] False assms(2) t show ?thesis by (simp add: ls)
  qed
qed

lemma turn_lines_stuck:
  assumes "\<not> ms_inCode st" and "five (hd ls)" and "md_turn_lines ord ls st = (st', k)"
  shows "k = 0 \<and> \<not> ms_inCode st'"
proof -
  have h: "HasPrefix (hd ls) ''#''" "\<not> hash_level (hd ls) \<le> 4" using assms(2) by (simp_all add: five_iff)
  note ex = five_excludes [OF h(1)]
  have p: "takeWhile bk_para_line ls = []" using ex by (cases ls) simp_all
  have "md_turn_lines ord ls st = block_turn ord ls (if ms_inTable st then bk_flush ord st else st)"
    using ex assms(1) by (simp add: md_turn_lines_def)
  with assms(1,3) h(2) ex p show ?thesis by (auto simp: block_turn_def Let_def split: if_splits)
qed

lemma lines_stuck:
  assumes "md_lines ord ls st = Some r"
  shows "ls = [] \<or> ms_inCode st \<or> \<not> five (hd ls)"
proof (rule md_lines.raw_induct [where P = "\<lambda>ord ls st r. ls = [] \<or> ms_inCode st \<or> \<not> five (hd ls)", OF _ assms])
  fix loop ord ls st r
  assume ih: "\<And>ord ls st r. loop ord ls st = Some r \<Longrightarrow> ls = [] \<or> ms_inCode st \<or> \<not> five (hd ls)"
    and eq: "(if ls = [] then Some st else case md_turn_lines ord ls st of (st', k) \<Rightarrow> loop ord (drop k ls) st') = Some r"
  show "ls = [] \<or> ms_inCode st \<or> \<not> five (hd ls)"
  proof (rule ccontr)
    assume n: "\<not> (ls = [] \<or> ms_inCode st \<or> \<not> five (hd ls))"
    obtain st' k where k: "md_turn_lines ord ls st = (st', k)" by fastforce
    with turn_lines_stuck [of st ls ord st' k] n have "k = 0" "\<not> ms_inCode st'" by simp_all
    with k eq n have "loop ord ls st' = Some r" by simp
    from ih [OF this] n \<open>\<not> ms_inCode st'\<close> show False by simp
  qed
qed

lemma lines_return: "(\<exists>r. md_lines ord ls st = Some r) \<longleftrightarrow> \<not> five_ahead (ms_inCode st) ls"
proof (induction "length ls" arbitrary: ls st rule: less_induct)
  case less
  show ?case
  proof (cases "ls = [] \<or> ms_inCode st \<or> \<not> five (hd ls)")
    case False
    then obtain l rest where ls: "ls = l # rest" "five l" "\<not> ms_inCode st" by (cases ls) auto
    then have "five_ahead (ms_inCode st) ls" using five_excludes [of l] by (simp add: five_iff)
    with lines_stuck [of ord ls st] False show ?thesis by (cases "md_lines ord ls st") auto
  next
    case True
    show ?thesis
    proof (cases "ls = []")
      case False
      obtain st' k where k: "md_turn_lines ord ls st = (st', k)" by fastforce
      have p: "0 < k" "five_ahead (ms_inCode st') (drop k ls) = five_ahead (ms_inCode st) ls"
        using turn_lines_progress [OF False _ k] True False by simp_all
      then show ?thesis using less [of "drop k ls" st'] False k by (simp add: md_lines.simps [of ord ls st])
    qed (simp add: md_lines.simps)
  qed
qed

text \<open>A fence that is never closed loses everything after it.\<close>

lemma open_code: "ms_inCode st \<Longrightarrow> list_all (\<lambda>l. \<not> fence_line l) ls \<Longrightarrow> \<exists>c. md_lines ord ls st = Some (st\<lparr>ms_codeBuf := c\<rparr>)"
proof (induction ls arbitrary: st)
  case Nil
  then show ?case by (intro exI [of _ "ms_codeBuf st"]) (simp add: md_lines.simps)
next
  case (Cons l ls)
  from Cons.IH [of "st\<lparr>ms_codeBuf := ms_codeBuf st @ l @ [LF]\<rparr>"] Cons.prems show ?case
    by (simp add: md_lines.simps [of ord "l # ls"] md_turn_lines_def)
qed

lemma open_fence_lost:
  assumes "\<not> ms_inCode st" and "fence_line l" and "list_all (\<lambda>l. \<not> fence_line l) ls"
  shows "\<exists>r. md_lines ord (l # ls) st = Some r \<and> ms_b (bk_flush ord r) = ms_b (bk_flush ord st)"
proof -
  let ?st = "(bk_flush ord st)\<lparr>ms_inCode := True, ms_codeLang := TrimPrefix l code_fence\<rparr>"
  obtain c where "md_lines ord ls ?st = Some (?st\<lparr>ms_codeBuf := c\<rparr>)" using open_code [OF _ assms(3), of ?st] by auto
  then have "md_lines ord (l # ls) st = Some (?st\<lparr>ms_codeBuf := c\<rparr>)"
    using assms(1,2) by (simp add: md_lines.simps [of ord "l # ls"] md_turn_lines_def fence_turn_def)
  moreover have "ms_b (bk_flush ord (?st\<lparr>ms_codeBuf := c\<rparr>)) = ms_b (bk_flush ord st)"
    by (simp add: bk_flush_def emit_def Let_def)
  ultimately show ?thesis by blast
qed

text \<open>
  The converter of the documentation returns exactly when no line outside a code fence starts with
  five hash signs, whatever else is in the file; on any other file it writes empty paragraphs for ever.
\<close>

theorem mdToHTML_returns_iff:
  "(\<exists>h. mdToHTML ord md = Some h) \<longleftrightarrow> list_all (\<lambda>l. \<not> HasPrefix l ''#####'') (outside_code False (split_on LF md))"
proof -
  have "(\<exists>h. mdToHTML ord md = Some h) \<longleftrightarrow> (\<exists>r. md_lines ord (split_on LF md) md_start = Some r)"
    by (auto simp: mdToHTML_def)
  also have "\<dots> \<longleftrightarrow> \<not> five_ahead False (split_on LF md)"
    unfolding lines_return by (simp add: md_start_def)
  finally show ?thesis by (simp add: five_ahead_def five_def list_all_iff list_ex_iff)
qed

theorem mdToHTML_returns_iff_witness:
  "mdToHTML id (''###### Notes'' @ [LF] @ ''text'') = None \<and> (\<exists>h. mdToHTML id (code_fence @ [LF] @ ''###### Notes'') = Some h)"
  using mdToHTML_returns_iff [of id "''###### Notes'' @ [LF] @ ''text''"] mdToHTML_returns_iff [of id "code_fence @ [LF] @ ''###### Notes''"]
  by (simp add: code_fence_def)

end
