(* ===== verification/Book_Html.thy ===== *)
theory Book_Html
  imports Book_Markdown
begin

text \<open>
  The HTML that the converter of the documentation writes consists of its own tags and of escaped text:
  nothing in a source file adds a tag or ends an attribute, although the passes over a line nest freely.
\<close>

section \<open>What the HTML is made of\<close>

text \<open>
  The fixed pieces that the converter writes, and text: a string is a fragment when it is a sequence of
  such pieces and of bytes that are no angle bracket and no quote.
\<close>

definition book_tags :: "string list" where
  "book_tags =
     [''<strong>'', ''</strong>'', ''<em>'', ''</em>'', ''<a href='' @ [DQUOTE], [DQUOTE] @ ''>'', ''</a>'', ''<code>'', ''</code>'',
      ''<pre><code>'', ''<pre><code class='' @ [DQUOTE] @ ''language-'', ''</code></pre>'', ''<p>'', ''</p>'', ''<hr>'', ''<blockquote>'',
      ''</blockquote>'', ''<li>'', ''</li>'', ''<ul>'', ''</ul>'', ''<ol>'', ''</ol>'', ''<table>'', ''</table>'', ''<tr>'', ''</tr>'',
      ''<td>'', ''</td>'', ''<th>'', ''</th>'', ''<h1>'', ''</h1>'', ''<h2>'', ''</h2>'', ''<h3>'', ''</h3>'', ''<h4>'', ''</h4>'']"

definition plain_byte :: "char \<Rightarrow> bool" where
  "plain_byte c \<longleftrightarrow> c \<noteq> CHR ''<'' \<and> c \<noteq> CHR ''>'' \<and> c \<noteq> DQUOTE"

definition piece_ok :: "string \<Rightarrow> bool" where
  "piece_ok p \<longleftrightarrow> p \<in> set book_tags \<or> (\<exists>c. p = [c] \<and> plain_byte c)"

definition fragment :: "string \<Rightarrow> bool" where
  "fragment h \<longleftrightarrow> (\<exists>ps. h = concat ps \<and> list_all piece_ok ps)"

lemma fragment_append [intro]: "fragment a \<Longrightarrow> fragment b \<Longrightarrow> fragment (a @ b)"
  unfolding fragment_def by (metis concat_append list_all_append)

lemma fragment_concat: "(\<And>x. x \<in> set xs \<Longrightarrow> fragment x) \<Longrightarrow> fragment (concat xs)"
proof (induction xs)
  case Nil
  then show ?case by (auto simp: fragment_def intro: exI [of _ "[]"])
qed (auto intro: fragment_append)

lemma fragment_tag: "t \<in> set book_tags \<Longrightarrow> fragment t"
  unfolding fragment_def by (intro exI [of _ "[t]"]) (simp add: piece_ok_def)

lemma fragment_plain: "list_all plain_byte s \<Longrightarrow> fragment s"
  unfolding fragment_def
  by (rule exI [of _ "map (\<lambda>c. [c]) s"], induction s) (simp_all add: piece_ok_def)

lemma plain_escaped: "list_all plain_byte (html_EscapeString s)"
  by (induction s) (auto simp: html_EscapeString_def esc1_def plain_byte_def)

text \<open>The pieces of one line: no tag has a byte that a pass looks for, or a digit.\<close>

definition inline_tags :: "string list" where
  "inline_tags =
     [''<strong>'', ''</strong>'', ''<em>'', ''</em>'', ''<a href='' @ [DQUOTE], [DQUOTE] @ ''>'', ''</a>'', ''<code>'', ''</code>'']"

definition mark :: "char \<Rightarrow> bool" where
  "mark c \<longleftrightarrow> c \<in> {CHR ''*'', CHR ''['', CHR '']'', CHR ''('', CHR '')'', NUL}"

definition inl_ok :: "string \<Rightarrow> bool" where
  "inl_ok p \<longleftrightarrow> p \<in> set inline_tags \<or> (\<exists>c. p = [c] \<and> plain_byte c)"

definition inline_frag :: "string \<Rightarrow> bool" where
  "inline_frag h \<longleftrightarrow> (\<exists>ps. h = concat ps \<and> list_all inl_ok ps)"

lemma inline_fragment: "inline_frag h \<Longrightarrow> fragment h"
proof -
  have "inl_ok p \<Longrightarrow> piece_ok p" for p by (auto simp: inl_ok_def piece_ok_def inline_tags_def book_tags_def)
  then show "inline_frag h \<Longrightarrow> fragment h" unfolding inline_frag_def fragment_def list_all_iff by blast
qed

lemma inline_append: "inline_frag a \<Longrightarrow> inline_frag b \<Longrightarrow> inline_frag (a @ b)"
  unfolding inline_frag_def by (metis concat_append list_all_append)

lemma inline_tag: "t \<in> set inline_tags \<Longrightarrow> inline_frag t"
  unfolding inline_frag_def by (intro exI [of _ "[t]"]) (simp add: inl_ok_def)

lemma inline_pieces: "list_all inl_ok ps \<Longrightarrow> inline_frag (concat ps)"
  unfolding inline_frag_def by blast

lemma inline_plain: "list_all plain_byte s \<Longrightarrow> inline_frag s"
  unfolding inline_frag_def
  by (rule exI [of _ "map (\<lambda>c. [c]) s"], induction s) (simp_all add: inl_ok_def)

lemma tag_chars: "t \<in> set inline_tags \<Longrightarrow> t \<noteq> [] \<and> \<not> plain_byte (hd t) \<and> (\<forall>c \<in> set t. \<not> mark c)"
  by (auto simp: inline_tags_def plain_byte_def mark_def)

lemma inl_piece: "inl_ok p \<Longrightarrow> p \<noteq> [] \<and> ((\<exists>c. p = [c]) \<or> (\<forall>c \<in> set p. \<not> mark c))"
  using tag_chars by (auto simp: inl_ok_def)

text \<open>A byte that is no angle bracket and no quote is a piece of its own at the start of the pieces.\<close>

lemma first_piece: "list_all inl_ok ps \<Longrightarrow> concat ps = c # s \<Longrightarrow> plain_byte c \<Longrightarrow> \<exists>qs. ps = [c] # qs \<and> s = concat qs \<and> list_all inl_ok qs"
  using tag_chars [of "hd ps"] by (cases ps; cases "hd ps") (auto simp: inl_ok_def)

lemma mark_plain: "mark c \<Longrightarrow> plain_byte c"
  by (auto simp: mark_def plain_byte_def)

lemma cut_at:
  assumes "list_all inl_ok ps" and "mark x"
  shows "\<exists>qs rs. ps = qs @ rs \<and> takeWhile (\<lambda>c. c \<noteq> x) (concat ps) = concat qs \<and> list_all inl_ok qs \<and> list_all inl_ok rs"
  using assms(1)
proof (induction ps)
  case (Cons p ps)
  from Cons obtain qs rs where i: "ps = qs @ rs" "takeWhile (\<lambda>c. c \<noteq> x) (concat ps) = concat qs" "list_all inl_ok qs" "list_all inl_ok rs"
    by auto
  show ?case
  proof (cases "p = [x]")
    case True
    then show ?thesis using Cons.prems by (intro exI [of _ "[]"] exI [of _ "p # ps"]) simp
  next
    case False
    then have "x \<notin> set p" using inl_piece [of p] Cons.prems assms(2) by (auto dest: bspec)
    then have "takeWhile (\<lambda>c. c \<noteq> x) (concat (p # ps)) = concat (p # qs)" using i(2) by (subst concat.simps, subst takeWhile_append2) auto
    then show ?thesis using i Cons.prems by (intro exI [of _ "p # qs"] exI [of _ rs]) simp
  qed
qed simp

text \<open>What a pass must do to keep the pieces: match at a mark, end at the end of a piece, and write pieces.\<close>

definition pass_ok :: "matcher \<Rightarrow> bool" where
  "pass_ok m \<longleftrightarrow>
     (\<forall>c s out n. m (c # s) = Some (out, n) \<longrightarrow> mark c)
     \<and> (\<forall>c ps out n. list_all inl_ok ps \<longrightarrow> m (c # concat ps) = Some (out, n) \<longrightarrow>
          inline_frag out \<and> (\<exists>qs rs. ps = qs @ rs \<and> length (concat qs) = n))"

lemma pass_okI:
  assumes "\<And>c s out n. m (c # s) = Some (out, n) \<Longrightarrow> mark c"
    and "\<And>c ps out n. list_all inl_ok ps \<Longrightarrow> m (c # concat ps) = Some (out, n) \<Longrightarrow>
      inline_frag out \<and> (\<exists>qs rs. ps = qs @ rs \<and> length (concat qs) = n)"
  shows "pass_ok m"
  using assms unfolding pass_ok_def by blast

lemma gsub_over: "pass_ok m \<Longrightarrow> \<forall>c \<in> set p. \<not> mark c \<Longrightarrow> gsub m (p @ s) = p @ gsub m s"
proof (induction p)
  case (Cons c p)
  have "m (c # p @ s) = None" using Cons.prems unfolding pass_ok_def by (cases "m (c # p @ s)") fastforce+
  then show ?case using Cons by simp
qed simp

lemma gsub_frag:
  assumes "pass_ok m" and "list_all inl_ok ps"
  shows "inline_frag (gsub m (concat ps))"
  using assms(2)
proof (induction "length ps" arbitrary: ps rule: less_induct)
  case less
  show ?case
  proof (cases ps)
    case Nil
    then show ?thesis using inline_pieces [of "[]"] by simp
  next
    case (Cons p qs)
    then have p: "inl_ok p" and qs: "list_all inl_ok qs" using less.prems by simp_all
    have rest: "inline_frag (gsub m (concat rs))" if "qs = q @ rs" for q rs
      using less.hyps [of rs] qs that Cons by simp
    have one: "inline_frag p" using inline_pieces [of "[p]"] p by simp
    consider (tag) "\<forall>c \<in> set p. \<not> mark c" | (char) c where "p = [c]" using inl_piece [OF p] by blast
    then show ?thesis
    proof cases
      case tag
      then show ?thesis using gsub_over [OF assms(1)] rest [of "[]"] one by (simp add: Cons inline_append)
    next
      case char
      show ?thesis
      proof (cases "m (c # concat qs)")
        case None
        then show ?thesis using rest [of "[]" qs] inline_append [OF one] char by (simp add: Cons)
      next
        case (Some r)
        obtain out n where r: "r = (out, n)" by fastforce
        with Some assms(1) qs obtain q rs where o: "inline_frag out" "qs = q @ rs" "length (concat q) = n"
          unfolding pass_ok_def by blast
        then have "gsub m (concat ps) = out @ gsub m (concat rs)" using Some r char by (simp add: Cons)
        then show ?thesis using inline_append [OF o(1) rest [OF o(2)]] by simp
      qed
    qed
  qed
qed

text \<open>Marks at the start of the pieces, and the pieces up to a mark.\<close>

lemma prefix_pieces: "list_all inl_ok ps \<Longrightarrow> HasPrefix (concat ps) w \<Longrightarrow> list_all plain_byte w \<Longrightarrow>
    \<exists>rs. ps = map (\<lambda>c. [c]) w @ rs \<and> list_all inl_ok rs"
proof (induction w arbitrary: ps)
  case (Cons c w)
  then obtain s where "concat ps = c # s" "HasPrefix s w" by (cases "concat ps") auto
  then obtain qs where "ps = [c] # qs" "HasPrefix (concat qs) w" "list_all inl_ok qs" using first_piece [OF Cons.prems(1)] Cons.prems(3) by auto
  then show ?case using Cons.IH [of qs] Cons.prems(3) by auto
qed simp

lemma up_to:
  assumes "list_all inl_ok ps" and "mark x" and "t = takeWhile (\<lambda>c. c \<noteq> x) (concat ps)" and "HasPrefix (drop (length t) (concat ps)) w" and "list_all plain_byte w"
  shows "\<exists>qs rs. ps = qs @ map (\<lambda>c. [c]) w @ rs \<and> t = concat qs \<and> list_all inl_ok qs \<and> list_all inl_ok rs"
proof -
  obtain qs rs where c: "ps = qs @ rs" "t = concat qs" "list_all inl_ok qs" "list_all inl_ok rs" using cut_at [OF assms(1,2)] assms(3) by blast
  then have "HasPrefix (concat rs) w" using assms(4) by simp
  from prefix_pieces [OF c(4) this assms(5)] c show ?thesis by auto
qed

lemma inline_wrap: "a \<in> set inline_tags \<Longrightarrow> b \<in> set inline_tags \<Longrightarrow> list_all inl_ok qs \<Longrightarrow> inline_frag (a @ concat qs @ b)"
  by (intro inline_append inline_tag inline_pieces)

lemma pass_italic: "pass_ok match_italic"
proof (rule pass_okI)
  fix c s out n assume "match_italic (c # s) = Some (out, n)"
  then show "mark c" by (simp add: match_italic_def mark_def Let_def split: if_splits)
next
  fix c ps out n assume ok: "list_all inl_ok ps" and m: "match_italic (c # concat ps) = Some (out, n)"
  let ?t = "takeWhile (\<lambda>c. c \<noteq> CHR ''*'') (concat ps)"
  from m have p: "HasPrefix (drop (length ?t) (concat ps)) ''*''" and o: "out = ''<em>'' @ ?t @ ''</em>''" "n = length ?t + 1"
    by (simp_all add: match_italic_def Let_def split: if_splits)
  obtain qs rs where q: "ps = qs @ [''*''] @ rs" "?t = concat qs" "list_all inl_ok qs"
    using up_to [OF ok _ refl p] by (auto simp: mark_def plain_byte_def)
  have "inline_frag out" unfolding o(1) q(2) using q(3) by (intro inline_wrap) (simp_all add: inline_tags_def)
  moreover have "ps = (qs @ [''*'']) @ rs \<and> length (concat (qs @ [''*''])) = n" using q o(2) by simp
  ultimately show "inline_frag out \<and> (\<exists>qs rs. ps = qs @ rs \<and> length (concat qs) = n)" by blast
qed

lemma pass_bold: "pass_ok match_bold"
proof (rule pass_okI)
  fix c s out n assume "match_bold (c # s) = Some (out, n)"
  then show "mark c" by (simp add: match_bold_def mark_def Let_def split: if_splits)
next
  fix c ps out n assume ok: "list_all inl_ok ps" and m: "match_bold (c # concat ps) = Some (out, n)"
  from m have "HasPrefix (concat ps) ''*''" by (simp add: match_bold_def Let_def split: if_splits)
  then obtain p1 where p1: "ps = ''*'' # p1" "list_all inl_ok p1"
    using prefix_pieces [OF ok, of "''*''"] by (auto simp: plain_byte_def)
  let ?t = "takeWhile (\<lambda>c. c \<noteq> CHR ''*'') (concat p1)"
  from m have p: "HasPrefix (drop (length ?t) (concat p1)) ''**''" and o: "out = ''<strong>'' @ ?t @ ''</strong>''" "n = length ?t + 3"
    by (simp_all add: match_bold_def Let_def p1 split: if_splits)
  obtain qs rs where q: "p1 = qs @ [''*'', ''*''] @ rs" "?t = concat qs" "list_all inl_ok qs"
    using up_to [OF p1(2) _ refl p] by (auto simp: mark_def plain_byte_def)
  have "inline_frag out" unfolding o(1) q(2) using q(3) by (intro inline_wrap) (simp_all add: inline_tags_def)
  moreover have "ps = (''*'' # qs @ [''*'', ''*'']) @ rs \<and> length (concat (''*'' # qs @ [''*'', ''*''])) = n" using q o(2) p1 by simp
  ultimately show "inline_frag out \<and> (\<exists>qs rs. ps = qs @ rs \<and> length (concat qs) = n)" by blast
qed

lemma pass_link: "pass_ok match_link"
proof (rule pass_okI)
  fix c s out n assume "match_link (c # s) = Some (out, n)"
  then show "mark c" by (simp add: match_link_def link_groups_def mark_def Let_def split: if_splits)
next
  fix c ps out n assume ok: "list_all inl_ok ps" and m: "match_link (c # concat ps) = Some (out, n)"
  let ?t = "takeWhile (\<lambda>c. c \<noteq> CHR '']'') (concat ps)"
  let ?u = "takeWhile (\<lambda>c. c \<noteq> CHR '')'') (drop (length ?t + 2) (concat ps))"
  from m have pt: "HasPrefix (drop (length ?t) (concat ps)) '']('' "
    and pu: "HasPrefix (drop (length ?t + 2 + length ?u) (concat ps)) '')''"
    and o: "out = ''<a href='' @ [DQUOTE] @ ?u @ [DQUOTE] @ ''>'' @ ?t @ ''</a>''" "n = length ?t + length ?u + 3"
    by (simp_all add: match_link_def link_groups_def Let_def split: if_splits)
  obtain qs rs where q: "ps = qs @ ['']'', ''(''] @ rs" "?t = concat qs" "list_all inl_ok qs" "list_all inl_ok rs"
    using up_to [OF ok _ refl pt] by (auto simp: mark_def plain_byte_def)
  then have d: "drop (length ?t + 2) (concat ps) = concat rs" by simp
  have u: "?u = takeWhile (\<lambda>c. c \<noteq> CHR '')'') (concat rs)" unfolding d by (rule refl)
  have "HasPrefix (drop (length ?u) (concat rs)) '')''" using pu unfolding d [symmetric] by (simp add: add.commute)
  from up_to [OF q(4) _ u this] obtain us vs where v: "rs = us @ ['')''] @ vs" "?u = concat us" "list_all inl_ok us"
    by (auto simp: mark_def plain_byte_def)
  have "inline_frag ((''<a href='' @ [DQUOTE]) @ concat us @ ([DQUOTE] @ ''>''))"
    using v(3) by (intro inline_wrap) (simp_all add: inline_tags_def)
  moreover have "inline_frag (concat qs)" by (rule inline_pieces [OF q(3)])
  moreover have "inline_frag ''</a>''" by (rule inline_tag) (simp add: inline_tags_def)
  ultimately have "inline_frag ((''<a href='' @ [DQUOTE]) @ concat us @ ([DQUOTE] @ ''>'') @ concat qs @ ''</a>'')"
    using inline_append by (metis append.assoc)
  then have "inline_frag out" unfolding o(1) unfolding v(2) unfolding q(2) by simp
  moreover have "ps = (qs @ ['']'', ''(''] @ us @ ['')'']) @ vs \<and> length (concat (qs @ ['']'', ''(''] @ us @ ['')''])) = n"
    using q v o(2) by simp
  ultimately show "inline_frag out \<and> (\<exists>qs rs. ps = qs @ rs \<and> length (concat qs) = n)" by blast
qed

lemma escape_placeholder: "html_EscapeString (placeholder k) = placeholder k"
proof -
  have "concat (map esc1 ds) = ds" if "list_all is_digit ds" for ds
    using that by (induction ds) (auto simp: is_digit_def esc1_def)
  from this [OF show_nat_digits] show ?thesis by (simp add: html_EscapeString_def placeholder_def) (simp add: esc1_def)
qed

lemma pass_replace:
  assumes "inline_frag v"
  shows "pass_ok (\<lambda>t. if HasPrefix t (placeholder k) then Some (v, length (placeholder k) - 1) else None)"
proof (rule pass_okI)
  fix c s out n
  assume "(if HasPrefix (c # s) (placeholder k) then Some (v, length (placeholder k) - 1) else None) = Some (out, n)"
  then show "mark c" by (simp add: placeholder_def mark_def split: if_splits)
next
  fix c ps out n
  let ?ds = "show_nat k @ [NUL]"
  assume ok: "list_all inl_ok ps"
    and "(if HasPrefix (c # concat ps) (placeholder k) then Some (v, length (placeholder k) - 1) else None) = Some (out, n)"
  then have p: "HasPrefix (concat ps) ?ds" and o: "out = v" "n = length ?ds" by (simp_all add: placeholder_def split: if_splits)
  have "list_all plain_byte ?ds"
    using show_nat_digits [of k] by (auto simp: list_all_iff plain_byte_def is_digit_def)
  from prefix_pieces [OF ok p this] obtain rs where rs: "ps = map (\<lambda>c. [c]) ?ds @ rs" by blast
  have "length (concat (map (\<lambda>c. [c]) xs)) = length xs" for xs :: string by (induction xs) simp_all
  then show "inline_frag out \<and> (\<exists>qs rs. ps = qs @ rs \<and> length (concat qs) = n)"
    using assms rs o by blast
qed

lemma pass_frag: "pass_ok m \<Longrightarrow> inline_frag s \<Longrightarrow> inline_frag (gsub m s)"
  unfolding inline_frag_def [of s] using gsub_frag by blast

lemma hidden_values: "(key, v) \<in> set (snd (hide_code k s)) \<Longrightarrow> inline_frag v \<and> (\<exists>i. key = placeholder i)"
proof (induction k s rule: hide_code.induct)
  case (2 k c s)
  let ?inner = "takeWhile (\<lambda>x. x \<noteq> BTICK) s"
  have code: "inline_frag (''<code>'' @ html_EscapeString ?inner @ ''</code>'')"
    by (intro inline_append [OF inline_tag] inline_append [OF inline_plain inline_tag] plain_escaped) (simp_all add: inline_tags_def)
  show ?case
  proof (cases "c = BTICK \<and> ?inner \<noteq> [] \<and> length ?inner < length s")
    case True
    with 2 code show ?thesis by (auto simp: Let_def split: prod.splits)
  next
    case False
    then have "snd (hide_code k (c # s)) = snd (hide_code k s)" by (auto simp: Let_def split: prod.split)
    with 2 False show ?thesis by (auto simp: Let_def)
  qed
qed simp

lemma put_back_frag:
  "inline_frag t \<Longrightarrow> (\<And>key v. (key, v) \<in> set ph \<Longrightarrow> inline_frag v \<and> (\<exists>i. key = placeholder i)) \<Longrightarrow> inline_frag (put_back ph t)"
proof (induction ph arbitrary: t)
  case (Cons e ph)
  obtain key v where e: "e = (key, v)" by fastforce
  then obtain i where v: "inline_frag v" "key = placeholder i" using Cons.prems(2) [of key v] by auto
  then have k: "html_EscapeString key = placeholder i" by (simp add: escape_placeholder)
  have "inline_frag (go_ReplaceAll (html_EscapeString key) v t)"
    unfolding go_ReplaceAll_def k by (rule pass_frag [OF pass_replace [OF v(1)] Cons.prems(1)])
  then have "inline_frag (put_back ph (go_ReplaceAll (html_EscapeString key) v t))"
    by (rule Cons.IH) (meson Cons.prems(2) list.set_intros(2))
  then show ?case by (simp add: e)
qed simp

lemma inline_safe_book: "any_order ord \<Longrightarrow> fragment (inlineMd ord s)"
proof -
  assume o: "any_order ord"
  obtain t ph where h: "hide_code 0 s = (t, ph)" by fastforce
  have "set (ord ph) = set ph" using o by (metis any_order_def set_mset_mset)
  then have v: "(key, v) \<in> set (ord ph) \<Longrightarrow> inline_frag v \<and> (\<exists>i. key = placeholder i)" for key v
    using hidden_values [of key v 0 s] h by simp
  have "inline_frag (inline_passes t)"
    unfolding inline_passes_def by (intro pass_frag pass_link pass_italic pass_bold inline_plain plain_escaped)
  from put_back_frag [OF this v] show ?thesis by (simp add: inlineMd_def h inline_fragment)
qed

text \<open>The state of a file: what is written, and what the open list has.\<close>

definition frag_state :: "md_state \<Rightarrow> bool" where
  "frag_state st \<longleftrightarrow> fragment (ms_b st) \<and> fragment (ms_listBuf st)"

lemma fragment_Nil [simp]: "fragment []"
  using fragment_plain [of "[]"] by simp

lemma fragment_LF [simp]: "fragment [LF]"
  by (rule fragment_plain) (simp add: plain_byte_def)

lemma fragment_escaped [simp]: "fragment (html_EscapeString s)"
  by (rule fragment_plain [OF plain_escaped])

lemma frag_emit: "frag_state st \<Longrightarrow> fragment t \<Longrightarrow> frag_state (emit t st)"
  by (auto simp: frag_state_def emit_def)

definition doc_tags :: "string list" where
  "doc_tags = [''p'', ''li'', ''ul'', ''ol'', ''table'', ''tr'', ''td'', ''th'', ''h1'', ''h2'', ''h3'', ''h4'', ''blockquote'']"

lemma fragment_wrap: "t \<in> set doc_tags \<Longrightarrow> fragment s \<Longrightarrow> fragment (angled t @ s @ angled_end t)"
proof -
  assume t: "t \<in> set doc_tags" and s: "fragment s"
  have "fragment (angled t)" "fragment (angled_end t)"
    using t by (auto intro!: fragment_tag simp: doc_tags_def angled_def angled_end_def book_tags_def)
  then show ?thesis using s by blast
qed

lemma fragment_wrap_LF: "t \<in> set doc_tags \<Longrightarrow> fragment s \<Longrightarrow> fragment (angled t @ s @ angled_end t @ [LF])"
  using fragment_append [OF fragment_wrap fragment_LF] by simp

lemmas wrap_as = fragment_wrap [unfolded angled_def angled_end_def] fragment_wrap_LF [unfolded angled_def angled_end_def]

lemma row_frag:
  assumes "any_order ord" and "t \<in> {''td'', ''th''}"
  shows "fragment (table_row ord t row)"
proof -
  have "t \<in> set doc_tags" using assms(2) by (auto simp: doc_tags_def)
  then have "fragment (angled t @ inlineMd ord c @ angled_end t)" for c by (rule fragment_wrap [OF _ inline_safe_book [OF assms(1)]])
  then have "fragment (concat (map (\<lambda>c. angled t @ inlineMd ord (TrimSpace c) @ angled_end t) cs))" for cs
    by (intro fragment_concat) auto
  from fragment_wrap_LF [of "''tr''", OF _ this] show ?thesis by (simp add: table_row_def angled_def angled_end_def doc_tags_def)
qed

lemma table_frag:
  assumes "any_order ord"
  shows "fragment (table_html ord rows)"
proof -
  have "fragment (case jr of (j, row) \<Rightarrow> if j = 1 then [] else table_row ord (if j = 0 then ''th'' else ''td'') row)" for jr :: "nat \<times> string"
    using row_frag [OF assms] by (simp split: prod.split)
  then have "fragment ([LF] @ concat (map (\<lambda>(j, row). if j = 1 then [] else table_row ord (if j = 0 then ''th'' else ''td'') row) (enumerate 0 rows)))"
    by (intro fragment_append fragment_concat fragment_LF) auto
  from fragment_wrap_LF [of "''table''", OF _ this] show ?thesis by (simp add: table_html_def angled_def angled_end_def doc_tags_def)
qed

lemma flush_frag: "any_order ord \<Longrightarrow> frag_state st \<Longrightarrow> frag_state (bk_flush ord st)"
proof -
  assume o: "any_order ord" and st: "frag_state st"
  have l: "fragment (angled t @ ms_listBuf st @ angled_end t @ [LF])" if "t = ''ol'' \<or> t = ''ul''" for t
    using fragment_wrap_LF [of t] st that by (auto simp: frag_state_def doc_tags_def)
  let ?t = "if ms_listOl st then ''ol'' else ''ul''"
  define st1 where "st1 = (if ms_inList st then (emit (angled ?t @ ms_listBuf st @ angled_end ?t @ [LF]) st)\<lparr>ms_listBuf := [], ms_inList := False\<rparr> else st)"
  have "frag_state st1" using st l [of ?t] by (auto simp: st1_def frag_state_def emit_def)
  then have "frag_state ((emit (table_html ord (ms_tableRows st1)) st1)\<lparr>ms_tableRows := [], ms_inTable := False\<rparr>)"
    using table_frag [OF o] by (auto simp: frag_state_def emit_def)
  moreover have "bk_flush ord st = (if ms_inTable st1 then (emit (table_html ord (ms_tableRows st1)) st1)\<lparr>ms_tableRows := [], ms_inTable := False\<rparr> else st1)"
    by (simp only: bk_flush_def Let_def st1_def)
  ultimately show ?thesis using \<open>frag_state st1\<close> by simp
qed

lemma item_frag: "any_order ord \<Longrightarrow> frag_state st \<Longrightarrow> frag_state (list_item ord ol t st)"
proof -
  assume o: "any_order ord" and st: "frag_state st"
  have "fragment (''<li>'' @ inlineMd ord t @ ''</li>'' @ [LF])"
    using wrap_as(2) [of "''li''", OF _ inline_safe_book [OF o]] by (simp add: doc_tags_def)
  then show ?thesis using st flush_frag [OF o st] by (auto simp: list_item_def Let_def frag_state_def)
qed

lemma para_frag: "(\<And>x. x \<in> set ts \<Longrightarrow> fragment x) \<Longrightarrow> fragment para \<Longrightarrow> fragment (join_para ts para)"
proof (induction ts para rule: join_para.induct)
  case (2 t ts para)
  have "fragment '' ''" by (rule fragment_plain) (simp add: plain_byte_def)
  then have "fragment (para @ (if para \<noteq> [] then '' '' else []) @ t)" using "2.prems" fragment_append [of para "'' '' @ t"] fragment_append [of "'' ''" t] fragment_append [of para t] by simp
  from "2.IH" [OF _ this] "2.prems"(1) show ?case by simp
qed simp

lemma fence_frag: "any_order ord \<Longrightarrow> frag_state st \<Longrightarrow> frag_state (fence_turn ord line st)"
proof -
  assume o: "any_order ord" and st: "frag_state st"
  have "fragment (''<pre><code>'' @ html_EscapeString (ms_codeBuf st) @ ''</code></pre>'' @ [LF])"
    by (intro fragment_append fragment_tag fragment_escaped fragment_LF) (simp_all add: book_tags_def)
  moreover have "fragment ((''<pre><code class='' @ [DQUOTE] @ ''language-'') @ html_EscapeString (ms_codeLang st) @ ([DQUOTE] @ ''>'')
      @ html_EscapeString (ms_codeBuf st) @ ''</code></pre>'' @ [LF])"
    by (intro fragment_append fragment_tag fragment_escaped fragment_LF) (simp_all add: book_tags_def)
  ultimately show ?thesis using st flush_frag [OF o st] by (auto simp: fence_turn_def frag_state_def emit_def)
qed

lemma block_frag:
  assumes o: "any_order ord" and st: "frag_state st"
  shows "frag_state (fst (block_turn ord ls st))"
proof -
  note fl = flush_frag [OF o st] and inl = inline_safe_book [OF o]
  have "fragment (''<p>'' @ inlineMd ord (drop 2 l) @ ''</p>'')" for l
    using wrap_as(1) [of "''p''", OF _ inl] by (simp add: doc_tags_def)
  then have "fragment (concat (map (\<lambda>l. ''<p>'' @ inlineMd ord (drop 2 l) @ ''</p>'') qs))" for qs
    by (intro fragment_concat) auto
  from wrap_as(2) [of "''blockquote''", OF _ this]
  have quote: "fragment (''<blockquote>'' @ concat (map (\<lambda>l. ''<p>'' @ inlineMd ord (drop 2 l) @ ''</p>'') qs) @ ''</blockquote>'' @ [LF])" for qs
    by (simp add: doc_tags_def)
  have "fragment (join_para (map (inlineMd ord) ps) [])" for ps by (rule para_frag) (auto simp: inl)
  from wrap_as(2) [of "''p''", OF _ this] have para: "fragment (''<p>'' @ join_para (map (inlineMd ord) ps) [] @ ''</p>'' @ [LF])" for ps
    by (simp add: doc_tags_def)
  have heading: "fragment (angled (''h'' @ show_nat k) @ inlineMd ord t @ angled_end (''h'' @ show_nat k) @ [LF])" if "0 < k" "k \<le> 4" for k t
  proof -
    have "k = 1 \<or> k = 2 \<or> k = 3 \<or> k = 4" using that by linarith
    moreover have "''h'' @ show_nat 1 \<in> set doc_tags \<and> ''h'' @ show_nat 2 \<in> set doc_tags
        \<and> ''h'' @ show_nat 3 \<in> set doc_tags \<and> ''h'' @ show_nat 4 \<in> set doc_tags"
      by code_simp
    ultimately have "''h'' @ show_nat k \<in> set doc_tags" by metis
    from fragment_wrap_LF [OF this inl] show ?thesis .
  qed
  have level: "HasPrefix l ''#'' \<Longrightarrow> 0 < hash_level l" for l by (auto simp: hash_level_def HasPrefix_iff)
  have rule: "fragment (''<hr>'' @ [LF])" by (intro fragment_append fragment_tag fragment_LF) (simp add: book_tags_def)
  let ?line = "hd ls"
  define st2 where "st2 = (if HasPrefix ?line ''#'' then bk_flush ord st else st)"
  have st': "frag_state st2" using st fl by (simp add: st2_def)
  note items = item_frag [OF o st'] and emits = frag_emit [OF fl]
  show ?thesis
  proof (cases "HasPrefix ?line ''#'' \<and> hash_level ?line \<le> 4")
    case True
    then show ?thesis using emits [OF heading [OF level]] by (simp add: block_turn_def Let_def)
  next
    case False
    show ?thesis
      using items emits [OF rule] emits [OF quote] emits [OF para] fl
      unfolding block_turn_def Let_def st2_def [symmetric] if_not_P [OF False] by (simp split: option.split)
  qed
qed

lemma turn_frag:
  assumes o: "any_order ord" and st: "frag_state st" and t: "md_turn_lines ord ls st = (st', k)"
  shows "frag_state st'"
proof -
  define st2 where "st2 = (if ms_inTable st then bk_flush ord st else st)"
  have "frag_state (st\<lparr>ms_codeBuf := x\<rparr>)" "frag_state (st\<lparr>ms_inTable := True, ms_tableRows := r\<rparr>)" for x r
    using st by (simp_all add: frag_state_def)
  moreover have "frag_state (fst (block_turn ord ls st2))"
    using st by (intro block_frag [OF o]) (simp add: flush_frag [OF o] st2_def)
  ultimately have "frag_state (fst (md_turn_lines ord ls st))"
    using fence_frag [OF o st] unfolding md_turn_lines_def Let_def st2_def [symmetric] by simp
  then show ?thesis by (simp add: t)
qed

lemma lines_frag:
  assumes "md_lines ord ls st = Some r"
  shows "any_order ord \<longrightarrow> frag_state st \<longrightarrow> frag_state r"
proof (rule md_lines.raw_induct [where P = "\<lambda>ord ls st r. any_order ord \<longrightarrow> frag_state st \<longrightarrow> frag_state r", OF _ assms])
  fix loop ord ls st r
  assume ih: "\<And>ord ls st r. loop ord ls st = Some r \<Longrightarrow> any_order ord \<longrightarrow> frag_state st \<longrightarrow> frag_state r"
    and eq: "(if ls = [] then Some st else case md_turn_lines ord ls st of (st', k) \<Rightarrow> loop ord (drop k ls) st') = Some r"
  obtain st' k where k: "md_turn_lines ord ls st = (st', k)" by fastforce
  show "any_order ord \<longrightarrow> frag_state st \<longrightarrow> frag_state r"
    using eq k ih turn_frag [OF _ _ k] by (cases "ls = []") auto
qed

text \<open>
  Whatever a source file of the documentation contains, and in whatever order the placeholders of its
  code spans are put back, the page body that comes out is a sequence of the converter's own tags and of
  bytes other than angle brackets and quotes: no text becomes markup, and none ends an attribute.
\<close>

theorem book_html_safe:
  assumes "any_order ord" and "mdToHTML ord md = Some h"
  shows "\<exists>ps. h = concat ps \<and> list_all piece_ok ps"
proof -
  obtain st where l: "md_lines ord (split_on LF md) md_start = Some st" and h: "h = ms_b (bk_flush ord st)"
    using assms(2) by (auto simp: mdToHTML_def)
  have "frag_state md_start" by (simp add: frag_state_def md_start_def)
  with lines_frag [OF l] assms(1) have "frag_state st" by simp
  from flush_frag [OF assms(1) this] show ?thesis by (simp add: h frag_state_def fragment_def)
qed

theorem book_html_safe_witness:
  "\<exists>h ps. mdToHTML id ''<b> **x**'' = Some h \<and> h = concat ps \<and> list_all piece_ok ps"
proof -
  have "\<not> five_ahead (ms_inCode md_start) (split_on LF ''<b> **x**'')"
    by code_simp
  then obtain h where h: "mdToHTML id ''<b> **x**'' = Some h"
    using lines_return [of id "split_on LF ''<b> **x**''" md_start] by (auto simp: mdToHTML_def)
  have "any_order id" by (simp add: any_order_def)
  from book_html_safe [OF this h] h show ?thesis by blast
qed

section \<open>The order of the placeholders\<close>

lemma replace_skip: "NUL \<notin> set v \<Longrightarrow> go_ReplaceAll (placeholder k) x (v @ s) = v @ go_ReplaceAll (placeholder k) x s"
  by (induction v) (auto simp: go_ReplaceAll_def placeholder_def)

lemma code_no_NUL:
  assumes "NUL \<notin> set a"
  shows "NUL \<notin> set (''<code>'' @ html_EscapeString a @ ''</code>'')"
proof -
  have "esc1 c \<in> {''&amp;'', ''&lt;'', ''&gt;'', ''&#34;'', ''&#39;'', [c]}" for c
    by (simp add: esc1_def)
  moreover have "\<forall>t \<in> {''&amp;'', ''&lt;'', ''&gt;'', ''&#34;'', ''&#39;''}. NUL \<notin> set t" by simp
  ultimately have "NUL \<in> set (esc1 c) \<Longrightarrow> c = NUL" for c by fastforce
  then have "NUL \<notin> set (html_EscapeString a)"
    using assms unfolding html_EscapeString_def set_concat set_map by blast
  then show ?thesis by simp
qed

text \<open>
  The converter is not a function of its input. A digit alone between two code spans can be read as
  a placeholder of its own: whether the line comes out right depends on the order in which the run visits
  the map, so that two builds of the same book can differ.
\<close>

theorem code_spans_order:
  assumes "a \<noteq> []" and "b \<noteq> []" and "BTICK \<notin> set a" and "BTICK \<notin> set b" and "NUL \<notin> set a" and "NUL \<notin> set b"
  shows "let line = [BTICK] @ a @ [BTICK] @ ''1'' @ [BTICK] @ b @ [BTICK];
      span = (\<lambda>t. ''<code>'' @ html_EscapeString t @ ''</code>'') in
    any_order id \<and> any_order rev \<and> inlineMd id line = span a @ ''1'' @ span b
    \<and> inlineMd rev line = [NUL] @ ''0'' @ span b @ ''1'' @ [NUL]"
proof -
  let ?v = "''<code>'' @ html_EscapeString a @ ''</code>''" and ?w = "''<code>'' @ html_EscapeString b @ ''</code>''"
  let ?line = "BTICK # a @ BTICK # CHR ''1'' # BTICK # b @ [BTICK]"
  let ?t = "[NUL, CHR ''0'', NUL, CHR ''1'', NUL, CHR ''1'', NUL]"
  have tw: "takeWhile (\<lambda>x. x \<noteq> BTICK) (u @ BTICK # r) = u" if "BTICK \<notin> set u" for u r
    using that by (induction u) auto
  have p: "placeholder 0 = [NUL, CHR ''0'', NUL]" "placeholder 1 = [NUL, CHR ''1'', NUL]" "placeholder (Suc 0) = [NUL, CHR ''1'', NUL]"
    by code_simp+
  have hide: "hide_code 0 ?line = (?t, [(placeholder 0, ?v), (placeholder 1, ?w)])"
    using assms by (simp add: tw Let_def p)
  have passes: "inline_passes ?t = ?t" by code_simp
  have first: "go_ReplaceAll (placeholder 0) x ?t = x @ [CHR ''1'', NUL, CHR ''1'', NUL]"
    "go_ReplaceAll (placeholder 1) x ?t = [NUL, CHR ''0''] @ x @ [CHR ''1'', NUL]"
    "go_ReplaceAll (placeholder 1) x [CHR ''1'', NUL, CHR ''1'', NUL] = [CHR ''1''] @ x"
    "go_ReplaceAll (placeholder 0) x [CHR ''1'', NUL] = [CHR ''1'', NUL]" for x
    by (simp_all add: p go_ReplaceAll_def)
  have late: "go_ReplaceAll (placeholder 0) x ([NUL, CHR ''0''] @ ?w @ r) = [NUL, CHR ''0''] @ ?w @ go_ReplaceAll (placeholder 0) x r" for x r
    using replace_skip [OF code_no_NUL [OF assms(6)], of 0 x r] by (simp add: p go_ReplaceAll_def)
  have "inlineMd id ?line = ?v @ [CHR ''1''] @ ?w"
    using replace_skip [OF code_no_NUL [OF assms(5)], of 1 ?w] by (simp only: inlineMd_def hide split passes id_apply put_back_simps escape_placeholder first)
  moreover have "inlineMd rev ?line = go_ReplaceAll (placeholder 0) ?v (go_ReplaceAll (placeholder 1) ?w ?t)"
    by (simp only: inlineMd_def hide split passes rev.simps append_Nil append_Cons put_back_simps escape_placeholder)
  then have "inlineMd rev ?line = [NUL, CHR ''0''] @ ?w @ [CHR ''1'', NUL]"
    unfolding first(2) late first(4) .
  ultimately show ?thesis by (simp add: any_order_def)
qed

theorem code_spans_order_witness:
  "inlineMd id [BTICK, CHR ''a'', BTICK, CHR ''1'', BTICK, CHR ''b'', BTICK]
     \<noteq> inlineMd rev [BTICK, CHR ''a'', BTICK, CHR ''1'', BTICK, CHR ''b'', BTICK]"
  using code_spans_order [of "''a''" "''b''"] by (simp add: Let_def)

end
