(* ===== verification/Book_Site.thy ===== *)
theory Book_Site
  imports Book_Markdown Go_Path
begin

text \<open>
  The rest of \<open>book/build_book.go\<close>: the table of contents in \<open>SUMMARY.md\<close>, the side bar and the links to
  the previous and the next page, and \<open>main\<close>, which writes the site. The style sheet and what the file
  system answers are fields of \<open>book_env\<close>.
\<close>

record bk_entry =
  en_title :: string
  en_file :: string
  en_level :: nat
  en_isSection :: bool

section \<open>The table of contents\<close>

fun find_link :: "string \<Rightarrow> (string \<times> string) option" where
  "find_link [] = None"
| "find_link (c # s) = (case link_groups (c # s) of Some g \<Rightarrow> Some g | None \<Rightarrow> find_link s)"

definition summary_line :: "string \<Rightarrow> bk_entry option" where
  "summary_line line =
     (if HasPrefix (TrimSpace line) ''#'' then
        Some \<lparr>en_title = TrimLeft line ''# '', en_file = [], en_level = 0, en_isSection = True\<rparr>
      else (case find_link line of
              None \<Rightarrow> None
            | Some (t, u) \<Rightarrow>
                Some \<lparr>en_title = t, en_file = u,
                  en_level = length (takeWhile (\<lambda>c. c = CHR '' '' \<or> c = TAB) line) div 2, en_isSection = False\<rparr>))"

text \<open>The error of the scanner is not looked at.\<close>

definition parseSummary :: "string \<Rightarrow> bk_entry list" where
  "parseSummary data = List.map_filter summary_line (fst (scan_lines data))"

definition is_page :: "bk_entry \<Rightarrow> bool" where
  "is_page e \<longleftrightarrow> \<not> en_isSection e \<and> en_file e \<noteq> []"

section \<open>Links\<close>

definition html_name :: "string \<Rightarrow> string" where
  "html_name file = TrimSuffix file ''.md'' @ ''.html''"

definition relPath :: "string \<Rightarrow> string \<Rightarrow> string" where
  "relPath from to = (case path_Rel (path_Dir from) to of Inl _ \<Rightarrow> to | Inr rel \<Rightarrow> rel)"

text \<open>An attribute of a literal of the source.\<close>

definition attr :: "string \<Rightarrow> string \<Rightarrow> string" where
  "attr a v = '' '' @ a @ ''='' @ [DQUOTE] @ v @ [DQUOTE]"

definition sidebar_item :: "string \<Rightarrow> bk_entry \<Rightarrow> string" where
  "sidebar_item active e =
     (if en_isSection e then ''<li'' @ attr ''class'' ''section'' @ ''>'' @ html_EscapeString (en_title e) @ ''</li>''
      else if en_file e = [] then []
      else ''<li><a'' @ attr ''href'' (relPath active (html_name (en_file e)))
        @ (if en_file e = active then attr ''class'' ''active'' else []) @ ''>''
        @ concat (replicate (en_level e) ''&nbsp;&nbsp;'') @ html_EscapeString (en_title e) @ ''</a></li>'')"

definition buildSidebar :: "bk_entry list \<Rightarrow> string \<Rightarrow> string \<Rightarrow> string" where
  "buildSidebar entries active title =
     ''<h1>'' @ html_EscapeString title @ ''</h1><ul>'' @ concat (map (sidebar_item active) entries) @ ''</ul>''"

definition left_arrow :: string where "left_arrow = [CHR 0xE2, CHR 0x86, CHR 0x90]"
definition right_arrow :: string where "right_arrow = [CHR 0xE2, CHR 0x86, CHR 0x92]"

definition buildNav :: "bk_entry option \<Rightarrow> bk_entry option \<Rightarrow> string \<Rightarrow> string" where
  "buildNav prev next_e current =
     ''<div'' @ attr ''id'' ''nav-bar'' @ ''>''
     @ (case prev of
          Some e \<Rightarrow> ''<a'' @ attr ''href'' (relPath current (html_name (en_file e))) @ ''>'' @ left_arrow @ '' '' @ html_EscapeString (en_title e) @ ''</a>''
        | None \<Rightarrow> ''<span></span>'')
     @ (case next_e of
          Some e \<Rightarrow> ''<a'' @ attr ''href'' (relPath current (html_name (en_file e))) @ ''>'' @ html_EscapeString (en_title e) @ '' '' @ right_arrow @ ''</a>''
        | None \<Rightarrow> ''<span></span>'')
     @ ''</div>''"

section \<open>main\<close>

record book_env =
  be_css :: string
  be_order :: map_order
  be_mkdir :: "string \<Rightarrow> go_err option"
  be_read :: "string \<Rightarrow> string result"
  be_write :: "string \<Rightarrow> string \<Rightarrow> go_err option"

text \<open>The files written so far, and how the run ends.\<close>

datatype build = Built "(string \<times> string) list" | Died "(string \<times> string) list" go_err | Hangs "(string \<times> string) list"

definition srcDir :: string where "srcDir = path_Join [''book'', ''src'']"
definition outDir :: string where "outDir = path_Join [''book'', ''html'']"

definition title_line :: "string \<Rightarrow> string \<Rightarrow> string" where
  "title_line line title =
     (if HasPrefix line ''title'' then
        (case IndexByte line (CHR ''='') of
           None \<Rightarrow> title
         | Some k \<Rightarrow> go_Trim (TrimSpace (drop (Suc k) line)) [DQUOTE])
      else title)"

definition book_title :: "book_env \<Rightarrow> string" where
  "book_title env =
     (case be_read env (path_Join [''book'', ''book.toml'']) of
        Inl _ \<Rightarrow> ''rdw'' | Inr data \<Rightarrow> fold title_line (split_on LF data) ''rdw'')"

definition page_head :: "book_env \<Rightarrow> string \<Rightarrow> bk_entry \<Rightarrow> string" where
  "page_head env title e =
     ''<!DOCTYPE html>'' @ [LF] @ ''<html'' @ attr ''lang'' ''en'' @ ''>'' @ [LF] @ ''<head>'' @ [LF]
     @ ''<meta'' @ attr ''charset'' ''utf-8'' @ ''>'' @ [LF]
     @ ''<meta'' @ attr ''name'' ''viewport'' @ attr ''content'' ''width=device-width,initial-scale=1'' @ ''>'' @ [LF]
     @ ''<title>'' @ html_EscapeString (en_title e) @ '' '' @ [CHR 0xE2, CHR 0x80, CHR 0x94] @ '' '' @ html_EscapeString title @ ''</title>'' @ [LF]
     @ ''<style>'' @ be_css env @ ''</style>'' @ [LF] @ ''</head>'' @ [LF] @ ''<body>'' @ [LF]
     @ ''<nav'' @ attr ''id'' ''sidebar'' @ ''>''"

definition page_html :: "book_env \<Rightarrow> string \<Rightarrow> bk_entry \<Rightarrow> string \<Rightarrow> string \<Rightarrow> string \<Rightarrow> string" where
  "page_html env title e sidebar body nav =
     page_head env title e @ sidebar @ ''</nav>'' @ [LF]
     @ ''<main'' @ attr ''id'' ''content'' @ ''>'' @ [LF] @ body @ [LF] @ nav @ [LF] @ ''</main>'' @ [LF] @ ''</body>'' @ [LF] @ ''</html>''"

definition out_path :: "bk_entry \<Rightarrow> string" where
  "out_path e = path_Join [outDir, html_name (en_file e)]"

definition prev_page :: "bk_entry list \<Rightarrow> nat \<Rightarrow> bk_entry option" where
  "prev_page entries i = find is_page (rev (take i entries))"

definition next_page :: "bk_entry list \<Rightarrow> nat \<Rightarrow> bk_entry option" where
  "next_page entries i = find is_page (drop (Suc i) entries)"

definition full_page :: "book_env \<Rightarrow> bk_entry list \<Rightarrow> nat \<Rightarrow> bk_entry \<Rightarrow> string \<Rightarrow> string" where
  "full_page env entries i e body =
     page_html env (book_title env) e (buildSidebar entries (en_file e) (book_title env)) body
       (buildNav (prev_page entries i) (next_page entries i) (en_file e))"

text \<open>The loop over the entries, each with its index. A source file that cannot be read is skipped.\<close>

fun build_pages :: "book_env \<Rightarrow> bk_entry list \<Rightarrow> (nat \<times> bk_entry) list \<Rightarrow> (string \<times> string) list \<Rightarrow> build" where
  "build_pages env entries [] w = Built w"
| "build_pages env entries ((i, e) # es) w =
     (if \<not> is_page e then build_pages env entries es w
      else (case be_read env (path_Join [srcDir, en_file e]) of
              Inl _ \<Rightarrow> build_pages env entries es w
            | Inr md \<Rightarrow>
                (case mdToHTML (be_order env) md of
                   None \<Rightarrow> Hangs w
                 | Some body \<Rightarrow>
                     (case be_mkdir env (path_Dir (out_path e)) of
                        Some err \<Rightarrow> Died w err
                      | None \<Rightarrow>
                          let page = full_page env entries i e body in
                          (case be_write env (out_path e) page of
                             Some err \<Rightarrow> Died w err
                           | None \<Rightarrow> build_pages env entries es (w @ [(out_path e, page)]))))))"

definition index_html :: "string \<Rightarrow> string" where
  "index_html first =
     ''<!DOCTYPE html>'' @ [LF] @ ''<html><head><meta'' @ attr ''charset'' ''utf-8'' @ ''>'' @ [LF]
     @ ''<meta'' @ attr ''http-equiv'' ''refresh'' @ attr ''content'' (''0;url='' @ first) @ ''>'' @ [LF]
     @ ''</head><body><a'' @ attr ''href'' first @ ''>Continue</a></body></html>''"

text \<open>The error of writing the index is ignored.\<close>

definition write_index :: "book_env \<Rightarrow> bk_entry list \<Rightarrow> (string \<times> string) list \<Rightarrow> (string \<times> string) list" where
  "write_index env entries w =
     (case find is_page entries of
        None \<Rightarrow> w
      | Some e \<Rightarrow>
          let path = path_Join [outDir, ''index.html'']; idx = index_html (html_name (en_file e)) in
          (case be_write env path idx of Some _ \<Rightarrow> w | None \<Rightarrow> w @ [(path, idx)]))"

definition book_main :: "book_env \<Rightarrow> build" where
  "book_main env =
     (case be_mkdir env outDir of
        Some err \<Rightarrow> Died [] err
      | None \<Rightarrow>
          (case be_read env (path_Join [srcDir, ''SUMMARY.md'']) of
             Inl err \<Rightarrow> Died [] err
           | Inr data \<Rightarrow>
               let entries = parseSummary data in
               (case build_pages env entries (enumerate 0 entries) [] of
                  Built w \<Rightarrow> Built (write_index env entries w)
                | b \<Rightarrow> b)))"

section \<open>Links lead to the pages\<close>

text \<open>Elements below a directory: cleaning a path that never climbs above where it starts keeps what is before it.\<close>

lemma dotdot_stays: "''..'' \<in> set acc \<Longrightarrow> ''..'' \<in> set (clean_parts False acc ss)"
  by (induction ss arbitrary: acc) (auto split: list.split)

lemma clean_base:
  "''..'' \<notin> set (clean_parts False a ss) \<Longrightarrow> ''..'' \<notin> set a \<Longrightarrow> clean_parts False (a @ b) ss = rev b @ clean_parts False a ss"
proof (induction ss arbitrary: a)
  case (Cons s ss)
  show ?case
    using Cons.prems Cons.IH [of a] Cons.IH [of "s # a"] Cons.IH [of "tl a"] dotdot_stays [of "[''..'']" ss]
    by (cases a) (auto split: if_splits)
qed simp

lemma split_join_more:
  "(\<And>x. x \<in> set xs \<Longrightarrow> c \<notin> set x) \<Longrightarrow> xs \<noteq> [] \<Longrightarrow> split_on c (join_with [c] xs @ c # t) = xs @ split_on c t"
proof (induction xs rule: induct_list012)
  case (3 x y zs)
  then show ?case by (simp add: split_on_append)
qed (simp_all add: split_on_append)

text \<open>A page whose file is a plain path that ends in \<open>.md\<close>.\<close>

definition page_at :: "string list \<Rightarrow> string \<Rightarrow> bk_entry \<Rightarrow> bool" where
  "page_at ds f e \<longleftrightarrow> plain_file (ds @ [f @ ''.md'']) \<and> en_file e = join_with ''/'' (ds @ [f @ ''.md''])"

definition plain_page :: "bk_entry \<Rightarrow> bool" where
  "plain_page e \<longleftrightarrow> (\<exists>ds f. page_at ds f e)"

lemma join_suffix: "join_with ''/'' (ds @ [f @ x]) = join_with ''/'' (ds @ [f]) @ x"
  by (cases "ds = []") (simp_all add: join_snoc)

lemma TrimSuffix_append: "TrimSuffix (s @ x) x = s"
  by (simp add: TrimSuffix_def HasSuffix_def)

lemma page_html_name: "page_at ds f e \<Longrightarrow> html_name (en_file e) = join_with ''/'' (ds @ [f @ ''.html''])"
  by (simp add: page_at_def html_name_def join_suffix TrimSuffix_append)

lemma page_plain: "page_at ds f e \<Longrightarrow> plain_file ds \<and> plain_file (ds @ [f @ ''.html''])"
  by (cases f) (auto simp: page_at_def plain_file_def plain_part_def)

lemma outDir_eq: "outDir = join_with ''/'' [''book'', ''html'']"
  unfolding outDir_def by code_simp

lemma out_plain: "plain_file ps \<Longrightarrow> plain_file ([''book'', ''html''] @ ps)"
  by (simp add: plain_file_def plain_part_def)

lemma join_append: "as \<noteq> [] \<Longrightarrow> bs \<noteq> [] \<Longrightarrow> join_with sep (as @ bs) = join_with sep as @ sep @ join_with sep bs"
  by (induction as rule: induct_list012) (auto simp: neq_Nil_conv)

lemma page_out: "page_at ds f e \<Longrightarrow> out_path e = join_with ''/'' ([''book'', ''html''] @ ds @ [f @ ''.html''])"
proof -
  assume p: "page_at ds f e"
  let ?ps = "ds @ [f @ ''.html'']"
  have pl: "plain_file ?ps" using page_plain [OF p] by simp
  have "outDir @ ''/'' @ join_with ''/'' ?ps = join_with ''/'' ([''book'', ''html''] @ ?ps)"
    unfolding outDir_eq by (subst join_append) simp_all
  moreover have "join_with ''/'' ?ps \<noteq> []" using join_plain_head [OF pl] by simp
  moreover have "outDir \<noteq> []" by (simp add: outDir_eq)
  ultimately show ?thesis
    using Clean_plain [OF out_plain [OF pl]] by (simp add: out_path_def page_html_name [OF p] path_Join_def)
qed

text \<open>The link that \<open>relPath\<close> makes for one page, followed from the directory of its file, leads to the other page's file.\<close>

lemma link_leads:
  assumes "page_at ds f e" and "page_at ds' f' e'"
  shows "path_Join [path_Dir (out_path e), relPath (en_file e) (html_name (en_file e'))] = out_path e'"
proof -
  let ?ts = "ds' @ [f' @ ''.html'']" and ?pre = "[''book'', ''html'']"
  have pl: "plain_file ds" "plain_file (ds @ [f @ ''.md''])" "plain_file (ds @ [f @ ''.html''])" "plain_file ?ts"
    using page_plain assms by (auto simp: page_at_def)
  have src: "path_Dir (en_file e) = (if ds = [] then ''.'' else join_with ''/'' ds)"
    using assms(1) Dir_plain [OF pl(2)] by (simp add: page_at_def)
  obtain rel where r: "path_Rel (path_Dir (en_file e)) (html_name (en_file e')) = Inr rel"
    and c: "clean_parts False [] (ds @ split_on (CHR ''/'') rel) = ?ts"
    using Rel_plain [OF pl(1,4)] page_html_name [OF assms(2)] src by auto
  let ?d = "?pre @ ds"
  have dp: "plain_file ?d" by (rule out_plain [OF pl(1)])
  have dir: "path_Dir (out_path e) = join_with ''/'' ?d"
    using Dir_plain [of ?d "f @ ''.html''"] out_plain [OF pl(3)] page_out [OF assms(1)] by simp
  have ne: "join_with ''/'' ?d \<noteq> []" using join_plain_head [OF dp] by simp
  have nodots: "''..'' \<notin> set ?ts" using pl(4) by (auto simp: plain_file_def list_all_iff plain_part_def)
  have "clean_parts False [] (?d @ split_on (CHR ''/'') rel) = clean_parts False (rev ?pre) (ds @ split_on (CHR ''/'') rel)"
    using clean_plain_parts [of ?pre False "[]" "ds @ split_on (CHR ''/'') rel"] by (simp add: plain_part_def)
  also have "\<dots> = ?pre @ ?ts" using clean_base [of "[]" "ds @ split_on (CHR ''/'') rel" "rev ?pre"] c nodots by simp
  finally have cl: "clean_parts False [] (?d @ split_on (CHR ''/'') rel) = ?pre @ ?ts" .
  have "path_Join [join_with ''/'' ?d, rel] = join_with ''/'' (?pre @ ?ts)"
  proof (cases "rel = []")
    case True
    then have "?d = ?pre @ ?ts" using cl clean_plain_parts [of ?d False "[]" "[[]]"] dp by (simp add: plain_file_def)
    then show ?thesis using True ne Clean_plain [OF dp] by (simp add: path_Join_def)
  next
    case False
    have "split_on (CHR ''/'') (join_with ''/'' ?d @ ''/'' @ rel) = ?d @ split_on (CHR ''/'') rel"
      using split_join_more [of ?d "CHR ''/''" rel] plain_free [OF dp] by simp
    then show ?thesis using False ne cl join_plain_head [OF dp] by (simp add: path_Join_def path_Clean_def Let_def)
  qed
  then show ?thesis using r dir page_out [OF assms(2)] by (simp add: relPath_def)
qed

section \<open>A build\<close>

lemma pages_built:
  assumes "be_mkdir env = (\<lambda>_. None)" and "be_write env = (\<lambda>_ _. None)"
    and "\<forall>(i, e) \<in> set es. is_page e \<longrightarrow> (\<exists>md h. be_read env (path_Join [srcDir, en_file e]) = Inr md \<and> mdToHTML (be_order env) md = Some h)"
  shows "\<exists>w'. build_pages env entries es w = Built (w @ w')
    \<and> (\<forall>(i, e) \<in> set es. is_page e \<longrightarrow> (\<exists>body. (out_path e, full_page env entries i e body) \<in> set w'))"
  using assms(3)
proof (induction es arbitrary: w)
  case (Cons ie es)
  obtain i e where ie: "ie = (i, e)" by fastforce
  show ?case
  proof (cases "is_page e")
    case True
    then obtain md h where "be_read env (path_Join [srcDir, en_file e]) = Inr md" "mdToHTML (be_order env) md = Some h"
      using Cons.prems ie by auto
    then have "build_pages env entries (ie # es) w = build_pages env entries es (w @ [(out_path e, full_page env entries i e h)])"
      using True assms(1,2) by (simp add: ie Let_def)
    moreover obtain w' where "build_pages env entries es (w @ [(out_path e, full_page env entries i e h)]) =
        Built ((w @ [(out_path e, full_page env entries i e h)]) @ w')"
      "\<forall>(i, e) \<in> set es. is_page e \<longrightarrow> (\<exists>body. (out_path e, full_page env entries i e body) \<in> set w')"
      using Cons.IH [of "w @ [(out_path e, full_page env entries i e h)]"] Cons.prems by auto
    ultimately show ?thesis
      by (intro exI [of _ "(out_path e, full_page env entries i e h) # w'"]) (fastforce simp: ie)
  next
    case False
    then show ?thesis using Cons by (simp add: ie)
  qed
qed simp

lemma page_has_link:
  assumes "e' \<in> set entries" and "is_page e'"
  shows "\<exists>a b. full_page env entries i e body = a @ ''<li><a'' @ attr ''href'' (relPath (en_file e) (html_name (en_file e'))) @ b"
proof -
  let ?l = "''<li><a'' @ attr ''href'' (relPath (en_file e) (html_name (en_file e')))"
  obtain xs ys where x: "entries = xs @ e' # ys" using assms(1) by (meson split_list)
  have "\<exists>r. sidebar_item (en_file e) e' = ?l @ r" using assms(2) by (auto simp: sidebar_item_def is_page_def)
  then obtain r where r: "sidebar_item (en_file e) e' = ?l @ r" by blast
  have "\<exists>p q. full_page env entries i e body = p @ (concat (map (sidebar_item (en_file e)) entries)) @ q"
    unfolding full_page_def page_html_def buildSidebar_def by (metis append_assoc)
  then show ?thesis using r unfolding x map_append concat_append list.map concat.simps by (metis append_assoc)
qed

lemma entry_index: "e \<in> set es \<longleftrightarrow> (\<exists>i. (i, e) \<in> set (enumerate 0 es))"
proof -
  have "set es = snd ` set (enumerate 0 es)" by (metis list.set_map map_snd_enumerate)
  then show ?thesis by force
qed

lemma book_built:
  assumes "be_mkdir env = (\<lambda>_. None)" and "be_write env = (\<lambda>_ _. None)"
    and "be_read env (path_Join [srcDir, ''SUMMARY.md'']) = Inr summary"
    and "\<forall>e \<in> set (parseSummary summary). is_page e \<longrightarrow>
      (\<exists>md h. be_read env (path_Join [srcDir, en_file e]) = Inr md \<and> mdToHTML (be_order env) md = Some h)"
  shows "\<exists>w. book_main env = Built w
    \<and> (\<forall>e \<in> set (parseSummary summary). is_page e \<longrightarrow> (\<exists>i body. (out_path e, full_page env (parseSummary summary) i e body) \<in> set w))"
proof -
  let ?es = "parseSummary summary"
  have "\<forall>(i, e) \<in> set (enumerate 0 ?es). is_page e \<longrightarrow> (\<exists>md h. be_read env (path_Join [srcDir, en_file e]) = Inr md \<and> mdToHTML (be_order env) md = Some h)"
    using assms(4) entry_index [of _ ?es] by auto
  from pages_built [OF assms(1,2) this, of ?es "[]"] obtain w where w: "build_pages env ?es (enumerate 0 ?es) [] = Built w"
    "\<forall>(i, e) \<in> set (enumerate 0 ?es). is_page e \<longrightarrow> (\<exists>body. (out_path e, full_page env ?es i e body) \<in> set w)"
    by auto
  have "book_main env = Built (write_index env ?es w)" using assms(1,3) w(1) by (simp add: book_main_def Let_def)
  moreover have "set w \<subseteq> set (write_index env ?es w)" by (auto simp: write_index_def Let_def split: option.split)
  moreover have "\<exists>i body. (out_path e, full_page env ?es i e body) \<in> set w" if e: "e \<in> set ?es" "is_page e" for e
  proof -
    obtain i where "(i, e) \<in> set (enumerate 0 ?es)" using e(1) entry_index [of e ?es] by blast
    then show ?thesis using w(2) e(2) by blast
  qed
  ultimately show ?thesis by blast
qed

text \<open>
  C29: When every source file can be read and converted, the build ends, writes a page for every entry of
  the table of contents, and from each page the side bar's link to each page leads, relative to where
  the page is, to the file that was written for it, at whatever depth the two are.
\<close>

theorem book_links_resolve:
  assumes "be_mkdir env = (\<lambda>_. None)" and "be_write env = (\<lambda>_ _. None)"
    and "be_read env (path_Join [srcDir, ''SUMMARY.md'']) = Inr summary"
    and "\<forall>e \<in> set (parseSummary summary). is_page e \<longrightarrow> plain_page e
      \<and> (\<exists>md h. be_read env (path_Join [srcDir, en_file e]) = Inr md \<and> mdToHTML (be_order env) md = Some h)"
  shows "\<exists>w. book_main env = Built w
    \<and> (\<forall>e \<in> set (parseSummary summary). \<forall>e' \<in> set (parseSummary summary). is_page e \<and> is_page e' \<longrightarrow>
        (let rel = relPath (en_file e) (html_name (en_file e')) in
         (\<exists>page a b. (out_path e, page) \<in> set w \<and> page = a @ ''<li><a'' @ attr ''href'' rel @ b)
         \<and> path_Join [path_Dir (out_path e), rel] = out_path e' \<and> out_path e' \<in> fst ` set w))"
proof -
  let ?es = "parseSummary summary"
  obtain w where built: "book_main env = Built w"
    and page: "\<forall>e \<in> set ?es. is_page e \<longrightarrow> (\<exists>i body. (out_path e, full_page env ?es i e body) \<in> set w)"
    using book_built [OF assms(1-3)] assms(4) by blast
  have "let rel = relPath (en_file e) (html_name (en_file e')) in
      (\<exists>page a b. (out_path e, page) \<in> set w \<and> page = a @ ''<li><a'' @ attr ''href'' rel @ b)
      \<and> path_Join [path_Dir (out_path e), rel] = out_path e' \<and> out_path e' \<in> fst ` set w"
    if e: "e \<in> set ?es" "is_page e" and e': "e' \<in> set ?es" "is_page e'" for e e'
  proof -
    have "path_Join [path_Dir (out_path e), relPath (en_file e) (html_name (en_file e'))] = out_path e'"
      using assms(4) e e' link_leads unfolding plain_page_def by blast
    moreover obtain i body where "(out_path e, full_page env ?es i e body) \<in> set w" using page e by blast
    moreover have "out_path e' \<in> fst ` set w" using page e' by force
    ultimately show ?thesis using page_has_link [OF e'] unfolding Let_def by blast
  qed
  then show ?thesis using built by blast
qed

definition env_book :: book_env where
  "env_book =
     \<lparr>be_css = [], be_order = id, be_mkdir = (\<lambda>_. None),
      be_read = (\<lambda>p. if p = ''book/src/SUMMARY.md'' then Inr (''# Summary'' @ [LF] @ ''[A](a.md)'' @ [LF] @ ''- [B](guide/b.md)'' @ [LF]) else Inr []),
      be_write = (\<lambda>_ _. None)\<rparr>"

definition page_a :: bk_entry where "page_a = \<lparr>en_title = ''A'', en_file = ''a.md'', en_level = 0, en_isSection = False\<rparr>"
definition page_b :: bk_entry where "page_b = \<lparr>en_title = ''B'', en_file = ''guide/b.md'', en_level = 0, en_isSection = False\<rparr>"

lemma env_book_summary:
  "be_read env_book (path_Join [srcDir, ''SUMMARY.md'']) = Inr (''# Summary'' @ [LF] @ ''[A](a.md)'' @ [LF] @ ''- [B](guide/b.md)'' @ [LF])"
  "parseSummary (''# Summary'' @ [LF] @ ''[A](a.md)'' @ [LF] @ ''- [B](guide/b.md)'' @ [LF])
     = [\<lparr>en_title = ''Summary'', en_file = [], en_level = 0, en_isSection = True\<rparr>, page_a, page_b]"
proof -
  have "path_Join [srcDir, ''SUMMARY.md''] = ''book/src/SUMMARY.md''" by code_simp
  then show "be_read env_book (path_Join [srcDir, ''SUMMARY.md'']) = Inr (''# Summary'' @ [LF] @ ''[A](a.md)'' @ [LF] @ ''- [B](guide/b.md)'' @ [LF])"
    by (simp add: env_book_def)
  let ?ls = "[''# Summary'', ''[A](a.md)'', ''- [B](guide/b.md)'']"
  have "scan_lines (concat (map (\<lambda>l. l @ [LF]) ?ls)) = (map dropCR ?ls, False)"
    by (rule scan_lines_lines) (auto simp: MaxScanTokenSize_def)
  moreover have "map dropCR ?ls = ?ls" by (simp add: dropCR_def)
  moreover have "List.map_filter summary_line ?ls = [\<lparr>en_title = ''Summary'', en_file = [], en_level = 0, en_isSection = True\<rparr>, page_a, page_b]"
    by code_simp
  ultimately show "parseSummary (''# Summary'' @ [LF] @ ''[A](a.md)'' @ [LF] @ ''- [B](guide/b.md)'' @ [LF])
     = [\<lparr>en_title = ''Summary'', en_file = [], en_level = 0, en_isSection = True\<rparr>, page_a, page_b]"
    by (simp add: parseSummary_def)
qed

lemma empty_converts: "\<exists>h. mdToHTML ord [] = Some h"
proof -
  have "\<not> five_ahead (ms_inCode md_start) (split_on LF [])" by (simp add: five_ahead_def md_start_def five_def code_fence_def)
  then show ?thesis using lines_return [of ord "split_on LF []" md_start] by (auto simp: mdToHTML_def)
qed

lemma example_pages: "page_at [] ''a'' page_a" "page_at [''guide''] ''b'' page_b"
  by (simp_all add: page_at_def plain_file_def plain_part_def page_a_def page_b_def)

lemma example_reads: "e \<in> {page_a, page_b} \<Longrightarrow> \<exists>md h. be_read env_book (path_Join [srcDir, en_file e]) = Inr md \<and> mdToHTML (be_order env_book) md = Some h"
proof -
  have "path_Join [srcDir, en_file page_a] = ''book/src/a.md''" "path_Join [srcDir, en_file page_b] = ''book/src/guide/b.md''" by code_simp+
  then show "e \<in> {page_a, page_b} \<Longrightarrow> ?thesis" using empty_converts by (auto simp: env_book_def)
qed

theorem book_links_resolve_witness:
  "\<exists>w. book_main env_book = Built w
    \<and> path_Join [path_Dir (out_path page_b), relPath (en_file page_b) (html_name (en_file page_a))] \<in> fst ` set w"
proof -
  have "\<forall>e \<in> set [\<lparr>en_title = ''Summary'', en_file = [], en_level = 0, en_isSection = True\<rparr>, page_a, page_b]. is_page e \<longrightarrow> plain_page e
      \<and> (\<exists>md h. be_read env_book (path_Join [srcDir, en_file e]) = Inr md \<and> mdToHTML (be_order env_book) md = Some h)"
    using example_pages example_reads by (auto simp: is_page_def plain_page_def)
  then have h: "\<forall>e \<in> set (parseSummary (''# Summary'' @ [LF] @ ''[A](a.md)'' @ [LF] @ ''- [B](guide/b.md)'' @ [LF])). is_page e \<longrightarrow> plain_page e
      \<and> (\<exists>md h. be_read env_book (path_Join [srcDir, en_file e]) = Inr md \<and> mdToHTML (be_order env_book) md = Some h)"
    unfolding env_book_summary(2) .
  have io: "be_mkdir env_book = (\<lambda>_. None)" "be_write env_book = (\<lambda>_ _. None)" by (simp_all add: env_book_def)
  have "is_page page_a" "is_page page_b" by (simp_all add: is_page_def page_a_def page_b_def)
  with book_links_resolve [OF io env_book_summary(1) h] show ?thesis
    unfolding env_book_summary(2) Let_def by fastforce
qed

section \<open>Links in the text\<close>

definition link_char :: "char \<Rightarrow> bool" where
  "link_char c \<longleftrightarrow> c \<notin> set ''*[]()&<>'' \<and> c \<noteq> DQUOTE \<and> c \<noteq> CHR 0x27 \<and> c \<noteq> BTICK \<and> c \<noteq> NUL"

lemma link_char_esc: "list_all link_char s \<Longrightarrow> html_EscapeString s = s"
  by (induction s) (auto simp: html_EscapeString_def esc1_def link_char_def)

lemma hide_none: "BTICK \<notin> set s \<Longrightarrow> hide_code k s = (s, [])"
  by (induction k s rule: hide_code.induct) (auto simp: Let_def)

lemma gsub_star_free: "CHR ''*'' \<notin> set s \<Longrightarrow> gsub match_bold s = s \<and> gsub match_italic s = s"
  by (induction s) (auto simp: match_bold_def match_italic_def Let_def)

lemma gsub_bracket_free: "CHR ''['' \<notin> set s \<Longrightarrow> gsub match_link s = s"
  by (induction s) (auto simp: match_link_def link_groups_def Let_def)

lemma written_html:
  assumes "\<forall>(i, e) \<in> set es. is_page e \<longrightarrow> plain_page e" and "\<forall>p \<in> fst ` set w. HasSuffix p ''.html''"
    and "build_pages env entries es w = Built w'"
  shows "\<forall>p \<in> fst ` set w'. HasSuffix p ''.html''"
  using assms
proof (induction env entries es w rule: build_pages.induct)
  case (2 env entries i e es w)
  have out: "HasSuffix (out_path e) ''.html''" if p: "is_page e"
  proof -
    obtain ds f where "page_at ds f e" using "2.prems"(1) p by (auto simp: plain_page_def)
    then have "out_path e = join_with ''/'' (([''book'', ''html''] @ ds) @ [f]) @ ''.html''"
      using page_out join_suffix [of "[''book'', ''html''] @ ds" f "''.html''"] by (simp only: append_assoc)
    then show ?thesis by (simp add: HasSuffix_def)
  qed
  show ?case
    using 2 out by (auto simp: Let_def split: if_splits sum.splits option.splits)
qed simp

lemma link_converted:
  assumes "any_order ord" and "list_all link_char t" and "list_all link_char u" and "t \<noteq> []" and "u \<noteq> []"
  shows "inlineMd ord (''['' @ t @ '']('' @ u @ '')'') = ''<a'' @ attr ''href'' u @ ''>'' @ t @ ''</a>''"
proof -
  let ?l = "''['' @ t @ '']('' @ u @ '')''"
  have free: "c \<notin> set t \<and> c \<notin> set u" if "\<not> link_char c" for c using assms(2,3) that by (auto simp: list_all_iff)
  have sp: "CHR ''*'' \<notin> set ?l" "BTICK \<notin> set ?l" using free by (auto simp: link_char_def)
  have esc: "html_EscapeString ?l = ?l"
    using link_char_esc [OF assms(2)] link_char_esc [OF assms(3)] by (simp add: html_EscapeString_def) (simp add: esc1_def)
  have "CHR '']'' \<notin> set t" "CHR '')'' \<notin> set u" using free by (simp_all add: link_char_def)
  then have "takeWhile (\<lambda>x. x \<noteq> CHR '']'') (t @ CHR '']'' # r) = t" "takeWhile (\<lambda>x. x \<noteq> CHR '')'') (u @ [CHR '')'']) = u" for r
    by (auto intro!: takeWhile_tail simp: takeWhile_append)
  then have "gsub match_link ?l = ''<a'' @ attr ''href'' u @ ''>'' @ t @ ''</a>''"
    using assms(4,5) by (simp add: match_link_def link_groups_def Let_def attr_def)
  moreover have "ord [] = []" using assms(1) by (metis any_order_def mset_zero_iff_right mset.simps(1))
  ultimately show ?thesis
    unfolding inlineMd_def hide_none [OF sp(2)] split inline_passes_def esc by (simp only: gsub_star_free [OF sp(1)] put_back_simps)
qed

text \<open>
  A link in the text from one page to the source file of another keeps its address, and no file of
  the site has it: the links of the book's own pages to each other lead nowhere.
\<close>

theorem text_links_dangle:
  assumes "any_order ord" and "book_main env = Built w" and "be_read env (path_Join [srcDir, ''SUMMARY.md'']) = Inr summary"
    and "\<forall>e \<in> set (parseSummary summary). is_page e \<longrightarrow> plain_page e" and "plain_page e"
    and "list_all link_char t" and "t \<noteq> []" and "list_all link_char f" and "CHR ''/'' \<notin> set f"
  shows "let u = f @ ''.md'' in
    inlineMd ord (''['' @ t @ '']('' @ u @ '')'') = ''<a'' @ attr ''href'' u @ ''>'' @ t @ ''</a>''
    \<and> path_Join [path_Dir (out_path e), u] \<notin> fst ` set w"
proof -
  obtain ds g where p: "page_at ds g e" using assms(5) by (auto simp: plain_page_def)
  let ?d = "[''book'', ''html''] @ ds" and ?u = "f @ ''.md''"
  have d: "plain_file ?d" "plain_file (?d @ [?u])" "plain_file (?d @ [g @ ''.html''])"
    using page_plain [OF p] assms(9) by (cases f; auto simp: plain_file_def plain_part_def)+
  have dir: "path_Dir (out_path e) = join_with ''/'' ?d"
    using Dir_plain [of ?d "g @ ''.html''"] d(3) page_out [OF p] by simp
  have "join_with ''/'' ?d \<noteq> []" using join_plain_head [OF d(1)] by simp
  moreover have "join_with ''/'' ?d @ ''/'' @ ?u = join_with ''/'' (?d @ [?u])" by (subst join_snoc) simp_all
  ultimately have at: "path_Join [path_Dir (out_path e), ?u] = join_with ''/'' (?d @ [f]) @ ''.md''"
    using Clean_plain [OF d(2)] unfolding dir join_suffix [symmetric] by (simp add: path_Join_def)
  obtain w0 where w0: "build_pages env (parseSummary summary) (enumerate 0 (parseSummary summary)) [] = Built w0"
    and w: "w = write_index env (parseSummary summary) w0"
    using assms(2,3) by (auto simp: book_main_def Let_def split: option.splits build.splits)
  have "\<forall>(i, e) \<in> set (enumerate 0 (parseSummary summary)). is_page e \<longrightarrow> plain_page e"
    using assms(4) by (auto simp: in_set_enumerate_eq)
  from written_html [OF this _ w0] have "\<forall>p \<in> fst ` set w0. HasSuffix p ''.html''" by simp
  moreover have "HasSuffix (path_Join [outDir, ''index.html'']) ''.html''" by code_simp
  ultimately have "\<forall>p \<in> fst ` set w. HasSuffix p ''.html''" by (auto simp: w write_index_def Let_def split: option.splits)
  moreover have "\<not> HasSuffix (s @ ''.md'') ''.html''" for s
    by (cases s rule: rev_cases; cases "butlast s" rule: rev_cases) (auto simp: HasSuffix_def)
  ultimately have "path_Join [path_Dir (out_path e), ?u] \<notin> fst ` set w" unfolding at by blast
  moreover have "list_all link_char ?u" using assms(8) by (simp add: link_char_def)
  ultimately show ?thesis using link_converted [OF assms(1,6) _ assms(7), of ?u] by (simp add: Let_def)
qed

theorem text_links_dangle_witness:
  "\<exists>w. book_main env_book = Built w \<and> path_Join [path_Dir (out_path page_b), ''a.md''] \<notin> fst ` set w"
proof -
  have "book_main env_book = Built w \<Longrightarrow> ?thesis" for w
  proof -
    assume b: "book_main env_book = Built w"
    have "\<forall>e \<in> set (parseSummary (''# Summary'' @ [LF] @ ''[A](a.md)'' @ [LF] @ ''- [B](guide/b.md)'' @ [LF])). is_page e \<longrightarrow> plain_page e"
      using example_pages unfolding env_book_summary(2) by (auto simp: is_page_def plain_page_def)
    moreover have "any_order id" "plain_page page_b" "list_all link_char ''a''"
      using example_pages by (auto simp: any_order_def plain_page_def link_char_def)
    ultimately show ?thesis using text_links_dangle [OF _ b env_book_summary(1), of id page_b "''a''" "''a''"] b by (simp add: Let_def)
  qed
  moreover have "\<forall>e \<in> set (parseSummary (''# Summary'' @ [LF] @ ''[A](a.md)'' @ [LF] @ ''- [B](guide/b.md)'' @ [LF])). is_page e \<longrightarrow>
      (\<exists>md h. be_read env_book (path_Join [srcDir, en_file e]) = Inr md \<and> mdToHTML (be_order env_book) md = Some h)"
    unfolding env_book_summary(2) using example_reads by (auto simp: is_page_def)
  then have "\<exists>w. book_main env_book = Built w"
    using book_built [OF _ _ env_book_summary(1)] by (fastforce simp: env_book_def)
  ultimately show ?thesis by blast
qed

end
