(* ===== verification/Spec2Isabelle.thy ===== *)
theory Spec2Isabelle
  imports Layout_Properties Ws_Session Pipe_Server Discovery Server_Life Web_Flows Web_Admin Book_Html
    Book_Site
begin

text \<open>
  A verification library for rdw, a Go program that routes lines of text from any process to named
  panes of a page in the browser. One server process holds a session of windows and panes, one pipeline
  per pane, a key-value store, tokens and the WebSocket connections of the browsers. Its REST interface,
  its Unix socket and the focus cycle act on that state; the command line client and the pipe relay are
  processes of their own that talk to it.

  \<^bold>\<open>How to read it.\<close> A Go struct is a record with the fields in the order of the source, and a method is a
  function that takes the record and returns the new one. An error is a value of \<open>go_err\<close> (the format
  and the arguments of the call that made it) in a sum \<open>'a result\<close>; a run-time panic, an index out of
  range or a send on a closed channel, is \<open>None\<close>. A string is its list of bytes. A map is an association
  list, whose order stands for the order in which one \<open>range\<close> visits it, so that a property of code that
  ranges over a map holds for every order. Integers that can wrap around are written with their width.
  Loops that may not end are \<open>partial_function (option)\<close>; everything else is total.

  \<^bold>\<open>The theories, from the bottom up.\<close>
  \<^item> \<open>Rdw_Prelude\<close>: errors, Go maps, and the interfaces as locales: a keyed store that may refuse an entry
    (interpreted by the key-value store), its extension by a removal that may fail (interpreted by the
    bookmarks and the highlight profiles), and a bounded log (interpreted by the scrollback buffer).
  \<^item> \<open>Go_Strings\<close>, \<open>Go_Base64\<close>, \<open>Go_Json\<close>: what the program uses of \<open>strings\<close>, \<open>strconv\<close>, \<open>bufio\<close>,
    \<open>encoding/base64\<close> and \<open>encoding/json\<close>; JSON is modelled as its tree of values.
  \<^item> \<open>Target_Id\<close>, \<open>Kv_Store\<close>, \<open>Kv_Persist\<close>, \<open>Scrollback\<close>, \<open>Bookmarks\<close>, \<open>Layout_Schema\<close>,
    \<open>Session_Manager\<close>, \<open>Control_Seq\<close>, \<open>Auth_Store\<close>, \<open>Highlight_Store\<close>, \<open>Focus_Cycle\<close>, \<open>Rate_Limit\<close>,
    \<open>Terminal_Panes\<close>, \<open>Mirror_Tee\<close>, \<open>Export_Bundle\<close>, \<open>Key_Bindings\<close>, \<open>Rdw_Config\<close>: one package or file of
    \<open>internal/\<close> each, with its invariant and the behaviour of every operation.
  \<^item> \<open>Formatters\<close>, \<open>Markdown_Format\<close>, \<open>Format_Registry\<close>: \<open>internal/format\<close>, with the grammar of the HTML a
    formatter may produce.
  \<^item> \<open>Pipeline\<close>, \<open>Cmd_Filter\<close>, \<open>Router\<close>: \<open>internal/pipeline\<close> and \<open>internal/router\<close>. What a pipeline does to the
    rest of the server is a list of effects, and the locale \<open>effect_host\<close> says what a host must keep.
  \<^item> \<open>Hub\<close>, \<open>Ws_Delivery\<close>, \<open>Ws_Session\<close>: the connections, their send buffers, the goroutines of \<open>Broadcast\<close> as
    a step relation beside the sequential function, and the two goroutines of one connection with its socket.
  \<^item> \<open>Rdw_Server\<close>, \<open>Rdw_Invariant\<close>, \<open>Api_Base\<close>, \<open>Api_Session\<close>, \<open>Api_Stores\<close>, \<open>Api_Status\<close>, \<open>Rdw_Routes\<close>:
    \<open>internal/server\<close>. The server record, the functions it installs in the router, every handler of
    \<open>routes.go\<close>, and the route table with the guards. The invariant \<open>srv_ok\<close> joins those of the components.
  \<^item> \<open>Server_Runs\<close>, \<open>Server_Properties\<close>, \<open>Layout_Properties\<close>: the server as a transition system whose
    events are requests, commands on the Unix socket, turns of the focus cycle and of the write pumps, and
    what holds of every reachable state and of every request.
  \<^item> \<open>Server_Life\<close>: the processes of one machine, with the sockets, ports and the registry file that they share;
    how a server starts, stops and fails, as steps of an inductive reachability. \<open>Go_Path\<close> is what the
    program uses of \<open>path/filepath\<close>.
  \<^item> \<open>Http_Client\<close>, \<open>Discovery\<close>: a client's view of a server (\<open>internal/discovery\<close>, URL parsing and the choice
    of the route), and the registry file of running servers.
  \<^item> \<open>Pipe_Relay\<close>, \<open>Pipe_Server\<close>: \<open>internal/pipe\<close>, alone and together with the server.
  \<^item> \<open>Selftest\<close>: \<open>internal/selftest\<close> over the models of the components.
  \<^item> \<open>Cli_Client\<close>, \<open>Cli_Commands\<close>, \<open>Cli_Pipe\<close>, \<open>Cli_Locked\<close>, \<open>Cli_Limits\<close>, \<open>Cli_Flows\<close>:
    \<open>cmd/rdw\<close> and \<open>internal/browser\<close>. A command is a function on a world of servers; the locale \<open>client_relation\<close> carries what one request does to what
    every command does.
  \<^item> \<open>Web_Ansi\<close>, \<open>Web_Keys\<close>, \<open>Web_Page\<close>, \<open>Web_Client\<close>: the page that \<open>frontend.go\<close> holds as a string: the colours
    of a line, the keyboard, the grid of the panes, search, swap and zoom, and the handler of every frame.
    What the document shows is part of the page's state, and what the page asks of the outside is a list of
    effects. \<open>Web_Grid\<close> shows what the grid and the scrollbacks of the page are (the second interpretation
    of the bounded log), \<open>Web_Session\<close> puts the page beside the session it shows, and \<open>Web_Flows\<close> joins page,
    requests, server and connection, from a key that is pressed to the frame that comes back.
  \<^item> \<open>Web_Admin\<close>: the script of the admin page in \<open>routes.go\<close>, what it writes and whom it shows the status.
  \<^item> \<open>Book_Markdown\<close>, \<open>Book_Html\<close>, \<open>Book_Site\<close>: \<open>book/build_book.go\<close>, the program that builds the documentation:
    its Markdown converter and the inputs on which that returns, the pieces its HTML is made of, and the pages
    with the links between them.

  \<^bold>\<open>What is shown.\<close> Of each component: its invariant, what each operation does on every branch, and, where it
  implements something simpler, that it does so (the scrollback buffer refines a bounded log, the
  goroutine of \<open>Broadcast\<close> refines the sequential function, the prefix table of the control sequences is
  independent of its order). Of the server: no request, command or event breaks an invariant; guarded
  routes are closed without a token; what is posted or piped arrives, in order and once; what is saved
  comes back; no connection of a browser stays half open. Of the clients: what they do to a server, with and without authentication. Where the code
  does something else than its comments or its documents say, the theorem states what it does.

  \<^bold>\<open>Bounds and fuel.\<close> There is no fuel in the model of a loop of the code: such loops are structural,
  have a measure, or are partial functions with the exact set of inputs on which they return
  (\<open>renderMarkdown\<close>, and \<open>mdToHTML\<close> of the book). Counts of steps appear only in
  statements, as a number of turns that suffices.
  Lines are limited by the scanner's 64 KiB, send buffers by 256 frames, keys by 64 bytes, values by
  64 KiB, the store by 64 MiB, windows by 64 panes, as in the source.

  \<^bold>\<open>Parameters.\<close> Code that is not in the repository is an argument: the clock, the entropy and the hash of
  the tokens, the YAML decoder, the compilation of a regular expression, JSON text to values, the tables of
  Unicode, external filter and formatter processes, the file system, and the network between client and
  server. What a property needs of them is a hypothesis of it.

  \<^bold>\<open>Not modelled.\<close> The delivery of signals and the shutdown deadline (\<open>net/http\<close>);
  the socket library's frames; the SQL engine; the parsing of flags, help and completion of the command
  line (cobra), and the alignment of its tables; the accessors for tests. Of the page: its
  markup and style sheet, scroll positions, the pointer (dragging a gutter, sorting a table, editing a
  title in place), and its timers. Of the book: the text of its style sheet.
\<close>

end
